(* ===== verification/LK_Prelude.thy ===== *)
theory LK_Prelude
  imports Main "HOL-Library.Multiset"
begin

text \<open>
  Shared vocabulary of the development: the sum type that every fallible operation returns,
  Go slices that may be nil, tables of rows with the SQL-shaped operations used on them, and
  stable sorting by a Go-style less function together with the order contract it needs.
\<close>

named_theorems tbl "facts on rows of a table under update, insert and delete"
named_theorems handler_defs "definitions a handler is unfolded with"

section \<open>Results\<close>

text \<open>A Go pair (value, error): \<open>Inl\<close> is a non-nil error, \<open>Inr\<close> the value.\<close>

definition bindR :: "'e + 'a \<Rightarrow> ('a \<Rightarrow> 'e + 'b) \<Rightarrow> 'e + 'b" where
  "bindR r f = (case r of Inl e \<Rightarrow> Inl e | Inr v \<Rightarrow> f v)"

definition mapErr :: "('e \<Rightarrow> 'f) \<Rightarrow> 'e + 'a \<Rightarrow> 'f + 'a" where
  "mapErr g r = (case r of Inl e \<Rightarrow> Inl (g e) | Inr v \<Rightarrow> Inr v)"

definition is_ok :: "'e + 'a \<Rightarrow> bool" where
  "is_ok r = (case r of Inl _ \<Rightarrow> False | Inr _ \<Rightarrow> True)"

lemma bindR_simps [simp]:
  "bindR (Inl e) f = Inl e"
  "bindR (Inr v) f = f v"
  by (simp_all add: bindR_def)

lemma mapErr_simps [simp]:
  "mapErr g (Inl e) = Inl (g e)"
  "mapErr g (Inr v) = Inr v"
  by (simp_all add: mapErr_def)

lemma is_ok_simps [simp]:
  "\<not> is_ok (Inl e)"
  "is_ok (Inr v)"
  by (simp_all add: is_ok_def)

text \<open>A concrete result: the value is compared, not the sum, so that errors need no equations.\<close>

lemma by_value: "(case x of Inl _ \<Rightarrow> False | Inr y \<Rightarrow> y = v) \<Longrightarrow> x = Inr v"
  by (auto split: sum.splits)

lemma bindR_eq_Inr [simp]: "bindR r f = Inr w \<longleftrightarrow> (\<exists>v. r = Inr v \<and> f v = Inr w)"
  by (cases r) auto

lemma bindR_eq_Inl: "bindR r f = Inl e \<longleftrightarrow> r = Inl e \<or> (\<exists>v. r = Inr v \<and> f v = Inl e)"
  by (cases r) auto

section \<open>Slices that may be nil\<close>

definition slice_list :: "'a list option \<Rightarrow> 'a list" where
  "slice_list s = (case s of None \<Rightarrow> [] | Some xs \<Rightarrow> xs)"

text \<open>\<open>append([]T(nil), xs...)\<close>: the copy of an empty slice is nil.\<close>

definition copy_slice :: "'a list \<Rightarrow> 'a list option" where
  "copy_slice xs = (if xs = [] then None else Some xs)"

lemma slice_list_simps [simp]: "slice_list None = []" "slice_list (Some xs) = xs"
  by (simp_all add: slice_list_def)

lemma slice_list_copy [simp]: "slice_list (copy_slice xs) = xs"
  by (simp add: copy_slice_def)

section \<open>Tables\<close>

definition update_where :: "('r \<Rightarrow> bool) \<Rightarrow> ('r \<Rightarrow> 'r) \<Rightarrow> 'r list \<Rightarrow> 'r list" where
  "update_where P f rs = map (\<lambda>r. if P r then f r else r) rs"

definition count_where :: "('r \<Rightarrow> bool) \<Rightarrow> 'r list \<Rightarrow> nat" where
  "count_where P rs = length (filter P rs)"

definition delete_where :: "('r \<Rightarrow> bool) \<Rightarrow> 'r list \<Rightarrow> 'r list" where
  "delete_where P rs = filter (\<lambda>r. \<not> P r) rs"

lemma update_where_simps [simp]:
  "update_where P f [] = []"
  "update_where P f (r # rs) = (if P r then f r else r) # update_where P f rs"
  by (simp_all add: update_where_def)

lemma update_where_append [simp]: "update_where P f (xs @ ys) = update_where P f xs @ update_where P f ys"
  by (simp add: update_where_def)

lemma count_where_simps [simp]:
  "count_where P [] = 0"
  "count_where P (r # rs) = (if P r then Suc (count_where P rs) else count_where P rs)"
  by (simp_all add: count_where_def)

lemma count_where_append [simp]: "count_where P (xs @ ys) = count_where P xs + count_where P ys"
  by (simp add: count_where_def)

lemma length_update_where [simp]: "length (update_where P f rs) = length rs"
  by (simp add: update_where_def)

lemma set_update_where: "set (update_where P f rs) = (\<lambda>r. if P r then f r else r) ` set rs"
  by (simp add: update_where_def)

lemma update_where_twice:
  "(\<And>r. P r \<Longrightarrow> P (g r)) \<Longrightarrow>
   update_where Q f (update_where P g rs) =
   map (\<lambda>r. if P r then (if Q (g r) then f (g r) else g r) else if Q r then f r else r) rs"
  by (induction rs) auto

lemma map_as_update: "(\<And>r. \<not> P r \<Longrightarrow> h r = r) \<Longrightarrow> map h rs = update_where P h rs"
  by (induction rs) auto

lemma set_delete_where [simp]: "set (delete_where P rs) = {r \<in> set rs. \<not> P r}"
  by (auto simp: delete_where_def)

lemma map_update_where [tbl]:
  "(\<And>r. P r \<Longrightarrow> g (f r) = g r) \<Longrightarrow> map g (update_where P f rs) = map g rs"
  by (induction rs) auto

lemma count_update_where [tbl]:
  "(\<And>r. P r \<Longrightarrow> Q (f r) = Q r) \<Longrightarrow> count_where Q (update_where P f rs) = count_where Q rs"
  by (induction rs) auto

lemma count_update_where_le:
  "(\<And>r. P r \<Longrightarrow> Q (f r) \<Longrightarrow> Q r) \<Longrightarrow> count_where Q (update_where P f rs) \<le> count_where Q rs"
  by (induction rs) (auto intro: le_SucI)

lemma count_where_zero [simp]: "count_where P rs = 0 \<longleftrightarrow> (\<forall>r \<in> set rs. \<not> P r)"
  by (simp add: count_where_def filter_empty_conv)

lemma count_where_le_length: "count_where P rs \<le> length rs"
  by (simp add: count_where_def)

lemma count_where_mono: "(\<And>r. P r \<Longrightarrow> Q r) \<Longrightarrow> count_where P rs \<le> count_where Q rs"
  by (induction rs) (auto intro: le_SucI)

lemma find_update_where [tbl]:
  "(\<And>r. Q (if P r then f r else r) = Q r) \<Longrightarrow>
   find Q (update_where P f rs) = map_option (\<lambda>r. if P r then f r else r) (find Q rs)"
  by (induction rs) auto

lemma find_append: "find P (xs @ ys) = (case find P xs of None \<Rightarrow> find P ys | Some x \<Rightarrow> Some x)"
  by (induction xs) auto

lemma find_SomeD: "find P xs = Some x \<Longrightarrow> x \<in> set xs \<and> P x"
  by (induction xs) (auto split: if_splits)

lemma find_NoneD: "find P xs = None \<Longrightarrow> y \<in> set xs \<Longrightarrow> \<not> P y"
  by (induction xs) (auto split: if_splits)

lemma find_exists: "\<exists>x \<in> set xs. P x \<Longrightarrow> \<exists>x. find P xs = Some x \<and> x \<in> set xs \<and> P x"
  by (induction xs) auto

lemma find_none: "find P xs = None \<longleftrightarrow> (\<forall>x \<in> set xs. \<not> P x)"
  by (induction xs) auto

text \<open>A key column: rows are determined by it, and a lookup finds the row that holds it.\<close>

lemma distinct_key_eq:
  "distinct (map k rs) \<Longrightarrow> r \<in> set rs \<Longrightarrow> s \<in> set rs \<Longrightarrow> k r = k s \<Longrightarrow> r = s"
  by (auto simp: distinct_map inj_on_def)

lemma find_key_Some:
  "distinct (map k rs) \<Longrightarrow> r \<in> set rs \<Longrightarrow> find (\<lambda>s. k s = k r) rs = Some r"
  by (induction rs) force+

lemma count_key_le_1: "distinct (map k rs) \<Longrightarrow> count_where (\<lambda>r. k r = x) rs \<le> 1"
  by (induction rs) (auto simp: image_iff)

lemma count_update_one:
  assumes "distinct (map k rs)" and "r \<in> set rs" and "k r = x"
    and "\<not> Q r" and "Q (f r)"
  shows "count_where Q (update_where (\<lambda>s. k s = x) f rs) = Suc (count_where Q rs)"
  using assms
proof (induction rs)
  case (Cons a rs)
  show ?case
  proof (cases "a = r")
    case True
    with Cons.prems have "x \<notin> k ` set rs" by auto
    then have "update_where (\<lambda>s. k s = x) f rs = rs"
      by (induction rs) auto
    with True Cons.prems show ?thesis by simp
  next
    case False
    with Cons show ?thesis by force
  qed
qed simp

lemma update_where_absent: "x \<notin> k ` set rs \<Longrightarrow> update_where (\<lambda>s. k s = x) f rs = rs"
  by (induction rs) auto

lemma count_update_lost:
  assumes "distinct (map k rs)" and "r \<in> set rs" and "k r = x"
    and "Q r" and "\<not> Q (f r)"
  shows "Suc (count_where Q (update_where (\<lambda>s. k s = x) f rs)) = count_where Q rs"
  using assms
proof (induction rs)
  case (Cons a rs)
  show ?case
  proof (cases "a = r")
    case True
    with Cons.prems have "x \<notin> k ` set rs" by auto
    then have "update_where (\<lambda>s. k s = x) f rs = rs" by (rule update_where_absent)
    with True Cons.prems show ?thesis by simp
  next
    case False
    with Cons show ?thesis by force
  qed
qed simp

lemma update_where_key_cong:
  assumes "distinct (map k rs)" and "r \<in> set rs" and "k r = x" and "P r"
  shows "update_where (\<lambda>s. k s = x \<and> P s) f rs = update_where (\<lambda>s. k s = x) f rs"
proof -
  have "s = r" if "s \<in> set rs" "k s = x" for s
    using distinct_key_eq [OF assms(1) that(1) assms(2)] that(2) assms(3) by simp
  then have "(k s = x \<and> P s) = (k s = x)" if "s \<in> set rs" for s
    using that assms(4) by blast
  then show ?thesis
    unfolding update_where_def by (intro map_cong [OF refl]) simp
qed

section \<open>Stable sorting\<close>

fun insert_by :: "('a \<Rightarrow> 'a \<Rightarrow> bool) \<Rightarrow> 'a \<Rightarrow> 'a list \<Rightarrow> 'a list" where
  "insert_by lt x [] = [x]"
| "insert_by lt x (y # ys) = (if lt y x then y # insert_by lt x ys else x # y # ys)"

definition sort_stable :: "('a \<Rightarrow> 'a \<Rightarrow> bool) \<Rightarrow> 'a list \<Rightarrow> 'a list" where
  "sort_stable lt xs = foldr (insert_by lt) xs []"

lemma mset_insert_by [simp]: "mset (insert_by lt x xs) = add_mset x (mset xs)"
  by (induction xs) auto

lemma mset_sort_stable [simp]: "mset (sort_stable lt xs) = mset xs"
  by (induction xs) (auto simp: sort_stable_def)

lemma set_insert_by [simp]: "set (insert_by lt x xs) = insert x (set xs)"
  by (induction xs) auto

lemma set_sort_stable [simp]: "set (sort_stable lt xs) = set xs"
  by (metis mset_sort_stable set_mset_mset)

lemma length_sort_stable [simp]: "length (sort_stable lt xs) = length xs"
  by (metis mset_sort_stable size_mset)

lemma sort_stable_simps:
  "sort_stable lt [] = []"
  "sort_stable lt (x # xs) = insert_by lt x (sort_stable lt xs)"
  by (simp_all add: sort_stable_def)

lemma distinct_map_sort_stable [simp]: "distinct (map k (sort_stable lt xs)) = distinct (map k xs)"
proof -
  have "mset (map k (sort_stable lt xs)) = mset (map k xs)"
    by (simp add: mset_map)
  then show ?thesis by (rule mset_eq_imp_distinct_iff)
qed

text \<open>
  The contract a less function of \<^verbatim>\<open>sort.SliceStable\<close> has to meet: a strict weak order.
  Everything a caller relies on is proved once here.
\<close>

locale weak_less =
  fixes lt :: "'a \<Rightarrow> 'a \<Rightarrow> bool"
  assumes less_asym: "lt x y \<Longrightarrow> \<not> lt y x"
    and less_negtrans: "lt x z \<Longrightarrow> lt x y \<or> lt y z"
begin

lemma less_irrefl: "\<not> lt x x"
  by (metis less_asym)

lemma less_trans: "lt x y \<Longrightarrow> lt y z \<Longrightarrow> lt x z"
  by (metis less_asym less_negtrans)

lemma leq_trans: "\<not> lt y x \<Longrightarrow> \<not> lt z y \<Longrightarrow> \<not> lt z x"
  by (metis less_negtrans)

lemma sorted_insert:
  "sorted_wrt (\<lambda>a b. \<not> lt b a) xs \<Longrightarrow> sorted_wrt (\<lambda>a b. \<not> lt b a) (insert_by lt x xs)"
proof (induction xs)
  case (Cons y ys)
  show ?case
  proof (cases "lt y x")
    case True
    with Cons less_asym [OF True] show ?thesis by simp
  next
    case False
    with Cons.prems have "\<forall>z \<in> set ys. \<not> lt z x"
      using leq_trans [OF False] by simp
    with False Cons.prems show ?thesis by simp
  qed
qed simp

lemma sorted: "sorted_wrt (\<lambda>a b. \<not> lt b a) (sort_stable lt xs)"
  by (induction xs) (auto simp: sort_stable_simps intro: sorted_insert)

lemma stable_insert:
  assumes "\<And>a b. P a \<Longrightarrow> P b \<Longrightarrow> \<not> lt a b"
  shows "filter P (insert_by lt x xs) = (if P x then x # filter P xs else filter P xs)"
proof (induction xs)
  case (Cons y ys)
  show ?case
  proof (cases "lt y x")
    case True
    then have "\<not> (P x \<and> P y)" using assms by blast
    with True Cons.IH show ?thesis by simp
  qed simp
qed simp

text \<open>Stability: rows that no two of which are ordered keep their relative order.\<close>

lemma stable:
  assumes "\<And>a b. P a \<Longrightarrow> P b \<Longrightarrow> \<not> lt a b"
  shows "filter P (sort_stable lt xs) = filter P xs"
  by (induction xs) (simp_all add: sort_stable_simps stable_insert [of P, OF assms])

end

text \<open>A total order on a set of rows leaves one possible result.\<close>

lemma sorted_wrt_unique:
  assumes "\<And>x y. x \<in> set xs \<Longrightarrow> y \<in> set xs \<Longrightarrow> x \<noteq> y \<Longrightarrow> R x y \<Longrightarrow> \<not> R y x"
    and "mset xs = mset ys" and "sorted_wrt R xs" and "sorted_wrt R ys"
  shows "xs = ys"
  using assms
proof (induction xs arbitrary: ys)
  case Nil
  then show ?case by simp
next
  case (Cons x xs)
  from Cons.prems(2) obtain y zs where ys: "ys = y # zs"
    by (cases ys) simp_all
  have "x = y"
  proof (rule ccontr)
    assume ne: "x \<noteq> y"
    from Cons.prems(2) ys have "set (x # xs) = set (y # zs)"
      by (metis set_mset_mset)
    with ne have in_zs: "x \<in> set zs" and in_xs: "y \<in> set xs" by auto
    from in_xs Cons.prems(3) have "R x y" by simp
    moreover from in_zs Cons.prems(4) ys have "R y x" by simp
    moreover from in_xs have "y \<in> set (x # xs)" by simp
    ultimately show False using Cons.prems(1) [of x y] ne by simp
  qed
  with Cons.prems(2-4) ys have eq: "mset xs = mset zs" "sorted_wrt R xs" "sorted_wrt R zs"
    by simp_all
  have "\<And>a b. a \<in> set xs \<Longrightarrow> b \<in> set xs \<Longrightarrow> a \<noteq> b \<Longrightarrow> R a b \<Longrightarrow> \<not> R b a"
    using Cons.prems(1) by simp
  then have "xs = zs" using eq by (rule Cons.IH)
  with \<open>x = y\<close> ys show ?case by simp
qed

end
