(* ===== verification/Go_Strings.thy ===== *)
theory Go_Strings
  imports LK_Prelude "HOL-Library.Char_ord" "HOL-Library.List_Lexorder"
begin

text \<open>
  What the program uses of Go's \<^verbatim>\<open>strings\<close> and \<^verbatim>\<open>bytes\<close> packages. A Go string is a sequence of
  bytes, so a string is a \<open>char list\<close> whose characters are bytes; text outside ASCII is its
  UTF-8 encoding. \<open>trim_space\<close> removes exactly the runes with the Unicode White\_Space property
  that \<^verbatim>\<open>strings.TrimSpace\<close> removes. Case mapping is the ASCII mapping plus the runes outside ASCII
  that map into ASCII; all other runes are left alone.
\<close>

section \<open>Trimming\<close>

definition space_runes :: "string list" where
  "space_runes =
     [[CHR 0x20], [CHR 0x09], [CHR 0x0A], [CHR 0x0B], [CHR 0x0C], [CHR 0x0D],
      [CHR 0xC2, CHR 0x85], [CHR 0xC2, CHR 0xA0], [CHR 0xE1, CHR 0x9A, CHR 0x80],
      [CHR 0xE2, CHR 0x80, CHR 0x80], [CHR 0xE2, CHR 0x80, CHR 0x81],
      [CHR 0xE2, CHR 0x80, CHR 0x82], [CHR 0xE2, CHR 0x80, CHR 0x83],
      [CHR 0xE2, CHR 0x80, CHR 0x84], [CHR 0xE2, CHR 0x80, CHR 0x85],
      [CHR 0xE2, CHR 0x80, CHR 0x86], [CHR 0xE2, CHR 0x80, CHR 0x87],
      [CHR 0xE2, CHR 0x80, CHR 0x88], [CHR 0xE2, CHR 0x80, CHR 0x89],
      [CHR 0xE2, CHR 0x80, CHR 0x8A], [CHR 0xE2, CHR 0x80, CHR 0xA8],
      [CHR 0xE2, CHR 0x80, CHR 0xA9], [CHR 0xE2, CHR 0x80, CHR 0xAF],
      [CHR 0xE2, CHR 0x81, CHR 0x9F], [CHR 0xE3, CHR 0x80, CHR 0x80]]"

definition has_prefix :: "string \<Rightarrow> string \<Rightarrow> bool" where
  "has_prefix s p = (take (length p) s = p)"

definition has_suffix :: "string \<Rightarrow> string \<Rightarrow> bool" where
  "has_suffix s p = has_prefix (rev s) (rev p)"

definition trim_suffix :: "string \<Rightarrow> string \<Rightarrow> string" where
  "trim_suffix s p = (if has_suffix s p then take (length s - length p) s else s)"

definition trim_prefix :: "string \<Rightarrow> string \<Rightarrow> string" where
  "trim_prefix s p = (if has_prefix s p then drop (length p) s else s)"

lemma has_prefix_append: "has_prefix s p \<longleftrightarrow> (\<exists>r. s = p @ r)"
  by (metis append_eq_conv_conj append_take_drop_id has_prefix_def)

lemma has_suffix_append: "has_suffix s p \<longleftrightarrow> (\<exists>r. s = r @ p)"
  unfolding has_suffix_def has_prefix_append
  by (metis rev_append rev_rev_ident)

text \<open>Drop leading code words of a list until none is left.\<close>

function drop_runes :: "string list \<Rightarrow> string \<Rightarrow> string" where
  "drop_runes ws s =
     (case find (\<lambda>p. p \<noteq> [] \<and> has_prefix s p) ws of
        None \<Rightarrow> s
      | Some p \<Rightarrow> drop_runes ws (drop (length p) s))"
  by pat_completeness auto
termination
proof (relation "measure (\<lambda>(ws, s). length s)")
  fix ws s p
  assume "find (\<lambda>p. p \<noteq> [] \<and> has_prefix s p) ws = Some p"
  then have "p \<noteq> []" and "has_prefix s p" by (auto dest: find_SomeD)
  then have "0 < length p" and "length p \<le> length s"
    by (auto simp: has_prefix_append)
  then have "length (drop (length p) s) < length s" by (simp only: length_drop)
  then show "((ws, drop (length p) s), (ws, s)) \<in> measure (\<lambda>(ws, s). length s)" by simp
qed simp

declare drop_runes.simps [simp del]

definition trim_left :: "string \<Rightarrow> string" where
  "trim_left s = drop_runes space_runes s"

definition trim_right :: "string \<Rightarrow> string" where
  "trim_right s = rev (drop_runes (map rev space_runes) (rev s))"

definition trim_space :: "string \<Rightarrow> string" where
  "trim_space s = trim_right (trim_left s)"

text \<open>\<^verbatim>\<open>strings.TrimSpace(s) == ""\<close>, the test most handlers make.\<close>

definition blank :: "string \<Rightarrow> bool" where
  "blank s = (trim_space s = [])"

lemma drop_runes_done: "find (\<lambda>p. p \<noteq> [] \<and> has_prefix (drop_runes ws s) p) ws = None"
proof (induction ws s rule: drop_runes.induct)
  case (1 ws s)
  then show ?case
    by (cases "find (\<lambda>p. p \<noteq> [] \<and> has_prefix s p) ws") (auto simp: drop_runes.simps [of ws s])
qed

lemma drop_runes_idle:
  "find (\<lambda>p. p \<noteq> [] \<and> has_prefix s p) ws = None \<Longrightarrow> drop_runes ws s = s"
  by (simp add: drop_runes.simps)

lemma drop_runes_idem [simp]: "drop_runes ws (drop_runes ws s) = drop_runes ws s"
  by (rule drop_runes_idle) (rule drop_runes_done)

lemma drop_runes_suffix: "\<exists>r. s = r @ drop_runes ws s"
proof (induction ws s rule: drop_runes.induct)
  case (1 ws s)
  show ?case
  proof (cases "find (\<lambda>p. p \<noteq> [] \<and> has_prefix s p) ws")
    case None
    then show ?thesis by (simp add: drop_runes_idle)
  next
    case (Some p)
    with 1 obtain r where "drop (length p) s = r @ drop_runes ws (drop (length p) s)" by blast
    then have "s = (take (length p) s @ r) @ drop_runes ws s"
      using Some by (simp add: drop_runes.simps [of ws s] del: append_take_drop_id)
        (metis append_assoc append_take_drop_id)
    then show ?thesis by blast
  qed
qed

lemma drop_runes_Nil [simp]: "drop_runes ws [] = []"
  using drop_runes_suffix [of "[]" ws] by simp

lemma trim_left_no_lead:
  "find (\<lambda>p. p \<noteq> [] \<and> has_prefix s p) ws = None \<Longrightarrow> s = t @ u \<Longrightarrow>
   find (\<lambda>p. p \<noteq> [] \<and> has_prefix t p) ws = None"
  by (auto simp: find_None_iff has_prefix_append)

lemma trim_space_idem [simp]: "trim_space (trim_space s) = trim_space s"
proof -
  let ?l = "trim_left s"
  obtain r where "rev ?l = r @ drop_runes (map rev space_runes) (rev ?l)"
    using drop_runes_suffix by blast
  then have "?l = trim_right ?l @ rev r"
    by (metis rev_append rev_rev_ident trim_right_def)
  then have "find (\<lambda>p. p \<noteq> [] \<and> has_prefix (trim_right ?l) p) space_runes = None"
    using trim_left_no_lead drop_runes_done unfolding trim_left_def by blast
  then have "trim_left (trim_right ?l) = trim_right ?l"
    by (simp add: trim_left_def drop_runes_idle)
  then show ?thesis
    by (simp add: trim_space_def trim_right_def)
qed

lemma trim_space_set: "set (trim_space s) \<subseteq> set s"
proof -
  obtain a where a: "s = a @ trim_left s" using drop_runes_suffix unfolding trim_left_def by blast
  obtain b where "rev (trim_left s) = b @ drop_runes (map rev space_runes) (rev (trim_left s))"
    using drop_runes_suffix by blast
  then have "trim_left s = trim_right (trim_left s) @ rev b"
    by (metis rev_append rev_rev_ident trim_right_def)
  then have "set (trim_space s) \<subseteq> set (trim_left s)" unfolding trim_space_def by (metis Un_upper1 set_append)
  moreover have "set (trim_left s) \<subseteq> set s" using a by (metis Un_upper2 set_append)
  ultimately show ?thesis by blast
qed

lemma trim_space_Nil [simp]: "trim_space [] = []"
  by (simp add: trim_space_def trim_left_def trim_right_def)

lemma blank_Nil [simp]: "blank []"
  by (simp add: blank_def)

lemma blank_trim [simp]: "blank (trim_space s) = blank s"
  by (simp add: blank_def)

text \<open>A string of printable ASCII characters has nothing to trim.\<close>

definition graphic :: "char \<Rightarrow> bool" where
  "graphic c = ((33::nat) \<le> of_char c \<and> of_char c < (127::nat))"

lemma space_runes_ends:
  "\<forall>p \<in> set space_runes. p \<noteq> [] \<and> \<not> graphic (hd p) \<and> \<not> graphic (hd (rev p))"
  by (simp add: space_runes_def graphic_def)

lemma no_space_prefix:
  assumes "list_all graphic s" and "\<forall>p \<in> set ws. p \<noteq> [] \<and> \<not> graphic (hd p)"
  shows "find (\<lambda>p. p \<noteq> [] \<and> has_prefix s p) ws = None"
  using assms by (fastforce simp: find_None_iff has_prefix_append neq_Nil_conv)

lemma trim_space_graphic: "list_all graphic s \<Longrightarrow> trim_space s = s"
proof -
  assume s: "list_all graphic s"
  have "trim_left s = s"
    unfolding trim_left_def
    by (rule drop_runes_idle, rule no_space_prefix [OF s]) (use space_runes_ends in blast)
  moreover have "drop_runes (map rev space_runes) (rev s) = rev s"
    by (rule drop_runes_idle, rule no_space_prefix) (use s space_runes_ends in auto)
  ultimately show ?thesis by (simp add: trim_space_def trim_right_def)
qed

lemma blank_graphic: "list_all graphic s \<Longrightarrow> blank s \<longleftrightarrow> s = []"
  by (simp add: blank_def trim_space_graphic)

section \<open>Case mapping, search and splitting\<close>

definition ascii_lower :: "char \<Rightarrow> char" where
  "ascii_lower c = (if (65::nat) \<le> of_char c \<and> of_char c \<le> (90::nat) then char_of (of_char c + (32::nat)) else c)"

definition ascii_upper :: "char \<Rightarrow> char" where
  "ascii_upper c = (if (97::nat) \<le> of_char c \<and> of_char c \<le> (122::nat) then char_of (of_char c - (32::nat)) else c)"

text \<open>U+0130 lowers to \<open>i\<close> and U+212A (Kelvin) to \<open>k\<close>; U+0131 uppers to \<open>I\<close> and U+017F to \<open>S\<close>.\<close>

fun to_lower :: "string \<Rightarrow> string" where
  "to_lower [] = []"
| "to_lower (a # b # c # s) =
     (if a = CHR 0xE2 \<and> b = CHR 0x84 \<and> c = CHR 0xAA then CHR ''k'' # to_lower s
      else if a = CHR 0xC4 \<and> b = CHR 0xB0 then CHR ''i'' # to_lower (c # s)
      else ascii_lower a # to_lower (b # c # s))"
| "to_lower [a, b] =
     (if a = CHR 0xC4 \<and> b = CHR 0xB0 then [CHR ''i''] else [ascii_lower a, ascii_lower b])"
| "to_lower [a] = [ascii_lower a]"

fun to_upper :: "string \<Rightarrow> string" where
  "to_upper [] = []"
| "to_upper (a # b # s) =
     (if a = CHR 0xC4 \<and> b = CHR 0xB1 then CHR ''I'' # to_upper s
      else if a = CHR 0xC5 \<and> b = CHR 0xBF then CHR ''S'' # to_upper s
      else ascii_upper a # to_upper (b # s))"
| "to_upper [a] = [ascii_upper a]"

text \<open>Simple folding: the two runes outside ASCII that fold to an ASCII letter, and ASCII case.\<close>

fun fold_case :: "string \<Rightarrow> string" where
  "fold_case [] = []"
| "fold_case (a # b # c # s) =
     (if a = CHR 0xE2 \<and> b = CHR 0x84 \<and> c = CHR 0xAA then CHR ''k'' # fold_case s
      else if a = CHR 0xC5 \<and> b = CHR 0xBF then CHR ''s'' # fold_case (c # s)
      else ascii_lower a # fold_case (b # c # s))"
| "fold_case [a, b] =
     (if a = CHR 0xC5 \<and> b = CHR 0xBF then [CHR ''s''] else [ascii_lower a, ascii_lower b])"
| "fold_case [a] = [ascii_lower a]"

definition equal_fold :: "string \<Rightarrow> string \<Rightarrow> bool" where
  "equal_fold s t = (fold_case s = fold_case t)"

fun split_on :: "char \<Rightarrow> string \<Rightarrow> string list" where
  "split_on d [] = [[]]"
| "split_on d (c # s) =
     (if c = d then [] # split_on d s
      else (case split_on d s of [] \<Rightarrow> [[c]] | w # ws \<Rightarrow> (c # w) # ws))"

fun join_with :: "string \<Rightarrow> string list \<Rightarrow> string" where
  "join_with sep [] = []"
| "join_with sep [w] = w"
| "join_with sep (w # ws) = w @ sep @ join_with sep ws"

lemma split_on_nonempty [simp]: "split_on d s \<noteq> []"
  by (induction s) (auto split: list.split)

lemma split_on_no_sep: "d \<notin> set s \<Longrightarrow> split_on d s = [s]"
  by (induction s) auto

lemma split_on_sep: "d \<in> set s \<Longrightarrow> \<exists>w v vs. split_on d s = w # v # vs"
proof (induction s)
  case (Cons c s)
  then show ?case
    by (cases "c = d"; cases "split_on d s") (auto split: list.splits)
qed simp

text \<open>The last field is what follows the last separator.\<close>

lemma last_split_on: "last (split_on d s) = rev (takeWhile (\<lambda>c. c \<noteq> d) (rev s))"
proof (induction s)
  case Nil
  show ?case by simp
next
  case (Cons c s)
  show ?case
  proof (cases "d \<in> set s")
    case True
    then obtain w v vs where w: "split_on d s = w # v # vs"
      using split_on_sep by blast
    have "takeWhile (\<lambda>c. c \<noteq> d) (rev s @ [c]) = takeWhile (\<lambda>c. c \<noteq> d) (rev s)"
      by (rule takeWhile_append1 [of d]) (use True in auto)
    with Cons w show ?thesis by simp
  next
    case False
    then have "takeWhile (\<lambda>c. c \<noteq> d) (rev s) = rev s"
      by (auto simp: takeWhile_eq_all_conv)
    moreover have "takeWhile (\<lambda>c. c \<noteq> d) (rev s @ [c]) = rev s @ takeWhile (\<lambda>c. c \<noteq> d) [c]"
      by (rule takeWhile_append2) (use False in auto)
    ultimately show ?thesis using Cons False by (simp add: split_on_no_sep)
  qed
qed

lemma split_on_piece: "w \<in> set (split_on d s) \<Longrightarrow> d \<notin> set w \<and> set w \<subseteq> set s"
proof (induction s arbitrary: w)
  case (Cons c s)
  show ?case
  proof (cases "c = d")
    case True
    with Cons show ?thesis by auto
  next
    case False
    obtain x xs where x: "split_on d s = x # xs" by (cases "split_on d s") auto
    with False Cons.prems consider "w = c # x" | "w \<in> set xs" by auto
    then show ?thesis using Cons.IH [of x] Cons.IH [of w] x False by cases auto
  qed
qed simp

lemma set_join_with: "set (join_with sep ws) \<subseteq> set sep \<union> (\<Union>w \<in> set ws. set w)"
  by (induction sep ws rule: join_with.induct) auto

end
