(* ===== verification/Go_Time.thy ===== *)
theory Go_Time
  imports LK_Prelude
begin

text \<open>
  Instants, durations and locations. An instant is a number of microseconds (the resolution of
  PostgreSQL's TIMESTAMPTZ) since 0001-01-01T00:00:00 UTC, which is Go's zero \<^verbatim>\<open>time.Time\<close>. A location
  gives the offset from UTC in force at an instant. \<open>go_date\<close> is \<^verbatim>\<open>time.Date\<close> for a civil time given
  as microseconds since day 0: it looks the offset up at the civil time read as UTC, and again at
  the instant that offset leads to.
\<close>

type_synonym time = int
type_synonym duration = int

definition second :: duration where "second = 1000000"
definition minute :: duration where "minute = 60 * second"
definition hour :: duration where "hour = 60 * minute"
definition day :: duration where "day = 24 * hour"

lemmas duration_defs = day_def hour_def minute_def second_def

definition zero_time :: time where "zero_time = 0"

definition is_zero :: "time \<Rightarrow> bool" where "is_zero t = (t = zero_time)"

text \<open>\<open>t.UnixMilli()\<close>: 1970-01-01 is 719162 days after the zero time.\<close>

definition unix_milli :: "time \<Rightarrow> int" where
  "unix_milli t = (t - 719162 * day) div 1000"

record location =
  loc_name :: string
  loc_offset :: "time \<Rightarrow> duration"

definition fixed_zone :: "string \<Rightarrow> duration \<Rightarrow> location" where
  "fixed_zone n off = \<lparr>loc_name = n, loc_offset = (\<lambda>_. off)\<rparr>"

definition local_civil :: "location \<Rightarrow> time \<Rightarrow> int" where
  "local_civil l t = t + loc_offset l t"

definition go_date :: "location \<Rightarrow> int \<Rightarrow> time" where
  "go_date l civil = civil - loc_offset l (civil - loc_offset l civil)"

lemma go_date_fixed [simp]: "go_date (fixed_zone n off) c = c - off"
  by (simp add: go_date_def fixed_zone_def)

lemma day_pos [simp]: "0 < day"
  by (simp add: duration_defs)

lemma day_floor: "day * (x div day) \<le> x" "x < day * (x div day) + day"
proof -
  have "0 \<le> x mod day" "x mod day < day" by simp_all
  moreover have "day * (x div day) + x mod day = x" by simp
  ultimately show "day * (x div day) \<le> x" "x < day * (x div day) + day" by linarith+
qed

end
