(* ===== verification/Manifest.thy ===== *)
theory Manifest
  imports Go_Strings Go_Time
begin

text \<open>
  \<^verbatim>\<open>packages/go/manifest\<close>: the lab manifest, its normalisation, validation and public projection.
  A slice or map field that Go may leave nil is an option; \<^verbatim>\<open>lab.tags\<close> is an association list with
  distinct keys. The TOML decoder (third-party) and the JSON decoder are arguments of \<open>parse\<close>.
\<close>

record lab_section =
  lab_id :: string
  lab_name :: string
  lab_tags :: "(string \<times> string) list option"

record submit_section =
  submit_files :: "string list option"
  max_size :: string

record eval_section =
  eval_image :: string
  eval_timeout :: int

record quota_section =
  quota_daily :: int
  quota_free :: "string list option"

text \<open>\<^verbatim>\<open>MetricSort\<close> is a string type with two named values; anything else is invalid.\<close>

datatype metric_sort = Asc | Desc | OtherSort string

record metric_section =
  metric_id :: string
  metric_name :: string
  metric_sort :: metric_sort
  metric_unit :: string

record board_section =
  rank_by :: string
  board_pick :: bool
  rank_all :: "bool option"

record schedule_section =
  sch_visible :: time
  sch_open :: time
  sch_close :: time

record manifest =
  m_lab :: lab_section
  m_submit :: submit_section
  m_eval :: eval_section
  m_quota :: quota_section
  m_metrics :: "metric_section list"
  m_board :: board_section
  m_schedule :: schedule_section

definition IsRankAll :: "board_section \<Rightarrow> bool" where
  "IsRankAll b = (case rank_all b of None \<Rightarrow> True | Some v \<Rightarrow> v)"

section \<open>Normalisation\<close>

definition name_metric :: "metric_section \<Rightarrow> metric_section" where
  "name_metric mt = (if metric_name mt = [] then mt\<lparr>metric_name := metric_id mt\<rparr> else mt)"

text \<open>The board step reads the metrics, the visibility default reads \<^verbatim>\<open>schedule.open\<close>.\<close>

definition normalize_manifest :: "manifest \<Rightarrow> manifest" where
  "normalize_manifest m =
     (let l = m_lab m; s = m_submit m; e = m_eval m; q = m_quota m;
          ms = map name_metric (m_metrics m); b = m_board m; sc = m_schedule m;
          l' = (if lab_tags l = None then l\<lparr>lab_tags := Some []\<rparr> else l);
          s' = (if max_size s = [] then s\<lparr>max_size := ''1MB''\<rparr> else s);
          e' = (if eval_timeout e = 0 then e\<lparr>eval_timeout := 300\<rparr> else e);
          q' = (if quota_free q = None then q\<lparr>quota_free := Some []\<rparr> else q);
          b1 = (if rank_by b = [] \<and> ms \<noteq> [] then b\<lparr>rank_by := metric_id (hd ms)\<rparr> else b);
          b2 = (if board_pick b1 \<and> rank_all b1 = None then b1\<lparr>rank_all := Some True\<rparr> else b1);
          sc' = (if is_zero (sch_visible sc) then sc\<lparr>sch_visible := sch_open sc\<rparr> else sc)
      in \<lparr>m_lab = l', m_submit = s', m_eval = e', m_quota = q', m_metrics = ms,
          m_board = b2, m_schedule = sc'\<rparr>)"

section \<open>Validation\<close>

text \<open>One constructor per message of \<^verbatim>\<open>Validate\<close>, in the order the messages are produced.\<close>

datatype problem =
    LabIdRequired
  | LabIdUnsafe
  | LabNameRequired
  | FilesRequired
  | ImageRequired
  | DailyNotPositive
  | FreeVerdictInvalid nat
  | NoMetrics
  | OpenRequired
  | CloseRequired
  | MetricIdRequired nat
  | MetricSortInvalid nat
  | DuplicateMetric string
  | RankByRequired
  | RankByUnknown string
  | OpenAfterClose
  | VisibleAfterOpen

definition id_start :: "char \<Rightarrow> bool" where
  "id_start c =
     (let n = of_char c :: nat
      in (65 \<le> n \<and> n \<le> 90) \<or> (97 \<le> n \<and> n \<le> 122) \<or> (48 \<le> n \<and> n \<le> 57))"

definition id_rest :: "char \<Rightarrow> bool" where
  "id_rest c = (id_start c \<or> c = CHR ''_'' \<or> c = CHR ''-'')"

text \<open>The regular expression \<^verbatim>\<open>^[A-Za-z0-9][A-Za-z0-9_-]*$\<close>.\<close>

definition urlSafeID :: "string \<Rightarrow> bool" where
  "urlSafeID s = (case s of [] \<Rightarrow> False | c # cs \<Rightarrow> id_start c \<and> list_all id_rest cs)"

definition free_problems :: "string list \<Rightarrow> problem list" where
  "free_problems vs =
     map (\<lambda>(i, v). FreeVerdictInvalid i)
       (filter (\<lambda>(i, v). v \<noteq> ''build_failed'' \<and> v \<noteq> ''rejected'') (enumerate 0 vs))"

text \<open>The metric loop: index, the ids seen so far, and the problems of the rest.\<close>

fun metric_problems :: "nat \<Rightarrow> string list \<Rightarrow> metric_section list \<Rightarrow> problem list \<times> string list" where
  "metric_problems i seen [] = ([], seen)"
| "metric_problems i seen (mt # ms) =
     (let p1 = (if metric_id mt = [] then [MetricIdRequired i] else []);
          p2 = (if metric_sort mt \<noteq> Asc \<and> metric_sort mt \<noteq> Desc then [MetricSortInvalid i] else []);
          p3 = (if metric_id mt \<noteq> [] \<and> metric_id mt \<in> set seen then [DuplicateMetric (metric_id mt)] else []);
          seen' = (if metric_id mt \<noteq> [] then metric_id mt # seen else seen);
          (ps, out) = metric_problems (Suc i) seen' ms
      in (p1 @ p2 @ p3 @ ps, out))"

definition problems :: "manifest \<Rightarrow> problem list" where
  "problems m =
     (let l = m_lab m; b = m_board m; sc = m_schedule m;
          (mp, seen) = metric_problems 0 [] (m_metrics m)
      in (if lab_id l = [] then [LabIdRequired]
          else if \<not> urlSafeID (lab_id l) then [LabIdUnsafe] else [])
       @ (if lab_name l = [] then [LabNameRequired] else [])
       @ (if slice_list (submit_files (m_submit m)) = [] then [FilesRequired] else [])
       @ (if eval_image (m_eval m) = [] then [ImageRequired] else [])
       @ (if quota_daily (m_quota m) \<le> 0 then [DailyNotPositive] else [])
       @ free_problems (slice_list (quota_free (m_quota m)))
       @ (if m_metrics m = [] then [NoMetrics] else [])
       @ (if is_zero (sch_open sc) then [OpenRequired] else [])
       @ (if is_zero (sch_close sc) then [CloseRequired] else [])
       @ mp
       @ (if rank_by b = [] then [RankByRequired]
          else if rank_by b \<notin> set seen then [RankByUnknown (rank_by b)] else [])
       @ (if \<not> is_zero (sch_open sc) \<and> \<not> is_zero (sch_close sc) \<and> sch_open sc > sch_close sc
          then [OpenAfterClose] else [])
       @ (if \<not> is_zero (sch_visible sc) \<and> \<not> is_zero (sch_open sc) \<and> sch_visible sc > sch_open sc
          then [VisibleAfterOpen] else []))"

text \<open>\<^verbatim>\<open>Validate\<close> returns one error that lists every problem found.\<close>

definition Validate :: "manifest \<Rightarrow> problem list + unit" where
  "Validate m = (if problems m \<noteq> [] then Inl (problems m) else Inr ())"

section \<open>Parsing and the public projection\<close>

datatype parse_error = DecodeFailed | Invalid "problem list"

definition decode_and_check :: "manifest option \<Rightarrow> parse_error + manifest" where
  "decode_and_check d =
     (case d of
        None \<Rightarrow> Inl DecodeFailed
      | Some m0 \<Rightarrow>
          (let m = normalize_manifest m0
           in case Validate m of Inl ps \<Rightarrow> Inl (Invalid ps) | Inr _ \<Rightarrow> Inr m))"

definition parse_manifest ::
  "(string \<Rightarrow> manifest option) \<Rightarrow> (string \<Rightarrow> manifest option) \<Rightarrow> string \<Rightarrow> parse_error + manifest" where
  "parse_manifest toml_decode json_decode d =
     (case trim_space d of
        c # _ \<Rightarrow> if c = CHR ''{'' then decode_and_check (json_decode d) else decode_and_check (toml_decode d)
      | [] \<Rightarrow> decode_and_check (toml_decode d))"

text \<open>\<^verbatim>\<open>PublicManifest\<close> has the fields of \<^verbatim>\<open>Manifest\<close>; the image is blanked and slices are copied.\<close>

definition Public :: "manifest \<Rightarrow> manifest" where
  "Public m =
     \<lparr>m_lab = m_lab m,
      m_submit = (m_submit m)\<lparr>submit_files :=
         (case submit_files (m_submit m) of None \<Rightarrow> None | Some fs \<Rightarrow> copy_slice fs)\<rparr>,
      m_eval = (m_eval m)\<lparr>eval_image := []\<rparr>,
      m_quota = (m_quota m)\<lparr>quota_free :=
         (case quota_free (m_quota m) of None \<Rightarrow> None | Some fs \<Rightarrow> copy_slice fs)\<rparr>,
      m_metrics = m_metrics m,
      m_board = m_board m,
      m_schedule = m_schedule m\<rparr>"

section \<open>What validation establishes\<close>

text \<open>The manifest contract, as conditions on the fields.\<close>

definition well_formed :: "manifest \<Rightarrow> bool" where
  "well_formed m \<longleftrightarrow>
     urlSafeID (lab_id (m_lab m)) \<and> lab_name (m_lab m) \<noteq> [] \<and>
     slice_list (submit_files (m_submit m)) \<noteq> [] \<and> eval_image (m_eval m) \<noteq> [] \<and>
     0 < quota_daily (m_quota m) \<and>
     set (slice_list (quota_free (m_quota m))) \<subseteq> {''build_failed'', ''rejected''} \<and>
     (\<forall>mt \<in> set (m_metrics m). metric_id mt \<noteq> [] \<and> metric_sort mt \<in> {Asc, Desc}) \<and>
     distinct (map metric_id (m_metrics m)) \<and>
     rank_by (m_board m) \<in> metric_id ` set (m_metrics m) \<and>
     \<not> is_zero (sch_open (m_schedule m)) \<and> \<not> is_zero (sch_close (m_schedule m)) \<and>
     sch_open (m_schedule m) \<le> sch_close (m_schedule m) \<and>
     (is_zero (sch_visible (m_schedule m)) \<or> sch_visible (m_schedule m) \<le> sch_open (m_schedule m))"

lemma free_problems_Nil:
  "free_problems vs = [] \<longleftrightarrow> set vs \<subseteq> {''build_failed'', ''rejected''}"
proof -
  have "(\<exists>i. (i, v) \<in> set (enumerate n vs)) \<longleftrightarrow> v \<in> set vs" for v n
    by (induction vs arbitrary: n) auto
  then show ?thesis by (fastforce simp: free_problems_def filter_empty_conv)
qed

lemma metric_problems_seen:
  "metric_problems i seen ms = (ps, out) \<Longrightarrow>
   set out = set seen \<union> (metric_id ` set ms - {[]})"
  by (induction ms arbitrary: i seen ps out) (force simp: Let_def split: prod.splits if_splits)+

lemma metric_problems_Nil:
  "metric_problems i seen ms = (ps, out) \<Longrightarrow>
   ps = [] \<longleftrightarrow>
     (\<forall>mt \<in> set ms. metric_id mt \<noteq> [] \<and> metric_sort mt \<in> {Asc, Desc}) \<and>
     distinct (map metric_id ms) \<and> metric_id ` set ms \<inter> set seen = {}"
proof (induction ms arbitrary: i seen ps out)
  case Nil
  then show ?case by simp
next
  case (Cons mt ms)
  let ?seen = "if metric_id mt \<noteq> [] then metric_id mt # seen else seen"
  obtain qs o' where q: "metric_problems (Suc i) ?seen ms = (qs, o')"
    by fastforce
  from Cons.IH [OF q] Cons.prems q show ?case
    by (auto simp: Let_def split: if_splits)
qed

lemma rank_by_seen:
  "metric_problems 0 [] ms = (ps, out) \<Longrightarrow> r \<noteq> [] \<Longrightarrow> r \<in> set out \<longleftrightarrow> r \<in> metric_id ` set ms"
  by (drule metric_problems_seen) auto

lemma urlSafeID_Nil [simp]: "\<not> urlSafeID []"
  by (simp add: urlSafeID_def)

lemma Validate_Inr: "Validate m = Inr u \<longleftrightarrow> problems m = []"
  by (simp add: Validate_def)

text \<open>C14. Validation accepts a manifest exactly when the manifest contract holds: the checks of
  Validate, written as a list of problems, are together the declarative well-formedness.\<close>

theorem Validate_iff_well_formed: "Validate m = Inr () \<longleftrightarrow> well_formed m"
proof -
  obtain mp seen where q: "metric_problems 0 [] (m_metrics m) = (mp, seen)"
    by fastforce
  have mp: "mp = [] \<longleftrightarrow> (\<forall>mt \<in> set (m_metrics m). metric_id mt \<noteq> [] \<and> metric_sort mt \<in> {Asc, Desc}) \<and>
     distinct (map metric_id (m_metrics m))"
    using metric_problems_Nil [OF q] by simp
  show ?thesis
    unfolding Validate_Inr problems_def well_formed_def Let_def q
    using mp rank_by_seen [OF q, of "rank_by (m_board m)"]
    by (auto simp: free_problems_Nil)
qed

lemma normalize_idem: "normalize_manifest (normalize_manifest m) = normalize_manifest m"
proof -
  have "name_metric (name_metric mt) = name_metric mt" for mt
    by (simp add: name_metric_def)
  moreover have "metric_id (name_metric mt) = metric_id mt" for mt
    by (simp add: name_metric_def)
  ultimately show ?thesis
    by (cases "m_metrics m") (auto simp: normalize_manifest_def Let_def comp_def)
qed

lemma decode_and_check_Inr:
  "decode_and_check d = Inr m \<longleftrightarrow> (\<exists>m0. d = Some m0 \<and> m = normalize_manifest m0 \<and> well_formed m)"
  by (auto simp: decode_and_check_def Let_def Validate_iff_well_formed [symmetric] split: option.splits sum.splits)

lemma normalize_well_formed_facts:
  assumes "well_formed (normalize_manifest m0)"
  shows "normalize_manifest (normalize_manifest m0) = normalize_manifest m0"
    and "\<not> is_zero (sch_visible (m_schedule (normalize_manifest m0)))"
    and "sch_visible (m_schedule (normalize_manifest m0)) \<le> sch_open (m_schedule (normalize_manifest m0))"
    and "board_pick (m_board (normalize_manifest m0)) \<Longrightarrow> rank_all (m_board (normalize_manifest m0)) \<noteq> None"
    and "\<forall>mt \<in> set (m_metrics (normalize_manifest m0)). metric_name mt \<noteq> []"
    and "max_size (m_submit (normalize_manifest m0)) \<noteq> []"
proof -
  show "normalize_manifest (normalize_manifest m0) = normalize_manifest m0" by (rule normalize_idem)
  have sc: "m_schedule (normalize_manifest m0) =
      (if is_zero (sch_visible (m_schedule m0))
       then (m_schedule m0)\<lparr>sch_visible := sch_open (m_schedule m0)\<rparr> else m_schedule m0)"
    by (simp add: normalize_manifest_def Let_def)
  from assms have op: "\<not> is_zero (sch_open (m_schedule (normalize_manifest m0)))"
    and vis: "is_zero (sch_visible (m_schedule (normalize_manifest m0))) \<or>
       sch_visible (m_schedule (normalize_manifest m0)) \<le> sch_open (m_schedule (normalize_manifest m0))"
    by (auto simp: well_formed_def)
  show nz: "\<not> is_zero (sch_visible (m_schedule (normalize_manifest m0)))"
    using op unfolding sc by auto
  show "sch_visible (m_schedule (normalize_manifest m0)) \<le> sch_open (m_schedule (normalize_manifest m0))"
    using vis nz by blast
  show "rank_all (m_board (normalize_manifest m0)) \<noteq> None" if "board_pick (m_board (normalize_manifest m0))"
    using that by (auto simp: normalize_manifest_def Let_def)
  have "\<forall>mt \<in> set (m_metrics (normalize_manifest m0)). metric_id mt \<noteq> []"
    using assms by (auto simp: well_formed_def)
  moreover have "m_metrics (normalize_manifest m0) = map name_metric (m_metrics m0)"
    by (simp add: normalize_manifest_def Let_def)
  moreover have "metric_id (name_metric mt) = metric_id mt" for mt
    by (simp add: name_metric_def)
  moreover have "metric_id mt \<noteq> [] \<Longrightarrow> metric_name (name_metric mt) \<noteq> []" for mt
    by (simp add: name_metric_def)
  ultimately show "\<forall>mt \<in> set (m_metrics (normalize_manifest m0)). metric_name mt \<noteq> []"
    by simp
  show "max_size (m_submit (normalize_manifest m0)) \<noteq> []"
    by (auto simp: normalize_manifest_def Let_def)
qed

lemma parse_manifest_Inr:
  "parse_manifest td jd d = Inr m \<Longrightarrow> \<exists>m0. m = normalize_manifest m0 \<and> well_formed (normalize_manifest m0)"
  by (auto simp: parse_manifest_def decode_and_check_Inr split: list.splits if_splits)

text \<open>A manifest that Parse accepts, whatever the decoders return, is well formed, fully
  defaulted (normalising it again changes nothing), ranks by a declared metric, becomes visible no
  later than it opens and closes no earlier, and has an explicit rank\_all when tracks are picked.\<close>

theorem parse_manifest_sound:
  assumes "parse_manifest toml_decode json_decode d = Inr m"
  shows "well_formed m \<and> normalize_manifest m = m \<and>
    rank_by (m_board m) \<in> metric_id ` set (m_metrics m) \<and>
    \<not> is_zero (sch_visible (m_schedule m)) \<and>
    sch_visible (m_schedule m) \<le> sch_open (m_schedule m) \<and>
    sch_open (m_schedule m) \<le> sch_close (m_schedule m) \<and>
    (board_pick (m_board m) \<longrightarrow> rank_all (m_board m) \<noteq> None) \<and>
    (\<forall>mt \<in> set (m_metrics m). metric_name mt \<noteq> []) \<and> max_size (m_submit m) \<noteq> []"
proof -
  from parse_manifest_Inr [OF assms] obtain m0 where m: "m = normalize_manifest m0" and wf: "well_formed m"
    by auto
  from wf have "rank_by (m_board m) \<in> metric_id ` set (m_metrics m)"
    and "sch_open (m_schedule m) \<le> sch_close (m_schedule m)"
    by (simp_all add: well_formed_def)
  with wf normalize_well_formed_facts [of m0] show ?thesis
    unfolding m by blast
qed

text \<open>A small manifest, used by the witnesses.\<close>

definition sample_manifest :: manifest where
  "sample_manifest =
     \<lparr>m_lab = \<lparr>lab_id = ''sorting'', lab_name = ''Sorting'', lab_tags = None\<rparr>,
      m_submit = \<lparr>submit_files = Some [''main.c'', ''README.md''], max_size = []\<rparr>,
      m_eval = \<lparr>eval_image = ''sorting:1'', eval_timeout = 0\<rparr>,
      m_quota = \<lparr>quota_daily = 1, quota_free = Some [''build_failed'']\<rparr>,
      m_metrics = [\<lparr>metric_id = ''speed'', metric_name = [], metric_sort = Desc, metric_unit = []\<rparr>,
                   \<lparr>metric_id = ''mem'', metric_name = ''Memory'', metric_sort = Asc, metric_unit = ''MB''\<rparr>],
      m_board = \<lparr>rank_by = [], board_pick = True, rank_all = None\<rparr>,
      m_schedule = \<lparr>sch_visible = 0, sch_open = 10, sch_close = 1000000000000\<rparr>\<rparr>"

lemma sample_rank_by: "rank_by (m_board (normalize_manifest sample_manifest)) = ''speed''"
  by (simp add: sample_manifest_def normalize_manifest_def name_metric_def Let_def)

theorem parse_manifest_sound_witness:
  "well_formed (normalize_manifest sample_manifest) \<and>
   rank_by (m_board (normalize_manifest sample_manifest)) = ''speed''"
proof -
  have "decode_and_check (Some sample_manifest) = Inr (normalize_manifest sample_manifest)"
    by code_simp
  then have p: "parse_manifest (\<lambda>_. None) (\<lambda>_. Some sample_manifest) ''{}'' =
      Inr (normalize_manifest sample_manifest)"
    by (simp add: parse_manifest_def trim_space_graphic list_all_iff graphic_def)
  then show ?thesis
    using parse_manifest_sound [OF p] by (simp add: sample_rank_by)
qed

end
