(* ===== verification/Go_Float.thy ===== *)
theory Go_Float
  imports Complex_Main "HOL-Library.Log_Nat"
begin

text \<open>
  Floating-point scores. A finite float64 or float32 value is the rational it stands for (the sign
  of zero is not kept: no code looks at it); float32 also has the two infinities, which the
  conversion of a large float64 produces (the same type then holds float64 results that may
  overflow). \<open>to_f32\<close> is Go's \<^verbatim>\<open>float32(x)\<close>: round to nearest, ties to
  even, 24 bits of precision, least exponent -149, overflow to infinity.
\<close>

type_synonym f64 = rat

datatype f32 = NegInf | Fin rat | PosInf

instantiation f32 :: linorder
begin

fun less_eq_f32 :: "f32 \<Rightarrow> f32 \<Rightarrow> bool" where
  "less_eq_f32 NegInf y = True"
| "less_eq_f32 (Fin a) NegInf = False"
| "less_eq_f32 (Fin a) (Fin b) = (a \<le> b)"
| "less_eq_f32 (Fin a) PosInf = True"
| "less_eq_f32 PosInf y = (y = PosInf)"

definition less_f32 :: "f32 \<Rightarrow> f32 \<Rightarrow> bool" where
  "less_f32 x y = (x \<le> y \<and> \<not> y \<le> x)"

instance
proof
  fix x y z :: f32
  show "(x < y) = (x \<le> y \<and> \<not> y \<le> x)" by (rule less_f32_def)
  show "x \<le> x" by (cases x) auto
  show "x \<le> y \<Longrightarrow> y \<le> z \<Longrightarrow> x \<le> z" by (cases x; cases y; cases z) auto
  show "x \<le> y \<Longrightarrow> y \<le> x \<Longrightarrow> x = y" by (cases x; cases y) auto
  show "x \<le> y \<or> y \<le> x" by (cases x; cases y) auto
qed

end

lemma less_f32_simps [simp]:
  "Fin a < Fin b \<longleftrightarrow> a < b"
  "NegInf < Fin b" "Fin b < PosInf" "NegInf < PosInf"
  by (auto simp: less_f32_def)

fun neg_f32 :: "f32 \<Rightarrow> f32" where
  "neg_f32 NegInf = PosInf"
| "neg_f32 (Fin a) = Fin (- a)"
| "neg_f32 PosInf = NegInf"

lemma neg_f32_less [simp]: "neg_f32 x < neg_f32 y \<longleftrightarrow> y < x"
  by (cases x; cases y) (auto simp: less_f32_def)

lemma neg_f32_inj [simp]: "neg_f32 x = neg_f32 y \<longleftrightarrow> x = y"
  by (cases x; cases y) auto

text \<open>Powers of two with integer exponents, and the exponent of a positive rational.\<close>

definition pow2 :: "int \<Rightarrow> rat" where
  "pow2 e = (if 0 \<le> e then of_int (2 ^ nat e) else 1 / of_int (2 ^ nat (- e)))"

definition flog2 :: "rat \<Rightarrow> int" where
  "flog2 x = (let (n, d) = quotient_of x; k = bitlen n - bitlen d
              in if pow2 k \<le> x then k else k - 1)"

definition round_even :: "rat \<Rightarrow> int" where
  "round_even x =
     (let f = \<lfloor>x\<rfloor>; r = x - of_int f
      in if r < 1 / 2 then f else if 1 / 2 < r then f + 1 else if even f then f else f + 1)"

text \<open>Round to \<open>p\<close> bits of precision with least exponent \<open>emin\<close>; from \<open>2 ^ emax\<close> on, to infinity.\<close>

definition round_fp :: "int \<Rightarrow> int \<Rightarrow> int \<Rightarrow> rat \<Rightarrow> f32" where
  "round_fp p emin emax x =
     (if x = 0 then Fin 0
      else (let a = \<bar>x\<bar>; e = max (flog2 a - (p - 1)) emin;
                v = of_int (round_even (a / pow2 e)) * pow2 e
            in if pow2 emax \<le> v then (if 0 < x then PosInf else NegInf)
               else Fin (if 0 < x then v else - v)))"

definition to_f32 :: "f64 \<Rightarrow> f32" where
  "to_f32 x = round_fp 24 (- 149) 128 x"

text \<open>The product of two finite float64 values.\<close>

definition mul_f64 :: "f64 \<Rightarrow> f64 \<Rightarrow> f32" where
  "mul_f64 x y = round_fp 53 (- 1074) 1024 (x * y)"

text \<open>What \<^verbatim>\<open>strconv.ParseFloat(s, 64)\<close> returns without an error: a NaN, an infinity or a finite value.\<close>

datatype parsed_float = ParsedNaN | ParsedFloat f32

lemma to_f32_examples:
  "to_f32 (1 / 10) = Fin (13421773 / 134217728)"
  "to_f32 16777217 = Fin 16777216"
  by code_simp+

end
