(* ===== verification/Evaluator.thy ===== *)
theory Evaluator
  imports Manifest Go_Float
begin

text \<open>
  \<^verbatim>\<open>packages/go/evaluator\<close>: the protocol an evaluator container speaks. Its last line of standard
  output is a JSON result; the JSON decoder is an argument. Scores are a Go map, kept as an
  association list with distinct keys; JSON numbers decode to finite float64 values, so a score is
  the rational number that the float64 stands for.
\<close>

text \<open>\<^verbatim>\<open>Verdict\<close> and \<^verbatim>\<open>DetailFormat\<close> are string types: the named values and any other string.\<close>

datatype verdict = BuildFailed | Rejected | Scored | VError | OtherVerdict string

fun verdict_text :: "verdict \<Rightarrow> string" where
  "verdict_text BuildFailed = ''build_failed''"
| "verdict_text Rejected = ''rejected''"
| "verdict_text Scored = ''scored''"
| "verdict_text VError = ''error''"
| "verdict_text (OtherVerdict s) = s"

datatype detail_format = FText | FMarkdown | OtherFormat string

record detail =
  d_format :: detail_format
  d_content :: string

record result =
  r_verdict :: verdict
  r_scores :: "(string \<times> f64) list"
  r_detail :: "detail option"
  r_message :: string

datatype eval_error =
    StdoutEmpty
  | LastLineEmpty
  | ResultJSON
  | ManifestRequired
  | VerdictRequired
  | VerdictInvalid string
  | FormatRequired
  | FormatInvalid string
  | ScoresRequired
  | MissingScore string
  | UnexpectedMetric string
  | ScoresNotAllowed

abbreviation LF :: char where "LF \<equiv> CHR 0x0A"
abbreviation CR :: char where "CR \<equiv> CHR 0x0D"

definition last_line_of :: "string \<Rightarrow> eval_error + string" where
  "last_line_of trimmed =
     (if trimmed = [] then Inl LastLineEmpty
      else (let line = trim_suffix (last (split_on LF trimmed)) [CR]
            in if line = [] then Inl LastLineEmpty else Inr line))"

definition ExtractLastLine :: "string \<Rightarrow> eval_error + string" where
  "ExtractLastLine out =
     (if out = [] then Inl StdoutEmpty
      else if last out = LF then
        (let trimmed = butlast out
         in if trimmed \<noteq> [] \<and> last trimmed = LF then Inl LastLineEmpty
            else last_line_of trimmed)
      else last_line_of out)"

fun validateVerdict :: "verdict \<Rightarrow> eval_error + unit" where
  "validateVerdict BuildFailed = Inr ()"
| "validateVerdict Rejected = Inr ()"
| "validateVerdict Scored = Inr ()"
| "validateVerdict VError = Inr ()"
| "validateVerdict (OtherVerdict s) = (if s = [] then Inl VerdictRequired else Inl (VerdictInvalid s))"

definition validateDetail :: "detail option \<Rightarrow> eval_error + unit" where
  "validateDetail d =
     (case d of
        None \<Rightarrow> Inr ()
      | Some dt \<Rightarrow>
          (case d_format dt of
             FText \<Rightarrow> Inr ()
           | FMarkdown \<Rightarrow> Inr ()
           | OtherFormat s \<Rightarrow> if s = [] then Inl FormatRequired else Inl (FormatInvalid s)))"

text \<open>The two loops of \<^verbatim>\<open>ValidateScores\<close>: every declared metric has a score, every score is declared.\<close>

fun check_declared :: "metric_section list \<Rightarrow> (string \<times> f64) list \<Rightarrow> eval_error + unit" where
  "check_declared [] sc = Inr ()"
| "check_declared (mt # ms) sc =
     (if map_of sc (metric_id mt) = None then Inl (MissingScore (metric_id mt)) else check_declared ms sc)"

fun check_keys :: "string list \<Rightarrow> (string \<times> f64) list \<Rightarrow> eval_error + unit" where
  "check_keys declared [] = Inr ()"
| "check_keys declared ((k, v) # sc) =
     (if k \<notin> set declared then Inl (UnexpectedMetric k) else check_keys declared sc)"

definition ValidateScores :: "manifest option \<Rightarrow> (string \<times> f64) list \<Rightarrow> eval_error + unit" where
  "ValidateScores mo sc =
     (case mo of
        None \<Rightarrow> Inl ManifestRequired
      | Some m \<Rightarrow>
          (if sc = [] then Inl ScoresRequired
           else bindR (check_declared (m_metrics m) sc)
                  (\<lambda>_. check_keys (map metric_id (m_metrics m)) sc)))"

definition ValidateResult :: "manifest option \<Rightarrow> result \<Rightarrow> eval_error + unit" where
  "ValidateResult mo r =
     (if mo = None then Inl ManifestRequired
      else bindR (validateVerdict (r_verdict r)) (\<lambda>_.
           bindR (validateDetail (r_detail r)) (\<lambda>_.
             if r_verdict r = Scored then ValidateScores mo (r_scores r)
             else if r_scores r \<noteq> [] then Inl ScoresNotAllowed
             else Inr ())))"

definition ParseResult ::
  "(string \<Rightarrow> result option) \<Rightarrow> manifest option \<Rightarrow> string \<Rightarrow> eval_error + result" where
  "ParseResult json_decode mo out =
     bindR (ExtractLastLine out) (\<lambda>line.
       (case json_decode line of
          None \<Rightarrow> Inl ResultJSON
        | Some r \<Rightarrow> bindR (ValidateResult mo r) (\<lambda>_. Inr r)))"

section \<open>The last line\<close>

lemma last_split_on_line:
  "LF \<notin> set line \<Longrightarrow> pre = [] \<or> last pre = LF \<Longrightarrow> last (split_on LF (pre @ line)) = line"
proof -
  assume line: "LF \<notin> set line" and pre: "pre = [] \<or> last pre = LF"
  have a: "takeWhile (\<lambda>c. c \<noteq> LF) (rev line @ rev pre) = rev line @ takeWhile (\<lambda>c. c \<noteq> LF) (rev pre)"
    by (rule takeWhile_append2) (use line in auto)
  have b: "takeWhile (\<lambda>c. c \<noteq> LF) (rev pre) = []"
    using pre by (cases pre rule: rev_cases) auto
  show ?thesis by (simp only: last_split_on rev_append a b append_Nil2 rev_rev_ident)
qed

lemma trim_suffix_id: "last s \<noteq> c \<Longrightarrow> trim_suffix s [c] = s"
  by (cases s rule: rev_cases) (auto simp: trim_suffix_def has_suffix_append)

lemma trim_suffix_snoc [simp]: "trim_suffix (s @ [c]) [c] = s"
  by (auto simp: trim_suffix_def has_suffix_append)

lemma last_line_of_line:
  assumes "line \<noteq> []" "LF \<notin> set line" "last line \<noteq> CR" "pre = [] \<or> last pre = LF"
    and "cr = [] \<or> cr = [CR]"
  shows "last_line_of (pre @ line @ cr) = Inr line"
proof -
  have "LF \<notin> set (line @ cr)" using assms by auto
  then have l: "last (split_on LF (pre @ line @ cr)) = line @ cr"
    using assms(4) by (rule last_split_on_line)
  have "trim_suffix (line @ cr) [CR] = line"
    using assms(3,5) by (auto simp: trim_suffix_id)
  with l assms(1) show ?thesis by (simp add: last_line_of_def Let_def)
qed

lemma last_line_of_Inr:
  assumes "last_line_of t = Inr line"
  shows "line \<noteq> [] \<and> LF \<notin> set line \<and>
    (\<exists>pre cr. t = pre @ line @ cr \<and> (pre = [] \<or> last pre = LF) \<and> (cr = [] \<or> cr = [CR]))"
proof -
  define w where "w = last (split_on LF t)"
  from assms have line: "line = trim_suffix w [CR]" "line \<noteq> []"
    by (auto simp: last_line_of_def Let_def w_def split: if_splits)
  have w: "w = rev (takeWhile (\<lambda>c. c \<noteq> LF) (rev t))"
    by (simp add: w_def last_split_on)
  then have no: "LF \<notin> set w" by (auto dest: set_takeWhileD)
  define pre where "pre = rev (dropWhile (\<lambda>c. c \<noteq> LF) (rev t))"
  have t: "t = pre @ w"
    unfolding pre_def w by (metis rev_append rev_rev_ident takeWhile_dropWhile_id)
  have pre: "pre = [] \<or> last pre = LF"
    unfolding pre_def using hd_dropWhile [of "\<lambda>c. c \<noteq> LF" "rev t"] by (auto simp: last_rev)
  obtain cr where cr: "w = line @ cr" "cr = [] \<or> cr = [CR]"
    using line(1) by (auto simp: trim_suffix_def has_suffix_append split: if_splits)
  with t have "t = pre @ line @ cr" by simp
  moreover from no cr have "LF \<notin> set line" by auto
  ultimately show ?thesis using pre cr(2) line(2) by blast
qed

text \<open>ExtractLastLine returns exactly the last line of the output: a result is a non-empty
  line without a line feed that ends the output up to one carriage return and one line feed; and
  every such output, whose line does not itself end in a carriage return, gives that line.\<close>

theorem ExtractLastLine_correct:
  "(\<forall>line. ExtractLastLine out = Inr line \<longrightarrow>
      line \<noteq> [] \<and> LF \<notin> set line \<and>
      (\<exists>pre cr lf. out = pre @ line @ cr @ lf \<and> (pre = [] \<or> last pre = LF) \<and>
         (cr = [] \<or> cr = [CR]) \<and> (lf = [] \<or> lf = [LF]))) \<and>
   (\<forall>pre line cr lf. out = pre @ line @ cr @ lf \<longrightarrow> line \<noteq> [] \<longrightarrow> LF \<notin> set line \<longrightarrow>
      last line \<noteq> CR \<longrightarrow> (pre = [] \<or> last pre = LF) \<longrightarrow> (cr = [] \<or> cr = [CR]) \<longrightarrow>
      (lf = [] \<or> lf = [LF]) \<longrightarrow> ExtractLastLine out = Inr line)"
proof (intro conjI allI impI)
  fix line assume ok: "ExtractLastLine out = Inr line"
  define lf where "lf = (if last out = LF then [LF] else [])"
  define t where "t = (if last out = LF then butlast out else out)"
  from ok have ne: "out \<noteq> []" and t: "last_line_of t = Inr line"
    by (auto simp: ExtractLastLine_def Let_def t_def split: if_splits)
  have out: "out = t @ lf"
    using ne by (auto simp: t_def lf_def) (metis append_butlast_last_id)
  have "lf = [] \<or> lf = [LF]" by (simp add: lf_def)
  with last_line_of_Inr [OF t] out
  show "line \<noteq> []" "LF \<notin> set line"
    "\<exists>pre cr lf. out = pre @ line @ cr @ lf \<and> (pre = [] \<or> last pre = LF) \<and>
         (cr = [] \<or> cr = [CR]) \<and> (lf = [] \<or> lf = [LF])"
    by (simp, simp, metis append_assoc)
next
  fix pre line cr lf
  assume out: "out = pre @ line @ cr @ lf" and line: "line \<noteq> []" "LF \<notin> set line" "last line \<noteq> CR"
    and pre: "pre = [] \<or> last pre = LF" and cr: "cr = [] \<or> cr = [CR]" and lf: "lf = [] \<or> lf = [LF]"
  let ?t = "pre @ line @ cr"
  have t: "last_line_of ?t = Inr line" by (rule last_line_of_line) fact+
  have "last (line @ cr) \<in> set (line @ cr)"
    by (rule last_in_set) (use line in simp)
  then have nl: "last ?t \<noteq> LF" "?t \<noteq> []"
    using line cr by (auto split: if_splits)
  from lf show "ExtractLastLine out = Inr line"
    using t nl out by (auto simp: ExtractLastLine_def Let_def butlast_append)
qed

theorem ExtractLastLine_correct_witness:
  "ExtractLastLine (''log'' @ [LF] @ ''{}'' @ [CR] @ [LF]) = Inr ''{}''"
proof -
  note last_line = conjunct2 [OF ExtractLastLine_correct, rule_format]
  show ?thesis
    by (rule last_line [of _ "''log'' @ [LF]" "''{}''" "[CR]" "[LF]"]) simp_all
qed

section \<open>Validation of a result\<close>

lemma check_declared_ok:
  "check_declared ms sc = Inr u \<longleftrightarrow> (\<forall>mt \<in> set ms. metric_id mt \<in> fst ` set sc)"
  by (induction ms) (auto simp: map_of_eq_None_iff split: if_splits)

lemma check_keys_ok: "check_keys ids sc = Inr u \<longleftrightarrow> fst ` set sc \<subseteq> set ids"
  by (induction ids sc rule: check_keys.induct) auto

lemma ValidateScores_ok:
  "ValidateScores (Some m) sc = Inr u \<longleftrightarrow>
   sc \<noteq> [] \<and> fst ` set sc = metric_id ` set (m_metrics m)"
  by (auto simp: ValidateScores_def check_declared_ok check_keys_ok)

lemma validateVerdict_ok: "validateVerdict v = Inr u \<longleftrightarrow> v \<in> {BuildFailed, Rejected, Scored, VError}"
  by (cases v) auto

lemma validateDetail_ok:
  "validateDetail d = Inr u \<longleftrightarrow> (\<forall>dt. d = Some dt \<longrightarrow> d_format dt \<in> {FText, FMarkdown})"
  by (auto simp: validateDetail_def split: option.splits detail_format.splits)

text \<open>C15. A result passes validation exactly when its verdict is one of the four, its detail (if
  any) has a known format, and it carries scores precisely for the declared metrics when it is
  scored and no scores otherwise.\<close>

theorem ValidateResult_iff:
  "ValidateResult (Some m) r = Inr () \<longleftrightarrow>
     r_verdict r \<in> {BuildFailed, Rejected, Scored, VError} \<and>
     (case r_detail r of None \<Rightarrow> True | Some dt \<Rightarrow> d_format dt \<in> {FText, FMarkdown}) \<and>
     (if r_verdict r = Scored
      then r_scores r \<noteq> [] \<and> fst ` set (r_scores r) = metric_id ` set (m_metrics m)
      else r_scores r = [])"
proof -
  have "validateDetail (r_detail r) = Inr () \<longleftrightarrow>
      (case r_detail r of None \<Rightarrow> True | Some dt \<Rightarrow> d_format dt \<in> {FText, FMarkdown})"
    by (auto simp: validateDetail_ok split: option.splits)
  then show ?thesis
    by (auto simp: ValidateResult_def validateVerdict_ok ValidateScores_ok)
qed

lemma ValidateResult_verdict:
  "ValidateResult mo r = Inr u \<Longrightarrow>
   r_verdict r \<in> {BuildFailed, Rejected, Scored, VError} \<and> (r_verdict r \<noteq> Scored \<longrightarrow> r_scores r = [])"
  by (simp add: ValidateResult_def validateVerdict_ok split: if_splits)

lemma ParseResult_Inr:
  "ParseResult jd mo out = Inr r \<longleftrightarrow>
   (\<exists>line. ExtractLastLine out = Inr line \<and> jd line = Some r \<and> ValidateResult mo r = Inr ())"
  by (auto simp: ParseResult_def split: option.splits)

end
