(* ===== verification/Go_Json.thy ===== *)
theory Go_Json
  imports Go_Strings
begin

text \<open>
  What \<^verbatim>\<open>encoding/json\<close> and \<^verbatim>\<open>strconv\<close> do with strings and integers when the program marshals a value:
  the string escaper with HTML escaping on, and decimal notation. The main fact is that quoted
  ASCII strings can be read back unambiguously, whatever follows them.
\<close>

section \<open>Decimal notation\<close>

definition digit :: "nat \<Rightarrow> char" where
  "digit d = char_of (48 + d)"

fun nat_text :: "nat \<Rightarrow> string" where
  "nat_text n = (if n < 10 then [digit n] else nat_text (n div 10) @ [digit (n mod 10)])"

declare nat_text.simps [simp del]

definition int_text :: "int \<Rightarrow> string" where
  "int_text i = (if i < 0 then CHR ''-'' # nat_text (nat (- i)) else nat_text (nat i))"

text \<open>\<^verbatim>\<open>strconv.Atoi\<close>, and \<^verbatim>\<open>ParseInt\<close> in base 10 with 64 bits.\<close>

definition is_digit :: "char \<Rightarrow> bool" where
  "is_digit c \<longleftrightarrow> (48 :: nat) \<le> of_char c \<and> (of_char c :: nat) \<le> 57"

definition digits_value :: "string \<Rightarrow> int" where
  "digits_value s = fold (\<lambda>c v. 10 * v + (int (of_char c) - 48)) s 0"

definition go_atoi :: "string \<Rightarrow> int option" where
  "go_atoi s =
     (let neg = has_prefix s ''-''; body = (if neg \<or> has_prefix s ''+'' then drop 1 s else s);
          v = (if neg then - digits_value body else digits_value body)
      in if body \<noteq> [] \<and> list_all is_digit body \<and> - 9223372036854775808 \<le> v \<and> v \<le> 9223372036854775807
         then Some v else None)"

definition undigits :: "string \<Rightarrow> nat" where
  "undigits s = foldl (\<lambda>a c. 10 * a + (of_char c - 48)) 0 s"

lemma of_char_digit [simp]: "d < 10 \<Longrightarrow> of_char (digit d) = 48 + d"
  by (simp add: digit_def)

lemma undigits_nat_text [simp]: "undigits (nat_text n) = n"
proof (induction n rule: nat_text.induct)
  case (1 n)
  then show ?case
    by (cases "n < 10") (simp_all add: nat_text.simps [of n] undigits_def)
qed

lemma nat_text_digits: "c \<in> set (nat_text n) \<Longrightarrow> \<exists>d < 10. c = digit d"
proof (induction n rule: nat_text.induct)
  case (1 n)
  have "\<exists>d < 10. digit (n mod 10) = digit d"
    by (rule exI [of _ "n mod 10"]) simp
  with 1 show ?case
    by (cases "n < 10") (auto simp: nat_text.simps [of n])
qed

lemma nat_text_inj [simp]: "nat_text a = nat_text b \<longleftrightarrow> a = b"
  by (metis undigits_nat_text)

lemma nat_text_Nil [simp]: "nat_text n \<noteq> []"
  by (simp add: nat_text.simps)

lemma digit_not_minus: "d < 10 \<Longrightarrow> digit d \<noteq> CHR ''-''"
proof
  assume "d < 10" and "digit d = CHR ''-''"
  then have "of_char (digit d) = (45::nat)" by simp
  with \<open>d < 10\<close> show False by simp
qed

lemma int_text_inj [simp]: "int_text a = int_text b \<longleftrightarrow> a = b"
proof -
  have no_minus: "nat_text n \<noteq> CHR ''-'' # s" for n s
    using nat_text_digits [of "CHR ''-''" n] digit_not_minus by force
  show ?thesis
    using no_minus no_minus [symmetric] by (auto simp: int_text_def)
qed

section \<open>String escaping\<close>

definition hex_digit :: "nat \<Rightarrow> char" where
  "hex_digit d = (if d < 10 then char_of (48 + d) else char_of (87 + d))"

text \<open>Bytes of ASCII that are copied: everything from space on but the quote, backslash and \<open><>&\<close>.\<close>

definition html_safe :: "char \<Rightarrow> bool" where
  "html_safe c =
     (let n = of_char c :: nat
      in 32 \<le> n \<and> n < 128 \<and> n \<noteq> 34 \<and> n \<noteq> 92 \<and> n \<noteq> 60 \<and> n \<noteq> 62 \<and> n \<noteq> 38)"

definition json_escape :: "char \<Rightarrow> string" where
  "json_escape c =
     (if html_safe c then [c]
      else if c = CHR 0x5C then [CHR 0x5C, CHR 0x5C]
      else if c = CHR 0x22 then [CHR 0x5C, CHR 0x22]
      else if c = CHR 0x08 then [CHR 0x5C, CHR ''b'']
      else if c = CHR 0x0C then [CHR 0x5C, CHR ''f'']
      else if c = CHR 0x0A then [CHR 0x5C, CHR ''n'']
      else if c = CHR 0x0D then [CHR 0x5C, CHR ''r'']
      else if c = CHR 0x09 then [CHR 0x5C, CHR ''t'']
      else [CHR 0x5C, CHR ''u'', CHR ''0'', CHR ''0'',
            hex_digit (of_char c div 16), hex_digit (of_char c mod 16)])"

definition is_ascii :: "char \<Rightarrow> bool" where
  "is_ascii c = (of_char c < (128::nat))"

text \<open>
  \<^verbatim>\<open>utf8.DecodeRuneInString\<close> on a string whose first byte is not ASCII: the length of a valid
  encoding at its head, or none (a rune error of width 1).
\<close>

definition utf8_len :: "string \<Rightarrow> nat option" where
  "utf8_len s =
     (let b = (\<lambda>i. if i < length s then of_char (s ! i) else (0::nat));
          cont = (\<lambda>i. 128 \<le> b i \<and> b i < 192)
      in if 194 \<le> b 0 \<and> b 0 \<le> 223 \<and> cont 1 then Some 2
         else if b 0 = 224 \<and> 160 \<le> b 1 \<and> b 1 \<le> 191 \<and> cont 2 then Some 3
         else if b 0 = 237 \<and> 128 \<le> b 1 \<and> b 1 \<le> 159 \<and> cont 2 then Some 3
         else if 225 \<le> b 0 \<and> b 0 \<le> 239 \<and> b 0 \<noteq> 237 \<and> cont 1 \<and> cont 2 then Some 3
         else if b 0 = 240 \<and> 144 \<le> b 1 \<and> b 1 \<le> 191 \<and> cont 2 \<and> cont 3 then Some 4
         else if 241 \<le> b 0 \<and> b 0 \<le> 243 \<and> cont 1 \<and> cont 2 \<and> cont 3 then Some 4
         else if b 0 = 244 \<and> 128 \<le> b 1 \<and> b 1 \<le> 143 \<and> cont 2 \<and> cont 3 then Some 4
         else None)"

function json_body :: "string \<Rightarrow> string" where
  "json_body [] = []"
| "json_body (c # s) =
     (if is_ascii c then json_escape c @ json_body s
      else (case utf8_len (c # s) of
              None \<Rightarrow> [CHR 0x5C] @ ''ufffd'' @ json_body s
            | Some n \<Rightarrow>
                (if take n (c # s) = [CHR 0xE2, CHR 0x80, CHR 0xA8] then [CHR 0x5C] @ ''u2028''
                 else if take n (c # s) = [CHR 0xE2, CHR 0x80, CHR 0xA9] then [CHR 0x5C] @ ''u2029''
                 else take n (c # s)) @ json_body (drop (n - 1) s)))"
  by pat_completeness auto
termination
  by (relation "measure length") auto

definition json_string :: "string \<Rightarrow> string" where
  "json_string s = CHR 0x22 # json_body s @ [CHR 0x22]"

text \<open>\<^verbatim>\<open>[]string\<close>: a nil slice is \<open>null\<close>.\<close>

definition json_strings :: "string list option \<Rightarrow> string" where
  "json_strings fs =
     (case fs of None \<Rightarrow> ''null'' | Some xs \<Rightarrow> ''['' @ join_with '','' (map json_string xs) @ '']'')"

lemma utf8_len_pos: "utf8_len s = Some n \<Longrightarrow> 2 \<le> n"
  by (auto simp: utf8_len_def Let_def split: if_splits)

lemma json_body_ascii: "list_all is_ascii s \<Longrightarrow> json_body s = concat (map json_escape s)"
  by (induction s) auto

lemma hex_digit_inj: "a < 16 \<Longrightarrow> b < 16 \<Longrightarrow> hex_digit a = hex_digit b \<Longrightarrow> a = b"
proof -
  assume ab: "a < 16" "b < 16" and "hex_digit a = hex_digit b"
  then have "of_char (hex_digit a) = (of_char (hex_digit b) :: nat)" by simp
  with ab show ?thesis by (auto simp: hex_digit_def split: if_splits)
qed

lemma escape_not_quote: "json_escape c @ u \<noteq> CHR 0x22 # v"
  by (auto simp: json_escape_def html_safe_def Let_def)

lemma hex_escape_inj:
  assumes "hex_digit (of_char c div 16) = hex_digit (of_char d div 16)"
    and "hex_digit (of_char c mod 16) = hex_digit (of_char d mod 16)"
  shows "c = d"
proof -
  have lt: "of_char c div 16 < (16::nat)" "of_char d div 16 < (16::nat)"
    using nat_of_char_less_256 [of c] nat_of_char_less_256 [of d] by (auto simp: less_mult_imp_div_less)
  have "of_char c div 16 = (of_char d div 16 :: nat)"
    by (rule hex_digit_inj [OF _ _ assms(1)]) (use lt in simp_all)
  moreover have "of_char c mod 16 = (of_char d mod 16 :: nat)"
    by (rule hex_digit_inj [OF _ _ assms(2)]) auto
  ultimately have "of_char c = (of_char d :: nat)"
    by (metis div_mult_mod_eq)
  then show ?thesis by simp
qed

lemma json_escape_prefix_free:
  assumes "json_escape c @ u = json_escape d @ v"
  shows "c = d \<and> u = v"
proof (cases "html_safe c \<or> html_safe d")
  case True
  then show ?thesis
    using assms by (auto simp: json_escape_def html_safe_def Let_def split: if_splits)
next
  case False
  then show ?thesis
    using assms by (auto simp: json_escape_def split: if_splits dest: hex_escape_inj)
qed

section \<open>Reading a quoted string back\<close>

text \<open>
  The runes of a string, as the encoder reads them: the bytes of each valid encoding, and \<open>None\<close> for every byte
  that belongs to no valid one. Such bytes are all written as the replacement character, so that two strings are
  written alike exactly when they have the same runes; a string of valid encodings is determined by its runes.
\<close>

function runes :: "string \<Rightarrow> string option list" where
  "runes [] = []"
| "runes (c # s) =
     (if is_ascii c then Some [c] # runes s
      else (case utf8_len (c # s) of
              None \<Rightarrow> None # runes s
            | Some n \<Rightarrow> Some (take n (c # s)) # runes (drop (n - 1) s)))"
  by pat_completeness auto
termination
  by (relation "measure length") auto

definition valid_utf8 :: "string \<Rightarrow> bool" where
  "valid_utf8 s \<longleftrightarrow> None \<notin> set (runes s)"

definition rune_text :: "string option \<Rightarrow> string" where
  "rune_text r =
     (case r of
        None \<Rightarrow> [CHR 0x5C] @ ''ufffd''
      | Some w \<Rightarrow>
          (if is_ascii (hd w) then json_escape (hd w)
           else if w = [CHR 0xE2, CHR 0x80, CHR 0xA8] then [CHR 0x5C] @ ''u2028''
           else if w = [CHR 0xE2, CHR 0x80, CHR 0xA9] then [CHR 0x5C] @ ''u2029''
           else w))"

text \<open>What the first byte of a valid encoding says of its length.\<close>

definition rune_width :: "char \<Rightarrow> nat" where
  "rune_width c = (if of_char c < (224::nat) then 2 else if of_char c < (240::nat) then 3 else 4)"

lemma utf8_len_cont:
  assumes "utf8_len s = Some n" and "i < n"
  shows "i < length s" "(128::nat) \<le> of_char (s ! i)"
proof -
  let ?b = "\<lambda>i. if i < length s then of_char (s ! i) else (0::nat)"
  from assms(1) consider "n = 2" "128 \<le> ?b 0" "128 \<le> ?b 1" | "n = 3" "128 \<le> ?b 0" "128 \<le> ?b 1" "128 \<le> ?b 2"
    | "n = 4" "128 \<le> ?b 0" "128 \<le> ?b 1" "128 \<le> ?b 2" "128 \<le> ?b 3"
    unfolding utf8_len_def Let_def by (auto split: if_splits)
  then have "128 \<le> ?b i"
  proof cases
    case 1
    moreover from this(1) assms(2) have "i = 0 \<or> i = 1" by linarith
    ultimately show ?thesis by metis
  next
    case 2
    moreover from this(1) assms(2) have "i = 0 \<or> i = 1 \<or> i = 2" by linarith
    ultimately show ?thesis by metis
  next
    case 3
    moreover from this(1) assms(2) have "i = 0 \<or> i = 1 \<or> i = 2 \<or> i = 3" by linarith
    ultimately show ?thesis by metis
  qed
  then show "i < length s" "(128::nat) \<le> of_char (s ! i)" by (cases "i < length s"; simp)+
qed

lemma utf8_len_width:
  assumes "utf8_len (c # s) = Some n"
  shows "n = rune_width c" "n \<le> length (c # s)" "(194::nat) \<le> of_char c"
proof -
  show "n = rune_width c" "(194::nat) \<le> of_char c"
    using assms unfolding utf8_len_def Let_def rune_width_def by (auto split: if_splits)
  have "n - 1 < length (c # s)" using utf8_len_cont(1) [OF assms] utf8_len_pos [OF assms] by simp
  then show "n \<le> length (c # s)" by simp
qed

definition rune_ok :: "string option \<Rightarrow> bool" where
  "rune_ok r \<longleftrightarrow>
     (case r of
        None \<Rightarrow> True
      | Some w \<Rightarrow> w \<noteq> [] \<and> (if is_ascii (hd w) then length w = 1
                             else length w = rune_width (hd w) \<and> (194::nat) \<le> of_char (hd w)))"

lemma runes_ok: "list_all rune_ok (runes s)"
proof (induction s rule: runes.induct)
  case (2 c s)
  show ?case
  proof (cases "is_ascii c")
    case True
    with 2 show ?thesis by (simp add: rune_ok_def)
  next
    case False
    show ?thesis
    proof (cases "utf8_len (c # s)")
      case None
      with False 2 show ?thesis by (simp add: rune_ok_def)
    next
      case (Some n)
      note w = utf8_len_width [OF Some] utf8_len_pos [OF Some]
      with False have "rune_ok (Some (take n (c # s)))" by (cases n) (auto simp: rune_ok_def)
      with False Some 2 show ?thesis by simp
    qed
  qed
qed simp

lemma json_body_runes: "json_body s = concat (map rune_text (runes s))"
proof (induction s rule: runes.induct)
  case (2 c s)
  show ?case
  proof (cases "is_ascii c")
    case True
    with 2 show ?thesis by (simp add: rune_text_def)
  next
    case False
    show ?thesis
    proof (cases "utf8_len (c # s)")
      case None
      with False 2 show ?thesis by (simp add: rune_text_def)
    next
      case (Some n)
      have "hd (take n (c # s)) = c" using utf8_len_pos [OF Some] by (cases n) auto
      with False Some 2 show ?thesis by (simp add: rune_text_def)
    qed
  qed
qed simp

lemma rune_text_not_quote: "rune_ok r \<Longrightarrow> rune_text r @ u \<noteq> CHR 0x22 # v"
  using escape_not_quote by (cases r) (auto simp: rune_text_def rune_ok_def is_ascii_def neq_Nil_conv)

lemma escape_first_ascii: "is_ascii c \<Longrightarrow> \<exists>d t. json_escape c = d # t \<and> is_ascii d"
  by (auto simp: json_escape_def is_ascii_def)

text \<open>No text of a rune begins another one's, whatever follows.\<close>

lemma escape_not_u:
  "json_escape c @ u \<noteq> [CHR 0x5C] @ ''ufffd'' @ v" "json_escape c @ u \<noteq> [CHR 0x5C] @ ''u2028'' @ v"
  "json_escape c @ u \<noteq> [CHR 0x5C] @ ''u2029'' @ v"
  by (auto simp: json_escape_def html_safe_def Let_def)

definition rune_kind :: "string option \<Rightarrow> nat" where
  "rune_kind r =
     (case r of None \<Rightarrow> 0
      | Some w \<Rightarrow> if is_ascii (hd w) then 1 else if w = [CHR 0xE2, CHR 0x80, CHR 0xA8] then 2
                  else if w = [CHR 0xE2, CHR 0x80, CHR 0xA9] then 3 else 4)"

lemma rune_text_prefix_free:
  assumes "rune_ok q" and "rune_ok r" and eq: "rune_text q @ u = rune_text r @ v"
  shows "q = r \<and> u = v"
proof -
  have ascii: "is_ascii (CHR 0x5C)" by (simp add: is_ascii_def)
  have one: "w = [hd w]" if "rune_ok (Some w)" "is_ascii (hd w)" for w
    using that by (cases w) (auto simp: rune_ok_def)
  have first: "hd (rune_text x @ y) = hd w \<and> \<not> is_ascii (hd w)" if "rune_ok x" "x = Some w" "rune_kind x = 4" for x w y
    using that by (auto simp: rune_text_def rune_kind_def rune_ok_def split: if_splits)
  have other: "is_ascii (hd (rune_text x @ y))" if "rune_ok x" "rune_kind x < 4" for x y
    using that ascii escape_first_ascii
    by (cases x) (fastforce simp: rune_text_def rune_kind_def split: if_splits)+
  have le4: "rune_kind x < 4 \<or> rune_kind x = 4" for x by (cases x) (simp_all add: rune_kind_def)
  show ?thesis
  proof (cases "rune_kind q = 4 \<or> rune_kind r = 4")
    case True
    obtain w z where w: "q = Some w" "r = Some z" "rune_kind q = 4" "rune_kind r = 4"
    proof -
      have "rune_kind x = 4 \<Longrightarrow> \<exists>w. x = Some w" for x by (cases x) (simp_all add: rune_kind_def)
      moreover have "rune_kind q = 4 \<and> rune_kind r = 4"
        using True le4 [of q] le4 [of r] first [OF assms(1), of _ u] first [OF assms(2), of _ v]
          other [OF assms(1), of u] other [OF assms(2), of v] calculation unfolding eq by metis
      ultimately show thesis using that by blast
    qed
    have t: "rune_text q = w" "rune_text r = z" using w by (auto simp: rune_text_def rune_kind_def split: if_splits)
    have "hd w = hd z" using first [OF assms(1) w(1,3), of u] first [OF assms(2) w(2,4), of v] eq by simp
    then have "length w = length z" using assms(1,2) w by (simp add: rune_ok_def rune_kind_def split: if_splits)
    then show ?thesis using eq w t by simp
  next
    case False
    then have k: "rune_kind q < 4" "rune_kind r < 4" using le4 by blast+
    have ask: "q = Some [c] \<and> rune_text q = json_escape c"
      if "rune_kind q = 1" "rune_ok q" "c = hd (the q)" for q c
      using that one by (cases q) (auto simp: rune_kind_def rune_text_def split: if_splits)
    have fixed: "q = None \<and> rune_text q = [CHR 0x5C] @ ''ufffd'' \<or>
        q = Some [CHR 0xE2, CHR 0x80, CHR 0xA8] \<and> rune_text q = [CHR 0x5C] @ ''u2028'' \<or>
        q = Some [CHR 0xE2, CHR 0x80, CHR 0xA9] \<and> rune_text q = [CHR 0x5C] @ ''u2029''"
      if "rune_kind q < 4" "rune_kind q \<noteq> 1" for q
      using that by (cases q) (auto simp: rune_kind_def rune_text_def is_ascii_def split: if_splits)
    consider "rune_kind q = 1" "rune_kind r = 1" | "rune_kind q = 1" "rune_kind r \<noteq> 1"
      | "rune_kind q \<noteq> 1" "rune_kind r = 1" | "rune_kind q \<noteq> 1" "rune_kind r \<noteq> 1" by blast
    then show ?thesis
    proof cases
      case 1
      from ask [OF this(1) assms(1) refl] ask [OF this(2) assms(2) refl] eq json_escape_prefix_free show ?thesis by metis
    next
      case 2
      from ask [OF this(1) assms(1) refl] fixed [OF k(2) this(2)] eq escape_not_u show ?thesis by (metis append_assoc)
    next
      case 3
      from ask [OF this(2) assms(2) refl] fixed [OF k(1) this(1)] eq escape_not_u show ?thesis by (metis append_assoc)
    next
      case 4
      from fixed [OF k(1) this(1)] fixed [OF k(2) this(2)] eq show ?thesis by auto
    qed
  qed
qed

text \<open>The closing quote is found without ambiguity, and the text determines the runes.\<close>

lemma json_string_runes:
  assumes "json_string s @ u = json_string t @ v"
  shows "runes s = runes t \<and> u = v"
proof -
  have prefix: "concat (map rune_text qs) @ CHR 0x22 # u = concat (map rune_text rs) @ CHR 0x22 # v \<Longrightarrow>
      list_all rune_ok qs \<Longrightarrow> list_all rune_ok rs \<Longrightarrow> qs = rs \<and> u = v" for qs rs
  proof (induction qs arbitrary: rs)
    case Nil
    then show ?case by (cases rs) (auto dest: rune_text_not_quote simp: not_sym [OF rune_text_not_quote])
  next
    case (Cons q qs)
    show ?case
    proof (cases rs)
      case Nil
      with Cons.prems show ?thesis by (auto dest: rune_text_not_quote)
    next
      case rs: (Cons r rs')
      with Cons.prems rune_text_prefix_free [of q r "concat (map rune_text qs) @ CHR 0x22 # u"
          "concat (map rune_text rs') @ CHR 0x22 # v"]
      have "q = r" "concat (map rune_text qs) @ CHR 0x22 # u = concat (map rune_text rs') @ CHR 0x22 # v" by auto
      with Cons.IH [of rs'] Cons.prems(2,3) rs show ?thesis by simp
    qed
  qed
  from assms show ?thesis using prefix [OF _ runes_ok runes_ok] by (simp add: json_string_def json_body_runes)
qed

lemma runes_valid: "valid_utf8 s \<Longrightarrow> concat (map the (runes s)) = s"
proof (induction s rule: runes.induct)
  case (2 c s)
  show ?case
  proof (cases "is_ascii c")
    case True
    with 2 show ?thesis by (simp add: valid_utf8_def)
  next
    case False
    with "2.prems" obtain n where n: "utf8_len (c # s) = Some n"
      by (cases "utf8_len (c # s)") (simp_all add: valid_utf8_def)
    have "drop (n - 1) s = drop n (c # s)" using utf8_len_pos [OF n] by (cases n) auto
    with False n 2 show ?thesis by (simp add: valid_utf8_def)
  qed
qed simp

lemma runes_inject: "valid_utf8 s \<Longrightarrow> valid_utf8 t \<Longrightarrow> runes s = runes t \<longleftrightarrow> s = t"
  using runes_valid by metis

lemma runes_ascii: "list_all is_ascii s \<Longrightarrow> runes s = map (\<lambda>c. Some [c]) s"
  by (induction s) auto

lemma ascii_valid_utf8: "list_all is_ascii s \<Longrightarrow> valid_utf8 s"
  by (auto simp: valid_utf8_def runes_ascii)

text \<open>An ASCII byte is a rune of its own wherever it stands.\<close>

lemma utf8_len_bytes: "utf8_len s = Some n \<Longrightarrow> d \<in> set (take n s) \<Longrightarrow> \<not> is_ascii d"
  using utf8_len_cont [of s n] by (fastforce simp: in_set_conv_nth is_ascii_def)

lemma ascii_rune: "is_ascii c \<Longrightarrow> Some [c] \<in> set (runes s) \<longleftrightarrow> c \<in> set s"
proof (induction s rule: runes.induct)
  case (2 d s)
  show ?case
  proof (cases "is_ascii d")
    case True
    with 2 show ?thesis by auto
  next
    case False
    show ?thesis
    proof (cases "utf8_len (d # s)")
      case None
      with False 2 show ?thesis by auto
    next
      case (Some n)
      have split: "d # s = take n (d # s) @ drop (n - 1) s" using utf8_len_pos [OF Some] by (cases n) auto
      have "c \<notin> set (take n (d # s))" using utf8_len_bytes [OF Some] "2.prems" by blast
      moreover from this have "take n (d # s) \<noteq> [c]" by (metis list.set_intros(1))
      ultimately show ?thesis using False Some 2 by (subst (2) split) auto
    qed
  qed
qed simp

end
