(* ===== verification/Auth_Core.thy ===== *)
theory Auth_Core
  imports Go_Json Go_Time "HOL-Library.Word"
begin

text \<open>
  \<^verbatim>\<open>packages/go/auth\<close>: the canonical payload of a signed request, its signing bytes, the verifier and
  the nonce store. Ed25519 verification is an argument (a function of public key, message and
  signature). Durations are Go's signed 64-bit nanosecond counts, kept at their width, because the
  freshness test negates one.
\<close>

section \<open>Payload and signing bytes\<close>

record payload =
  p_lab_id :: string
  p_timestamp :: time
  p_nonce :: string
  p_files :: "string list"
  p_content_hash :: string

definition NewPayload :: "string \<Rightarrow> time \<Rightarrow> string \<Rightarrow> string list \<Rightarrow> payload" where
  "NewPayload labID timestamp nonce files =
     \<lparr>p_lab_id = labID, p_timestamp = timestamp, p_nonce = nonce, p_files = files, p_content_hash = []\<rparr>"

definition WithContentHash :: "payload \<Rightarrow> string \<Rightarrow> payload" where
  "WithContentHash p h = p\<lparr>p_content_hash := h\<rparr>"

text \<open>The canonical view marshalled as a JSON object; the file list is copied (nil when empty) and sorted.\<close>

definition field :: "string \<Rightarrow> string" where
  "field k = CHR 0x22 # k @ [CHR 0x22, CHR '':'']"

definition SigningBytes :: "payload \<Rightarrow> string" where
  "SigningBytes p =
     ''{'' @ field ''content_hash'' @ json_string (p_content_hash p)
     @ '','' @ field ''files'' @ json_strings (copy_slice (sort (p_files p)))
     @ '','' @ field ''lab_id'' @ json_string (p_lab_id p)
     @ '','' @ field ''nonce'' @ json_string (p_nonce p)
     @ '','' @ field ''timestamp_ms'' @ int_text (unix_milli (p_timestamp p)) @ ''}''"

lemma json_list_unique:
  assumes "join_with '','' (map json_string xs) @ '']'' @ u = join_with '','' (map json_string ys) @ '']'' @ v"
  shows "map runes xs = map runes ys \<and> u = v"
  using assms
proof (induction xs arbitrary: ys rule: induct_list012)
  case 1
  then show ?case
    by (cases ys rule: remdups_adj.cases) (auto simp: json_string_def)
next
  case (2 x)
  then show ?case
  proof (cases ys rule: remdups_adj.cases)
    case (2 w)
    with "2.prems" json_string_runes [of x "'']'' @ u" w "'']'' @ v"] show ?thesis by simp
  next
    case (3 w w2 ws)
    with "2.prems" json_string_runes [of x "'']'' @ u" w
        "'','' @ join_with '','' (map json_string (w2 # ws)) @ '']'' @ v"] show ?thesis by simp
  qed (auto simp: json_string_def)
next
  case (3 x x2 xs)
  show ?case
  proof (cases ys rule: remdups_adj.cases)
    case (2 w)
    with "3.prems" json_string_runes [of x
        "'','' @ join_with '','' (map json_string (x2 # xs)) @ '']'' @ u" w "'']'' @ v"] show ?thesis
      by simp
  next
    case (3 w w2 ws)
    from "3.prems" 3 have "json_string x @ ('','' @ join_with '','' (map json_string (x2 # xs)) @ '']'' @ u) =
        json_string w @ ('','' @ join_with '','' (map json_string (w2 # ws)) @ '']'' @ v)"
      by simp
    from json_string_runes [OF this] have x: "runes x = runes w"
      and rest: "join_with '','' (map json_string (x2 # xs)) @ '']'' @ u =
        join_with '','' (map json_string (w2 # ws)) @ '']'' @ v"
      by simp_all
    from "3.IH"(2) [OF rest] x 3 show ?thesis by simp
  qed (use "3.prems" in \<open>auto simp: json_string_def\<close>)
qed

lemma json_strings_unique:
  assumes "json_strings (copy_slice xs) @ u = json_strings (copy_slice ys) @ v"
  shows "map runes xs = map runes ys \<and> u = v"
  using assms json_list_unique [of xs u ys v]
  by (auto simp: json_strings_def copy_slice_def split: if_splits)

lemma SigningBytes_unique:
  assumes eq: "SigningBytes p = SigningBytes q"
  shows "runes (p_content_hash p) = runes (p_content_hash q)"
    and "map runes (sort (p_files p)) = map runes (sort (p_files q))"
    and "runes (p_lab_id p) = runes (p_lab_id q)" and "runes (p_nonce p) = runes (p_nonce q)"
    and "unix_milli (p_timestamp p) = unix_milli (p_timestamp q)"
proof -
  define tail1 where "tail1 = (\<lambda>r :: payload. '','' @ field ''files'' @ json_strings (copy_slice (sort (p_files r)))
     @ '','' @ field ''lab_id'' @ json_string (p_lab_id r) @ '','' @ field ''nonce'' @ json_string (p_nonce r)
     @ '','' @ field ''timestamp_ms'' @ int_text (unix_milli (p_timestamp r)) @ ''}'')"
  define tail2 where "tail2 = (\<lambda>r :: payload. '','' @ field ''lab_id'' @ json_string (p_lab_id r) @ '','' @ field ''nonce''
     @ json_string (p_nonce r) @ '','' @ field ''timestamp_ms'' @ int_text (unix_milli (p_timestamp r)) @ ''}'')"
  define tail3 where "tail3 = (\<lambda>r :: payload. '','' @ field ''nonce'' @ json_string (p_nonce r)
     @ '','' @ field ''timestamp_ms'' @ int_text (unix_milli (p_timestamp r)) @ ''}'')"
  define tail4 where "tail4 = (\<lambda>r :: payload. '','' @ field ''timestamp_ms'' @ int_text (unix_milli (p_timestamp r)) @ ''}'')"
  have "json_string (p_content_hash p) @ tail1 p = json_string (p_content_hash q) @ tail1 q"
    using eq by (simp add: SigningBytes_def tail1_def)
  from json_string_runes [OF this] have h: "runes (p_content_hash p) = runes (p_content_hash q)"
    and t1: "tail1 p = tail1 q" by simp_all
  have "json_strings (copy_slice (sort (p_files p))) @ tail2 p = json_strings (copy_slice (sort (p_files q))) @ tail2 q"
    using t1 by (simp add: tail1_def tail2_def)
  from json_strings_unique [OF this] have f: "map runes (sort (p_files p)) = map runes (sort (p_files q))"
    and t2: "tail2 p = tail2 q" by simp_all
  have "json_string (p_lab_id p) @ tail3 p = json_string (p_lab_id q) @ tail3 q"
    using t2 by (simp add: tail2_def tail3_def)
  from json_string_runes [OF this] have l: "runes (p_lab_id p) = runes (p_lab_id q)" and t3: "tail3 p = tail3 q"
    by simp_all
  have "json_string (p_nonce p) @ tail4 p = json_string (p_nonce q) @ tail4 q"
    using t3 by (simp add: tail3_def tail4_def)
  from json_string_runes [OF this] have n: "runes (p_nonce p) = runes (p_nonce q)" and t4: "tail4 p = tail4 q"
    by simp_all
  from t4 have "unix_milli (p_timestamp p) = unix_milli (p_timestamp q)"
    by (simp add: tail4_def)
  with h f l n show "runes (p_content_hash p) = runes (p_content_hash q)"
    and "map runes (sort (p_files p)) = map runes (sort (p_files q))"
    and "runes (p_lab_id p) = runes (p_lab_id q)" and "runes (p_nonce p) = runes (p_nonce q)"
    and "unix_milli (p_timestamp p) = unix_milli (p_timestamp q)" by simp_all
qed

text \<open>Every string of the payload is valid UTF-8.\<close>

definition payload_utf8 :: "payload \<Rightarrow> bool" where
  "payload_utf8 p \<longleftrightarrow> valid_utf8 (p_content_hash p) \<and> list_all valid_utf8 (p_files p) \<and>
     valid_utf8 (p_lab_id p) \<and> valid_utf8 (p_nonce p)"

lemma map_runes_inject:
  "list_all valid_utf8 xs \<Longrightarrow> list_all valid_utf8 ys \<Longrightarrow> map runes xs = map runes ys \<longleftrightarrow> xs = ys"
proof (induction xs arbitrary: ys)
  case (Cons x xs)
  then show ?case by (cases ys) (simp_all add: runes_inject)
qed auto

text \<open>C11. The signing bytes bind every field: two payloads with the same signing bytes, whatever bytes they
  hold, have the same millisecond of the timestamp and the same runes in content hash, files (up to order),
  lab and nonce, where a byte outside every valid encoding is one rune whichever byte it is; if their strings are
  valid UTF-8, the fields themselves are the same, so a signature cannot be moved to another request.\<close>

theorem SigningBytes_binding:
  assumes eq: "SigningBytes p = SigningBytes q"
  shows "unix_milli (p_timestamp p) = unix_milli (p_timestamp q) \<and>
    runes (p_content_hash p) = runes (p_content_hash q) \<and>
    mset (map runes (p_files p)) = mset (map runes (p_files q)) \<and>
    runes (p_lab_id p) = runes (p_lab_id q) \<and> runes (p_nonce p) = runes (p_nonce q) \<and>
    (payload_utf8 p \<and> payload_utf8 q \<longrightarrow>
       p_content_hash p = p_content_hash q \<and> mset (p_files p) = mset (p_files q) \<and>
       p_lab_id p = p_lab_id q \<and> p_nonce p = p_nonce q)"
proof -
  note u = SigningBytes_unique [OF eq]
  from arg_cong [OF u(2), of mset] have files: "mset (map runes (p_files p)) = mset (map runes (p_files q))"
    by simp
  have "mset (p_files p) = mset (p_files q)" if "payload_utf8 p" "payload_utf8 q"
  proof -
    from that have "list_all valid_utf8 (sort (p_files p))" "list_all valid_utf8 (sort (p_files q))"
      by (simp_all add: payload_utf8_def list_all_iff)
    with u(2) have "sort (p_files p) = sort (p_files q)" by (simp add: map_runes_inject)
    then show ?thesis by (metis mset_sort)
  qed
  with u(1,3,4,5) files show ?thesis by (auto simp: payload_utf8_def runes_inject)
qed

theorem SigningBytes_binding_witness:
  "let p = WithContentHash (NewPayload ''lab'' 0 ''n1'' [''a'', ''b'']) ''ff'';
       q = WithContentHash (NewPayload ''lab'' 0 ''n1'' [''b'', ''a'']) ''ff''
   in SigningBytes p = SigningBytes q \<and> mset (p_files p) = mset (p_files q)"
proof -
  let ?p = "WithContentHash (NewPayload ''lab'' 0 ''n1'' [''a'', ''b'']) ''ff''"
  let ?q = "WithContentHash (NewPayload ''lab'' 0 ''n1'' [''b'', ''a'']) ''ff''"
  have "payload_utf8 ?p" "payload_utf8 ?q"
    by (simp_all add: payload_utf8_def WithContentHash_def NewPayload_def ascii_valid_utf8 is_ascii_def)
  moreover have "sort [''b'', ''a''] = sort [''a'', ''b'']"
    by (rule properties_for_sort) (simp_all add: add_mset_commute)
  then have eq: "SigningBytes ?p = SigningBytes ?q"
    by (simp add: SigningBytes_def WithContentHash_def NewPayload_def)
  ultimately show ?thesis
    using SigningBytes_binding [of ?p ?q] by (simp add: Let_def)
qed

section \<open>Verification\<close>

datatype auth_error =
    InvalidPublicKey
  | InvalidSignature
  | ExpiredTimestamp
  | NonceReplayed
  | NonceStoreRequired
  | NonceStoreFailed

type_synonym dur64 = "64 word"

text \<open>\<^verbatim>\<open>time.Duration\<close> counts nanoseconds; \<^verbatim>\<open>t.Sub(u)\<close> saturates at the ends of int64.\<close>

definition max_dur :: int where "max_dur = 9223372036854775807"
definition min_dur :: int where "min_dur = - 9223372036854775808"

definition sub_time :: "time \<Rightarrow> time \<Rightarrow> dur64" where
  "sub_time t u = word_of_int (max min_dur (min max_dur (1000 * (t - u))))"

definition freshWithin :: "time \<Rightarrow> time \<Rightarrow> dur64 \<Rightarrow> bool" where
  "freshWithin now ts maxSkew =
     (let diff = sub_time now ts;
          diff' = (if sint diff < 0 then - diff else diff)
      in sint diff' \<le> sint maxSkew)"

definition defaultSkew :: dur64 where
  "defaultSkew = 300000000000"

text \<open>\<^verbatim>\<open>VerifySignature\<close>; \<open>max_skew\<close> is the verifier's field, 0 when unset.\<close>

definition VerifySignature ::
  "(string \<Rightarrow> string \<Rightarrow> string \<Rightarrow> bool) \<Rightarrow> time \<Rightarrow> dur64 \<Rightarrow> string \<Rightarrow> payload \<Rightarrow> string \<Rightarrow> auth_error + unit" where
  "VerifySignature ed25519_verify now max_skew pub p sig =
     (if length pub \<noteq> 32 then Inl InvalidPublicKey
      else if \<not> ed25519_verify pub (SigningBytes p) sig then Inl InvalidSignature
      else (let skew = (if sint max_skew \<le> 0 then defaultSkew else max_skew)
            in if \<not> freshWithin now (p_timestamp p) skew then Inl ExpiredTimestamp else Inr ()))"

text \<open>Nonce reservation through a store: \<open>None\<close> is a verifier without one; the store's answer is an
  error, or whether the nonce was new.\<close>

definition verifier_ReserveNonce ::
  "(string \<Rightarrow> 's \<Rightarrow> (auth_error + bool) \<times> 's) option \<Rightarrow> string \<Rightarrow> 's \<Rightarrow> (auth_error + unit) \<times> 's" where
  "verifier_ReserveNonce store nonce s =
     (case store of
        None \<Rightarrow> (Inl NonceStoreRequired, s)
      | Some reserve \<Rightarrow>
          (case reserve nonce s of
             (Inl e, s') \<Rightarrow> (Inl NonceStoreFailed, s')
           | (Inr reserved, s') \<Rightarrow> (if \<not> reserved then Inl NonceReplayed else Inr (), s')))"

definition Verify ::
  "(string \<Rightarrow> string \<Rightarrow> string \<Rightarrow> bool) \<Rightarrow> time \<Rightarrow> dur64 \<Rightarrow>
   (string \<Rightarrow> 's \<Rightarrow> (auth_error + bool) \<times> 's) option \<Rightarrow>
   string \<Rightarrow> payload \<Rightarrow> string \<Rightarrow> 's \<Rightarrow> (auth_error + unit) \<times> 's" where
  "Verify ed25519_verify now max_skew store pub p sig s =
     (case VerifySignature ed25519_verify now max_skew pub p sig of
        Inl e \<Rightarrow> (Inl e, s)
      | Inr _ \<Rightarrow> verifier_ReserveNonce store (p_nonce p) s)"

lemma sint_sub_time: "sint (sub_time t u) = max min_dur (min max_dur (1000 * (t - u)))"
proof -
  let ?x = "max min_dur (min max_dur (1000 * (t - u)))"
  have "min_dur \<le> ?x" "?x \<le> max_dur" by (simp_all add: min_dur_def max_dur_def)
  then have "signed_take_bit 63 ?x = ?x"
    by (intro signed_take_bit_int_eq_self) (simp_all add: min_dur_def max_dur_def)
  then show ?thesis by (simp add: sub_time_def sint_sbintrunc')
qed

lemma of_sint: "word_of_int (sint d) = d" for d :: dur64
  by (metis of_int_sint scast_id)

lemma sint_neg: "min_dur < sint d \<Longrightarrow> sint (- d) = - sint d" for d :: dur64
proof -
  assume lo: "min_dur < sint d"
  have "sint d \<le> max_dur"
    using sint_lt [of d] by (simp add: max_dur_def)
  with lo have "signed_take_bit 63 (- sint d) = - sint d"
    by (intro signed_take_bit_int_eq_self) (simp_all add: min_dur_def max_dur_def)
  moreover have "- d = word_of_int (- sint d)"
    by (simp only: wi_hom_neg [symmetric] of_sint)
  then have "sint (- d) = signed_take_bit 63 (- sint d)"
    by (simp only: sint_sbintrunc') simp
  ultimately show ?thesis by simp
qed

lemma neg_min_dur: "sint d = min_dur \<Longrightarrow> sint (- d) = min_dur" for d :: dur64
proof -
  assume "sint d = min_dur"
  then have "d = word_of_int min_dur" by (metis of_sint)
  then show ?thesis by (simp add: min_dur_def)
qed

text \<open>C12. Freshness is the intended absolute difference, except at the far end: a timestamp so far in
  the future that the difference saturates is also accepted, because negating the least int64
  leaves it negative. (For any skew below the largest duration.)\<close>

theorem freshWithin_iff:
  assumes "0 \<le> sint skew" and "sint skew < max_dur"
  shows "freshWithin now ts skew \<longleftrightarrow>
    \<bar>1000 * (now - ts)\<bar> \<le> sint skew \<or> 1000 * (now - ts) \<le> min_dur"
proof -
  let ?x = "1000 * (now - ts)"
  consider (far) "?x \<le> min_dur" | (neg) "min_dur < ?x" "?x < 0" | (pos) "0 \<le> ?x"
    by linarith
  then show ?thesis
  proof cases
    case far
    then have "sint (sub_time now ts) = min_dur"
      by (simp add: sint_sub_time min_dur_def max_dur_def)
    with neg_min_dur [OF this] assms(1) far show ?thesis
      by (simp add: freshWithin_def Let_def min_dur_def)
  next
    case neg
    then have s: "sint (sub_time now ts) = ?x"
      by (simp add: sint_sub_time min_dur_def max_dur_def)
    with neg sint_neg [of "sub_time now ts"] show ?thesis
      by (simp add: freshWithin_def Let_def)
  next
    case pos
    then show ?thesis
      using assms by (auto simp: freshWithin_def Let_def sint_sub_time min_dur_def max_dur_def)
  qed
qed

theorem freshWithin_iff_witness:
  "freshWithin 0 300000000 defaultSkew \<and> \<not> freshWithin 0 300000001 defaultSkew \<and>
   freshWithin 0 9223372036854776 defaultSkew"
proof -
  have "(0::int) \<le> sint defaultSkew" "sint defaultSkew < max_dur"
    by (simp_all add: defaultSkew_def max_dur_def)
  note fresh = freshWithin_iff [OF this]
  show ?thesis unfolding fresh by (simp add: defaultSkew_def min_dur_def)
qed

section \<open>Nonce stores\<close>

text \<open>\<^verbatim>\<open>MemoryNonceStore\<close>: the set of used nonces, as the list of insertions.\<close>

definition mem_ReserveNonce :: "string \<Rightarrow> string list \<Rightarrow> bool \<times> string list" where
  "mem_ReserveNonce nonce used = (if nonce \<in> set used then (False, used) else (True, nonce # used))"

definition mem_Used :: "string \<Rightarrow> string list \<Rightarrow> bool" where
  "mem_Used nonce used = (nonce \<in> set used)"

text \<open>A sequence of reservations, with the answer to each.\<close>

fun reserve_all :: "(string \<Rightarrow> 's \<Rightarrow> bool \<times> 's) \<Rightarrow> string list \<Rightarrow> 's \<Rightarrow> bool list \<times> 's" where
  "reserve_all reserve [] s = ([], s)"
| "reserve_all reserve (n # ns) s =
     (let (b, s1) = reserve n s; (bs, s2) = reserve_all reserve ns s1 in (b # bs, s2))"

text \<open>What a verifier needs of a store: the answer says whether the nonce was new, and it is used after.\<close>

locale nonce_store =
  fixes reserve :: "string \<Rightarrow> 's \<Rightarrow> bool \<times> 's"
    and used :: "'s \<Rightarrow> string set"
  assumes reserve_answer: "fst (reserve n s) \<longleftrightarrow> n \<notin> used s"
    and used_reserve: "used (snd (reserve n s)) = insert n (used s)"
begin

lemma reserve_twice: "\<not> fst (reserve n (snd (reserve n s)))"
  by (simp add: reserve_answer used_reserve)

lemma reserve_all_used: "used (snd (reserve_all reserve ns s)) = used s \<union> set ns"
proof (induction ns arbitrary: s)
  case (Cons n ns)
  obtain b s1 where r: "reserve n s = (b, s1)" by fastforce
  obtain bs s2 where q: "reserve_all reserve ns s1 = (bs, s2)" by fastforce
  show ?case
    using used_reserve [of n s] Cons [of s1] r q by (auto simp: Let_def)
qed simp

lemma reserve_all_answers:
  "fst (reserve_all reserve ns s) = map (\<lambda>i. ns ! i \<notin> used s \<union> set (take i ns)) [0..<length ns]"
proof (induction ns arbitrary: s)
  case (Cons n ns)
  obtain b s1 where r: "reserve n s = (b, s1)" by fastforce
  obtain bs s2 where q: "reserve_all reserve ns s1 = (bs, s2)" by fastforce
  have "b \<longleftrightarrow> n \<notin> used s" and "used s1 = insert n (used s)"
    using reserve_answer [of n s] used_reserve [of n s] r by simp_all
  moreover have "[0..<length (n # ns)] = 0 # map Suc [0..<length ns]"
    by (simp add: map_Suc_upt upt_conv_Cons del: upt_Suc)
  ultimately show ?case
    using Cons [of s1] r q by (simp add: Let_def comp_def conj_commute conj_left_commute del: upt_Suc)
qed simp

text \<open>Of all requests that carry one nonce, at most one is accepted.\<close>

lemma at_most_once:
  "length (filter (\<lambda>(m, b). m = n \<and> b) (zip ns (fst (reserve_all reserve ns s)))) \<le> 1"
proof (induction ns arbitrary: s)
  case (Cons m ns)
  obtain b s1 where r: "reserve m s = (b, s1)" by fastforce
  obtain bs s2 where q: "reserve_all reserve ns s1 = (bs, s2)" by fastforce
  show ?case
  proof (cases "m = n")
    case True
    then have "n \<in> used s1" using used_reserve [of m s] r by simp
    then have "filter (\<lambda>(m, b). m = n \<and> b) (zip ns bs) = []"
      using reserve_all_answers [of ns s1] q
      by (auto simp: filter_empty_conv in_set_zip)
    then show ?thesis by (simp add: r q Let_def)
  next
    case False
    with Cons [of s1] r q show ?thesis by (simp add: Let_def)
  qed
qed simp

end

interpretation mem_nonce: nonce_store mem_ReserveNonce set
  by unfold_locales (auto simp: mem_ReserveNonce_def)

lemma mem_Used_reserve: "mem_Used n (snd (mem_ReserveNonce n used))"
  using mem_nonce.used_reserve by (simp add: mem_Used_def)

end
