(* ===== verification/Labkit_Errors.thy ===== *)
theory Labkit_Errors
  imports Go_Strings
begin

text \<open>
  \<^verbatim>\<open>packages/go/labkit\<close>: the submission life-cycle vocabulary and classified errors. A Go error
  value is a tree: a sentinel, a classified error with an optional cause, an error that wraps
  another with \<^verbatim>\<open>%w\<close>, or a join. \<^verbatim>\<open>errors.As\<close> walks the tree in pre-order.
\<close>

datatype submission_status = SsQueued | SsRunning | SsDone | SsTimeout | SsError

datatype error_class = ErrUser | ErrSystem | ErrEvaluator | ErrAdmin

datatype go_error =
    Sentinel string
  | Classified error_class string "go_error option"
  | Wrapped string go_error
  | Joined "go_error list"

text \<open>\<^verbatim>\<open>Error()\<close>: a classified error prints its cause after a colon, a wrapping one after its prefix.\<close>

fun error_text :: "go_error \<Rightarrow> string" where
  "error_text (Sentinel m) = m"
| "error_text (Classified cls m None) = m"
| "error_text (Classified cls m (Some e)) = m @ '': '' @ error_text e"
| "error_text (Wrapped p e) = p @ '': '' @ error_text e"
| "error_text (Joined es) = join_with [CHR 0x0A] (map error_text es)"

definition newClassifiedError :: "error_class \<Rightarrow> string \<Rightarrow> go_error option \<Rightarrow> go_error" where
  "newClassifiedError cls m cause = Classified cls m cause"

definition WrapSystemError :: "string \<Rightarrow> go_error \<Rightarrow> go_error" where
  "WrapSystemError m e = newClassifiedError ErrSystem m (Some e)"

definition WrapEvaluatorError :: "string \<Rightarrow> go_error \<Rightarrow> go_error" where
  "WrapEvaluatorError m e = newClassifiedError ErrEvaluator m (Some e)"

definition WrapUserError :: "string \<Rightarrow> go_error \<Rightarrow> go_error" where
  "WrapUserError m e = newClassifiedError ErrUser m (Some e)"

definition WrapAdminError :: "string \<Rightarrow> go_error \<Rightarrow> go_error" where
  "WrapAdminError m e = newClassifiedError ErrAdmin m (Some e)"

text \<open>\<^verbatim>\<open>errors.As\<close> for the interface that has a \<^verbatim>\<open>Class\<close> method: the first classified error.\<close>

fun as_classified :: "go_error \<Rightarrow> error_class option"
and as_classified_list :: "go_error list \<Rightarrow> error_class option" where
  "as_classified (Sentinel m) = None"
| "as_classified (Classified cls m cause) = Some cls"
| "as_classified (Wrapped p e) = as_classified e"
| "as_classified (Joined es) = as_classified_list es"
| "as_classified_list [] = None"
| "as_classified_list (e # es) =
     (case as_classified e of None \<Rightarrow> as_classified_list es | Some c \<Rightarrow> Some c)"

text \<open>\<^verbatim>\<open>errors.Is\<close>: the target occurs in the tree.\<close>

fun is_error :: "go_error \<Rightarrow> go_error \<Rightarrow> bool" where
  "is_error t (Sentinel m) = (Sentinel m = t)"
| "is_error t (Classified cls m cause) =
     (Classified cls m cause = t \<or> (case cause of None \<Rightarrow> False | Some e \<Rightarrow> is_error t e))"
| "is_error t (Wrapped p e) = (Wrapped p e = t \<or> is_error t e)"
| "is_error t (Joined es) = (Joined es = t \<or> list_ex (is_error t) es)"

text \<open>The empty class for a nil error is \<open>None\<close>.\<close>

definition ClassifyError :: "go_error option \<Rightarrow> error_class option" where
  "ClassifyError err =
     (case err of
        None \<Rightarrow> None
      | Some e \<Rightarrow> (case as_classified e of Some c \<Rightarrow> Some c | None \<Rightarrow> Some ErrSystem))"

lemma ClassifyError_None [simp]: "ClassifyError err = None \<longleftrightarrow> err = None"
  by (auto simp: ClassifyError_def split: option.splits)

lemma ClassifyError_wrap:
  "ClassifyError (Some (WrapSystemError m e)) = Some ErrSystem"
  "ClassifyError (Some (WrapEvaluatorError m e)) = Some ErrEvaluator"
  "ClassifyError (Some (WrapUserError m e)) = Some ErrUser"
  "ClassifyError (Some (WrapAdminError m e)) = Some ErrAdmin"
  by (simp_all add: ClassifyError_def WrapSystemError_def WrapEvaluatorError_def WrapUserError_def
      WrapAdminError_def newClassifiedError_def)

end
