(* ===== verification/Database.thy ===== *)
theory Database
  imports Go_Float Labkit_Errors Evaluator
begin

text \<open>
  The PostgreSQL schema (\<^verbatim>\<open>db/migrations\<close>, with the row types of \<^verbatim>\<open>packages/go/db/sqlc/models.go\<close>) and the
  queries that the services run, translated from their SQL. A table is the list of its rows in
  insertion order; a nullable column is an option; \<^verbatim>\<open>NOW()\<close> is an argument; generated keys come from
  counters of the state (uuidv7 is increasing and never nil). A failing statement returns a
  \<open>db_error\<close>: no row for a single-row query, or a violated constraint. The JSONB column \<^verbatim>\<open>labs.manifest\<close>
  is what \<^verbatim>\<open>json.Unmarshal\<close> into a manifest yields, \<open>None\<close> where it fails.
\<close>

datatype db_error =
    NoRows | UniqueViolation | ForeignKeyViolation | CheckViolation | OutOfRange | InvalidText | Unavailable

type_synonym uuid = nat

datatype quota_state = QPending | QCharged | QFree | QAdminReset | QBonus

datatype job_status = JQueued | JRunning | JDone | JError

datatype device_status = DaPending | DaApproved | DaExpired

record lab_row =
  l_id :: string
  l_name :: string
  l_manifest :: "manifest option"
  l_updated :: time
  l_created :: time

record user_row =
  u_id :: int
  u_student :: string
  u_nickname :: string

record key_row =
  k_id :: int
  k_user :: int
  k_public :: string
  k_fingerprint :: "string option"
  k_device :: string
  k_created :: time
  k_revoked :: "time option"

record device_row =
  da_code :: string
  da_user_code :: string
  da_public :: string
  da_device :: string
  da_student :: "string option"
  da_state :: "string option"
  da_status :: device_status
  da_expires :: time

record profile_row =
  pf_user :: int
  pf_lab :: string
  pf_nickname :: string
  pf_track :: "string option"

record sub_row =
  sub_id :: uuid
  sub_user :: int
  sub_lab :: string
  sub_key :: int
  sub_artifact :: string
  sub_hash :: string
  sub_status :: submission_status
  sub_verdict :: "verdict option"
  sub_message :: "string option"
  sub_detail :: "detail option"
  sub_digest :: "string option"
  sub_started :: "time option"
  sub_finished :: "time option"
  sub_created :: time
  sub_quota :: quota_state

record job_row =
  job_id :: uuid
  job_sub :: uuid
  job_status :: job_status
  job_attempts :: int
  job_available :: time
  job_worker :: "string option"
  job_error :: "string option"
  job_started :: "time option"
  job_finished :: "time option"
  job_created :: time
  job_updated :: time

record score_row =
  sc_sub :: uuid
  sc_metric :: string
  sc_value :: f32

record board_row =
  lb_user :: int
  lb_lab :: string
  lb_sub :: uuid
  lb_updated :: time

record bonus_row =
  bq_user :: int
  bq_lab :: string
  bq_remaining :: int
  bq_updated :: time

record ticket_row =
  tk_hash :: string
  tk_user :: int
  tk_key :: int
  tk_path :: string
  tk_expires :: time

record grade_row =
  gr_lab :: string
  gr_student :: string
  gr_total :: "string option"
  gr_remark :: "string option"
  gr_items :: "(string \<times> string) list"
  gr_published :: "time option"
  gr_updated :: time

record db =
  db_labs :: "lab_row list"
  db_users :: "user_row list"
  db_keys :: "key_row list"
  db_devices :: "device_row list"
  db_profiles :: "profile_row list"
  db_subs :: "sub_row list"
  db_jobs :: "job_row list"
  db_scores :: "score_row list"
  db_board :: "board_row list"
  db_bonus :: "bonus_row list"
  db_tickets :: "ticket_row list"
  db_grades :: "grade_row list"
  db_nonces :: "string list"
  db_uuid_seq :: nat
  db_user_seq :: int
  db_key_seq :: int

definition empty_db :: db where
  "empty_db =
     \<lparr>db_labs = [], db_users = [], db_keys = [], db_devices = [], db_profiles = [], db_subs = [],
      db_jobs = [], db_scores = [], db_board = [], db_bonus = [], db_tickets = [], db_grades = [],
      db_nonces = [], db_uuid_seq = 0, db_user_seq = 0, db_key_seq = 0\<rparr>"

text \<open>A single-row query, and a statement that the connection may fail.\<close>

definition one :: "'r option \<Rightarrow> db_error + 'r" where
  "one r = (case r of None \<Rightarrow> Inl NoRows | Some x \<Rightarrow> Inr x)"

definition faulty :: "bool \<Rightarrow> db_error + 'a \<Rightarrow> db_error + 'a" where
  "faulty f r = (if f then Inl Unavailable else r)"

lemma db_same [simp]:
  "\<exists>ss. d = d\<lparr>db_scores := ss\<rparr>" "\<exists>bs. d = d\<lparr>db_bonus := bs\<rparr>"
  "\<exists>ss bs. d = d\<lparr>db_subs := ss, db_bonus := bs\<rparr>" "\<exists>ss. d = d\<lparr>db_subs := ss\<rparr>"
  "\<exists>js. d = d\<lparr>db_jobs := js\<rparr>"
  by (rule exI [of _ "db_scores d"], simp) (rule exI [of _ "db_bonus d"], simp,
      rule exI [of _ "db_subs d"], rule exI [of _ "db_bonus d"], simp,
      rule exI [of _ "db_subs d"], simp, rule exI [of _ "db_jobs d"], simp)

lemma db_same_subs [simp]: "\<exists>ss bs. d\<lparr>db_subs := x\<rparr> = d\<lparr>db_subs := ss, db_bonus := bs\<rparr>"
  by (rule exI [of _ x], rule exI [of _ "db_bonus d"]) simp

lemma one_simps [simp]: "one None = Inl NoRows" "one (Some x) = Inr x"
  by (simp_all add: one_def)

lemma one_Inr [simp]: "one r = Inr x \<longleftrightarrow> r = Some x"
  by (cases r) auto

lemma faulty_simps [simp]: "faulty False r = r" "faulty True r = Inl Unavailable"
  by (simp_all add: faulty_def)

lemma faulty_Inr [simp]: "faulty f r = Inr x \<longleftrightarrow> \<not> f \<and> r = Inr x"
  by (cases f) auto

section \<open>Labs\<close>

definition GetLab :: "string \<Rightarrow> db \<Rightarrow> db_error + lab_row" where
  "GetLab i d = one (find (\<lambda>r. l_id r = i) (db_labs d))"

definition CreateLab :: "time \<Rightarrow> string \<Rightarrow> string \<Rightarrow> manifest option \<Rightarrow> db \<Rightarrow> db_error + (lab_row \<times> db)" where
  "CreateLab now i n m d =
     (if CHR 0x00 \<in> set i \<union> set n then Inl InvalidText
      else if i \<in> l_id ` set (db_labs d) then Inl UniqueViolation
      else (let r = \<lparr>l_id = i, l_name = n, l_manifest = m, l_updated = now, l_created = now\<rparr>
            in Inr (r, d\<lparr>db_labs := db_labs d @ [r]\<rparr>)))"

definition ListLabs :: "db \<Rightarrow> lab_row list" where
  "ListLabs d = sort_stable (\<lambda>a b. l_created a > l_created b) (db_labs d)"

definition UpdateLabManifest :: "time \<Rightarrow> string \<Rightarrow> string \<Rightarrow> manifest option \<Rightarrow> db \<Rightarrow> db_error + db" where
  "UpdateLabManifest now i n m d =
     (if CHR 0x00 \<in> set i \<union> set n then Inl InvalidText
      else Inr (d\<lparr>db_labs := update_where (\<lambda>r. l_id r = i)
          (\<lambda>r. r\<lparr>l_name := n, l_manifest := m, l_updated := now\<rparr>) (db_labs d)\<rparr>))"

end
