(* ===== verification/Db_Submissions.thy ===== *)
theory Db_Submissions
  imports Database Auth_Core
begin

text \<open>
  The queries on submissions, scores, bonus quota, nonces and evaluation-job creation
  (\<^verbatim>\<open>db/queries/submissions.sql\<close>, \<^verbatim>\<open>bonus_quota.sql\<close>, \<^verbatim>\<open>jobs.sql\<close> and the nonce insert), and the
  referential invariant of the tables they touch.
\<close>

section \<open>Submissions\<close>

definition insert_submission ::
  "quota_state \<Rightarrow> time \<Rightarrow> int \<Rightarrow> string \<Rightarrow> int \<Rightarrow> string \<Rightarrow> string \<Rightarrow> submission_status \<Rightarrow> db \<Rightarrow>
   db_error + (sub_row \<times> db)" where
  "insert_submission q now user lab key artifact hash st d =
     (if user \<notin> u_id ` set (db_users d) \<or> lab \<notin> l_id ` set (db_labs d) \<or> key \<notin> k_id ` set (db_keys d)
      then Inl ForeignKeyViolation
      else (let i = Suc (db_uuid_seq d);
                r = \<lparr>sub_id = i, sub_user = user, sub_lab = lab, sub_key = key, sub_artifact = artifact,
                     sub_hash = hash, sub_status = st, sub_verdict = None, sub_message = None,
                     sub_detail = None, sub_digest = None, sub_started = None, sub_finished = None,
                     sub_created = now, sub_quota = q\<rparr>
            in Inr (r, d\<lparr>db_subs := db_subs d @ [r], db_uuid_seq := i\<rparr>)))"

definition CreateSubmission where "CreateSubmission = insert_submission QPending"
definition CreateFreeSubmission where "CreateFreeSubmission = insert_submission QFree"
definition CreateBonusSubmission where "CreateBonusSubmission = insert_submission QBonus"

definition GetSubmission :: "uuid \<Rightarrow> db \<Rightarrow> db_error + sub_row" where
  "GetSubmission i d = one (find (\<lambda>r. sub_id r = i) (db_subs d))"

definition ListSubmissionsByUserLab :: "int \<Rightarrow> string \<Rightarrow> db \<Rightarrow> sub_row list" where
  "ListSubmissionsByUserLab user lab d =
     sort_stable (\<lambda>a b. sub_created a > sub_created b)
       (filter (\<lambda>r. sub_user r = user \<and> sub_lab r = lab) (db_subs d))"

definition ListRecentSubmissionsByUser :: "int \<Rightarrow> nat \<Rightarrow> db \<Rightarrow> sub_row list" where
  "ListRecentSubmissionsByUser user n d =
     take n (sort_stable
       (\<lambda>a b. sub_created a > sub_created b \<or> sub_created a = sub_created b \<and> sub_id a > sub_id b)
       (filter (\<lambda>r. sub_user r = user) (db_subs d)))"

definition GetLatestSubmissionByUserLab :: "int \<Rightarrow> string \<Rightarrow> db \<Rightarrow> db_error + sub_row" where
  "GetLatestSubmissionByUserLab user lab d =
     (case ListSubmissionsByUserLab user lab d of [] \<Rightarrow> Inl NoRows | r # _ \<Rightarrow> Inr r)"

text \<open>
  The verdict has a CHECK constraint. A text with a zero byte, and a JSONB string with an escaped
  one, is rejected by the server.
\<close>

definition pg_text :: "string option \<Rightarrow> bool" where
  "pg_text t = (case t of None \<Rightarrow> True | Some s \<Rightarrow> CHR 0x00 \<notin> set s)"

definition verdict_allowed :: "verdict option \<Rightarrow> bool" where
  "verdict_allowed v = (case v of Some (OtherVerdict _) \<Rightarrow> False | _ \<Rightarrow> True)"

definition UpdateSubmissionResult ::
  "uuid \<Rightarrow> submission_status \<Rightarrow> verdict option \<Rightarrow> string option \<Rightarrow> detail option \<Rightarrow> string option \<Rightarrow>
   time option \<Rightarrow> time option \<Rightarrow> db \<Rightarrow> db_error + db" where
  "UpdateSubmissionResult i st v msg det dig started finished d =
     (if \<not> (pg_text msg \<and> pg_text (map_option d_content det) \<and> pg_text dig) then Inl InvalidText
      else if \<not> verdict_allowed v \<and> (\<exists>r \<in> set (db_subs d). sub_id r = i) then Inl CheckViolation
      else Inr (d\<lparr>db_subs := update_where (\<lambda>r. sub_id r = i)
         (\<lambda>r. r\<lparr>sub_status := st, sub_verdict := v, sub_message := msg, sub_detail := det,
                sub_digest := dig, sub_started := started, sub_finished := finished\<rparr>) (db_subs d)\<rparr>))"

definition UpdateSubmissionRunning :: "uuid \<Rightarrow> submission_status \<Rightarrow> time option \<Rightarrow> db \<Rightarrow> db" where
  "UpdateSubmissionRunning i st started d =
     d\<lparr>db_subs := update_where (\<lambda>r. sub_id r = i)
         (\<lambda>r. r\<lparr>sub_status := st, sub_started := started\<rparr>) (db_subs d)\<rparr>"

definition UpdateSubmissionQuotaState :: "uuid \<Rightarrow> quota_state \<Rightarrow> db \<Rightarrow> db" where
  "UpdateSubmissionQuotaState i q d =
     d\<lparr>db_subs := update_where (\<lambda>r. sub_id r = i) (\<lambda>r. r\<lparr>sub_quota := q\<rparr>) (db_subs d)\<rparr>"

text \<open>The rows that use up a day's quota.\<close>

definition counts_for :: "int \<Rightarrow> string \<Rightarrow> time \<Rightarrow> time \<Rightarrow> sub_row \<Rightarrow> bool" where
  "counts_for user lab start stop r \<longleftrightarrow>
     sub_user r = user \<and> sub_lab r = lab \<and> start \<le> sub_created r \<and> sub_created r < stop \<and>
     sub_quota r \<in> {QPending, QCharged}"

definition CountSubmissionQuotaUsage :: "int \<Rightarrow> string \<Rightarrow> time \<Rightarrow> time \<Rightarrow> db \<Rightarrow> nat" where
  "CountSubmissionQuotaUsage user lab start stop d = count_where (counts_for user lab start stop) (db_subs d)"

text \<open>\<^verbatim>\<open>AdminResetLabQuotaToday\<close>: rows affected and the new state.\<close>

definition AdminResetLabQuotaToday :: "string \<Rightarrow> time \<Rightarrow> db \<Rightarrow> nat \<times> db" where
  "AdminResetLabQuotaToday lab since d =
     (let P = (\<lambda>r. sub_lab r = lab \<and> since \<le> sub_created r \<and> sub_quota r \<in> {QPending, QCharged})
      in (count_where P (db_subs d),
          d\<lparr>db_subs := update_where P (\<lambda>r. r\<lparr>sub_quota := QAdminReset\<rparr>) (db_subs d)\<rparr>))"

section \<open>Scores\<close>

definition CreateScore :: "uuid \<Rightarrow> string \<Rightarrow> f32 \<Rightarrow> db \<Rightarrow> db_error + db" where
  "CreateScore i mt v d =
     (if i \<notin> sub_id ` set (db_subs d) then Inl ForeignKeyViolation
      else if \<exists>s \<in> set (db_scores d). sc_sub s = i \<and> sc_metric s = mt
      then Inr (d\<lparr>db_scores := update_where (\<lambda>s. sc_sub s = i \<and> sc_metric s = mt)
                     (\<lambda>s. s\<lparr>sc_value := v\<rparr>) (db_scores d)\<rparr>)
      else Inr (d\<lparr>db_scores := db_scores d @ [\<lparr>sc_sub = i, sc_metric = mt, sc_value = v\<rparr>]\<rparr>))"

definition ListScoresBySubmission :: "uuid \<Rightarrow> db \<Rightarrow> score_row list" where
  "ListScoresBySubmission i d =
     sort_stable (\<lambda>a b. sc_metric a < sc_metric b) (filter (\<lambda>s. sc_sub s = i) (db_scores d))"

section \<open>Bonus quota\<close>

definition is_bonus :: "int \<Rightarrow> string \<Rightarrow> bonus_row \<Rightarrow> bool" where
  "is_bonus user lab b \<longleftrightarrow> bq_user b = user \<and> bq_lab b = lab"

definition GetBonusQuota :: "int \<Rightarrow> string \<Rightarrow> db \<Rightarrow> db_error + int" where
  "GetBonusQuota user lab d = map_sum id bq_remaining (one (find (is_bonus user lab) (db_bonus d)))"

text \<open>\<^verbatim>\<open>UPDATE ... WHERE remaining > 0 RETURNING remaining\<close>.\<close>

definition ConsumeBonusQuota :: "time \<Rightarrow> int \<Rightarrow> string \<Rightarrow> db \<Rightarrow> db_error + (int \<times> db)" where
  "ConsumeBonusQuota now user lab d =
     (case find (\<lambda>b. is_bonus user lab b \<and> 0 < bq_remaining b) (db_bonus d) of
        None \<Rightarrow> Inl NoRows
      | Some b \<Rightarrow>
          Inr (bq_remaining b - 1,
               d\<lparr>db_bonus := update_where (\<lambda>b. is_bonus user lab b \<and> 0 < bq_remaining b)
                    (\<lambda>b. b\<lparr>bq_remaining := bq_remaining b - 1, bq_updated := now\<rparr>) (db_bonus d)\<rparr>))"

definition max_int4 :: int where "max_int4 = 2147483647"

definition lab_participants :: "string \<Rightarrow> db \<Rightarrow> int list" where
  "lab_participants lab d = remdups (map sub_user (filter (\<lambda>r. sub_lab r = lab) (db_subs d)))"

definition CountLabParticipants :: "string \<Rightarrow> db \<Rightarrow> nat" where
  "CountLabParticipants lab d = length (lab_participants lab d)"

text \<open>One row of the upsert: insert \<open>GREATEST(0, delta)\<close> or add to what is there; int4 overflow fails.\<close>

definition upsert_bonus :: "time \<Rightarrow> string \<Rightarrow> int \<Rightarrow> int \<Rightarrow> bonus_row list \<Rightarrow> db_error + bonus_row list" where
  "upsert_bonus now lab delta user bs =
     (case find (is_bonus user lab) bs of
        None \<Rightarrow> Inr (bs @ [\<lparr>bq_user = user, bq_lab = lab, bq_remaining = max 0 delta, bq_updated = now\<rparr>])
      | Some b \<Rightarrow>
          (if bq_remaining b + delta > max_int4 then Inl OutOfRange
           else Inr (update_where (is_bonus user lab)
                       (\<lambda>b. b\<lparr>bq_remaining := max 0 (bq_remaining b + delta), bq_updated := now\<rparr>) bs)))"

fun upsert_bonuses :: "time \<Rightarrow> string \<Rightarrow> int \<Rightarrow> int list \<Rightarrow> bonus_row list \<Rightarrow> db_error + bonus_row list" where
  "upsert_bonuses now lab delta [] bs = Inr bs"
| "upsert_bonuses now lab delta (u # us) bs =
     bindR (upsert_bonus now lab delta u bs) (upsert_bonuses now lab delta us)"

definition AdjustBonusQuotaForLab :: "time \<Rightarrow> string \<Rightarrow> int \<Rightarrow> db \<Rightarrow> db_error + (nat \<times> db)" where
  "AdjustBonusQuotaForLab now lab delta d =
     bindR (upsert_bonuses now lab delta (lab_participants lab d) (db_bonus d))
       (\<lambda>bs. Inr (CountLabParticipants lab d, d\<lparr>db_bonus := bs\<rparr>))"

definition ResetBonusQuotaForLab :: "time \<Rightarrow> string \<Rightarrow> db \<Rightarrow> nat \<times> db" where
  "ResetBonusQuotaForLab now lab d =
     (let P = (\<lambda>b. bq_lab b = lab \<and> 0 < bq_remaining b)
      in (count_where P (db_bonus d),
          d\<lparr>db_bonus := update_where P (\<lambda>b. b\<lparr>bq_remaining := 0, bq_updated := now\<rparr>) (db_bonus d)\<rparr>))"

text \<open>The CTE flips the submission from bonus to free and credits the row of its user and lab.\<close>

definition RefundBonusSubmission :: "time \<Rightarrow> uuid \<Rightarrow> db \<Rightarrow> db_error + (nat \<times> db)" where
  "RefundBonusSubmission now i d =
     (case find (\<lambda>r. sub_id r = i \<and> sub_quota r = QBonus) (db_subs d) of
        None \<Rightarrow> Inr (0, d)
      | Some s \<Rightarrow>
          (let P = is_bonus (sub_user s) (sub_lab s)
           in if \<exists>b \<in> set (db_bonus d). P b \<and> bq_remaining b + 1 > max_int4 then Inl OutOfRange
              else Inr (count_where P (db_bonus d),
                d\<lparr>db_subs := update_where (\<lambda>r. sub_id r = i \<and> sub_quota r = QBonus)
                    (\<lambda>r. r\<lparr>sub_quota := QFree\<rparr>) (db_subs d),
                  db_bonus := update_where P
                    (\<lambda>b. b\<lparr>bq_remaining := bq_remaining b + 1, bq_updated := now\<rparr>) (db_bonus d)\<rparr>)))"

text \<open>The primary key of \<^verbatim>\<open>bonus_quota\<close>, and the balance seen through a consumption.\<close>

definition bonus_key :: "bonus_row \<Rightarrow> int \<times> string" where
  "bonus_key b = (bq_user b, bq_lab b)"

lemma is_bonus_key: "is_bonus user lab = (\<lambda>b. bonus_key b = (user, lab))"
  by (auto simp: is_bonus_def bonus_key_def)

lemma find_bonus:
  "distinct (map bonus_key bs) \<Longrightarrow> b \<in> set bs \<Longrightarrow> is_bonus user lab b \<Longrightarrow> find (is_bonus user lab) bs = Some b"
  using find_key_Some [of bonus_key bs b] by (simp add: is_bonus_key)

lemma ConsumeBonusQuota_balance:
  assumes "distinct (map bonus_key (db_bonus d))" and "ConsumeBonusQuota now user lab d = Inr (rem, d')"
  shows "0 \<le> rem \<and> GetBonusQuota user lab d = Inr (rem + 1) \<and> GetBonusQuota user lab d' = Inr rem"
proof -
  let ?Q = "\<lambda>b. is_bonus user lab b \<and> 0 < bq_remaining b"
  let ?f = "\<lambda>b. b\<lparr>bq_remaining := bq_remaining b - 1, bq_updated := now\<rparr>"
  from assms(2) obtain b where b: "find ?Q (db_bonus d) = Some b" and rem: "rem = bq_remaining b - 1"
    and d': "d' = d\<lparr>db_bonus := update_where ?Q ?f (db_bonus d)\<rparr>"
    by (auto simp: ConsumeBonusQuota_def split: option.splits)
  from find_SomeD [OF b] have bin: "b \<in> set (db_bonus d)" "?Q b" by auto
  have f: "find (is_bonus user lab) (db_bonus d) = Some b"
    by (rule find_bonus [OF assms(1)]) (use bin in auto)
  have "find (is_bonus user lab) (update_where ?Q ?f (db_bonus d)) = Some (?f b)"
    by (subst find_update_where) (use f bin in \<open>auto simp: is_bonus_def\<close>)
  with f bin rem show ?thesis by (simp add: GetBonusQuota_def d')
qed

section \<open>Nonces and job creation\<close>

definition ReserveNonce :: "string \<Rightarrow> db \<Rightarrow> bool \<times> db" where
  "ReserveNonce nonce d =
     (if nonce \<in> set (db_nonces d) then (False, d) else (True, d\<lparr>db_nonces := db_nonces d @ [nonce]\<rparr>))"

definition new_job :: "time \<Rightarrow> uuid \<Rightarrow> uuid \<Rightarrow> job_row" where
  "new_job now j i =
     \<lparr>job_id = j, job_sub = i, job_status = JQueued, job_attempts = 0, job_available = now,
      job_worker = None, job_error = None, job_started = None, job_finished = None,
      job_created = now, job_updated = now\<rparr>"

lemma new_job_simps [simp]:
  "job_id (new_job now j i) = j" "job_sub (new_job now j i) = i" "job_status (new_job now j i) = JQueued"
  "job_attempts (new_job now j i) = 0" "job_worker (new_job now j i) = None"
  "job_available (new_job now j i) = now" "job_created (new_job now j i) = now"
  by (simp_all add: new_job_def)

definition CreateEvaluationJob :: "time \<Rightarrow> uuid \<Rightarrow> db \<Rightarrow> db_error + (job_row \<times> db)" where
  "CreateEvaluationJob now i d =
     (if i \<notin> sub_id ` set (db_subs d) then Inl ForeignKeyViolation
      else if i \<in> job_sub ` set (db_jobs d) then Inl UniqueViolation
      else (let j = Suc (db_uuid_seq d);
                r = new_job now j i
            in Inr (r, d\<lparr>db_jobs := db_jobs d @ [r], db_uuid_seq := j\<rparr>)))"

interpretation db_nonce: nonce_store ReserveNonce "\<lambda>d. set (db_nonces d)"
  by unfold_locales (auto simp: ReserveNonce_def)

end
