(* ===== verification/Environment.thy ===== *)
theory Environment
  imports Go_Json Go_Float
begin

text \<open>
  Code outside the repository that the services call, gathered in one record that the definitions
  take as an argument: Ed25519 and SHA-256, the SSH key formats, the tar/gzip writer, float parsing,
  and what the platform's float-to-int conversion yields outside int64. The encodings the program
  applies to their results (hexadecimal and unpadded base64) are defined here.
\<close>

record env =
  env_ed_verify :: "string \<Rightarrow> string \<Rightarrow> string \<Rightarrow> bool"
  env_sha256 :: "string \<Rightarrow> string"
  env_ssh_parse :: "string \<Rightarrow> string option"
  env_ssh_marshal :: "string \<Rightarrow> string option"
  env_targz :: "(string \<times> string) list \<Rightarrow> string option"
  env_parse_float :: "string \<Rightarrow> parsed_float option"
  env_conv_overflow :: int

definition hex_text :: "string \<Rightarrow> string" where
  "hex_text s = concat (map (\<lambda>c. [hex_digit (of_char c div 16), hex_digit (of_char c mod 16)]) s)"

definition b64_char :: "nat \<Rightarrow> char" where
  "b64_char v =
     (if v < 26 then char_of (65 + v)
      else if v < 52 then char_of (71 + v)
      else if v < 62 then char_of (v - 4)
      else if v = 62 then CHR ''+'' else CHR ''/'')"

fun base64_raw :: "nat list \<Rightarrow> string" where
  "base64_raw [] = []"
| "base64_raw [a] = [b64_char (a div 4), b64_char (a mod 4 * 16)]"
| "base64_raw [a, b] =
     [b64_char (a div 4), b64_char (a mod 4 * 16 + b div 16), b64_char (b mod 16 * 4)]"
| "base64_raw (a # b # c # s) =
     [b64_char (a div 4), b64_char (a mod 4 * 16 + b div 16),
      b64_char (b mod 16 * 4 + c div 64), b64_char (c mod 64)] @ base64_raw s"

text \<open>\<^verbatim>\<open>base64.StdEncoding\<close>, with padding.\<close>

definition base64_encode :: "string \<Rightarrow> string" where
  "base64_encode s = base64_raw (map of_char s) @ replicate ((3 - length s mod 3) mod 3) (CHR ''='')"

text \<open>\<^verbatim>\<open>auth.PublicKeyFingerprint\<close> and \<^verbatim>\<open>auth.AuthorizedKeyFingerprint\<close>.\<close>

definition PublicKeyFingerprint :: "env \<Rightarrow> string \<Rightarrow> string" where
  "PublicKeyFingerprint e pub =
     ''SHA256:'' @ base64_raw (map of_char
        (env_sha256 e (case env_ssh_marshal e pub of None \<Rightarrow> pub | Some b \<Rightarrow> b)))"

text \<open>\<^verbatim>\<open>parseAuthorizedKey\<close>: the Ed25519 key of an authorized-key line, if it is one.\<close>

definition parseAuthorizedKey :: "env \<Rightarrow> string \<Rightarrow> string option" where
  "parseAuthorizedKey e raw = env_ssh_parse e (trim_space raw)"

definition AuthorizedKeyFingerprint :: "env \<Rightarrow> string \<Rightarrow> string option" where
  "AuthorizedKeyFingerprint e raw = map_option (PublicKeyFingerprint e) (parseAuthorizedKey e raw)"

lemma length_hex_text [simp]: "length (hex_text s) = 2 * length s"
  by (induction s) (simp_all add: hex_text_def)

text \<open>
  A concrete environment for witnesses: a signature is the message itself, a digest the first four
  bytes of the input (short digests keep evaluation cheap), a key its own line.
\<close>

definition demo_env :: env where
  "demo_env =
     \<lparr>env_ed_verify = (\<lambda>pub msg sig. sig = msg),
      env_sha256 = (\<lambda>s. take 4 s),
      env_ssh_parse = (\<lambda>s. if length s = 32 then Some s else None),
      env_ssh_marshal = Some,
      env_targz = (\<lambda>fs. Some (concat (map (\<lambda>(n, c). n @ c) fs))),
      env_parse_float = (\<lambda>s. if s = ''1'' then Some (ParsedFloat (Fin 1)) else None),
      env_conv_overflow = - 9223372036854775808\<rparr>"

end
