(* ===== verification/Db_Keys.thy ===== *)
theory Db_Keys
  imports Environment Db_Submissions
begin

text \<open>
  Users and user keys (\<^verbatim>\<open>db/queries/auth.sql\<close>) and the key lookup that the submission and personal
  services share: by the fingerprint column, then by scanning active keys without one, which
  back-fills the column.
\<close>

definition active_key :: "key_row \<Rightarrow> bool" where
  "active_key k = (k_revoked k = None)"

definition GetUserKeyByFingerprint_query :: "string option \<Rightarrow> db \<Rightarrow> db_error + key_row" where
  "GetUserKeyByFingerprint_query fp d =
     one (find (\<lambda>k. fp \<noteq> None \<and> k_fingerprint k = fp \<and> active_key k) (db_keys d))"

definition GetUserKeyByID :: "int \<Rightarrow> db \<Rightarrow> db_error + key_row" where
  "GetUserKeyByID i d = one (find (\<lambda>k. k_id k = i \<and> active_key k) (db_keys d))"

definition ListActiveUserKeys :: "db \<Rightarrow> key_row list" where
  "ListActiveUserKeys d = sort_stable (\<lambda>a b. k_created a > k_created b) (filter active_key (db_keys d))"

definition ListUserKeys :: "int \<Rightarrow> db \<Rightarrow> key_row list" where
  "ListUserKeys user d =
     sort_stable (\<lambda>a b. k_created a > k_created b) (filter (\<lambda>k. k_user k = user \<and> active_key k) (db_keys d))"

text \<open>The unique index on active fingerprints makes the update fail; the caller ignores the error.\<close>

definition UpdateUserKeyFingerprint :: "int \<Rightarrow> string option \<Rightarrow> db \<Rightarrow> db_error + db" where
  "UpdateUserKeyFingerprint i fp d =
     (if fp \<noteq> None \<and> (\<exists>k \<in> set (db_keys d). k_id k \<noteq> i \<and> active_key k \<and> k_fingerprint k = fp) \<and>
         (\<exists>k \<in> set (db_keys d). k_id k = i \<and> active_key k \<and> k_fingerprint k = None)
      then Inl UniqueViolation
      else Inr (d\<lparr>db_keys := update_where (\<lambda>k. k_id k = i \<and> k_fingerprint k = None)
                    (\<lambda>k. k\<lparr>k_fingerprint := fp\<rparr>) (db_keys d)\<rparr>))"

definition DeleteUserKey :: "time \<Rightarrow> int \<Rightarrow> int \<Rightarrow> db \<Rightarrow> db" where
  "DeleteUserKey now i user d =
     d\<lparr>db_keys := update_where (\<lambda>k. k_id k = i \<and> k_user k = user \<and> active_key k)
         (\<lambda>k. k\<lparr>k_revoked := Some now\<rparr>) (db_keys d)\<rparr>"

text \<open>The scan of \<^verbatim>\<open>repo.GetUserKeyByFingerprint\<close> over the active keys.\<close>

fun scan_keys :: "env \<Rightarrow> string \<Rightarrow> key_row list \<Rightarrow> key_row option" where
  "scan_keys e fp [] = None"
| "scan_keys e fp (k # ks) =
     (if (case k_fingerprint k of None \<Rightarrow> False | Some f \<Rightarrow> \<not> blank f) then scan_keys e fp ks
      else (case parseAuthorizedKey e (k_public k) of
              None \<Rightarrow> scan_keys e fp ks
            | Some pub \<Rightarrow> if PublicKeyFingerprint e pub = fp then Some k else scan_keys e fp ks))"

definition repo_GetUserKeyByFingerprint :: "env \<Rightarrow> string \<Rightarrow> db \<Rightarrow> (db_error + key_row) \<times> db" where
  "repo_GetUserKeyByFingerprint e fp d =
     (let ft = (if \<not> blank fp then Some fp else None)
      in case GetUserKeyByFingerprint_query ft d of
           Inr k \<Rightarrow> (Inr k, d)
         | Inl err \<Rightarrow>
             (if err \<noteq> NoRows then (Inl err, d)
              else (case scan_keys e fp (ListActiveUserKeys d) of
                      None \<Rightarrow> (Inl NoRows, d)
                    | Some k \<Rightarrow>
                        (Inr k, case UpdateUserKeyFingerprint (k_id k) ft d of Inl _ \<Rightarrow> d | Inr d' \<Rightarrow> d'))))"

lemma scan_keys_Some: "scan_keys e fp ks = Some k \<Longrightarrow> k \<in> set ks"
  by (induction ks) (auto split: if_splits option.splits)

text \<open>A key that the lookup returns is an active key of the database.\<close>

lemma repo_key_active:
  "repo_GetUserKeyByFingerprint e fp d = (Inr k, d') \<Longrightarrow> k \<in> set (db_keys d) \<and> active_key k"
  by (auto simp: repo_GetUserKeyByFingerprint_def GetUserKeyByFingerprint_query_def Let_def ListActiveUserKeys_def
      split: option.splits sum.splits if_splits dest!: find_SomeD scan_keys_Some)

text \<open>Only the keys table can change, and only its fingerprint column.\<close>

definition same_but_fingerprints :: "db \<Rightarrow> db \<Rightarrow> bool" where
  "same_but_fingerprints d d' \<longleftrightarrow> (\<exists>ks. d' = d\<lparr>db_keys := ks\<rparr> \<and>
     map (\<lambda>k. k\<lparr>k_fingerprint := None\<rparr>) ks = map (\<lambda>k. k\<lparr>k_fingerprint := None\<rparr>) (db_keys d))"

lemma same_but_fingerprints_refl [simp]: "same_but_fingerprints d d"
  by (auto simp: same_but_fingerprints_def intro: exI [of _ "db_keys d"])

lemma UpdateUserKeyFingerprint_frame:
  assumes "UpdateUserKeyFingerprint i ft d = Inr d'"
  shows "same_but_fingerprints d d'"
proof -
  from assms have d': "d' = d\<lparr>db_keys := update_where (\<lambda>k. k_id k = i \<and> k_fingerprint k = None)
      (\<lambda>k. k\<lparr>k_fingerprint := ft\<rparr>) (db_keys d)\<rparr>"
    by (simp add: UpdateUserKeyFingerprint_def split: if_splits)
  show ?thesis
    unfolding same_but_fingerprints_def d'
    by (rule exI [of _ "update_where (\<lambda>k. k_id k = i \<and> k_fingerprint k = None)
      (\<lambda>k. k\<lparr>k_fingerprint := ft\<rparr>) (db_keys d)"], rule conjI [OF refl], rule map_update_where) simp
qed

lemma repo_key_frame:
  "repo_GetUserKeyByFingerprint e fp d = (r, d') \<Longrightarrow> same_but_fingerprints d d'"
  by (auto simp: repo_GetUserKeyByFingerprint_def Let_def split: option.splits sum.splits if_splits
      dest: UpdateUserKeyFingerprint_frame)

lemma same_but_fingerprints_D:
  assumes "same_but_fingerprints d d'"
  shows "db_subs d' = db_subs d" "db_jobs d' = db_jobs d" "db_bonus d' = db_bonus d"
    "db_nonces d' = db_nonces d" "db_labs d' = db_labs d" "db_users d' = db_users d"
    "db_scores d' = db_scores d" "db_board d' = db_board d" "db_uuid_seq d' = db_uuid_seq d"
    "k_id ` set (db_keys d') = k_id ` set (db_keys d)"
proof -
  from assms obtain ks where d': "d' = d\<lparr>db_keys := ks\<rparr>"
    and eq: "map (\<lambda>k. k\<lparr>k_fingerprint := None\<rparr>) ks = map (\<lambda>k. k\<lparr>k_fingerprint := None\<rparr>) (db_keys d)"
    by (auto simp: same_but_fingerprints_def)
  from eq have "map k_id (map (\<lambda>k. k\<lparr>k_fingerprint := None\<rparr>) ks) =
      map k_id (map (\<lambda>k. k\<lparr>k_fingerprint := None\<rparr>) (db_keys d))" by simp
  then have "map k_id ks = map k_id (db_keys d)" by (simp add: comp_def)
  from arg_cong [OF this, of set] show "k_id ` set (db_keys d') = k_id ` set (db_keys d)"
    by (simp add: d')
qed (use assms in \<open>auto simp: same_but_fingerprints_def\<close>)

end
