(* ===== verification/Quota.thy ===== *)
theory Quota
  imports Db_Submissions
begin

text \<open>
  \<^verbatim>\<open>submissions/quota.go\<close> and the quota window of \<^verbatim>\<open>submissions/service.go\<close>: the calendar day of the
  quota location as a half-open interval of instants, the quota summary shown to students, and the
  in-memory count of used submissions.
\<close>

section \<open>The window\<close>

definition quotaWindowForTime :: "time \<Rightarrow> location \<Rightarrow> time \<times> time" where
  "quotaWindowForTime now l =
     (let civil = local_civil l now;
          start = go_date l (day * (civil div day))
      in (start, go_date l (local_civil l start + day)))"

definition defaultQuotaLocation :: "location option \<Rightarrow> location" where
  "defaultQuotaLocation loaded =
     (case loaded of Some l \<Rightarrow> l | None \<Rightarrow> fixed_zone ''Asia/Shanghai'' (8 * hour))"

definition quotaLocationName :: "location option \<Rightarrow> string" where
  "quotaLocationName lo =
     (case lo of
        None \<Rightarrow> ''Asia/Shanghai''
      | Some l \<Rightarrow> if blank (loc_name l) then ''Asia/Shanghai'' else loc_name l)"

definition ResetHintForLocation :: "location option \<Rightarrow> string" where
  "ResetHintForLocation lo = ''00:00 '' @ quotaLocationName lo"

section \<open>Summaries and counting\<close>

record quota_summary =
  qs_daily :: int
  qs_used :: int
  qs_left :: int
  qs_hint :: string
  qs_bonus :: "int option"

definition BuildQuotaSummaryWithBonus :: "manifest option \<Rightarrow> int \<Rightarrow> int \<Rightarrow> location option \<Rightarrow> quota_summary option" where
  "BuildQuotaSummaryWithBonus mo used bonusRemaining lo =
     (case mo of
        None \<Rightarrow> None
      | Some m \<Rightarrow>
          (if quota_daily (m_quota m) \<le> 0 then None
           else (let left = quota_daily (m_quota m) - used;
                     left' = (if left < 0 then 0 else left)
                 in Some \<lparr>qs_daily = quota_daily (m_quota m), qs_used = used, qs_left = left',
                          qs_hint = ResetHintForLocation lo,
                          qs_bonus = (if bonusRemaining > 0 then Some bonusRemaining else None)\<rparr>)))"

definition BuildQuotaSummary :: "manifest option \<Rightarrow> int \<Rightarrow> location option \<Rightarrow> quota_summary option" where
  "BuildQuotaSummary mo used lo = BuildQuotaSummaryWithBonus mo used 0 lo"

definition withinQuotaWindow :: "time \<Rightarrow> time \<Rightarrow> time \<Rightarrow> bool" where
  "withinQuotaWindow t start stop \<longleftrightarrow> \<not> t < start \<and> t < stop"

fun CountQuotaUsage :: "sub_row list \<Rightarrow> time \<Rightarrow> time \<Rightarrow> nat" where
  "CountQuotaUsage [] start stop = 0"
| "CountQuotaUsage (r # rs) start stop =
     (if sub_quota r \<noteq> QPending \<and> sub_quota r \<noteq> QCharged then CountQuotaUsage rs start stop
      else if \<not> withinQuotaWindow (sub_created r) start stop then CountQuotaUsage rs start stop
      else Suc (CountQuotaUsage rs start stop))"

text \<open>The hint of a row without an id is nil.\<close>

definition LatestSubmissionHintFromRow :: "sub_row \<Rightarrow> (string \<times> time) option" where
  "LatestSubmissionHintFromRow r = (if sub_id r = 0 then None else Some (sub_hash r, sub_created r))"

section \<open>The window is the day\<close>

text \<open>The offset is the same at every instant within two days of \<open>t\<close>: no transition is near.\<close>

definition steady :: "location \<Rightarrow> duration \<Rightarrow> time \<Rightarrow> bool" where
  "steady l off t \<longleftrightarrow> \<bar>off\<bar> \<le> day \<and> (\<forall>u. \<bar>u - t\<bar> \<le> 3 * day \<longrightarrow> loc_offset l u = off)"

lemma steady_fixed: "\<bar>off\<bar> \<le> day \<Longrightarrow> steady (fixed_zone n off) off t"
  by (simp add: steady_def fixed_zone_def)

lemma window_steady:
  assumes "steady l off now"
  shows "quotaWindowForTime now l =
    (day * ((now + off) div day) - off, day * ((now + off) div day) - off + day)"
proof -
  let ?m = "day * ((now + off) div day)"
  have lo: "?m \<le> now + off" and hi: "now + off < ?m + day" by (rule day_floor)+
  have off: "\<bar>off\<bar> \<le> day" and at: "\<And>u. \<bar>u - now\<bar> \<le> 3 * day \<Longrightarrow> loc_offset l u = off"
    using assms by (auto simp: steady_def)
  have "loc_offset l now = off" "loc_offset l ?m = off" "loc_offset l (?m - off) = off"
    "loc_offset l (?m + day) = off" "loc_offset l (?m + day - off) = off"
    by (rule at; use lo hi off day_pos in linarith)+
  then show ?thesis
    by (simp add: quotaWindowForTime_def Let_def go_date_def local_civil_def)
qed

text \<open>Away from offset transitions the quota window is the local calendar day: it is 24 hours
  long, contains the instant it was computed for, starts at local midnight, and every instant
  inside it with the same offset has the same window.\<close>

theorem quota_window_is_day:
  assumes "steady l off now" and "quotaWindowForTime now l = (start, stop)"
  shows "start \<le> now \<and> now < stop \<and> stop = start + day \<and> (start + off) mod day = 0 \<and>
    (\<forall>t. start \<le> t \<longrightarrow> t < stop \<longrightarrow> steady l off t \<longrightarrow> quotaWindowForTime t l = (start, stop))"
proof -
  let ?m = "day * ((now + off) div day)"
  from assms have s: "start = ?m - off" "stop = ?m - off + day"
    by (simp_all add: window_steady)
  have "?m \<le> now + off" "now + off < ?m + day" by (rule day_floor)+
  moreover have "quotaWindowForTime t l = (start, stop)"
    if "start \<le> t" "t < stop" "steady l off t" for t
  proof -
    have "(t + off) div day = (now + off) div day"
      by (rule int_div_pos_eq [of _ _ _ "t + off - ?m"]) (use that s in linarith)+
    with that s show ?thesis by (simp add: window_steady)
  qed
  ultimately show ?thesis using s by simp
qed

theorem quota_window_is_day_witness:
  "let l = defaultQuotaLocation None; (start, stop) = quotaWindowForTime (100 * day) l
   in start = 100 * day - 8 * hour \<and> stop = start + day"
proof -
  let ?l = "defaultQuotaLocation None"
  have st: "steady ?l (8 * hour) (100 * day)"
    unfolding defaultQuotaLocation_def by (simp add: steady_fixed duration_defs)
  obtain a b where ab: "quotaWindowForTime (100 * day) ?l = (a, b)" by fastforce
  from quota_window_is_day [OF st ab] have "b = a + day" by simp
  moreover have "a = 100 * day - 8 * hour"
    using ab by (simp add: window_steady [OF st]) (simp add: duration_defs)
  ultimately show ?thesis by (simp add: ab)
qed

section \<open>The two ways of counting agree\<close>

lemma CountQuotaUsage_count:
  "CountQuotaUsage rs start stop =
   count_where (\<lambda>r. sub_quota r \<in> {QPending, QCharged} \<and> start \<le> sub_created r \<and> sub_created r < stop) rs"
  by (induction rs start stop rule: CountQuotaUsage.induct) (auto simp: withinQuotaWindow_def)

lemma count_where_mset: "mset xs = mset ys \<Longrightarrow> count_where P xs = count_where P ys"
  by (metis count_where_def mset_filter size_mset)

lemma count_where_filter: "count_where P (filter Q xs) = count_where (\<lambda>x. Q x \<and> P x) xs"
  by (induction xs) auto

text \<open>The count that the history page makes in memory over the rows of a student and lab is the
  count that the database makes for the intake, for every window.\<close>

theorem CountQuotaUsage_agrees:
  "CountQuotaUsage (ListSubmissionsByUserLab user lab d) start stop =
   CountSubmissionQuotaUsage user lab start stop d"
proof -
  let ?P = "\<lambda>r. sub_quota r \<in> {QPending, QCharged} \<and> start \<le> sub_created r \<and> sub_created r < stop"
  let ?rs = "filter (\<lambda>r. sub_user r = user \<and> sub_lab r = lab) (db_subs d)"
  have "count_where ?P (ListSubmissionsByUserLab user lab d) = count_where ?P ?rs"
    by (rule count_where_mset) (simp add: ListSubmissionsByUserLab_def)
  also have "\<dots> = count_where (counts_for user lab start stop) (db_subs d)"
    by (simp add: count_where_filter counts_for_def [abs_def] conj_ac)
  finally show ?thesis
    by (simp add: CountQuotaUsage_count CountSubmissionQuotaUsage_def)
qed

end
