(* ===== verification/Submissions.thy ===== *)
theory Submissions
  imports Db_Keys Quota
begin

text \<open>
  \<^verbatim>\<open>apps/api/internal/service/submissions/service.go\<close>: intake of a signed submission and the submit
  precheck. The world is the database and the artifact store. The intake reads the clock three
  times; the transaction's \<^verbatim>\<open>NOW()\<close> is the database's. Which calls to the database or the store fail is
  an argument, so every early return is a branch: a transaction that does not commit leaves the
  database as it was when it began, and the deferred function deletes an artifact already saved.
\<close>

datatype intake_error =
    LabNotFound
  | MissingFiles
  | SigInvalid
  | LabClosed
  | InvalidSubmission
  | SubmissionTooLarge
  | DailyQuotaExceeded int int
  | ReplayedNonce
  | StaleTimestamp
  | ManifestUndecodable
  | ArchiveFailed
  | PersistArtifactFailed
  | DbFailed db_error
  | WithDeleteError intake_error

section \<open>File validation\<close>

definition size_of_float :: "env \<Rightarrow> int \<Rightarrow> parsed_float \<Rightarrow> int option" where
  "size_of_float e scale v =
     (case v of
        ParsedNaN \<Rightarrow> Some (env_conv_overflow e)
      | ParsedFloat (Fin r) \<Rightarrow>
          (if r \<le> 0 then None
           else (case mul_f64 r (of_int scale) of
                   Fin q \<Rightarrow>
                     (if q > 9223372036854775808 then None
                      else if q = 9223372036854775808 then Some (env_conv_overflow e)
                      else Some \<lfloor>q\<rfloor>)
                 | _ \<Rightarrow> None))
      | ParsedFloat _ \<Rightarrow> None)"

text \<open>The unit loop: the first suffix that matches decides.\<close>

fun parse_units :: "env \<Rightarrow> string \<Rightarrow> (string \<times> int) list \<Rightarrow> int option" where
  "parse_units e s [] = None"
| "parse_units e s ((suffix, scale) # us) =
     (if \<not> has_suffix s suffix then parse_units e s us
      else (let part = trim_space (trim_suffix s suffix)
            in if part = [] then None
               else (case env_parse_float e part of None \<Rightarrow> None | Some v \<Rightarrow> size_of_float e scale v)))"

definition parseMaxSize :: "env \<Rightarrow> string \<Rightarrow> int option" where
  "parseMaxSize e raw =
     (let s = to_upper (trim_space raw)
      in if s = [] then None
         else parse_units e s [(''GB'', 1000000000), (''MB'', 1000000), (''KB'', 1000), (''B'', 1)])"

definition clean_name :: "string \<Rightarrow> bool" where
  "clean_name n \<longleftrightarrow> trim_space n = n \<and> n \<noteq> [] \<and> CHR ''/'' \<notin> set n \<and> CHR 0x5C \<notin> set n"

fun check_files :: "string list \<Rightarrow> int \<Rightarrow> string list \<Rightarrow> (string \<times> string) list \<Rightarrow> intake_error + string list" where
  "check_files expected limit seen [] = Inr seen"
| "check_files expected limit seen ((name, content) # fs) =
     (if trim_space name \<noteq> name then Inl InvalidSubmission
      else if name = [] \<or> CHR ''/'' \<in> set name \<or> CHR 0x5C \<in> set name then Inl InvalidSubmission
      else if name \<notin> set expected then Inl InvalidSubmission
      else if name \<in> set seen then Inl InvalidSubmission
      else if int (length content) > limit then Inl SubmissionTooLarge
      else check_files expected limit (name # seen) fs)"

definition validateFiles ::
  "env \<Rightarrow> string list \<Rightarrow> string \<Rightarrow> (string \<times> string) list \<Rightarrow> intake_error + unit" where
  "validateFiles e expected maxSize files =
     (if files = [] then Inl MissingFiles
      else (case parseMaxSize e maxSize of
              None \<Rightarrow> Inl InvalidSubmission
            | Some limit \<Rightarrow>
                bindR (check_files expected limit [] files) (\<lambda>seen.
                  if \<exists>r \<in> set expected. r \<notin> set seen then Inl MissingFiles else Inr ())))"

section \<open>Lab, archive and artifact key\<close>

definition labOpen :: "schedule_section \<Rightarrow> time \<Rightarrow> bool" where
  "labOpen sc now =
     (if \<not> is_zero (sch_open sc) \<and> now < sch_open sc then False
      else if \<not> is_zero (sch_close sc) \<and> now > sch_close sc then False
      else True)"

text \<open>\<^verbatim>\<open>storage.Archive\<close>: files sorted by name, written as tar.gz, with the digest of the archive.\<close>

definition Archive :: "env \<Rightarrow> (string \<times> string) list \<Rightarrow> (string \<times> string) option" where
  "Archive e files =
     map_option (\<lambda>a. (a, hex_text (env_sha256 e a)))
       (env_targz e (sort_stable (\<lambda>a b. fst a < fst b) files))"

definition buildArtifactKey :: "env \<Rightarrow> string \<Rightarrow> int \<Rightarrow> string list \<Rightarrow> string \<Rightarrow> string" where
  "buildArtifactKey e labID userID fileNames contentHash =
     labID @ ''/'' @ int_text userID @ ''/''
     @ hex_text (take 8 (env_sha256 e (join_with [LF] (sort fileNames)))) @ ''-''
     @ take 16 contentHash @ ''.tar.gz''"

record submit_input =
  in_lab :: string
  in_fingerprint :: string
  in_timestamp :: time
  in_nonce :: string
  in_signature :: string
  in_files :: "(string \<times> string) list"

record submission =
  out_id :: uuid
  out_status :: submission_status
  out_artifact :: string
  out_hash :: string
  out_quota :: "quota_summary option"

record world =
  w_db :: db
  w_art :: "string \<Rightarrow> string option"

text \<open>The calls of an intake that can fail, and what a failed write leaves at the artifact key.\<close>

datatype intake_call =
    IcGetLab | IcGetKey | IcBegin | IcLock | IcCount | IcConsume | IcSave | IcNonce | IcCreate
  | IcJob | IcCommit | IcDelete

record intake_faults =
  if_call :: "intake_call \<Rightarrow> bool"
  if_left :: "string option"

record intake_times =
  it_open :: time
  it_verify :: time
  it_window :: time
  it_db :: time

record prepared =
  pr_manifest :: manifest
  pr_key :: key_row
  pr_archive :: string
  pr_hash :: string
  pr_akey :: string

section \<open>Intake\<close>

text \<open>Everything before the transaction; only the key lookup can write (it back-fills a fingerprint).\<close>

definition intake_checks ::
  "env \<Rightarrow> intake_faults \<Rightarrow> intake_times \<Rightarrow> submit_input \<Rightarrow> db \<Rightarrow> (intake_error + prepared) \<times> db" where
  "intake_checks e flt t inp d =
     (case faulty (if_call flt IcGetLab) (GetLab (in_lab inp) d) of
        Inl NoRows \<Rightarrow> (Inl LabNotFound, d)
      | Inl err \<Rightarrow> (Inl (DbFailed err), d)
      | Inr lab \<Rightarrow>
     (case l_manifest lab of
        None \<Rightarrow> (Inl ManifestUndecodable, d)
      | Some m \<Rightarrow>
     (if \<not> labOpen (m_schedule m) (it_open t) then (Inl LabClosed, d)
      else case validateFiles e (slice_list (submit_files (m_submit m))) (max_size (m_submit m)) (in_files inp) of
        Inl err \<Rightarrow> (Inl err, d)
      | Inr _ \<Rightarrow>
     (if if_call flt IcGetKey then (Inl (DbFailed Unavailable), d)
      else case repo_GetUserKeyByFingerprint e (in_fingerprint inp) d of
        (Inl err, d1) \<Rightarrow> (Inl (DbFailed err), d1)
      | (Inr key, d1) \<Rightarrow>
     (case parseAuthorizedKey e (k_public key) of
        None \<Rightarrow> (Inl SigInvalid, d1)
      | Some pub \<Rightarrow>
     (case Archive e (in_files inp) of
        None \<Rightarrow> (Inl ArchiveFailed, d1)
      | Some (archive, h) \<Rightarrow>
     (let names = map fst (in_files inp);
          p = WithContentHash (NewPayload (in_lab inp) (in_timestamp inp) (in_nonce inp) names) h
      in case VerifySignature (env_ed_verify e) (it_verify t) 0 pub p (in_signature inp) of
           Inl ExpiredTimestamp \<Rightarrow> (Inl StaleTimestamp, d1)
         | Inl _ \<Rightarrow> (Inl SigInvalid, d1)
         | Inr _ \<Rightarrow>
             (Inr \<lparr>pr_manifest = m, pr_key = key, pr_archive = archive, pr_hash = h,
                   pr_akey = buildArtifactKey e (in_lab inp) (k_user key) names h\<rparr>, d1))))))))"

text \<open>\<^verbatim>\<open>checkDailyQuota\<close>: rows used in the window, and whether the day's quota is exhausted.\<close>

definition checkDailyQuota ::
  "bool \<Rightarrow> manifest \<Rightarrow> int \<Rightarrow> string \<Rightarrow> time \<Rightarrow> time \<Rightarrow> db \<Rightarrow> db_error + (int \<times> bool)" where
  "checkDailyQuota fault m user lab start stop d =
     (if quota_daily (m_quota m) \<le> 0 then Inr (0, False)
      else bindR (faulty fault (Inr (int (CountSubmissionQuotaUsage user lab start stop d))))
             (\<lambda>used. Inr (used, used \<ge> quota_daily (m_quota m))))"

text \<open>The quota decision inside the transaction: used before, whether a bonus was spent, what remains.\<close>

definition take_quota ::
  "intake_faults \<Rightarrow> time \<Rightarrow> manifest \<Rightarrow> int \<Rightarrow> string \<Rightarrow> time \<Rightarrow> time \<Rightarrow> db \<Rightarrow>
   intake_error + (int \<times> bool \<times> int \<times> db)" where
  "take_quota flt dbnow m user lab start stop d =
     (case checkDailyQuota (if_call flt IcCount) m user lab start stop d of
        Inl err \<Rightarrow> Inl (DbFailed err)
      | Inr (used, exhausted) \<Rightarrow>
          (if \<not> exhausted then Inr (used, False, 0, d)
           else (case faulty (if_call flt IcConsume) (ConsumeBonusQuota dbnow user lab d) of
                   Inl NoRows \<Rightarrow> Inl (DailyQuotaExceeded (quota_daily (m_quota m)) used)
                 | Inl err \<Rightarrow> Inl (DbFailed err)
                 | Inr (remaining, d') \<Rightarrow> Inr (used, True, remaining, d'))))"

text \<open>The rows written after the artifact is saved: nonce, submission, job, commit.\<close>

definition record_submission ::
  "intake_faults \<Rightarrow> time \<Rightarrow> submit_input \<Rightarrow> prepared \<Rightarrow> bool \<Rightarrow> db \<Rightarrow> intake_error + (sub_row \<times> db)" where
  "record_submission flt dbnow inp p bonusUsed d =
     (if if_call flt IcNonce then Inl (DbFailed Unavailable)
      else (let (reserved, d1) = ReserveNonce (in_nonce inp) d
            in if \<not> reserved then Inl ReplayedNonce
               else (let create = (if bonusUsed then CreateBonusSubmission else CreateSubmission)
                     in mapErr DbFailed
                          (bindR (faulty (if_call flt IcCreate)
                             (create dbnow (k_user (pr_key p)) (in_lab inp) (k_id (pr_key p))
                                (pr_akey p) (pr_hash p) SsQueued d1)) (\<lambda>(row, d2).
                           bindR (faulty (if_call flt IcJob) (CreateEvaluationJob dbnow (sub_id row) d2)) (\<lambda>(j, d3).
                           faulty (if_call flt IcCommit) (Inr (row, d3))))))))"

text \<open>The transaction: its outcome, the artifact store, and whether the artifact had been saved.\<close>

definition intake_tx ::
  "intake_faults \<Rightarrow> intake_times \<Rightarrow> location \<Rightarrow> submit_input \<Rightarrow> prepared \<Rightarrow> world \<Rightarrow>
   (intake_error + (submission \<times> db)) \<times> (string \<Rightarrow> string option) \<times> bool" where
  "intake_tx flt t l inp p w =
     (let art = w_art w; user = k_user (pr_key p); (start, stop) = quotaWindowForTime (it_window t) l
      in if if_call flt IcBegin \<or> if_call flt IcLock then (Inl (DbFailed Unavailable), art, False)
         else (case take_quota flt (it_db t) (pr_manifest p) user (in_lab inp) start stop (w_db w) of
                 Inl err \<Rightarrow> (Inl err, art, False)
               | Inr (used, bonusUsed, remaining, d1) \<Rightarrow>
            (if if_call flt IcSave
             then (Inl PersistArtifactFailed, art(pr_akey p := if_left flt), False)
             else (let art' = art(pr_akey p := Some (pr_archive p))
                   in case record_submission flt (it_db t) inp p bonusUsed d1 of
                        Inl err \<Rightarrow> (Inl err, art', True)
                      | Inr (row, d2) \<Rightarrow>
                          (Inr (\<lparr>out_id = sub_id row, out_status = sub_status row,
                                 out_artifact = sub_artifact row, out_hash = sub_hash row,
                                 out_quota = BuildQuotaSummaryWithBonus (Some (pr_manifest p))
                                   (if bonusUsed then used else used + 1) remaining (Some l)\<rparr>, d2),
                           art', False)))))"

definition Intake ::
  "env \<Rightarrow> intake_faults \<Rightarrow> intake_times \<Rightarrow> location \<Rightarrow> submit_input \<Rightarrow> world \<Rightarrow>
   (intake_error + submission) \<times> world" where
  "Intake e flt t l inp w =
     (case intake_checks e flt t inp (w_db w) of
        (Inl err, d1) \<Rightarrow> (Inl err, w\<lparr>w_db := d1\<rparr>)
      | (Inr p, d1) \<Rightarrow>
          (case intake_tx flt t l inp p (w\<lparr>w_db := d1\<rparr>) of
             (Inr (s, d2), art, _) \<Rightarrow> (Inr s, \<lparr>w_db = d2, w_art = art\<rparr>)
           | (Inl err, art, saved) \<Rightarrow>
               (if \<not> saved then (Inl err, \<lparr>w_db = d1, w_art = art\<rparr>)
                else if if_call flt IcDelete then (Inl (WithDeleteError err), \<lparr>w_db = d1, w_art = art\<rparr>)
                else (Inl err, \<lparr>w_db = d1, w_art = art(pr_akey p := None)\<rparr>))))"

section \<open>Precheck\<close>

datatype precheck_call = PcGetLab | PcCount | PcBonus | PcLatest

definition GetSubmitPrecheck ::
  "(precheck_call \<Rightarrow> bool) \<Rightarrow> time \<Rightarrow> location \<Rightarrow> int \<Rightarrow> string \<Rightarrow> db \<Rightarrow>
   intake_error + (quota_summary option \<times> (string \<times> time) option)" where
  "GetSubmitPrecheck flt now l user lab d =
     (case faulty (flt PcGetLab) (GetLab lab d) of
        Inl NoRows \<Rightarrow> Inl LabNotFound
      | Inl err \<Rightarrow> Inl (DbFailed err)
      | Inr row \<Rightarrow>
     (case l_manifest row of
        None \<Rightarrow> Inl ManifestUndecodable
      | Some m \<Rightarrow>
     (let (start, stop) = quotaWindowForTime now l
      in if flt PcCount then Inl (DbFailed Unavailable)
         else (let used = int (CountSubmissionQuotaUsage user lab start stop d)
               in case faulty (flt PcBonus)
                         (case GetBonusQuota user lab d of
                            Inl err \<Rightarrow> if err = NoRows then Inr 0 else Inl err
                          | Inr n \<Rightarrow> Inr n) of
                    Inl err \<Rightarrow> Inl (DbFailed err)
                  | Inr bonus \<Rightarrow>
                      (let q = BuildQuotaSummaryWithBonus (Some m) used bonus (Some l)
                       in case faulty (flt PcLatest) (GetLatestSubmissionByUserLab user lab d) of
                            Inl NoRows \<Rightarrow> Inr (q, None)
                          | Inl err \<Rightarrow> Inl (DbFailed err)
                          | Inr r \<Rightarrow> Inr (q, LatestSubmissionHintFromRow r))))))"

section \<open>Accepted files\<close>

lemma check_files_Inr:
  "check_files expected limit seen fs = Inr out \<longleftrightarrow>
   out = rev (map fst fs) @ seen \<and> distinct (map fst fs) \<and> set (map fst fs) \<inter> set seen = {} \<and>
   (\<forall>(n, c) \<in> set fs. clean_name n \<and> n \<in> set expected \<and> int (length c) \<le> limit)"
proof (induction fs arbitrary: seen)
  case (Cons f fs)
  obtain n c where f: "f = (n, c)" by (cases f)
  show ?case
    unfolding f by (simp add: Cons.IH clean_name_def) blast
qed auto

text \<open>C13. The files of a submission are accepted exactly when the size limit of the manifest parses and
  the uploaded names are, without duplicates, the names the manifest asks for, each of them free of
  path separators and surrounding white space and each content within the limit.\<close>

theorem validateFiles_iff:
  "validateFiles e expected maxSize files = Inr () \<longleftrightarrow>
   files \<noteq> [] \<and> distinct (map fst files) \<and> set (map fst files) = set expected \<and>
   list_all clean_name (map fst files) \<and>
   (case parseMaxSize e maxSize of
      None \<Rightarrow> False
    | Some limit \<Rightarrow> list_all (\<lambda>f. int (length (snd f)) \<le> limit) files)"
  by (auto simp: validateFiles_def check_files_Inr list_all_iff case_prod_beta
      split: option.splits if_splits)

section \<open>What an intake did\<close>

lemma take_quota_Inr:
  assumes "take_quota flt dbnow m user lab start stop d = Inr (used, bonus, rem, d')"
  shows "(\<not> bonus \<and> rem = 0 \<and> d' = d \<and>
            (0 < quota_daily (m_quota m) \<longrightarrow>
               used = int (CountSubmissionQuotaUsage user lab start stop d) \<and> used < quota_daily (m_quota m)))
       \<or> (bonus \<and> ConsumeBonusQuota dbnow user lab d = Inr (rem, d') \<and>
            used = int (CountSubmissionQuotaUsage user lab start stop d) \<and>
            0 < quota_daily (m_quota m) \<and> quota_daily (m_quota m) \<le> used)"
  using assms
  by (auto simp: take_quota_def checkDailyQuota_def faulty_def split: sum.splits if_splits db_error.splits)

lemma record_submission_Inr:
  assumes "record_submission flt dbnow inp p bonus d = Inr (row, d')"
  shows "in_nonce inp \<notin> set (db_nonces d) \<and>
    row = \<lparr>sub_id = Suc (db_uuid_seq d), sub_user = k_user (pr_key p), sub_lab = in_lab inp,
           sub_key = k_id (pr_key p), sub_artifact = pr_akey p, sub_hash = pr_hash p,
           sub_status = SsQueued, sub_verdict = None, sub_message = None, sub_detail = None,
           sub_digest = None, sub_started = None, sub_finished = None, sub_created = dbnow,
           sub_quota = (if bonus then QBonus else QPending)\<rparr> \<and>
    d' = d\<lparr>db_nonces := db_nonces d @ [in_nonce inp], db_subs := db_subs d @ [row],
            db_jobs := db_jobs d @ [new_job dbnow (Suc (Suc (db_uuid_seq d))) (sub_id row)],
            db_uuid_seq := Suc (Suc (db_uuid_seq d))\<rparr>"
  using assms
  by (auto simp: record_submission_def Let_def ReserveNonce_def CreateBonusSubmission_def CreateSubmission_def
      insert_submission_def CreateEvaluationJob_def mapErr_def faulty_def bindR_def
      split: sum.splits if_splits)

lemma Intake_Inr:
  assumes "Intake e flt t l inp w = (Inr s, w')"
  obtains p d1 start stop used bonus rem d2 row d3 where
    "intake_checks e flt t inp (w_db w) = (Inr p, d1)"
    "quotaWindowForTime (it_window t) l = (start, stop)"
    "take_quota flt (it_db t) (pr_manifest p) (k_user (pr_key p)) (in_lab inp) start stop d1
       = Inr (used, bonus, rem, d2)"
    "record_submission flt (it_db t) inp p bonus d2 = Inr (row, d3)"
    "w' = \<lparr>w_db = d3, w_art = (w_art w)(pr_akey p := Some (pr_archive p))\<rparr>"
    "s = \<lparr>out_id = sub_id row, out_status = sub_status row, out_artifact = sub_artifact row,
          out_hash = sub_hash row,
          out_quota = BuildQuotaSummaryWithBonus (Some (pr_manifest p))
            (if bonus then used else used + 1) rem (Some l)\<rparr>"
proof -
  obtain start stop where win: "quotaWindowForTime (it_window t) l = (start, stop)" by fastforce
  from assms show thesis
    by (auto simp: Intake_def intake_tx_def Let_def win split: prod.splits sum.splits if_splits
        intro!: that [OF _ win])
qed

lemma intake_checks_frame:
  "intake_checks e flt t inp d = (r, d1) \<Longrightarrow> same_but_fingerprints d d1"
  by (auto simp: intake_checks_def Let_def split: sum.splits db_error.splits option.splits if_splits
      prod.splits auth_error.splits dest: repo_key_frame)

lemma intake_checks_Inr:
  assumes "intake_checks e flt t inp d = (Inr p, d1)"
  obtains lab pub where
    "GetLab (in_lab inp) d = Inr lab" "l_manifest lab = Some (pr_manifest p)"
    "labOpen (m_schedule (pr_manifest p)) (it_open t)"
    "validateFiles e (slice_list (submit_files (m_submit (pr_manifest p))))
       (max_size (m_submit (pr_manifest p))) (in_files inp) = Inr ()"
    "repo_GetUserKeyByFingerprint e (in_fingerprint inp) d = (Inr (pr_key p), d1)"
    "parseAuthorizedKey e (k_public (pr_key p)) = Some pub"
    "Archive e (in_files inp) = Some (pr_archive p, pr_hash p)"
    "VerifySignature (env_ed_verify e) (it_verify t) 0 pub
       (WithContentHash (NewPayload (in_lab inp) (in_timestamp inp) (in_nonce inp) (map fst (in_files inp)))
          (pr_hash p)) (in_signature inp) = Inr ()"
    "pr_akey p = buildArtifactKey e (in_lab inp) (k_user (pr_key p)) (map fst (in_files inp)) (pr_hash p)"
  using assms
  by (auto simp: intake_checks_def Let_def split: sum.splits db_error.splits option.splits if_splits
      prod.splits auth_error.splits)

lemma ConsumeBonusQuota_frame:
  "ConsumeBonusQuota now user lab d = Inr (rem, d') \<Longrightarrow>
   \<exists>bs. d' = d\<lparr>db_bonus := bs\<rparr>"
  by (auto simp: ConsumeBonusQuota_def split: option.splits)

lemma take_quota_frame:
  "take_quota flt dbnow m user lab start stop d = Inr (used, bonus, rem, d') \<Longrightarrow>
   \<exists>bs. d' = d\<lparr>db_bonus := bs\<rparr>"
  by (drule take_quota_Inr) (auto dest: ConsumeBonusQuota_frame intro: exI [of _ "db_bonus d"])

text \<open>C3. An accepted submission is recorded once and completely: one row, queued and counted against
  the day or paid by a bonus, one queued evaluation job for it, its nonce, which was new, and the
  archive of exactly the uploaded files at the artifact key of the row; earlier rows stay.\<close>

theorem Intake_records:
  assumes "Intake e flt t l inp w = (Inr s, w')"
  shows "\<exists>row job a.
    db_subs (w_db w') = db_subs (w_db w) @ [row] \<and> db_jobs (w_db w') = db_jobs (w_db w) @ [job] \<and>
    in_nonce inp \<notin> set (db_nonces (w_db w)) \<and> db_nonces (w_db w') = db_nonces (w_db w) @ [in_nonce inp] \<and>
    sub_id row = out_id s \<and> sub_lab row = in_lab inp \<and> sub_status row = SsQueued \<and>
    sub_quota row \<in> {QPending, QBonus} \<and> sub_created row = it_db t \<and> sub_hash row = out_hash s \<and>
    sub_artifact row = out_artifact s \<and> job_sub job = sub_id row \<and> job_status job = JQueued \<and>
    Archive e (in_files inp) = Some (a, out_hash s) \<and> w_art w' = (w_art w)(out_artifact s := Some a)"
  using assms
proof (rule Intake_Inr)
  fix p d1 start stop used bonus rem d2 row d3
  assume chk: "intake_checks e flt t inp (w_db w) = (Inr p, d1)"
    and tq: "take_quota flt (it_db t) (pr_manifest p) (k_user (pr_key p)) (in_lab inp) start stop d1
       = Inr (used, bonus, rem, d2)"
    and rs: "record_submission flt (it_db t) inp p bonus d2 = Inr (row, d3)"
    and w': "w' = \<lparr>w_db = d3, w_art = (w_art w)(pr_akey p := Some (pr_archive p))\<rparr>"
    and s: "s = \<lparr>out_id = sub_id row, out_status = sub_status row, out_artifact = sub_artifact row,
          out_hash = sub_hash row,
          out_quota = BuildQuotaSummaryWithBonus (Some (pr_manifest p))
            (if bonus then used else used + 1) rem (Some l)\<rparr>"
  note eqs = same_but_fingerprints_D [OF intake_checks_frame [OF chk]]
  obtain bs where d2: "d2 = d1\<lparr>db_bonus := bs\<rparr>"
    using take_quota_frame [OF tq] by blast
  have "Archive e (in_files inp) = Some (pr_archive p, pr_hash p)"
    by (rule intake_checks_Inr [OF chk])
  then show ?thesis
    using record_submission_Inr [OF rs] by (simp add: w' s d2 eqs)
qed

text \<open>C1. Nothing is accepted without authority: the lab exists and is open, its manifest's file rules
  hold, and the signature verifies, within the freshness window, under an unrevoked registered key
  over the lab, the time stamp, the nonce, the file names and the digest of the stored archive; the
  row is charged to that key and its owner.\<close>

theorem Intake_authentic:
  assumes "Intake e flt t l inp w = (Inr s, w')"
  shows "\<exists>lab m k pub.
    GetLab (in_lab inp) (w_db w) = Inr lab \<and> l_manifest lab = Some m \<and> labOpen (m_schedule m) (it_open t) \<and>
    validateFiles e (slice_list (submit_files (m_submit m))) (max_size (m_submit m)) (in_files inp) = Inr () \<and>
    k \<in> set (db_keys (w_db w)) \<and> k_revoked k = None \<and> parseAuthorizedKey e (k_public k) = Some pub \<and>
    env_ed_verify e pub (SigningBytes (WithContentHash
      (NewPayload (in_lab inp) (in_timestamp inp) (in_nonce inp) (map fst (in_files inp))) (out_hash s)))
      (in_signature inp) \<and>
    freshWithin (it_verify t) (in_timestamp inp) defaultSkew \<and>
    sub_user (last (db_subs (w_db w'))) = k_user k \<and> sub_key (last (db_subs (w_db w'))) = k_id k"
  using assms
proof (rule Intake_Inr)
  fix p d1 start stop used bonus rem d2 row d3
  assume chk: "intake_checks e flt t inp (w_db w) = (Inr p, d1)"
    and rs: "record_submission flt (it_db t) inp p bonus d2 = Inr (row, d3)"
    and w': "w' = \<lparr>w_db = d3, w_art = (w_art w)(pr_akey p := Some (pr_archive p))\<rparr>"
    and s: "s = \<lparr>out_id = sub_id row, out_status = sub_status row, out_artifact = sub_artifact row,
          out_hash = sub_hash row,
          out_quota = BuildQuotaSummaryWithBonus (Some (pr_manifest p))
            (if bonus then used else used + 1) rem (Some l)\<rparr>"
  from chk show ?thesis
  proof (rule intake_checks_Inr)
    fix lab pub
    assume a: "GetLab (in_lab inp) (w_db w) = Inr lab" "l_manifest lab = Some (pr_manifest p)"
      "labOpen (m_schedule (pr_manifest p)) (it_open t)"
      "validateFiles e (slice_list (submit_files (m_submit (pr_manifest p))))
         (max_size (m_submit (pr_manifest p))) (in_files inp) = Inr ()"
      and k: "repo_GetUserKeyByFingerprint e (in_fingerprint inp) (w_db w) = (Inr (pr_key p), d1)"
      and pub: "parseAuthorizedKey e (k_public (pr_key p)) = Some pub"
      and sig: "VerifySignature (env_ed_verify e) (it_verify t) 0 pub
        (WithContentHash (NewPayload (in_lab inp) (in_timestamp inp) (in_nonce inp) (map fst (in_files inp)))
           (pr_hash p)) (in_signature inp) = Inr ()"
    note row = record_submission_Inr [OF rs]
    from sig row show ?thesis
      using a repo_key_active [OF k] pub
      by (intro exI [of _ lab] exI [of _ "pr_manifest p"] exI [of _ "pr_key p"] exI [of _ pub])
        (simp add: VerifySignature_def Let_def w' s active_key_def WithContentHash_def NewPayload_def
          split: if_splits)
  qed
qed

text \<open>C4. A refused submission leaves no trace in the database beyond a back-filled key fingerprint, and
  in the artifact store it touches at most one key: that of this content.\<close>

theorem Intake_refused_frame:
  assumes "Intake e flt t l inp w = (Inl err, w')"
  shows "same_but_fingerprints (w_db w) (w_db w') \<and>
    (w_art w' = w_art w \<or>
     (\<exists>p d1 v. intake_checks e flt t inp (w_db w) = (Inr p, d1) \<and> w_art w' = (w_art w)(pr_akey p := v)))"
proof -
  obtain r d1 where chk: "intake_checks e flt t inp (w_db w) = (r, d1)" by fastforce
  note fr = intake_checks_frame [OF chk]
  show ?thesis
  proof (cases r)
    case (Inl x)
    with assms chk fr show ?thesis by (auto simp: Intake_def)
  next
    case (Inr p)
    with assms chk fr show ?thesis
      by (auto simp: Intake_def intake_tx_def Let_def split: prod.splits sum.splits if_splits)
  qed
qed

text \<open>C2. The daily quota holds: where the manifest sets one, an accepted submission that is charged to
  the day leaves the window's count within the limit, and one beyond the limit is paid by exactly
  one unit of bonus, which was there, and leaves the count as it was.\<close>

theorem Intake_daily_quota:
  assumes "Intake e flt t l inp w = (Inr s, w')"
    and "quotaWindowForTime (it_window t) l = (start, stop)"
    and "distinct (map bonus_key (db_bonus (w_db w)))"
    and "user = sub_user (last (db_subs (w_db w')))" and "lab = in_lab inp"
  shows "\<exists>row m. GetLab lab (w_db w) = Inr row \<and> l_manifest row = Some m \<and>
    (quota_daily (m_quota m) \<le> 0 \<or>
     (let before = int (CountSubmissionQuotaUsage user lab start stop (w_db w));
          after = int (CountSubmissionQuotaUsage user lab start stop (w_db w'))
      in (sub_quota (last (db_subs (w_db w'))) = QPending \<and> after \<le> quota_daily (m_quota m)) \<or>
         (sub_quota (last (db_subs (w_db w'))) = QBonus \<and> after = before \<and>
          (\<exists>n \<ge> 0. GetBonusQuota user lab (w_db w) = Inr (n + 1) \<and>
                   GetBonusQuota user lab (w_db w') = Inr n))))"
  using assms(1)
proof (rule Intake_Inr)
  fix p d1 start' stop' used bonus rem d2 row d3
  assume chk: "intake_checks e flt t inp (w_db w) = (Inr p, d1)"
    and win: "quotaWindowForTime (it_window t) l = (start', stop')"
    and tq: "take_quota flt (it_db t) (pr_manifest p) (k_user (pr_key p)) (in_lab inp) start' stop' d1
       = Inr (used, bonus, rem, d2)"
    and rs: "record_submission flt (it_db t) inp p bonus d2 = Inr (row, d3)"
    and w': "w' = \<lparr>w_db = d3, w_art = (w_art w)(pr_akey p := Some (pr_archive p))\<rparr>"
  note eqs = same_but_fingerprints_D [OF intake_checks_frame [OF chk]]
  obtain bs where d2: "d2 = d1\<lparr>db_bonus := bs\<rparr>" using take_quota_frame [OF tq] by blast
  note row = record_submission_Inr [OF rs]
  have user: "user = k_user (pr_key p)" using row assms(4) by (simp add: w' d2 eqs)
  have ss: "start' = start" "stop' = stop" using win assms(2) by simp_all
  have q: "sub_quota (last (db_subs (w_db w'))) = (if bonus then QBonus else QPending)"
    using row by (simp add: w')
  have before: "CountSubmissionQuotaUsage user lab start stop d1 = CountSubmissionQuotaUsage user lab start stop (w_db w)"
    by (simp add: CountSubmissionQuotaUsage_def eqs)
  have after: "CountSubmissionQuotaUsage user lab start stop (w_db w') =
      (if counts_for user lab start stop row then Suc (CountSubmissionQuotaUsage user lab start stop (w_db w))
       else CountSubmissionQuotaUsage user lab start stop (w_db w))"
    using row by (simp add: w' CountSubmissionQuotaUsage_def d2 eqs)
  obtain lr where lr: "GetLab (in_lab inp) (w_db w) = Inr lr" "l_manifest lr = Some (pr_manifest p)"
    by (rule intake_checks_Inr [OF chk])
  have bonus_case: "CountSubmissionQuotaUsage user lab start stop (w_db w') =
      CountSubmissionQuotaUsage user lab start stop (w_db w) \<and>
      (\<exists>n \<ge> 0. GetBonusQuota user lab (w_db w) = Inr (n + 1) \<and> GetBonusQuota user lab (w_db w') = Inr n)"
    if b: "bonus"
  proof -
    from take_quota_Inr [OF tq] b have "ConsumeBonusQuota (it_db t) user lab d1 = Inr (rem, d2)"
      by (simp add: user assms(5))
    from ConsumeBonusQuota_balance [OF _ this] assms(3)
    have "0 \<le> rem \<and> GetBonusQuota user lab d1 = Inr (rem + 1) \<and> GetBonusQuota user lab d2 = Inr rem"
      by (simp add: eqs)
    moreover have "\<not> counts_for user lab start stop row" using row b by (simp add: counts_for_def)
    ultimately show ?thesis using row after by (auto simp: GetBonusQuota_def w' eqs)
  qed
  have day_case: "int (CountSubmissionQuotaUsage user lab start stop (w_db w')) \<le> quota_daily (m_quota (pr_manifest p))"
    if "\<not> bonus" and "0 < quota_daily (m_quota (pr_manifest p))"
    using take_quota_Inr [OF tq] that after before by (auto simp: user assms(5) ss)
  show ?thesis
    using lr q bonus_case day_case
    by (cases bonus; cases "0 < quota_daily (m_quota (pr_manifest p))")
      (auto simp: Let_def assms(5) intro!: exI [of _ lr] exI [of _ "pr_manifest p"])
qed

text \<open>A replay of an accepted request destroys what the request stored: when the nonce is refused,
  the deferred clean-up deletes the artifact at the key, which is derived from the content, so a row
  already accepted with that key stays in the database without its archive.\<close>

theorem replay_deletes_artifact:
  assumes "Intake e flt t l inp w = (Inl ReplayedNonce, w')"
    and "intake_checks e flt t inp (w_db w) = (Inr p, d1)"
    and "row \<in> set (db_subs (w_db w))" and "sub_artifact row = pr_akey p"
  shows "row \<in> set (db_subs (w_db w')) \<and> w_art w' (sub_artifact row) = None"
proof -
  obtain start stop where win: "quotaWindowForTime (it_window t) l = (start, stop)" by fastforce
  have eq: "db_subs d1 = db_subs (w_db w)"
    by (rule same_but_fingerprints_D [OF intake_checks_frame [OF assms(2)]])
  have no: "take_quota flt now m u lab start stop d = Inl x \<Longrightarrow> x \<noteq> ReplayedNonce" for now m u lab d x
    by (auto simp: take_quota_def split: sum.splits if_splits db_error.splits)
  show ?thesis
    using assms eq
    by (auto simp: Intake_def intake_tx_def Let_def win split: prod.splits sum.splits if_splits dest: no)
qed

section \<open>A concrete course\<close>

definition no_faults :: intake_faults where
  "no_faults = \<lparr>if_call = (\<lambda>_. False), if_left = None\<rparr>"

definition sample_key :: string where "sample_key = ''abcdefghijklmnopqrstuvwxyz012345''"

definition sample_world :: "int \<Rightarrow> int \<Rightarrow> world" where
  "sample_world daily bonus =
     \<lparr>w_db = empty_db
        \<lparr>db_labs := [\<lparr>l_id = ''lab'', l_name = ''Lab'',
            l_manifest = Some (sample_manifest\<lparr>m_quota := \<lparr>quota_daily = daily, quota_free = None\<rparr>,
               m_submit := \<lparr>submit_files = Some [''a.c''], max_size = ''1MB''\<rparr>,
               m_schedule := \<lparr>sch_visible = 0, sch_open = 0, sch_close = 0\<rparr>\<rparr>),
            l_updated = 0, l_created = 0\<rparr>],
         db_users := [\<lparr>u_id = 1, u_student = ''s1'', u_nickname = ''n''\<rparr>],
         db_keys := [\<lparr>k_id = 1, k_user = 1, k_public = sample_key, k_fingerprint = Some ''fp'', k_device = ''d'',
            k_created = 0, k_revoked = None\<rparr>],
         db_bonus := [\<lparr>bq_user = 1, bq_lab = ''lab'', bq_remaining = bonus, bq_updated = 0\<rparr>],
         db_user_seq := 1, db_key_seq := 1\<rparr>,
      w_art = Map.empty\<rparr>"

definition sample_input :: "string \<Rightarrow> submit_input" where
  "sample_input nonce =
     \<lparr>in_lab = ''lab'', in_fingerprint = ''fp'', in_timestamp = 719162 * day, in_nonce = nonce,
      in_signature = SigningBytes (WithContentHash (NewPayload ''lab'' (719162 * day) nonce [''a.c''])
        (hex_text (env_sha256 demo_env ''a.cint x;''))),
      in_files = [(''a.c'', ''int x;'')]\<rparr>"

definition sample_times :: intake_times where
  "sample_times = \<lparr>it_open = 719162 * day, it_verify = 719162 * day, it_window = 719162 * day, it_db = 719162 * day\<rparr>"

definition sample_intake :: "string \<Rightarrow> world \<Rightarrow> (intake_error + submission) \<times> world" where
  "sample_intake nonce w =
     Intake demo_env no_faults sample_times (defaultQuotaLocation None) (sample_input nonce) w"

text \<open>The same request twice: accepted, then refused with its artifact gone.\<close>

lemma sample_replay:
  "let (r1, w1) = sample_intake ''n1'' (sample_world 2 0); (r2, w2) = sample_intake ''n1'' w1
   in is_ok r1 \<and> r2 = Inl ReplayedNonce \<and> w_art w2 (sub_artifact (hd (db_subs (w_db w1)))) = None \<and>
      map_sum id pr_akey (fst (intake_checks demo_env no_faults sample_times (sample_input ''n1'') (w_db w1)))
        = Inr (sub_artifact (hd (db_subs (w_db w1))))"
  by code_simp

lemma sample_runs:
  obtains s w1 w2 p d1 where
    "Intake demo_env no_faults sample_times (defaultQuotaLocation None) (sample_input ''n1'') (sample_world 2 0)
       = (Inr s, w1)"
    "Intake demo_env no_faults sample_times (defaultQuotaLocation None) (sample_input ''n1'') w1
       = (Inl ReplayedNonce, w2)"
    "intake_checks demo_env no_faults sample_times (sample_input ''n1'') (w_db w1) = (Inr p, d1)"
    "pr_akey p = sub_artifact (hd (db_subs (w_db w1)))"
proof -
  obtain r1 w1 where 1: "sample_intake ''n1'' (sample_world 2 0) = (r1, w1)" by fastforce
  obtain r2 w2 where 2: "sample_intake ''n1'' w1 = (r2, w2)" by fastforce
  obtain r3 d1 where 3: "intake_checks demo_env no_faults sample_times (sample_input ''n1'') (w_db w1) = (r3, d1)"
    by fastforce
  from sample_replay 1 2 3 show thesis
    by (cases r1; cases r3) (auto simp: Let_def sample_intake_def intro: that)
qed

lemma sample_world_simps [simp]:
  "db_subs (w_db (sample_world q b)) = []" "db_jobs (w_db (sample_world q b)) = []"
  "w_art (sample_world q b) = Map.empty"
  "map bonus_key (db_bonus (w_db (sample_world q b))) = [(1, ''lab'')]"
  by (simp_all add: sample_world_def empty_db_def bonus_key_def)

lemma sample_row:
  assumes "Intake e flt t l inp (sample_world q b) = (Inr s, w1)"
  obtains row where "db_subs (w_db w1) = [row]" "sub_artifact row = out_artifact s"
  using assms
proof (rule Intake_Inr)
  fix p d1 start stop used bonus rem d2 row d3
  assume chk: "intake_checks e flt t inp (w_db (sample_world q b)) = (Inr p, d1)"
    and tq: "take_quota flt (it_db t) (pr_manifest p) (k_user (pr_key p)) (in_lab inp) start stop d1
       = Inr (used, bonus, rem, d2)"
    and rs: "record_submission flt (it_db t) inp p bonus d2 = Inr (row, d3)"
    and w1: "w1 = \<lparr>w_db = d3, w_art = (w_art (sample_world q b))(pr_akey p := Some (pr_archive p))\<rparr>"
    and s: "s = \<lparr>out_id = sub_id row, out_status = sub_status row, out_artifact = sub_artifact row,
          out_hash = sub_hash row,
          out_quota = BuildQuotaSummaryWithBonus (Some (pr_manifest p))
            (if bonus then used else used + 1) rem (Some l)\<rparr>"
  note eqs = same_but_fingerprints_D [OF intake_checks_frame [OF chk]]
  obtain bs where d2: "d2 = d1\<lparr>db_bonus := bs\<rparr>" using take_quota_frame [OF tq] by blast
  show thesis
    by (rule that [of row]) (use record_submission_Inr [OF rs] in \<open>simp_all add: w1 s d2 eqs\<close>)
qed

lemma sample_manifest_daily:
  "GetLab ''lab'' (w_db (sample_world q b)) = Inr row \<Longrightarrow> l_manifest row = Some m \<Longrightarrow> quota_daily (m_quota m) = q"
  by (auto simp: sample_world_def GetLab_def empty_db_def)

theorem Intake_records_witness:
  "\<exists>s w1 row. sample_intake ''n1'' (sample_world 2 0) = (Inr s, w1) \<and> db_subs (w_db w1) = [row] \<and>
     w_art w1 (sub_artifact row) \<noteq> None"
proof (rule sample_runs)
  fix s w1
  assume r: "Intake demo_env no_faults sample_times (defaultQuotaLocation None) (sample_input ''n1'')
    (sample_world 2 0) = (Inr s, w1)"
  show ?thesis
    using Intake_records [OF r] r by (auto simp: sample_intake_def)
qed

theorem Intake_authentic_witness:
  "\<exists>s w1. sample_intake ''n1'' (sample_world 2 0) = (Inr s, w1) \<and> freshWithin (719162 * day) (719162 * day) defaultSkew"
proof (rule sample_runs)
  fix s w1
  assume r: "Intake demo_env no_faults sample_times (defaultQuotaLocation None) (sample_input ''n1'')
    (sample_world 2 0) = (Inr s, w1)"
  show ?thesis
    using Intake_authentic [OF r] r by (auto simp: sample_intake_def sample_times_def sample_input_def)
qed

theorem Intake_refused_frame_witness:
  "\<exists>s w1 w2. sample_intake ''n1'' (sample_world 2 0) = (Inr s, w1) \<and>
     sample_intake ''n1'' w1 = (Inl ReplayedNonce, w2) \<and> db_subs (w_db w2) = db_subs (w_db w1)"
proof (rule sample_runs)
  fix s w1 w2
  assume r: "Intake demo_env no_faults sample_times (defaultQuotaLocation None) (sample_input ''n1'')
      (sample_world 2 0) = (Inr s, w1)"
    and r2: "Intake demo_env no_faults sample_times (defaultQuotaLocation None) (sample_input ''n1'') w1
       = (Inl ReplayedNonce, w2)"
  from Intake_refused_frame [OF r2] have "same_but_fingerprints (w_db w1) (w_db w2)" by simp
  then have "db_subs (w_db w2) = db_subs (w_db w1)" by (rule same_but_fingerprints_D)
  with r r2 show ?thesis by (auto simp: sample_intake_def)
qed

theorem Intake_daily_quota_witness:
  "\<exists>s w1 start stop. sample_intake ''n1'' (sample_world 2 0) = (Inr s, w1) \<and>
     quotaWindowForTime (719162 * day) (defaultQuotaLocation None) = (start, stop) \<and>
     (sub_quota (last (db_subs (w_db w1))) = QPending \<longrightarrow>
        CountSubmissionQuotaUsage (sub_user (last (db_subs (w_db w1)))) ''lab'' start stop (w_db w1) \<le> 2)"
proof (rule sample_runs)
  fix s w1
  assume r: "Intake demo_env no_faults sample_times (defaultQuotaLocation None) (sample_input ''n1'')
    (sample_world 2 0) = (Inr s, w1)"
  obtain start stop where win: "quotaWindowForTime (719162 * day) (defaultQuotaLocation None) = (start, stop)"
    by fastforce
  have t: "it_window sample_times = 719162 * day" "in_lab (sample_input ''n1'') = ''lab''"
    by (simp_all add: sample_times_def sample_input_def)
  note dq = Intake_daily_quota [OF r, of start stop "sub_user (last (db_subs (w_db w1)))" "''lab''", unfolded t]
  from dq [OF win] obtain row m where rm: "GetLab ''lab'' (w_db (sample_world 2 0)) = Inr row"
    "l_manifest row = Some m"
    "quota_daily (m_quota m) \<le> 0 \<or> (sub_quota (last (db_subs (w_db w1))) = QPending \<longrightarrow>
      int (CountSubmissionQuotaUsage (sub_user (last (db_subs (w_db w1)))) ''lab'' start stop (w_db w1))
        \<le> quota_daily (m_quota m))"
    by (force simp: Let_def)
  from sample_manifest_daily [OF rm(1,2)] rm(3)
  have "sub_quota (last (db_subs (w_db w1))) = QPending \<longrightarrow>
      CountSubmissionQuotaUsage (sub_user (last (db_subs (w_db w1)))) ''lab'' start stop (w_db w1) \<le> 2"
    by simp
  with r win show ?thesis by (metis sample_intake_def)
qed

theorem replay_deletes_artifact_witness:
  "\<exists>s w1 w2 row. sample_intake ''n1'' (sample_world 2 0) = (Inr s, w1) \<and>
     sample_intake ''n1'' w1 = (Inl ReplayedNonce, w2) \<and>
     row \<in> set (db_subs (w_db w2)) \<and> sub_artifact row = out_artifact s \<and> w_art w2 (sub_artifact row) = None"
proof (rule sample_runs)
  fix s w1 w2 p d1
  assume r: "Intake demo_env no_faults sample_times (defaultQuotaLocation None) (sample_input ''n1'')
      (sample_world 2 0) = (Inr s, w1)"
    and r2: "Intake demo_env no_faults sample_times (defaultQuotaLocation None) (sample_input ''n1'') w1
       = (Inl ReplayedNonce, w2)"
    and c: "intake_checks demo_env no_faults sample_times (sample_input ''n1'') (w_db w1) = (Inr p, d1)"
    and k: "pr_akey p = sub_artifact (hd (db_subs (w_db w1)))"
  from sample_row [OF r] obtain row where row: "db_subs (w_db w1) = [row]" "sub_artifact row = out_artifact s" .
  show ?thesis
    using replay_deletes_artifact [OF r2 c, of row] row k r r2 by (auto simp: sample_intake_def)
qed

end
