(* ===== verification/Evaluation.thy ===== *)
theory Evaluation
  imports Submissions
begin

text \<open>
  \<^verbatim>\<open>apps/worker/internal/service/evaluation\<close>: marking a submission running, and persisting an
  evaluation result in one transaction: the result columns, the quota state, the scores and the
  leaderboard entry. A Go map is ranged over in an unspecified order: the order of the score list.
\<close>

section \<open>Leaderboard entries\<close>

definition is_entry :: "int \<Rightarrow> string \<Rightarrow> board_row \<Rightarrow> bool" where
  "is_entry user lab b \<longleftrightarrow> lb_user b = user \<and> lb_lab b = lab"

definition UpsertLeaderboardEntry :: "time \<Rightarrow> int \<Rightarrow> string \<Rightarrow> uuid \<Rightarrow> db \<Rightarrow> db_error + db" where
  "UpsertLeaderboardEntry now user lab i d =
     (if user \<notin> u_id ` set (db_users d) \<or> lab \<notin> l_id ` set (db_labs d) \<or> i \<notin> sub_id ` set (db_subs d)
      then Inl ForeignKeyViolation
      else if \<exists>b \<in> set (db_board d). is_entry user lab b
      then Inr (d\<lparr>db_board := update_where (is_entry user lab)
                    (\<lambda>b. b\<lparr>lb_sub := i, lb_updated := now\<rparr>) (db_board d)\<rparr>)
      else Inr (d\<lparr>db_board := db_board d @ [\<lparr>lb_user = user, lb_lab = lab, lb_sub = i, lb_updated = now\<rparr>]\<rparr>))"

definition GetLeaderboardEntry :: "int \<Rightarrow> string \<Rightarrow> db \<Rightarrow> db_error + board_row" where
  "GetLeaderboardEntry user lab d = one (find (is_entry user lab) (db_board d))"

definition refreshLeaderboard :: "time \<Rightarrow> sub_row \<Rightarrow> db \<Rightarrow> db_error + db" where
  "refreshLeaderboard now s d = UpsertLeaderboardEntry now (sub_user s) (sub_lab s) (sub_id s) d"

section \<open>The service\<close>

definition textValue :: "string \<Rightarrow> string option" where
  "textValue v = (if v = [] then None else Some v)"

definition timestamptzValue :: "time \<Rightarrow> time option" where
  "timestamptzValue t = (if is_zero t then None else Some t)"

definition submissionStatusFor :: "verdict \<Rightarrow> submission_status" where
  "submissionStatusFor v = (if v = VError then SsError else SsDone)"

definition quotaStateFor :: "manifest option \<Rightarrow> verdict \<Rightarrow> quota_state" where
  "quotaStateFor mo v =
     (case v of
        VError \<Rightarrow> QFree
      | Scored \<Rightarrow> QCharged
      | OtherVerdict _ \<Rightarrow> QCharged
      | _ \<Rightarrow> (case mo of
                None \<Rightarrow> QCharged
              | Some m \<Rightarrow> if \<exists>f \<in> set (slice_list (quota_free (m_quota m))). f = verdict_text v
                          then QFree else QCharged))"

definition MarkRunning :: "bool \<Rightarrow> uuid \<Rightarrow> time \<Rightarrow> db \<Rightarrow> db_error + db" where
  "MarkRunning fault i startedAt d =
     faulty fault (Inr (UpdateSubmissionRunning i SsRunning (timestamptzValue startedAt) d))"

record persist_input =
  pi_manifest :: "manifest option"
  pi_sub :: sub_row
  pi_result :: result
  pi_digest :: string
  pi_started :: time
  pi_finished :: time

datatype persist_call = PeBegin | PeResult | PeQuota | PeRefund | PeScore string | PeBoard | PeCommit

datatype persist_error = InvalidOutput eval_error | PersistDb db_error

fun persistScores :: "(persist_call \<Rightarrow> bool) \<Rightarrow> uuid \<Rightarrow> (string \<times> f64) list \<Rightarrow> db \<Rightarrow> db_error + db" where
  "persistScores flt i [] d = Inr d"
| "persistScores flt i ((mt, v) # scores) d =
     bindR (faulty (flt (PeScore mt)) (CreateScore i mt (to_f32 v) d)) (persistScores flt i scores)"

text \<open>The quota column, from the state the submission had when it was loaded.\<close>

definition settle_quota :: "(persist_call \<Rightarrow> bool) \<Rightarrow> time \<Rightarrow> persist_input \<Rightarrow> db \<Rightarrow> db_error + db" where
  "settle_quota flt now pin d =
     (let i = sub_id (pi_sub pin);
          q0 = quotaStateFor (pi_manifest pin) (r_verdict (pi_result pin));
          q = (if sub_quota (pi_sub pin) = QFree then QFree else q0)
      in if sub_quota (pi_sub pin) = QBonus
         then (if q = QFree
               then bindR (faulty (flt PeRefund) (RefundBonusSubmission now i d)) (\<lambda>(n, d'). Inr d')
               else faulty (flt PeQuota) (Inr (UpdateSubmissionQuotaState i QBonus d)))
         else faulty (flt PeQuota) (Inr (UpdateSubmissionQuotaState i q d)))"

definition persist_tx :: "(persist_call \<Rightarrow> bool) \<Rightarrow> time \<Rightarrow> persist_input \<Rightarrow> db \<Rightarrow> db_error + db" where
  "persist_tx flt now pin d =
     (let i = sub_id (pi_sub pin); r = pi_result pin
      in bindR (faulty (flt PeBegin) (Inr d)) (\<lambda>d0.
         bindR (faulty (flt PeResult)
             (UpdateSubmissionResult i (submissionStatusFor (r_verdict r))
                (map_option (\<lambda>_. r_verdict r) (textValue (verdict_text (r_verdict r))))
                (textValue (r_message r)) (r_detail r) (textValue (pi_digest pin))
                (timestamptzValue (pi_started pin)) (timestamptzValue (pi_finished pin)) d0)) (\<lambda>d1.
         bindR (settle_quota flt now pin d1) (\<lambda>d2.
         bindR (if r_verdict r = Scored
                then bindR (persistScores flt i (r_scores r) d2)
                       (\<lambda>d3. faulty (flt PeBoard) (refreshLeaderboard now (pi_sub pin) d3))
                else Inr d2) (\<lambda>d4.
         faulty (flt PeCommit) (Inr d4))))))"

definition Persist :: "(persist_call \<Rightarrow> bool) \<Rightarrow> time \<Rightarrow> persist_input \<Rightarrow> db \<Rightarrow> (persist_error + unit) \<times> db" where
  "Persist flt now pin d =
     (case ValidateResult (pi_manifest pin) (pi_result pin) of
        Inl err \<Rightarrow> (Inl (InvalidOutput err), d)
      | Inr _ \<Rightarrow> (case persist_tx flt now pin d of
                    Inl err \<Rightarrow> (Inl (PersistDb err), d)
                  | Inr d' \<Rightarrow> (Inr (), d')))"

section \<open>What a persisted result leaves\<close>

definition score_of :: "uuid \<Rightarrow> string \<Rightarrow> db \<Rightarrow> f32 option" where
  "score_of i mt d = map_option sc_value (find (\<lambda>s. sc_sub s = i \<and> sc_metric s = mt) (db_scores d))"

lemma score_update:
  "map_option sc_value (find (\<lambda>s. sc_sub s = j \<and> sc_metric s = m)
      (update_where (\<lambda>s. sc_sub s = i \<and> sc_metric s = mt) (\<lambda>s. s\<lparr>sc_value := v\<rparr>) rs)) =
   (if j = i \<and> m = mt then map_option (\<lambda>_. v) (find (\<lambda>s. sc_sub s = j \<and> sc_metric s = m) rs)
    else map_option sc_value (find (\<lambda>s. sc_sub s = j \<and> sc_metric s = m) rs))"
  by (induction rs) auto

lemma CreateScore_score:
  assumes "CreateScore i mt v d = Inr d'"
  shows "score_of j m d' = (if j = i \<and> m = mt then Some v else score_of j m d)"
proof -
  let ?P = "\<lambda>s. sc_sub s = i \<and> sc_metric s = mt"
  let ?Q = "\<lambda>s. sc_sub s = j \<and> sc_metric s = m"
  show ?thesis
  proof (cases "\<exists>s \<in> set (db_scores d). ?P s")
    case True
    with assms have d': "d' = d\<lparr>db_scores := update_where ?P (\<lambda>s. s\<lparr>sc_value := v\<rparr>) (db_scores d)\<rparr>"
      by (auto simp: CreateScore_def split: if_splits)
    from find_exists [OF True] obtain s where "find ?P (db_scores d) = Some s" by blast
    then have hit: "j = i \<and> m = mt \<Longrightarrow> find ?Q (db_scores d) = Some s" by simp
    have "score_of j m d' = (if j = i \<and> m = mt then map_option (\<lambda>_. v) (find ?Q (db_scores d)) else score_of j m d)"
      unfolding score_of_def by (subst score_update [symmetric]) (simp add: d')
    with hit show ?thesis by simp
  next
    case False
    then have none: "find ?P (db_scores d) = None" by (simp add: find_none)
    from assms False have d': "d' = d\<lparr>db_scores := db_scores d @ [\<lparr>sc_sub = i, sc_metric = mt, sc_value = v\<rparr>]\<rparr>"
      by (auto simp: CreateScore_def split: if_splits)
    show ?thesis
      using none by (cases "j = i \<and> m = mt"; cases "find ?Q (db_scores d)") (auto simp: score_of_def d' find_append)
  qed
qed

lemma CreateScore_frame: "CreateScore i mt v d = Inr d' \<Longrightarrow> \<exists>ss. d' = d\<lparr>db_scores := ss\<rparr>"
  by (auto simp: CreateScore_def split: if_splits)

lemma persistScores_frame: "persistScores flt i scores d = Inr d' \<Longrightarrow> \<exists>ss. d' = d\<lparr>db_scores := ss\<rparr>"
proof (induction flt i scores d rule: persistScores.induct)
  case (2 flt i mt v scores d)
  from "2.prems" obtain d1 where c: "CreateScore i mt (to_f32 v) d = Inr d1" and r: "persistScores flt i scores d1 = Inr d'"
    by auto
  from CreateScore_frame [OF c] obtain ss where "d1 = d\<lparr>db_scores := ss\<rparr>" by blast
  with "2.IH" [OF r] show ?case by auto
qed auto

lemma persistScores_score:
  "persistScores flt i scores d = Inr d' \<Longrightarrow> distinct (map fst scores) \<Longrightarrow>
   score_of j m d' = (if j = i \<and> m \<in> fst ` set scores then map_option to_f32 (map_of scores m) else score_of j m d)"
proof (induction scores arbitrary: d)
  case (Cons s scores)
  obtain mt v where s: "s = (mt, v)" by (cases s)
  from Cons.prems obtain d1 where c: "CreateScore i mt (to_f32 v) d = Inr d1" and r: "persistScores flt i scores d1 = Inr d'"
    by (auto simp: s)
  have nin: "mt \<notin> fst ` set scores" using Cons.prems(2) s by simp
  from Cons.IH [OF r] Cons.prems(2) CreateScore_score [OF c] nin show ?case
    by (auto simp: s image_iff)
qed simp

definition settled_state :: "quota_state \<Rightarrow> quota_state \<Rightarrow> quota_state \<Rightarrow> quota_state" where
  "settled_state loaded outcome current =
     (if loaded = QBonus then (if outcome \<noteq> QFree then QBonus else if current = QBonus then QFree else current)
      else if loaded = QFree then QFree else outcome)"

definition finished_row :: "persist_input \<Rightarrow> sub_row \<Rightarrow> sub_row" where
  "finished_row pin r =
     r\<lparr>sub_status := submissionStatusFor (r_verdict (pi_result pin)),
       sub_verdict := Some (r_verdict (pi_result pin)),
       sub_message := textValue (r_message (pi_result pin)), sub_detail := r_detail (pi_result pin),
       sub_digest := textValue (pi_digest pin), sub_started := timestamptzValue (pi_started pin),
       sub_finished := timestamptzValue (pi_finished pin),
       sub_quota := settled_state (sub_quota (pi_sub pin))
         (quotaStateFor (pi_manifest pin) (r_verdict (pi_result pin))) (sub_quota r)\<rparr>"

lemma RefundBonusSubmission_subs:
  "RefundBonusSubmission now i d = Inr (n, d') \<Longrightarrow>
   db_subs d' = update_where (\<lambda>r. sub_id r = i \<and> sub_quota r = QBonus) (\<lambda>r. r\<lparr>sub_quota := QFree\<rparr>) (db_subs d) \<and>
   (\<exists>ss bs. d' = d\<lparr>db_subs := ss, db_bonus := bs\<rparr>)"
proof -
  assume a: "RefundBonusSubmission now i d = Inr (n, d')"
  have "update_where P f rs = rs" if "\<And>r. r \<in> set rs \<Longrightarrow> \<not> P r" for P f and rs :: "sub_row list"
    using that by (induction rs) auto
  then have none: "find (\<lambda>r. sub_id r = i \<and> sub_quota r = QBonus) (db_subs d) = None \<Longrightarrow>
      update_where (\<lambda>r. sub_id r = i \<and> sub_quota r = QBonus) f (db_subs d) = db_subs d" for f
    by (metis (no_types, lifting) find_NoneD)
  from a show ?thesis
    using none by (auto simp: RefundBonusSubmission_def Let_def split: option.splits if_splits)
qed

lemma settle_quota_Inr:
  assumes "settle_quota flt now pin d = Inr d'"
  shows "db_subs d' = update_where (\<lambda>r. sub_id r = sub_id (pi_sub pin))
      (\<lambda>r. r\<lparr>sub_quota := settled_state (sub_quota (pi_sub pin))
        (quotaStateFor (pi_manifest pin) (r_verdict (pi_result pin))) (sub_quota r)\<rparr>) (db_subs d) \<and>
    (\<exists>ss bs. d' = d\<lparr>db_subs := ss, db_bonus := bs\<rparr>)"
proof -
  let ?i = "sub_id (pi_sub pin)" and ?q0 = "quotaStateFor (pi_manifest pin) (r_verdict (pi_result pin))"
  have bonus: ?thesis if "sub_quota (pi_sub pin) = QBonus" "?q0 = QFree"
  proof -
    from assms that obtain n where "RefundBonusSubmission now ?i d = Inr (n, d')"
      by (auto simp: settle_quota_def Let_def)
    from RefundBonusSubmission_subs [OF this] that show ?thesis
      by (auto simp: update_where_def settled_state_def)
  qed
  have other: ?thesis if "\<not> (sub_quota (pi_sub pin) = QBonus \<and> ?q0 = QFree)"
  proof -
    have "d' = UpdateSubmissionQuotaState ?i (if sub_quota (pi_sub pin) = QBonus then QBonus
        else if sub_quota (pi_sub pin) = QFree then QFree else ?q0) d"
      using assms that by (auto simp: settle_quota_def Let_def split: if_splits)
    with that show ?thesis
      by (auto simp: update_where_def settled_state_def UpdateSubmissionQuotaState_def)
  qed
  show ?thesis using bonus other by blast
qed

lemma verdict_textValue:
  "v \<in> {BuildFailed, Rejected, Scored, VError} \<Longrightarrow> map_option (\<lambda>_. v) (textValue (verdict_text v)) = Some v"
  by (auto simp: textValue_def)

definition with_result :: "persist_input \<Rightarrow> sub_row \<Rightarrow> sub_row" where
  "with_result pin r =
     r\<lparr>sub_status := submissionStatusFor (r_verdict (pi_result pin)),
       sub_verdict := map_option (\<lambda>_. r_verdict (pi_result pin)) (textValue (verdict_text (r_verdict (pi_result pin)))),
       sub_message := textValue (r_message (pi_result pin)), sub_detail := r_detail (pi_result pin),
       sub_digest := textValue (pi_digest pin), sub_started := timestamptzValue (pi_started pin),
       sub_finished := timestamptzValue (pi_finished pin)\<rparr>"

lemma with_result_simps [simp]:
  "sub_id (with_result pin r) = sub_id r" "sub_quota (with_result pin r) = sub_quota r"
  "sub_user (with_result pin r) = sub_user r" "sub_lab (with_result pin r) = sub_lab r"
  "sub_created (with_result pin r) = sub_created r" "sub_key (with_result pin r) = sub_key r"
  "sub_artifact (with_result pin r) = sub_artifact r"
  by (simp_all add: with_result_def)

lemma Persist_Inr:
  assumes "Persist flt now pin d = (Inr (), d')"
  obtains d1 d2 d3 where
    "ValidateResult (pi_manifest pin) (pi_result pin) = Inr ()"
    "d1 = d\<lparr>db_subs := update_where (\<lambda>r. sub_id r = sub_id (pi_sub pin))
         (with_result pin) (db_subs d)\<rparr>"
    "settle_quota flt now pin d1 = Inr d2"
    "r_verdict (pi_result pin) = Scored \<Longrightarrow>
       persistScores flt (sub_id (pi_sub pin)) (r_scores (pi_result pin)) d2 = Inr d3 \<and>
       refreshLeaderboard now (pi_sub pin) d3 = Inr d'"
    "r_verdict (pi_result pin) \<noteq> Scored \<Longrightarrow> d' = d2"
  using assms
  by (auto simp: Persist_def persist_tx_def Let_def UpdateSubmissionResult_def with_result_def [abs_def]
      split: sum.splits if_splits)

lemma refreshLeaderboard_frame:
  "refreshLeaderboard now s d = Inr d' \<Longrightarrow> \<exists>bs. d' = d\<lparr>db_board := bs\<rparr>"
  by (auto simp: refreshLeaderboard_def UpsertLeaderboardEntry_def split: if_splits)

lemma refreshLeaderboard_entry:
  assumes "refreshLeaderboard now s d = Inr d'"
  shows "GetLeaderboardEntry (sub_user s) (sub_lab s) d' =
      Inr \<lparr>lb_user = sub_user s, lb_lab = sub_lab s, lb_sub = sub_id s, lb_updated = now\<rparr>"
    and "filter (\<lambda>b. \<not> is_entry (sub_user s) (sub_lab s) b) (db_board d') =
      filter (\<lambda>b. \<not> is_entry (sub_user s) (sub_lab s) b) (db_board d)"
proof -
  let ?P = "is_entry (sub_user s) (sub_lab s)"
  let ?f = "\<lambda>b. b\<lparr>lb_sub := sub_id s, lb_updated := now\<rparr>"
  have up: "find ?P (update_where ?P ?f bs) = map_option ?f (find ?P bs)" for bs
    by (induction bs) (auto simp: is_entry_def)
  have others: "filter (\<lambda>b. \<not> ?P b) (update_where ?P ?f bs) = filter (\<lambda>b. \<not> ?P b) bs" for bs
    by (induction bs) (auto simp: is_entry_def)
  have "GetLeaderboardEntry (sub_user s) (sub_lab s) d' =
      Inr \<lparr>lb_user = sub_user s, lb_lab = sub_lab s, lb_sub = sub_id s, lb_updated = now\<rparr> \<and>
    filter (\<lambda>b. \<not> ?P b) (db_board d') = filter (\<lambda>b. \<not> ?P b) (db_board d)"
  proof (cases "\<exists>b \<in> set (db_board d). ?P b")
    case True
    with assms have d': "d' = d\<lparr>db_board := update_where ?P ?f (db_board d)\<rparr>"
      by (auto simp: refreshLeaderboard_def UpsertLeaderboardEntry_def split: if_splits)
    from find_exists [OF True] obtain b where b: "find ?P (db_board d) = Some b" by blast
    then have "lb_user b = sub_user s" "lb_lab b = sub_lab s" by (auto simp: is_entry_def dest: find_SomeD)
    with d' b up others show ?thesis by (simp add: GetLeaderboardEntry_def)
  next
    case False
    then have "find ?P (db_board d) = None" by (simp add: find_none)
    moreover have "d' = d\<lparr>db_board := db_board d @ [\<lparr>lb_user = sub_user s, lb_lab = sub_lab s,
        lb_sub = sub_id s, lb_updated = now\<rparr>]\<rparr>"
      using assms False by (auto simp: refreshLeaderboard_def UpsertLeaderboardEntry_def split: if_splits)
    ultimately show ?thesis by (simp add: GetLeaderboardEntry_def find_append is_entry_def)
  qed
  then show "GetLeaderboardEntry (sub_user s) (sub_lab s) d' =
      Inr \<lparr>lb_user = sub_user s, lb_lab = sub_lab s, lb_sub = sub_id s, lb_updated = now\<rparr>"
    "filter (\<lambda>b. \<not> ?P b) (db_board d') = filter (\<lambda>b. \<not> ?P b) (db_board d)" by blast+
qed

text \<open>The rows of submissions after a persisted result, and the tables that it leaves alone.\<close>

lemma Persist_subs:
  assumes "Persist flt now pin d = (Inr (), d')"
  shows "db_subs d' = update_where (\<lambda>r. sub_id r = sub_id (pi_sub pin)) (finished_row pin) (db_subs d) \<and>
    (\<exists>ss bs sc bd. d' = d\<lparr>db_subs := ss, db_bonus := bs, db_scores := sc, db_board := bd\<rparr>)"
  using assms
proof (rule Persist_Inr)
  fix d1 d2 d3
  assume val: "ValidateResult (pi_manifest pin) (pi_result pin) = Inr ()"
    and d1: "d1 = d\<lparr>db_subs := update_where (\<lambda>r. sub_id r = sub_id (pi_sub pin)) (with_result pin) (db_subs d)\<rparr>"
    and sq: "settle_quota flt now pin d1 = Inr d2"
    and scored: "r_verdict (pi_result pin) = Scored \<Longrightarrow>
       persistScores flt (sub_id (pi_sub pin)) (r_scores (pi_result pin)) d2 = Inr d3 \<and>
       refreshLeaderboard now (pi_sub pin) d3 = Inr d'"
    and plain: "r_verdict (pi_result pin) \<noteq> Scored \<Longrightarrow> d' = d2"
  have v: "r_verdict (pi_result pin) \<in> {BuildFailed, Rejected, Scored, VError}"
    using ValidateResult_verdict [OF val] by simp
  have subs2: "db_subs d2 = update_where (\<lambda>r. sub_id r = sub_id (pi_sub pin)) (finished_row pin) (db_subs d)"
    using settle_quota_Inr [OF sq] verdict_textValue [OF v]
    by (simp add: d1 update_where_twice) (auto simp: update_where_def finished_row_def with_result_def)
  from settle_quota_Inr [OF sq] obtain ss bs where d2: "d2 = d1\<lparr>db_subs := ss, db_bonus := bs\<rparr>" by blast
  obtain sc bd where "d' = d2\<lparr>db_scores := sc, db_board := bd\<rparr>"
  proof (cases "r_verdict (pi_result pin) = Scored")
    case True
    with scored persistScores_frame refreshLeaderboard_frame that show thesis by blast
  next
    case False
    with plain have "d' = d2\<lparr>db_scores := db_scores d2, db_board := db_board d2\<rparr>" by simp
    then show thesis by (rule that)
  qed
  then have "d' = d\<lparr>db_subs := ss, db_bonus := bs, db_scores := sc, db_board := bd\<rparr>" "db_subs d' = db_subs d2"
    by (simp_all add: d2 d1)
  with subs2 show ?thesis by (intro conjI exI [of _ ss] exI [of _ bs] exI [of _ sc] exI [of _ bd]) simp_all
qed

text \<open>C8. A persisted result is recorded as one step: the result columns and the settled quota state of
  the submission, the float32 value of every score of a scored result (scores of other submissions
  stay), and the leaderboard entry of its student for the lab, which becomes this submission at this time; no
  other submission, score or leaderboard entry changes, and no table but those and the bonus balances.
  A failed attempt changes nothing.\<close>

theorem Persist_records:
  assumes "Persist flt now pin d = (res, d')" and "distinct (map fst (r_scores (pi_result pin)))"
  shows "case res of
      Inl _ \<Rightarrow> d' = d
    | Inr _ \<Rightarrow>
        db_subs d' = update_where (\<lambda>r. sub_id r = sub_id (pi_sub pin)) (finished_row pin) (db_subs d) \<and>
        (\<forall>i mt. score_of i mt d' =
           (if i = sub_id (pi_sub pin) \<and> mt \<in> fst ` set (r_scores (pi_result pin))
            then map_option to_f32 (map_of (r_scores (pi_result pin)) mt) else score_of i mt d)) \<and>
        (if r_verdict (pi_result pin) = Scored
         then GetLeaderboardEntry (sub_user (pi_sub pin)) (sub_lab (pi_sub pin)) d' =
                Inr \<lparr>lb_user = sub_user (pi_sub pin), lb_lab = sub_lab (pi_sub pin), lb_sub = sub_id (pi_sub pin), lb_updated = now\<rparr> \<and>
              filter (\<lambda>b. \<not> is_entry (sub_user (pi_sub pin)) (sub_lab (pi_sub pin)) b) (db_board d') =
                filter (\<lambda>b. \<not> is_entry (sub_user (pi_sub pin)) (sub_lab (pi_sub pin)) b) (db_board d)
         else db_board d' = db_board d) \<and>
        (\<exists>ss bs sc bd. d' = d\<lparr>db_subs := ss, db_bonus := bs, db_scores := sc, db_board := bd\<rparr>)"
proof (cases res)
  case (Inl err)
  with assms(1) show ?thesis by (auto simp: Persist_def split: sum.splits)
next
  case (Inr u)
  with assms(1) have ok: "Persist flt now pin d = (Inr (), d')" by simp
  note subs = Persist_subs [OF ok]
  from ok show ?thesis
  proof (rule Persist_Inr)
    fix d1 d2 d3
    assume val: "ValidateResult (pi_manifest pin) (pi_result pin) = Inr ()"
      and d1: "d1 = d\<lparr>db_subs := update_where (\<lambda>r. sub_id r = sub_id (pi_sub pin))
         (with_result pin) (db_subs d)\<rparr>"
      and sq: "settle_quota flt now pin d1 = Inr d2"
      and scored: "r_verdict (pi_result pin) = Scored \<Longrightarrow>
         persistScores flt (sub_id (pi_sub pin)) (r_scores (pi_result pin)) d2 = Inr d3 \<and>
         refreshLeaderboard now (pi_sub pin) d3 = Inr d'"
      and plain: "r_verdict (pi_result pin) \<noteq> Scored \<Longrightarrow> d' = d2"
    from settle_quota_Inr [OF sq] have keep2: "db_scores d2 = db_scores d" "db_board d2 = db_board d"
      by (auto simp: d1)
    show ?thesis
    proof (cases "r_verdict (pi_result pin) = Scored")
      case True
      with scored have ps: "persistScores flt (sub_id (pi_sub pin)) (r_scores (pi_result pin)) d2 = Inr d3"
        and rl: "refreshLeaderboard now (pi_sub pin) d3 = Inr d'" by simp_all
      obtain ss bs where "d3 = d2\<lparr>db_scores := ss\<rparr>" "d' = d3\<lparr>db_board := bs\<rparr>"
        using persistScores_frame [OF ps] refreshLeaderboard_frame [OF rl] by blast
      then have "db_subs d' = db_subs d2" "db_scores d' = db_scores d3" "db_board d3 = db_board d2" by simp_all
      with persistScores_score [OF ps assms(2)] refreshLeaderboard_entry [OF rl] True Inr subs keep2
      show ?thesis by (simp add: score_of_def)
    next
      case False
      with ValidateResult_verdict [OF val] have "r_scores (pi_result pin) = []" by simp
      with False plain subs keep2 Inr show ?thesis by (simp add: score_of_def)
    qed
  qed
qed

section \<open>Bonus units\<close>

text \<open>The bonus that a student has for a lab: what is left of it, and what submissions hold of it.\<close>

definition holds_bonus :: "int \<Rightarrow> string \<Rightarrow> sub_row \<Rightarrow> bool" where
  "holds_bonus user lab r \<longleftrightarrow> sub_user r = user \<and> sub_lab r = lab \<and> sub_quota r = QBonus"

definition balance :: "int \<Rightarrow> string \<Rightarrow> db \<Rightarrow> int" where
  "balance user lab d = (case GetBonusQuota user lab d of Inl _ \<Rightarrow> 0 | Inr n \<Rightarrow> n)"

definition bonus_units :: "int \<Rightarrow> string \<Rightarrow> db \<Rightarrow> int" where
  "bonus_units user lab d = balance user lab d + int (count_where (holds_bonus user lab) (db_subs d))"

text \<open>Every submission paid by a bonus has a balance row to be refunded to.\<close>

definition bonus_backed :: "db \<Rightarrow> bool" where
  "bonus_backed d \<longleftrightarrow> distinct (map bonus_key (db_bonus d)) \<and>
     (\<forall>r \<in> set (db_subs d). sub_quota r = QBonus \<longrightarrow>
        (\<exists>b \<in> set (db_bonus d). is_bonus (sub_user r) (sub_lab r) b))"

lemma count_update_where_on:
  "(\<And>r. r \<in> set rs \<Longrightarrow> P r \<Longrightarrow> Q (f r) = Q r) \<Longrightarrow> count_where Q (update_where P f rs) = count_where Q rs"
  by (induction rs) auto

lemma balance_update:
  "map_option bq_remaining (find (is_bonus user lab)
      (update_where (is_bonus u l) (\<lambda>b. b\<lparr>bq_remaining := bq_remaining b + 1, bq_updated := now\<rparr>) bs)) =
   map_option (\<lambda>b. bq_remaining b + (if u = user \<and> l = lab then 1 else 0)) (find (is_bonus user lab) bs)"
  by (induction bs) (auto simp: is_bonus_def)

lemma balance_find: "balance user lab d = (case find (is_bonus user lab) (db_bonus d) of None \<Rightarrow> 0 | Some b \<Rightarrow> bq_remaining b)"
  by (auto simp: balance_def GetBonusQuota_def split: option.splits)

lemma Refund_units:
  assumes "RefundBonusSubmission now i d = Inr (n, d')" and "distinct (map sub_id (db_subs d))"
    and "bonus_backed d"
  shows "bonus_units user lab d' = bonus_units user lab d"
proof (cases "find (\<lambda>r. sub_id r = i \<and> sub_quota r = QBonus) (db_subs d)")
  case None
  with assms(1) show ?thesis by (simp add: RefundBonusSubmission_def)
next
  case (Some s)
  have s: "s \<in> set (db_subs d)" "sub_id s = i" "sub_quota s = QBonus" using find_SomeD [OF Some] by auto
  let ?B = "\<lambda>bs. update_where (is_bonus (sub_user s) (sub_lab s))
     (\<lambda>b. b\<lparr>bq_remaining := bq_remaining b + 1, bq_updated := now\<rparr>) bs"
  let ?S = "update_where (\<lambda>r. sub_id r = i) (\<lambda>r. r\<lparr>sub_quota := QFree\<rparr>) (db_subs d)"
  have flip: "update_where (\<lambda>r. sub_id r = i \<and> sub_quota r = QBonus) (\<lambda>r. r\<lparr>sub_quota := QFree\<rparr>) (db_subs d) = ?S"
    by (rule update_where_key_cong [OF assms(2) s(1,2)]) (rule s(3))
  from assms(1) Some flip have d': "d' = d\<lparr>db_subs := ?S, db_bonus := ?B (db_bonus d)\<rparr>"
    by (auto simp: RefundBonusSubmission_def Let_def split: if_splits)
  have bal: "balance user lab d' = (case map_option bq_remaining (find (is_bonus user lab) (?B (db_bonus d))) of
      None \<Rightarrow> 0 | Some x \<Rightarrow> x)"
    by (auto simp: balance_find d' split: option.splits)
  show ?thesis
  proof (cases "sub_user s = user \<and> sub_lab s = lab")
    case True
    with assms(3) s have "\<exists>b \<in> set (db_bonus d). is_bonus user lab b"
      unfolding bonus_backed_def by blast
    from find_exists [OF this] obtain b where "find (is_bonus user lab) (db_bonus d) = Some b" by blast
    with bal True have "balance user lab d' = balance user lab d + 1"
      by (simp add: balance_update balance_find)
    moreover have "Suc (count_where (holds_bonus user lab) ?S) = count_where (holds_bonus user lab) (db_subs d)"
      by (rule count_update_lost [OF assms(2) s(1,2)]) (use s True in \<open>simp_all add: holds_bonus_def\<close>)
    ultimately show ?thesis by (simp add: bonus_units_def d')
  next
    case False
    have "count_where (holds_bonus user lab) ?S = count_where (holds_bonus user lab) (db_subs d)"
      using False distinct_key_eq [OF assms(2) _ s(1)] s(2)
      by (intro count_update_where_on) (auto simp: holds_bonus_def)
    with bal False show ?thesis
      by (auto simp: bonus_units_def d' balance_update balance_find split: option.splits)
  qed
qed

lemma settle_quota_units:
  assumes "settle_quota flt now pin d = Inr d'" and "distinct (map sub_id (db_subs d))"
    and "bonus_backed d" and "r \<in> set (db_subs d)" and "sub_id r = sub_id (pi_sub pin)"
    and "sub_quota r = sub_quota (pi_sub pin)"
  shows "bonus_units user lab d' = bonus_units user lab d"
proof (cases "sub_quota (pi_sub pin) = QBonus \<and> quotaStateFor (pi_manifest pin) (r_verdict (pi_result pin)) = QFree")
  case True
  then obtain n where "RefundBonusSubmission now (sub_id (pi_sub pin)) d = Inr (n, d')"
    using assms(1) by (auto simp: settle_quota_def Let_def)
  then show ?thesis using assms(2,3) by (rule Refund_units)
next
  case False
  define q where "q = (if sub_quota (pi_sub pin) = QBonus then QBonus
     else if sub_quota (pi_sub pin) = QFree then QFree
     else quotaStateFor (pi_manifest pin) (r_verdict (pi_result pin)))"
  have "d' = UpdateSubmissionQuotaState (sub_id (pi_sub pin)) q d"
    using assms(1) False by (auto simp: settle_quota_def Let_def q_def split: if_splits)
  moreover have "(q = QBonus) = (sub_quota r = QBonus)"
    by (auto simp: q_def assms(6) quotaStateFor_def split: verdict.splits option.splits)
  moreover have "s = r" if "s \<in> set (db_subs d)" "sub_id s = sub_id (pi_sub pin)" for s
    using distinct_key_eq [OF assms(2) that(1) assms(4)] that(2) assms(5) by simp
  ultimately show ?thesis
    by (auto simp: bonus_units_def balance_find UpdateSubmissionQuotaState_def holds_bonus_def
        intro!: count_update_where_on)
qed

text \<open>C7. Bonus quota is neither lost nor minted by an evaluation: persisting any result for a submission
  as it is in the database keeps, for every student and lab, the balance plus the submissions that
  hold a unit; a refund gives back exactly the unit the submission held.\<close>

theorem Persist_conserves_bonus:
  assumes "Persist flt now pin d = (res, d')" and "distinct (map sub_id (db_subs d))"
    and "bonus_backed d" and "r \<in> set (db_subs d)" and "sub_id r = sub_id (pi_sub pin)"
    and "sub_quota r = sub_quota (pi_sub pin)"
  shows "bonus_units user lab d' = bonus_units user lab d"
proof (cases res)
  case (Inl err)
  with assms(1) show ?thesis by (auto simp: Persist_def split: sum.splits)
next
  case (Inr u)
  with assms(1) have "Persist flt now pin d = (Inr (), d')" by simp
  then show ?thesis
  proof (rule Persist_Inr)
    fix d1 d2 d3
    let ?i = "sub_id (pi_sub pin)"
    assume d1: "d1 = d\<lparr>db_subs := update_where (\<lambda>r. sub_id r = ?i)
         (with_result pin) (db_subs d)\<rparr>"
      and sq: "settle_quota flt now pin d1 = Inr d2"
      and scored: "r_verdict (pi_result pin) = Scored \<Longrightarrow>
         persistScores flt (sub_id (pi_sub pin)) (r_scores (pi_result pin)) d2 = Inr d3 \<and>
         refreshLeaderboard now (pi_sub pin) d3 = Inr d'"
      and plain: "r_verdict (pi_result pin) \<noteq> Scored \<Longrightarrow> d' = d2"
    have f: "holds_bonus user lab (with_result pin r) = holds_bonus user lab r" for r
      by (simp add: holds_bonus_def)
    have "bonus_units user lab d2 = bonus_units user lab d1"
    proof (rule settle_quota_units [OF sq])
      show "distinct (map sub_id (db_subs d1))" using assms(2) by (simp add: d1 map_update_where)
      show "bonus_backed d1" using assms(3) by (auto simp: bonus_backed_def d1 set_update_where)
      show "with_result pin r \<in> set (db_subs d1)" using assms(4,5) by (force simp: d1 set_update_where)
    qed (use assms in simp_all)
    moreover have "bonus_units user lab d1 = bonus_units user lab d"
      using f by (simp add: d1 bonus_units_def balance_find count_update_where)
    moreover have "bonus_units user lab d' = bonus_units user lab d2"
    proof (cases "r_verdict (pi_result pin) = Scored")
      case True
      with scored obtain ss bs where "d' = d2\<lparr>db_scores := ss, db_board := bs\<rparr>"
        using persistScores_frame refreshLeaderboard_frame by blast
      then show ?thesis by (simp add: bonus_units_def balance_find)
    qed (use plain in simp)
    ultimately show ?thesis by simp
  qed
qed

section \<open>An admin reset undone\<close>

text \<open>Persisting a result undoes an admin reset: when an administrator resets the day's quota while a
  submission is being evaluated, or before it is claimed, its scored result is charged all the same,
  so the submission counts against the student's day again.\<close>

theorem Persist_undoes_admin_reset:
  assumes "Persist flt now pin d = (Inr (), d')" and "distinct (map sub_id (db_subs d))"
    and "row \<in> set (db_subs d)" and "sub_id row = sub_id (pi_sub pin)" and "sub_quota row = QAdminReset"
    and "sub_quota (pi_sub pin) \<in> {QPending, QAdminReset}" and "r_verdict (pi_result pin) = Scored"
    and "start \<le> sub_created row" and "sub_created row < stop"
  shows "CountSubmissionQuotaUsage (sub_user row) (sub_lab row) start stop d' =
    Suc (CountSubmissionQuotaUsage (sub_user row) (sub_lab row) start stop d)"
  using assms(1)
proof (rule Persist_Inr)
  fix d1 d2 d3
  let ?Q = "counts_for (sub_user row) (sub_lab row) start stop"
  let ?S = "\<lambda>f. update_where (\<lambda>r. sub_id r = sub_id (pi_sub pin)) f (db_subs d)"
  assume d1: "d1 = d\<lparr>db_subs := ?S (with_result pin)\<rparr>"
    and sq: "settle_quota flt now pin d1 = Inr d2"
    and scored: "r_verdict (pi_result pin) = Scored \<Longrightarrow>
       persistScores flt (sub_id (pi_sub pin)) (r_scores (pi_result pin)) d2 = Inr d3 \<and>
       refreshLeaderboard now (pi_sub pin) d3 = Inr d'"
  from scored assms(7) obtain ss bs where "d' = d2\<lparr>db_scores := ss, db_board := bs\<rparr>"
    using persistScores_frame refreshLeaderboard_frame by blast
  moreover have "settled_state (sub_quota (pi_sub pin)) (quotaStateFor (pi_manifest pin) Scored) q = QCharged" for q
    using assms(6) by (auto simp: settled_state_def quotaStateFor_def)
  with settle_quota_Inr [OF sq] assms(7) have "db_subs d2 = ?S (\<lambda>r. with_result pin r\<lparr>sub_quota := QCharged\<rparr>)"
    by (simp add: d1 update_where_twice) (simp add: update_where_def)
  moreover have "count_where ?Q (?S (\<lambda>r. with_result pin r\<lparr>sub_quota := QCharged\<rparr>)) = Suc (count_where ?Q (db_subs d))"
    by (rule count_update_one [OF assms(2-4)]) (use assms(5,8,9) in \<open>simp_all add: counts_for_def\<close>)
  ultimately show ?thesis by (simp add: CountSubmissionQuotaUsage_def)
qed

section \<open>A concrete evaluation\<close>

definition sample_sub :: "quota_state \<Rightarrow> sub_row" where
  "sample_sub q =
     \<lparr>sub_id = 1, sub_user = 1, sub_lab = ''lab'', sub_key = 1, sub_artifact = ''lab/1/a'', sub_hash = ''h'',
      sub_status = SsRunning, sub_verdict = None, sub_message = None, sub_detail = None, sub_digest = None,
      sub_started = None, sub_finished = None, sub_created = 5, sub_quota = q\<rparr>"

definition sample_db :: "quota_state \<Rightarrow> db" where
  "sample_db q = (w_db (sample_world 2 3))
     \<lparr>db_subs := [sample_sub q],
      db_jobs := [(new_job 5 2 1)\<lparr>job_status := JRunning, job_worker := Some ''w''\<rparr>], db_uuid_seq := 2\<rparr>"

definition sample_pin :: "quota_state \<Rightarrow> verdict \<Rightarrow> string \<Rightarrow> persist_input" where
  "sample_pin q v msg =
     \<lparr>pi_manifest = Some sample_manifest, pi_sub = sample_sub q,
      pi_result = \<lparr>r_verdict = v, r_scores = (if v = Scored then [(''speed'', 1), (''mem'', 2)] else []),
        r_detail = None, r_message = msg\<rparr>,
      pi_digest = [], pi_started = 6, pi_finished = 7\<rparr>"

lemma sample_db_simps [simp]:
  "db_subs (sample_db q) = [sample_sub q]" "sub_id (sample_sub q) = 1" "sub_quota (sample_sub q) = q"
  "sub_user (sample_sub q) = 1" "sub_lab (sample_sub q) = ''lab''" "sub_created (sample_sub q) = 5"
  "pi_sub (sample_pin q v msg) = sample_sub q" "r_verdict (pi_result (sample_pin q v msg)) = v"
  "bonus_backed (sample_db q)"
  by (simp_all add: sample_db_def sample_sub_def sample_pin_def bonus_backed_def sample_world_def
      empty_db_def bonus_key_def is_bonus_def)

lemma sample_persist:
  "fst (Persist (\<lambda>_. False) 9 (sample_pin QPending Scored []) (sample_db QPending)) = Inr ()"
  "fst (Persist (\<lambda>_. False) 9 (sample_pin QPending Scored []) (sample_db QAdminReset)) = Inr ()"
  "case Persist (\<lambda>_. False) 9 (sample_pin QBonus VError ''e'') (sample_db QBonus) of (res, d) \<Rightarrow>
     res = Inr () \<and> balance 1 ''lab'' d = 4"
  by code_simp+

theorem Persist_records_witness:
  "score_of 1 ''speed'' (snd (Persist (\<lambda>_. False) 9 (sample_pin QPending Scored []) (sample_db QPending))) = Some (to_f32 1)"
proof -
  obtain d' where d': "Persist (\<lambda>_. False) 9 (sample_pin QPending Scored []) (sample_db QPending) = (Inr (), d')"
    using sample_persist(1) by (metis prod.collapse)
  have sc: "r_scores (pi_result (sample_pin QPending Scored [])) = [(''speed'', 1), (''mem'', 2)]"
    by (simp add: sample_pin_def)
  from Persist_records [OF d'] sc show ?thesis by (simp add: d')
qed

theorem Persist_conserves_bonus_witness:
  "bonus_units 1 ''lab'' (snd (Persist (\<lambda>_. False) 9 (sample_pin QBonus VError ''e'') (sample_db QBonus))) =
   bonus_units 1 ''lab'' (sample_db QBonus)"
proof -
  obtain res d' where d': "Persist (\<lambda>_. False) 9 (sample_pin QBonus VError ''e'') (sample_db QBonus) = (res, d')"
    by fastforce
  from Persist_conserves_bonus [OF d', of "sample_sub QBonus" 1 "''lab''"] show ?thesis by (simp add: d')
qed

theorem Persist_undoes_admin_reset_witness:
  "CountSubmissionQuotaUsage 1 ''lab'' 0 10
     (snd (Persist (\<lambda>_. False) 9 (sample_pin QPending Scored []) (sample_db QAdminReset))) =
   Suc (CountSubmissionQuotaUsage 1 ''lab'' 0 10 (sample_db QAdminReset))"
proof -
  obtain d' where d': "Persist (\<lambda>_. False) 9 (sample_pin QPending Scored []) (sample_db QAdminReset) = (Inr (), d')"
    using sample_persist(2) by (metis prod.collapse)
  from Persist_undoes_admin_reset [OF d', of "sample_sub QAdminReset" 0 10] show ?thesis by (simp add: d')
qed

end
