(* ===== verification/Jobs.thy ===== *)
theory Jobs
  imports Db_Submissions
begin

text \<open>
  \<^verbatim>\<open>packages/go/jobs\<close> and \<^verbatim>\<open>db/queries/jobs.sql\<close>: the evaluation queue. \<open>Claim\<close> selects the next due job
  that no other transaction has locked and marks it running; \<open>Acknowledge\<close> and \<open>Retry\<close> are guarded
  updates. Several workers at once are a step relation whose state holds the row locks of the open
  claim transactions.
\<close>

section \<open>Queries\<close>

definition due :: "time \<Rightarrow> uuid list \<Rightarrow> job_row \<Rightarrow> bool" where
  "due now locked j \<longleftrightarrow> job_status j = JQueued \<and> job_available j \<le> now \<and> job_id j \<notin> set locked"

definition job_before :: "job_row \<Rightarrow> job_row \<Rightarrow> bool" where
  "job_before a b \<longleftrightarrow> job_available a < job_available b
     \<or> job_available a = job_available b \<and> job_created a < job_created b"

interpretation job_order: weak_less job_before
  by unfold_locales (auto simp: job_before_def)

definition GetNextQueuedEvaluationJob :: "time \<Rightarrow> uuid list \<Rightarrow> db \<Rightarrow> db_error + job_row" where
  "GetNextQueuedEvaluationJob now locked d =
     (case sort_stable job_before (filter (due now locked) (db_jobs d)) of
        [] \<Rightarrow> Inl NoRows
      | j # _ \<Rightarrow> Inr j)"

definition MarkEvaluationJobRunning :: "time \<Rightarrow> uuid \<Rightarrow> string option \<Rightarrow> db \<Rightarrow> db_error + db" where
  "MarkEvaluationJobRunning now i w d =
     (if \<exists>j \<in> set (db_jobs d). job_id j = i \<and> job_attempts j + 1 > max_int4 then Inl OutOfRange
      else Inr (d\<lparr>db_jobs := update_where (\<lambda>j. job_id j = i)
         (\<lambda>j. j\<lparr>job_status := JRunning, job_attempts := job_attempts j + 1, job_worker := w,
                job_started := Some now, job_updated := now\<rparr>) (db_jobs d)\<rparr>))"

text \<open>The guarded updates: the row is running and held by the worker (NULL equals nothing).\<close>

definition held_by :: "uuid \<Rightarrow> string option \<Rightarrow> job_row \<Rightarrow> bool" where
  "held_by i w j \<longleftrightarrow> job_id j = i \<and> job_status j = JRunning \<and> w \<noteq> None \<and> job_worker j = w"

definition MarkEvaluationJobDone ::
  "time \<Rightarrow> uuid \<Rightarrow> job_status \<Rightarrow> string option \<Rightarrow> string option \<Rightarrow> db \<Rightarrow> nat \<times> db" where
  "MarkEvaluationJobDone now i st w err d =
     (count_where (held_by i w) (db_jobs d),
      d\<lparr>db_jobs := update_where (held_by i w)
          (\<lambda>j. j\<lparr>job_status := st, job_error := err, job_finished := Some now, job_updated := now\<rparr>) (db_jobs d)\<rparr>)"

definition RequeueEvaluationJob ::
  "time \<Rightarrow> uuid \<Rightarrow> string option \<Rightarrow> time \<Rightarrow> string option \<Rightarrow> db \<Rightarrow> nat \<times> db" where
  "RequeueEvaluationJob now i w available err d =
     (count_where (held_by i w) (db_jobs d),
      d\<lparr>db_jobs := update_where (held_by i w)
          (\<lambda>j. j\<lparr>job_status := JQueued, job_available := available, job_worker := None, job_started := None,
                 job_finished := None, job_error := err, job_updated := now\<rparr>) (db_jobs d)\<rparr>)"

section \<open>The queue\<close>

datatype queue_error = InvalidWorkerID | InvalidTerminalStatus | TransitionNotAllowed | QueueDb db_error

definition validateWorkerID :: "string \<Rightarrow> queue_error + unit" where
  "validateWorkerID w = (if trim_space w = [] then Inl InvalidWorkerID else Inr ())"

definition isTerminalStatus :: "string \<Rightarrow> bool" where
  "isTerminalStatus s \<longleftrightarrow> s = ''done'' \<or> s = ''error''"

definition job_text :: "string \<Rightarrow> string option" where
  "job_text v = (if v = [] then None else Some v)"

definition Enqueue :: "time \<Rightarrow> uuid \<Rightarrow> db \<Rightarrow> db_error + (job_row \<times> db)" where
  "Enqueue now i d = CreateEvaluationJob now i d"

datatype claim_call = ClBegin | ClNext | ClMark | ClCommit

text \<open>\<open>locked\<close> are the jobs that other open claim transactions hold; \<open>clock\<close> is the worker's clock.\<close>

definition Claim ::
  "(claim_call \<Rightarrow> bool) \<Rightarrow> time \<Rightarrow> time \<Rightarrow> uuid list \<Rightarrow> string \<Rightarrow> db \<Rightarrow> (queue_error + job_row option) \<times> db" where
  "Claim flt now clock locked w d =
     (case validateWorkerID w of
        Inl err \<Rightarrow> (Inl err, d)
      | Inr _ \<Rightarrow>
     (if flt ClBegin then (Inl (QueueDb Unavailable), d)
      else case faulty (flt ClNext) (GetNextQueuedEvaluationJob now locked d) of
        Inl NoRows \<Rightarrow> (Inr None, d)
      | Inl err \<Rightarrow> (Inl (QueueDb err), d)
      | Inr job \<Rightarrow>
     (case faulty (flt ClMark) (MarkEvaluationJobRunning now (job_id job) (job_text w) d) of
        Inl err \<Rightarrow> (Inl (QueueDb err), d)
      | Inr d' \<Rightarrow>
          (let job' = job\<lparr>job_status := JRunning, job_attempts := job_attempts job + 1,
                 job_worker := Some w, job_started := Some clock, job_updated := clock\<rparr>
           in if flt ClCommit then (Inl (QueueDb Unavailable), d) else (Inr (Some job'), d')))))"

definition Acknowledge ::
  "bool \<Rightarrow> time \<Rightarrow> uuid \<Rightarrow> string \<Rightarrow> string \<Rightarrow> string \<Rightarrow> db \<Rightarrow> (queue_error + unit) \<times> db" where
  "Acknowledge fault now i w status lastError d =
     (case validateWorkerID w of
        Inl err \<Rightarrow> (Inl err, d)
      | Inr _ \<Rightarrow>
     (if \<not> isTerminalStatus status then (Inl InvalidTerminalStatus, d)
      else if fault \<or> \<not> pg_text (job_text lastError) then (Inl (QueueDb (if fault then Unavailable else InvalidText)), d)
      else (let st = (if status = ''done'' then JDone else JError);
                (rows, d') = MarkEvaluationJobDone now i st (job_text w) (job_text lastError) d
            in (if rows \<noteq> 1 then Inl TransitionNotAllowed else Inr (), d'))))"

definition Retry ::
  "bool \<Rightarrow> time \<Rightarrow> uuid \<Rightarrow> string \<Rightarrow> time \<Rightarrow> string \<Rightarrow> db \<Rightarrow> (queue_error + unit) \<times> db" where
  "Retry fault now i w available lastError d =
     (case validateWorkerID w of
        Inl err \<Rightarrow> (Inl err, d)
      | Inr _ \<Rightarrow>
     (if fault \<or> \<not> pg_text (job_text lastError) then (Inl (QueueDb (if fault then Unavailable else InvalidText)), d)
      else (let (rows, d') = RequeueEvaluationJob now i (job_text w) available (job_text lastError) d
            in (if rows \<noteq> 1 then Inl TransitionNotAllowed else Inr (), d'))))"

section \<open>Several workers\<close>

text \<open>The database and the row locks of open claim transactions (transaction, worker, job).\<close>

record qstate =
  q_db :: db
  q_locks :: "(nat \<times> string \<times> uuid) list"

datatype qevent = EvEnqueue uuid | EvLock uuid | EvClaim uuid | EvAbort | EvAck uuid | EvRetry uuid | EvOther

definition locked_ids :: "qstate \<Rightarrow> uuid list" where
  "locked_ids s = map (\<lambda>(tx, w, i). i) (q_locks s)"

inductive qstep :: "qstate \<Rightarrow> qevent \<Rightarrow> qstate \<Rightarrow> bool" where
  enqueue: "Enqueue now i (q_db s) = Inr (j, d') \<Longrightarrow> qstep s (EvEnqueue (job_id j)) (s\<lparr>q_db := d'\<rparr>)"
| lock: "GetNextQueuedEvaluationJob now (locked_ids s) (q_db s) = Inr j \<Longrightarrow> validateWorkerID w = Inr () \<Longrightarrow>
    tx \<notin> fst ` set (q_locks s) \<Longrightarrow>
    qstep s (EvLock (job_id j)) (s\<lparr>q_locks := (tx, w, job_id j) # q_locks s\<rparr>)"
| claim: "(tx, w, i) \<in> set (q_locks s) \<Longrightarrow> MarkEvaluationJobRunning now i (job_text w) (q_db s) = Inr d' \<Longrightarrow>
    qstep s (EvClaim i) (s\<lparr>q_db := d', q_locks := filter (\<lambda>l. fst l \<noteq> tx) (q_locks s)\<rparr>)"
| abort: "qstep s EvAbort (s\<lparr>q_locks := filter (\<lambda>l. fst l \<noteq> tx) (q_locks s)\<rparr>)"
| ack: "Acknowledge False now i w status err (q_db s) = (Inr (), d') \<Longrightarrow>
    qstep s (EvAck i) (s\<lparr>q_db := d'\<rparr>)"
| retry: "Retry False now i w available err (q_db s) = (Inr (), d') \<Longrightarrow>
    qstep s (EvRetry i) (s\<lparr>q_db := d'\<rparr>)"
| other: "db_jobs d' = db_jobs (q_db s) \<Longrightarrow> db_uuid_seq (q_db s) \<le> db_uuid_seq d' \<Longrightarrow>
    qstep s EvOther (s\<lparr>q_db := d'\<rparr>)"

text \<open>Runs from the empty database; the list holds the events, latest first.\<close>

inductive qrun :: "qevent list \<Rightarrow> qstate \<Rightarrow> bool" where
  start: "qrun [] \<lparr>q_db = empty_db, q_locks = []\<rparr>"
| more: "qrun es s \<Longrightarrow> qstep s e s' \<Longrightarrow> qrun (e # es) s'"

definition times :: "qevent \<Rightarrow> qevent list \<Rightarrow> nat" where
  "times e es = count_where (\<lambda>x. x = e) es"

lemma times_simps [simp]: "times e [] = 0" "times e (x # es) = (if x = e then Suc (times e es) else times e es)"
  by (simp_all add: times_def)

text \<open>What the history of a job says about its row.\<close>

definition job_agrees :: "qevent list \<Rightarrow> job_row \<Rightarrow> bool" where
  "job_agrees es j \<longleftrightarrow>
     job_attempts j = int (times (EvClaim (job_id j)) es) \<and>
     times (EvClaim (job_id j)) es =
       times (EvRetry (job_id j)) es + (if job_status j = JQueued then 0 else 1) \<and>
     times (EvAck (job_id j)) es = (if job_status j \<in> {JDone, JError} then 1 else 0)"

definition locks_ok :: "qstate \<Rightarrow> bool" where
  "locks_ok s \<longleftrightarrow> distinct (locked_ids s) \<and> distinct (map fst (q_locks s)) \<and>
     (\<forall>i \<in> set (locked_ids s). \<exists>j \<in> set (db_jobs (q_db s)). job_id j = i \<and> job_status j = JQueued)"

definition qinv :: "qevent list \<Rightarrow> qstate \<Rightarrow> bool" where
  "qinv es s \<longleftrightarrow> distinct (map job_id (db_jobs (q_db s))) \<and>
     (\<forall>j \<in> set (db_jobs (q_db s)). job_id j \<le> db_uuid_seq (q_db s) \<and> job_agrees es j) \<and>
     (\<forall>i > db_uuid_seq (q_db s). times (EvClaim i) es = 0 \<and> times (EvRetry i) es = 0 \<and> times (EvAck i) es = 0) \<and>
     locks_ok s"

lemma GetNext_Inr:
  assumes "GetNextQueuedEvaluationJob now locked d = Inr j"
  shows "j \<in> set (db_jobs d) \<and> due now locked j \<and>
    (\<forall>k \<in> set (db_jobs d). due now locked k \<longrightarrow> \<not> job_before k j)"
proof -
  let ?xs = "sort_stable job_before (filter (due now locked) (db_jobs d))"
  from assms obtain js where xs: "?xs = j # js"
    by (simp only: GetNextQueuedEvaluationJob_def split: list.splits) auto
  have "\<not> job_before k j" if "k \<in> set ?xs" for k
    using that job_order.sorted [of "filter (due now locked) (db_jobs d)"] job_order.less_irrefl
    by (auto simp: xs)
  moreover have "set ?xs = {k \<in> set (db_jobs d). due now locked k}" by simp
  ultimately show ?thesis using xs by (metis (mono_tags, lifting) list.set_intros(1) mem_Collect_eq)
qed

lemma held_unique:
  assumes "distinct (map job_id js)" and "count_where (held_by i w) js = 1"
  obtains j where "j \<in> set js" "held_by i w j"
    "\<And>f. update_where (held_by i w) f js = update_where (\<lambda>j. job_id j = i) f js"
proof -
  from assms(2) have "\<not> (\<forall>j \<in> set js. \<not> held_by i w j)"
    by (metis count_where_zero zero_neq_one)
  then obtain j where j: "j \<in> set js" "held_by i w j" by blast
  have "update_where (held_by i w) f js = update_where (\<lambda>j. job_id j = i) f js" for f
    using update_where_key_cong [OF assms(1) j(1), of i "\<lambda>j. job_status j = JRunning \<and> w \<noteq> None \<and> job_worker j = w" f] j(2)
    by (simp add: held_by_def [abs_def])
  with j that show thesis by blast
qed

lemma locks_subset:
  assumes "locks_ok s" and "\<And>i. i \<in> set (locked_ids s') \<Longrightarrow>
     \<exists>j \<in> set (db_jobs (q_db s')). job_id j = i \<and> job_status j = JQueued"
    and "q_locks s' = filter P (q_locks s)"
  shows "locks_ok s'"
  using assms by (auto simp: locks_ok_def locked_ids_def intro: distinct_map_filter)

lemma qinv_update:
  assumes inv: "qinv es s" and j0: "j0 \<in> set (db_jobs (q_db s))" "job_id j0 = i"
    and d': "db_jobs d' = update_where (\<lambda>j. job_id j = i) f (db_jobs (q_db s))" "db_uuid_seq d' = db_uuid_seq (q_db s)"
    and f: "\<And>j. job_id (f j) = job_id j" and ok: "job_agrees (e # es) (f j0)"
    and e: "e \<in> {EvClaim i, EvAck i, EvRetry i}"
    and ls: "q_locks s' = filter P (q_locks s)" "q_db s' = d'" "i \<notin> set (locked_ids s')"
  shows "qinv (e # es) s'"
proof -
  from inv have dist: "distinct (map job_id (db_jobs (q_db s)))" and lk: "locks_ok s"
    and rows: "\<And>j. j \<in> set (db_jobs (q_db s)) \<Longrightarrow> job_id j \<le> db_uuid_seq (q_db s) \<and> job_agrees es j"
    and fresh: "\<And>k. k > db_uuid_seq (q_db s) \<Longrightarrow>
      times (EvClaim k) es = 0 \<and> times (EvRetry k) es = 0 \<and> times (EvAck k) es = 0"
    by (auto simp: qinv_def)
  have i: "i \<le> db_uuid_seq (q_db s)" using rows [OF j0(1)] j0(2) by simp
  have only: "j = j0" if "j \<in> set (db_jobs (q_db s))" "job_id j = i" for j
    using distinct_key_eq [OF dist that(1) j0(1)] that(2) j0(2) by simp
  have old: "job_agrees (e # es) j" if "job_agrees es j" "job_id j \<noteq> i" for j
    using that e by (auto simp: job_agrees_def)
  have rows': "job_id j \<le> db_uuid_seq d' \<and> job_agrees (e # es) j" if "j \<in> set (db_jobs d')" for j
    using that rows only f ok old d' j0(2) i by (auto simp: set_update_where split: if_splits)
  have lk': "locks_ok s'"
  proof (rule locks_subset [OF lk _ ls(1)])
    fix k assume k: "k \<in> set (locked_ids s')"
    with ls(3) have "k \<noteq> i" by blast
    from k ls(1) have "k \<in> set (locked_ids s)" by (force simp: locked_ids_def)
    with lk obtain j where j: "j \<in> set (db_jobs (q_db s))" "job_id j = k" "job_status j = JQueued"
      by (auto simp: locks_ok_def)
    with \<open>k \<noteq> i\<close> have "j \<in> set (db_jobs d')" by (force simp: d'(1) set_update_where)
    with j ls(2) show "\<exists>j \<in> set (db_jobs (q_db s')). job_id j = k \<and> job_status j = JQueued" by blast
  qed
  have "distinct (map job_id (db_jobs d'))" using dist f by (simp add: d'(1) map_update_where)
  moreover have "times (EvClaim k) (e # es) = 0 \<and> times (EvRetry k) (e # es) = 0 \<and> times (EvAck k) (e # es) = 0"
    if "k > db_uuid_seq d'" for k
    using that fresh [of k] e i d'(2) by auto
  ultimately show ?thesis using rows' lk' ls(2) by (simp add: qinv_def)
qed

lemma Acknowledge_Inr:
  assumes "Acknowledge fault now i w status err d = (Inr (), d')"
  shows "isTerminalStatus status \<and> count_where (held_by i (job_text w)) (db_jobs d) = 1 \<and>
    d' = snd (MarkEvaluationJobDone now i (if status = ''done'' then JDone else JError) (job_text w) (job_text err) d)"
  using assms by (auto simp: Acknowledge_def MarkEvaluationJobDone_def Let_def split: sum.splits if_splits)

lemma Retry_Inr:
  assumes "Retry fault now i w available err d = (Inr (), d')"
  shows "count_where (held_by i (job_text w)) (db_jobs d) = 1 \<and>
    d' = snd (RequeueEvaluationJob now i (job_text w) available (job_text err) d)"
  using assms by (auto simp: Retry_def RequeueEvaluationJob_def Let_def split: sum.splits if_splits)

lemma running_unlocked:
  assumes "qinv es s" and "j \<in> set (db_jobs (q_db s))" and "job_status j \<noteq> JQueued"
  shows "job_id j \<notin> set (locked_ids s)"
proof
  assume "job_id j \<in> set (locked_ids s)"
  with assms(1) obtain k where "k \<in> set (db_jobs (q_db s))" "job_id k = job_id j" "job_status k = JQueued"
    by (auto simp: qinv_def locks_ok_def)
  moreover have "distinct (map job_id (db_jobs (q_db s)))" using assms(1) by (simp add: qinv_def)
  ultimately show False using distinct_key_eq [of job_id _ k j] assms(2,3) by metis
qed

lemma qinv_step_rows:
  assumes "qstep s e s'" and "qinv es s" and "e \<noteq> EvOther" and "\<And>i. e \<noteq> EvEnqueue i"
    and "\<And>i. e \<noteq> EvLock i" and "e \<noteq> EvAbort"
  shows "qinv (e # es) s'"
  using assms(1)
proof cases
  case (claim tx w i now d')
  from assms(2) have lk: "locks_ok s" by (simp add: qinv_def)
  from claim(3) have "i \<in> set (locked_ids s)" by (force simp: locked_ids_def)
  with lk obtain j0 where j0: "j0 \<in> set (db_jobs (q_db s))" "job_id j0 = i" "job_status j0 = JQueued"
    by (auto simp: locks_ok_def)
  have gone: "i \<notin> set (locked_ids s')"
  proof
    assume "i \<in> set (locked_ids s')"
    then obtain tx' w' where l: "(tx', w', i) \<in> set (q_locks s)" "tx' \<noteq> tx"
      by (auto simp: claim(2) locked_ids_def)
    have "distinct (map (\<lambda>(tx, w, i). i) (q_locks s))" using lk by (simp add: locks_ok_def locked_ids_def)
    from distinct_key_eq [OF this l(1) claim(3)] l(2) show False by simp
  qed
  show ?thesis
  proof (rule qinv_update [OF assms(2) j0(1,2)])
    let ?f = "\<lambda>j. j\<lparr>job_status := JRunning, job_attempts := job_attempts j + 1, job_worker := job_text w,
                job_started := Some now, job_updated := now\<rparr>"
    show "db_jobs d' = update_where (\<lambda>j. job_id j = i) ?f (db_jobs (q_db s))"
      using claim(4) by (auto simp: MarkEvaluationJobRunning_def split: if_splits)
    show "db_uuid_seq d' = db_uuid_seq (q_db s)"
      using claim(4) by (auto simp: MarkEvaluationJobRunning_def split: if_splits)
    show "job_agrees (e # es) (?f j0)"
      using assms(2) j0 by (auto simp: qinv_def job_agrees_def claim(1))
    show "q_locks s' = filter (\<lambda>l. fst l \<noteq> tx) (q_locks s)" "q_db s' = d'" "e \<in> {EvClaim i, EvAck i, EvRetry i}"
      by (simp_all add: claim)
  qed (use gone in simp_all)
next
  case (ack now i w status err d')
  note a = Acknowledge_Inr [OF ack(3)]
  from assms(2) have dist: "distinct (map job_id (db_jobs (q_db s)))" by (simp add: qinv_def)
  from held_unique [OF dist] a obtain j0 where j0: "j0 \<in> set (db_jobs (q_db s))" "held_by i (job_text w) j0"
    and upd: "\<And>f. update_where (held_by i (job_text w)) f (db_jobs (q_db s)) =
      update_where (\<lambda>j. job_id j = i) f (db_jobs (q_db s))" by blast
  have st: "job_id j0 = i" "job_status j0 = JRunning" using j0(2) by (simp_all add: held_by_def)
  show ?thesis
  proof (rule qinv_update [OF assms(2) j0(1) st(1)])
    let ?f = "\<lambda>j. j\<lparr>job_status := if status = ''done'' then JDone else JError, job_error := job_text err,
       job_finished := Some now, job_updated := now\<rparr>"
    show "db_jobs d' = update_where (\<lambda>j. job_id j = i) ?f (db_jobs (q_db s))" "db_uuid_seq d' = db_uuid_seq (q_db s)"
      using a upd by (simp_all add: MarkEvaluationJobDone_def)
    show "job_agrees (e # es) (?f j0)"
      using assms(2) j0(1) st by (auto simp: qinv_def job_agrees_def ack(1))
    show "q_locks s' = filter (\<lambda>l. True) (q_locks s)" "q_db s' = d'" "e \<in> {EvClaim i, EvAck i, EvRetry i}"
      by (simp_all add: ack)
    show "i \<notin> set (locked_ids s')"
      using running_unlocked [OF assms(2) j0(1)] st by (simp add: ack(2) locked_ids_def)
  qed simp
next
  case (retry now i w available err d')
  note a = Retry_Inr [OF retry(3)]
  from assms(2) have dist: "distinct (map job_id (db_jobs (q_db s)))" by (simp add: qinv_def)
  from held_unique [OF dist] a obtain j0 where j0: "j0 \<in> set (db_jobs (q_db s))" "held_by i (job_text w) j0"
    and upd: "\<And>f. update_where (held_by i (job_text w)) f (db_jobs (q_db s)) =
      update_where (\<lambda>j. job_id j = i) f (db_jobs (q_db s))" by blast
  have st: "job_id j0 = i" "job_status j0 = JRunning" using j0(2) by (simp_all add: held_by_def)
  show ?thesis
  proof (rule qinv_update [OF assms(2) j0(1) st(1)])
    let ?f = "\<lambda>j. j\<lparr>job_status := JQueued, job_available := available, job_worker := None, job_started := None,
                 job_finished := None, job_error := job_text err, job_updated := now\<rparr>"
    show "db_jobs d' = update_where (\<lambda>j. job_id j = i) ?f (db_jobs (q_db s))" "db_uuid_seq d' = db_uuid_seq (q_db s)"
      using a upd by (simp_all add: RequeueEvaluationJob_def)
    show "job_agrees (e # es) (?f j0)"
      using assms(2) j0(1) st by (auto simp: qinv_def job_agrees_def retry(1))
    show "q_locks s' = filter (\<lambda>l. True) (q_locks s)" "q_db s' = d'" "e \<in> {EvClaim i, EvAck i, EvRetry i}"
      by (simp_all add: retry)
    show "i \<notin> set (locked_ids s')"
      using running_unlocked [OF assms(2) j0(1)] st by (simp add: retry(2) locked_ids_def)
  qed simp
qed (use assms in auto)

lemma job_agrees_other:
  "e \<notin> {EvClaim (job_id j), EvRetry (job_id j), EvAck (job_id j)} \<Longrightarrow> job_agrees (e # es) j = job_agrees es j"
  by (auto simp: job_agrees_def)

lemma qinv_keep:
  assumes "qinv es s" and "db_jobs (q_db s') = db_jobs (q_db s)" and "db_uuid_seq (q_db s) \<le> db_uuid_seq (q_db s')"
    and "\<And>i. e \<notin> {EvClaim i, EvRetry i, EvAck i}" and "locks_ok s'"
  shows "qinv (e # es) s'"
proof -
  have no: "e \<noteq> EvClaim i" "e \<noteq> EvRetry i" "e \<noteq> EvAck i" for i using assms(4) [of i] by auto
  from assms(1-3,5) no show ?thesis
    by (auto simp: qinv_def job_agrees_def intro: le_trans)
qed

lemma qinv_step:
  assumes "qstep s e s'" and "qinv es s"
  shows "qinv (e # es) s'"
  using assms(1)
proof cases
  case (enqueue now i j d')
  from enqueue(3) have d': "d' = q_db s\<lparr>db_jobs := db_jobs (q_db s) @ [j], db_uuid_seq := job_id j\<rparr>"
    and j: "j = new_job now (Suc (db_uuid_seq (q_db s))) i"
    by (auto simp: Enqueue_def CreateEvaluationJob_def Let_def split: if_splits)
  from assms(2) have fresh: "times (EvClaim (job_id j)) es = 0 \<and> times (EvRetry (job_id j)) es = 0 \<and> times (EvAck (job_id j)) es = 0"
    by (simp add: qinv_def j)
  then have new: "job_agrees (e # es) j" by (simp add: job_agrees_def enqueue(1) j)
  from assms(2) have old: "job_id k \<le> db_uuid_seq (q_db s) \<and> job_agrees (e # es) k" if "k \<in> set (db_jobs (q_db s))" for k
    using that by (auto simp: qinv_def job_agrees_other enqueue(1))
  have "job_id j \<notin> job_id ` set (db_jobs (q_db s))" using old by (force simp: j)
  moreover have "locks_ok s'"
    using assms(2) by (auto simp: qinv_def locks_ok_def enqueue(2) d' locked_ids_def)
  ultimately show ?thesis
    using assms(2) old new by (auto simp: qinv_def enqueue(1,2) d' j le_Suc_eq)
next
  case (lock now j w tx)
  note g = GetNext_Inr [OF lock(3)]
  have "locks_ok s'"
    using assms(2) g lock(5) by (auto simp: qinv_def locks_ok_def lock(2) locked_ids_def due_def)
  from qinv_keep [OF assms(2) _ _ _ this, of e] show ?thesis by (simp add: lock)
next
  case (abort tx)
  have "locks_ok s'"
    using assms(2) by (auto simp: qinv_def locks_ok_def abort(2) locked_ids_def intro: distinct_map_filter)
  from qinv_keep [OF assms(2) _ _ _ this, of e] show ?thesis by (simp add: abort)
next
  case (other d')
  have "locks_ok s'" using assms(2) other by (simp add: qinv_def locks_ok_def locked_ids_def)
  from qinv_keep [OF assms(2) _ _ _ this, of e] show ?thesis by (simp add: other)
qed (use qinv_step_rows [OF assms] in auto)

lemma qrun_qinv: "qrun es s \<Longrightarrow> qinv es s"
proof (induction rule: qrun.induct)
  case start
  show ?case by (simp add: qinv_def empty_db_def locks_ok_def locked_ids_def)
next
  case (more es s e s')
  then show ?case using qinv_step by blast
qed

text \<open>C9. However many workers interleave, a job is handed out once per time it was queued: in every
  reachable state its attempts are the claims of its history, the claims exceed the requeues by one
  exactly while it is not queued, it has been acknowledged once if it is terminal and never
  otherwise, and no two open claim transactions hold the same job.\<close>

theorem jobs_claimed_once:
  assumes "qrun es s" and "j \<in> set (db_jobs (q_db s))"
  shows "job_attempts j = int (times (EvClaim (job_id j)) es) \<and>
    times (EvClaim (job_id j)) es =
      times (EvRetry (job_id j)) es + (if job_status j = JQueued then 0 else 1) \<and>
    times (EvAck (job_id j)) es = (if job_status j \<in> {JDone, JError} then 1 else 0) \<and>
    distinct (locked_ids s)"
  using qrun_qinv [OF assms(1)] assms(2) by (auto simp: qinv_def job_agrees_def locks_ok_def)

section \<open>A claim\<close>

lemma Claim_Some:
  assumes "Claim flt now clock locked w d = (Inr (Some job), d')"
  obtains j where "GetNextQueuedEvaluationJob now locked d = Inr j" "validateWorkerID w = Inr ()"
    "MarkEvaluationJobRunning now (job_id j) (job_text w) d = Inr d'"
    "job = j\<lparr>job_status := JRunning, job_attempts := job_attempts j + 1, job_worker := Some w,
        job_started := Some clock, job_updated := clock\<rparr>"
  using assms by (auto simp: Claim_def Let_def split: sum.splits if_splits db_error.splits)

text \<open>C10. A successful claim is a lock followed by a claim of the concurrent queue. It takes a row that is
  queued, whose time has come and that no open transaction holds, before which no other such row comes in the order of
  time due and creation, and returns that row as running under the claiming worker with one more attempt.\<close>

theorem Claim_refines:
  assumes "Claim flt now clock (locked_ids s) w (q_db s) = (Inr (Some job), d')"
  shows "(\<exists>s1 s2. qstep s (EvLock (job_id job)) s1 \<and> qstep s1 (EvClaim (job_id job)) s2 \<and> q_db s2 = d' \<and>
      q_locks s2 = q_locks s) \<and>
    (\<exists>j \<in> set (db_jobs (q_db s)). job_status j = JQueued \<and> job_available j \<le> now \<and> job_id j \<notin> set (locked_ids s) \<and>
       job = j\<lparr>job_status := JRunning, job_attempts := job_attempts j + 1, job_worker := Some w,
               job_started := Some clock, job_updated := clock\<rparr>) \<and>
    (\<forall>k \<in> set (db_jobs (q_db s)). job_status k = JQueued \<and> job_available k \<le> now \<and> job_id k \<notin> set (locked_ids s) \<longrightarrow>
       job_available job < job_available k \<or>
       job_available job = job_available k \<and> job_created job \<le> job_created k)"
  using assms
proof (rule Claim_Some)
  fix j
  assume g: "GetNextQueuedEvaluationJob now (locked_ids s) (q_db s) = Inr j"
    and w: "validateWorkerID w = Inr ()"
    and m: "MarkEvaluationJobRunning now (job_id j) (job_text w) (q_db s) = Inr d'"
    and job: "job = j\<lparr>job_status := JRunning, job_attempts := job_attempts j + 1, job_worker := Some w,
        job_started := Some clock, job_updated := clock\<rparr>"
  obtain tx where tx: "tx \<notin> fst ` set (q_locks s)"
    using ex_new_if_finite [of "fst ` set (q_locks s)"] by auto
  let ?s1 = "s\<lparr>q_locks := (tx, w, job_id j) # q_locks s\<rparr>"
  let ?s2 = "?s1\<lparr>q_db := d', q_locks := filter (\<lambda>l. fst l \<noteq> tx) (q_locks ?s1)\<rparr>"
  have id: "job_id job = job_id j" by (simp add: job)
  have s1: "qstep s (EvLock (job_id job)) ?s1"
    unfolding id by (rule qstep.lock [OF g w tx])
  have s2: "qstep ?s1 (EvClaim (job_id job)) ?s2"
    unfolding id by (rule qstep.claim [of tx w]) (use m in simp_all)
  have "filter (\<lambda>l. fst l \<noteq> tx) (q_locks s) = q_locks s"
    using tx by (intro filter_True) force
  with s1 s2 have "\<exists>s1 s2. qstep s (EvLock (job_id job)) s1 \<and> qstep s1 (EvClaim (job_id job)) s2 \<and> q_db s2 = d' \<and>
      q_locks s2 = q_locks s"
    by (intro exI [of _ ?s1] exI [of _ ?s2]) simp
  moreover from GetNext_Inr [OF g] have "\<forall>k \<in> set (db_jobs (q_db s)).
       job_status k = JQueued \<and> job_available k \<le> now \<and> job_id k \<notin> set (locked_ids s) \<longrightarrow>
       job_available job < job_available k \<or>
       job_available job = job_available k \<and> job_created job \<le> job_created k"
    by (auto simp: job job_before_def not_less due_def)
  moreover from GetNext_Inr [OF g] have "\<exists>j \<in> set (db_jobs (q_db s)). job_status j = JQueued \<and> job_available j \<le> now \<and>
      job_id j \<notin> set (locked_ids s) \<and>
      job = j\<lparr>job_status := JRunning, job_attempts := job_attempts j + 1, job_worker := Some w,
               job_started := Some clock, job_updated := clock\<rparr>"
    by (intro bexI [of _ j]) (auto simp: job due_def)
  ultimately show ?thesis by blast
qed

section \<open>A concrete queue\<close>

definition sample_queue :: qstate where
  "sample_queue =
     \<lparr>q_db = empty_db\<lparr>db_jobs := [new_job 7 2 1, new_job 5 4 3, new_job 3 6 5], db_uuid_seq := 6\<rparr>,
      q_locks = [(0, ''v'', 6)]\<rparr>"

lemma sample_claim:
  "case Claim (\<lambda>_. False) 9 9 (locked_ids sample_queue) ''w'' (q_db sample_queue) of (r, d) \<Rightarrow>
     map_sum id (map_option job_id) r = Inr (Some 4)"
  by code_simp

theorem Claim_refines_witness:
  "\<exists>job d'. Claim (\<lambda>_. False) 9 9 (locked_ids sample_queue) ''w'' (q_db sample_queue) = (Inr (Some job), d') \<and>
     job_id job = 4 \<and> (\<exists>s1. qstep sample_queue (EvLock 4) s1)"
proof -
  obtain r d' where r: "Claim (\<lambda>_. False) 9 9 (locked_ids sample_queue) ''w'' (q_db sample_queue) = (r, d')"
    by fastforce
  with sample_claim obtain job where job: "r = Inr (Some job)" "job_id job = 4"
    by (cases r) (auto split: option.splits)
  from Claim_refines [OF r [unfolded job(1)]] job r show ?thesis by auto
qed

definition sample_submitted :: db where
  "sample_submitted = empty_db
     \<lparr>db_subs := [\<lparr>sub_id = 1, sub_user = 1, sub_lab = ''lab'', sub_key = 1, sub_artifact = ''a'', sub_hash = ''h'',
        sub_status = SsQueued, sub_verdict = None, sub_message = None, sub_detail = None, sub_digest = None,
        sub_started = None, sub_finished = None, sub_created = 5, sub_quota = QPending\<rparr>], db_uuid_seq := 1\<rparr>"

theorem jobs_claimed_once_witness:
  "\<exists>s j. qrun [EvClaim 2, EvLock 2, EvEnqueue 2, EvOther] s \<and> j \<in> set (db_jobs (q_db s)) \<and> job_attempts j = 1"
proof -
  let ?d2 = "sample_submitted\<lparr>db_jobs := [new_job 5 2 1], db_uuid_seq := 2\<rparr>"
  let ?j = "(new_job 5 2 1)\<lparr>job_status := JRunning, job_attempts := 1, job_worker := Some ''w'',
     job_started := Some 9, job_updated := 9\<rparr>"
  let ?d4 = "?d2\<lparr>db_jobs := [?j]\<rparr>"
  let ?l = "[(0 :: nat, ''w'', 2 :: uuid)]"
  have 1: "qrun [EvOther] \<lparr>q_db = sample_submitted, q_locks = []\<rparr>"
    using qrun.more [OF qrun.start qstep.other] by (simp add: sample_submitted_def empty_db_def)
  have "Enqueue 5 1 sample_submitted = Inr (new_job 5 2 1, ?d2)"
    by (simp add: Enqueue_def CreateEvaluationJob_def sample_submitted_def empty_db_def Let_def numeral_2_eq_2)
  with qrun.more [OF 1 qstep.enqueue, of 5 1 "new_job 5 2 1" ?d2]
  have 2: "qrun [EvEnqueue 2, EvOther] \<lparr>q_db = ?d2, q_locks = []\<rparr>" by simp
  have "GetNextQueuedEvaluationJob 9 [] ?d2 = Inr (new_job 5 2 1)"
    by (simp add: GetNextQueuedEvaluationJob_def due_def sort_stable_simps)
  moreover have "validateWorkerID ''w'' = Inr ()" by code_simp
  ultimately have 3: "qrun [EvLock 2, EvEnqueue 2, EvOther] \<lparr>q_db = ?d2, q_locks = ?l\<rparr>"
    using qrun.more [OF 2 qstep.lock, of 9 "new_job 5 2 1" "''w''" 0] by (simp add: locked_ids_def)
  have "MarkEvaluationJobRunning 9 2 (job_text ''w'') ?d2 = Inr ?d4"
    by (simp add: MarkEvaluationJobRunning_def job_text_def max_int4_def)
  with qrun.more [OF 3 qstep.claim, of 0 "''w''" 2 9 ?d4]
  have 4: "qrun [EvClaim 2, EvLock 2, EvEnqueue 2, EvOther] \<lparr>q_db = ?d4, q_locks = []\<rparr>" by simp
  from jobs_claimed_once [OF 4, of ?j] 4 show ?thesis by (intro exI [of _ _]) auto
qed

end
