(* ===== verification/Go_Path.thy ===== *)
theory Go_Path
  imports Go_Strings
begin

text \<open>
  What the program uses of Go's \<^verbatim>\<open>path\<close> and \<^verbatim>\<open>path/filepath\<close> packages on a system whose separator is a
  slash: \<^verbatim>\<open>Clean\<close>, \<^verbatim>\<open>Join\<close>, \<^verbatim>\<open>Base\<close> and \<^verbatim>\<open>Dir\<close>, and the shape of a cleaned path.
\<close>

text \<open>\<^verbatim>\<open>path.Clean\<close>: components left of the cursor (reversed), then the rest.\<close>

fun clean_parts :: "bool \<Rightarrow> string list \<Rightarrow> string list \<Rightarrow> string list" where
  "clean_parts rooted acc [] = rev acc"
| "clean_parts rooted acc (p # ps) =
     (if p = [] \<or> p = ''.'' then clean_parts rooted acc ps
      else if p = ''..'' then
        (case acc of
           [] \<Rightarrow> clean_parts rooted (if rooted then [] else [''..'']) ps
         | a # as \<Rightarrow> clean_parts rooted (if a = ''..'' then ''..'' # acc else as) ps)
      else clean_parts rooted (p # acc) ps)"

definition path_clean :: "string \<Rightarrow> string" where
  "path_clean p =
     (let rooted = has_prefix p ''/''; parts = clean_parts rooted [] (split_on (CHR ''/'') p)
      in if rooted then ''/'' @ join_with ''/'' parts
         else if parts = [] then ''.'' else join_with ''/'' parts)"

definition path_join :: "string \<Rightarrow> string \<Rightarrow> string" where
  "path_join a b = (if a = [] \<and> b = [] then [] else if a = [] then path_clean b else path_clean (a @ ''/'' @ b))"

text \<open>\<^verbatim>\<open>filepath.Base\<close>: trailing separators go, then everything up to the last one that is left.\<close>

definition path_base :: "string \<Rightarrow> string" where
  "path_base p =
     (if p = [] then ''.''
      else (let q = rev (dropWhile (\<lambda>c. c = CHR ''/'') (rev p))
            in if q = [] then ''/'' else rev (takeWhile (\<lambda>c. c \<noteq> CHR ''/'') (rev q))))"

text \<open>\<^verbatim>\<open>filepath.Dir\<close>: everything up to the last separator, cleaned.\<close>

definition path_dir :: "string \<Rightarrow> string" where
  "path_dir p = path_clean (rev (dropWhile (\<lambda>c. c \<noteq> CHR ''/'') (rev p)))"

lemma clean_parts_all:
  "list_all P acc \<Longrightarrow> \<forall>p \<in> set ps. p \<noteq> [] \<longrightarrow> P p \<Longrightarrow> P ''..'' \<Longrightarrow> list_all P (clean_parts rooted acc ps)"
proof (induction rooted acc ps rule: clean_parts.induct)
  case (1 rooted acc)
  then show ?case by (simp add: list_all_iff)
next
  case (2 rooted acc p ps)
  consider "p = [] \<or> p = ''.''" | "p = ''..''" | "\<not> (p = [] \<or> p = ''.'')" "p \<noteq> ''..''" by blast
  then show ?case
  proof cases
    case 1
    with 2 show ?thesis by simp
  next
    case p: 2
    show ?thesis
    proof (cases acc)
      case Nil
      with 2 p show ?thesis by simp
    next
      case (Cons a as)
      with 2 p show ?thesis by (cases "a = ''..''") simp_all
    qed
  next
    case 3
    with 2 show ?thesis by simp
  qed
qed

lemma clean_parts_nonempty:
  "list_all (\<lambda>p. p \<noteq> []) acc \<Longrightarrow> list_all (\<lambda>p. p \<noteq> []) (clean_parts rooted acc ps)"
  by (rule clean_parts_all) simp_all

lemma join_with_nonempty: "ps \<noteq> [] \<Longrightarrow> list_all (\<lambda>p. p \<noteq> []) ps \<Longrightarrow> join_with sep ps \<noteq> []"
  by (induction sep ps rule: join_with.induct) auto

lemma path_clean_nonempty: "path_clean p \<noteq> []"
  by (simp add: path_clean_def Let_def join_with_nonempty clean_parts_nonempty)

text \<open>A cleaned rooted path: one slash, then nothing or a component.\<close>

lemma path_clean_rooted:
  assumes "has_prefix p ''/''"
  obtains r where "path_clean p = CHR ''/'' # r" "r = [] \<or> hd r \<noteq> CHR ''/''" "set r \<subseteq> set p \<union> {CHR ''.'', CHR ''/''}"
proof -
  define parts where "parts = clean_parts True [] (split_on (CHR ''/'') p)"
  have all: "list_all (\<lambda>w. w \<noteq> [] \<and> CHR ''/'' \<notin> set w \<and> set w \<subseteq> set p \<union> {CHR ''.''}) parts"
    unfolding parts_def by (rule clean_parts_all) (use split_on_piece [of _ "CHR ''/''" p] in auto)
  have "path_clean p = CHR ''/'' # join_with ''/'' parts"
    using assms by (simp add: path_clean_def parts_def Let_def)
  moreover have "join_with ''/'' parts = [] \<or> hd (join_with ''/'' parts) \<noteq> CHR ''/''"
  proof (cases parts rule: remdups_adj.cases)
    case (2 x)
    with all show ?thesis by (cases x) auto
  next
    case (3 x y xs)
    with all show ?thesis by (cases x) auto
  qed simp
  moreover have "set (join_with ''/'' parts) \<subseteq> set p \<union> {CHR ''.'', CHR ''/''}"
    using set_join_with [of "''/''" parts] all by (auto simp: list_all_iff)
  ultimately show thesis by (rule that)
qed

section \<open>Parent directories\<close>

text \<open>
  The size of a path counts every component with its separator. Cleaning never adds to it, so a parent is
  shorter than its directory, unless it is the directory; this ends the loops that climb to the root.
\<close>

definition weight :: "string list \<Rightarrow> nat" where
  "weight ws = sum_list (map (\<lambda>w. length w + 1) ws)"

lemma weight_simps [simp]: "weight [] = 0" "weight (w # ws) = length w + 1 + weight ws"
  "weight (ws @ vs) = weight ws + weight vs" "weight (rev ws) = weight ws"
  by (simp_all add: weight_def rev_map [symmetric])

lemma weight_split_on: "weight (split_on d s) = length s + 1"
proof (induction s)
  case (Cons c s)
  then show ?case by (cases "split_on d s") auto
qed simp

lemma weight_clean_parts:
  "weight (clean_parts rooted acc ps) + count_list ps [] \<le> weight acc + weight ps"
proof (induction rooted acc ps rule: clean_parts.induct)
  case (2 rooted acc p ps)
  then show ?case by (cases acc) (auto split: if_splits)
qed simp

lemma length_join_weight: "length (join_with ''/'' ws) = weight ws - 1"
  by (induction "''/''" ws rule: join_with.induct) auto

lemma split_on_snoc: "split_on d (s @ [d]) = split_on d s @ [[]]"
proof (induction s)
  case (Cons c s)
  then show ?case by (cases "split_on d s") auto
qed simp

lemma length_path_clean:
  assumes "p \<noteq> []"
  shows "path_clean (p @ ''/'') = ''.'' \<or> path_clean (p @ ''/'') = ''/'' \<or> length (path_clean (p @ ''/'')) \<le> length p"
proof -
  define rooted where "rooted = has_prefix (p @ ''/'') ''/''"
  define parts where "parts = clean_parts rooted [] (split_on (CHR ''/'') (p @ ''/''))"
  have empties: "(if rooted then 2 else 1) \<le> count_list (split_on (CHR ''/'') (p @ ''/'')) []"
    using assms by (cases p; cases "split_on (CHR ''/'') (tl p)") (auto simp: rooted_def has_prefix_def split_on_snoc)
  have "weight parts + count_list (split_on (CHR ''/'') (p @ ''/'')) [] \<le> length p + 2"
    using weight_clean_parts [of rooted "[]" "split_on (CHR ''/'') (p @ ''/'')"]
    by (simp add: parts_def weight_split_on)
  with empties have w: "weight parts + (if rooted then 2 else 1) \<le> length p + 2" by linarith
  have pc: "path_clean (p @ ''/'') = (if rooted then CHR ''/'' # join_with ''/'' parts
      else if parts = [] then ''.'' else join_with ''/'' parts)"
    by (simp add: path_clean_def rooted_def parts_def Let_def)
  show ?thesis
  proof (cases parts)
    case Nil
    with pc show ?thesis by (cases rooted) simp_all
  next
    case (Cons w ws)
    then have "0 < weight parts" by simp
    with w pc Cons show ?thesis by (cases rooted) (simp_all add: length_join_weight)
  qed
qed

definition path_rank :: "string \<Rightarrow> nat" where
  "path_rank p = (if p = ''.'' then 1 else if p = [] then 3 else length p + 1)"

lemma path_dir_rank: "path_dir p \<noteq> p \<Longrightarrow> path_rank (path_dir p) < path_rank p"
proof -
  assume ne: "path_dir p \<noteq> p"
  define q where "q = rev (dropWhile (\<lambda>c. c \<noteq> CHR ''/'') (rev p))"
  have dir: "path_dir p = path_clean q" by (simp add: path_dir_def q_def)
  have "rev p = takeWhile (\<lambda>c. c \<noteq> CHR ''/'') (rev p) @ dropWhile (\<lambda>c. c \<noteq> CHR ''/'') (rev p)" by simp
  then have dec: "p = q @ rev (takeWhile (\<lambda>c. c \<noteq> CHR ''/'') (rev p))" by (metis q_def rev_append rev_rev_ident)
  then have len: "length q \<le> length p" and p: "q \<noteq> [] \<Longrightarrow> p \<noteq> []" by (metis le_add1 length_append, metis append_is_Nil_conv)
  show ?thesis
  proof (cases "q = []")
    case True
    with dir have "path_dir p = ''.''" by (simp add: path_clean_def has_prefix_def)
    with ne show ?thesis by (auto simp: path_rank_def)
  next
    case False
    then have "hd (rev q) = CHR ''/''" using hd_dropWhile [of "\<lambda>c. c \<noteq> CHR ''/''" "rev p"] by (simp add: q_def)
    with False obtain r where q: "q = r @ ''/''" by (metis append_butlast_last_id hd_rev)
    have rank: "path_rank p = length p + 1" if "p \<noteq> ''.''" using that p [OF False] by (simp add: path_rank_def)
    have dot: "p \<noteq> ''.''"
    proof
      assume "p = ''.''"
      then show False using False by (simp add: q_def)
    qed
    show ?thesis
    proof (cases "r = []")
      case True
      then have "path_dir p = ''/''" using dir q by (simp add: path_clean_def has_prefix_def)
      moreover have "p \<noteq> ''/''" using ne \<open>path_dir p = ''/''\<close> by auto
      then have "length p \<noteq> 1" using dec q True by (cases "rev (takeWhile (\<lambda>c. c \<noteq> CHR ''/'') (rev p))") auto
      moreover have "0 < length p" using p [OF False] by simp
      ultimately have "1 < length p" by linarith
      moreover have "path_rank ''/'' = 2" by (simp add: path_rank_def)
      ultimately show ?thesis using rank [OF dot] \<open>path_dir p = ''/''\<close> by simp
    next
      case False
      have "path_dir p = ''.'' \<or> path_dir p = ''/'' \<or> length (path_dir p) \<le> length r"
        using length_path_clean [OF False] dir q by simp
      moreover have "length r + 1 \<le> length p" "1 \<le> length r" using len q False by (auto simp: Suc_le_eq)
      then have "length r + 1 \<le> length p" "1 < length p" by linarith+
      ultimately show ?thesis using rank [OF dot] path_clean_nonempty [of q] dir by (auto simp: path_rank_def)
    qed
  qed
qed

end
