(* ===== verification/Runtime.thy ===== *)
theory Runtime
  imports Evaluator Labkit_Errors Go_Json Go_Path
begin

text \<open>
  \<^verbatim>\<open>apps/worker/internal/runtime\<close> (\<^verbatim>\<open>tempdir.go\<close>, \<^verbatim>\<open>docker_runner.go\<close>) and the archive extraction of
  \<^verbatim>\<open>labkit-worker/runtime_handler.go\<close>. The operating system and the docker command line are arguments:
  which call fails with which error, how much of a file a failing write leaves, the path of the n-th temporary directory, and what a docker
  command prints, returns and leaves the context in, given the commands before it and its timeout. The host state
  is the log of docker commands and the temporary directories that exist.
\<close>

datatype file_kind = Regular string | Directory | Symlink | OtherFile

datatype ctx_state = CtxOk | CtxCanceled | CtxDeadline

definition ctx_canceled :: go_error where "ctx_canceled = Sentinel ''context canceled''"
definition ctx_deadline :: go_error where "ctx_deadline = Sentinel ''context deadline exceeded''"

record cmd_outcome =
  co_out :: string
  co_err :: "go_error option"
  co_ctx :: ctx_state

record renv =
  re_os :: "string \<Rightarrow> string \<Rightarrow> go_error option"
  re_short :: "string \<Rightarrow> nat"
  re_quote :: "string \<Rightarrow> string"
  re_temp :: "nat \<Rightarrow> string"
  re_docker :: "string list list \<Rightarrow> int option \<Rightarrow> string list \<Rightarrow> cmd_outcome"
  re_json :: "string \<Rightarrow> result option"
  re_eval_text :: "eval_error \<Rightarrow> string"

record host =
  h_log :: "string list list"
  h_next :: nat
  h_live :: "nat list"

section \<open>Extraction\<close>

text \<open>
  A tar entry is its name and, unless it is a directory, its content. \<open>untar\<close> gives the entries
  read before the archive ends or breaks.
\<close>

type_synonym tar_reader = "string \<Rightarrow> go_error + ((string \<times> string option) list \<times> go_error option)"

definition entry_name_bad :: "string \<Rightarrow> bool" where
  "entry_name_bad n \<longleftrightarrow> n = ''.'' \<or> has_prefix n ''/'' \<or> CHR ''/'' \<in> set n \<or> has_prefix n ''..''"

text \<open>
  The files that were opened for writing, under their full paths. The last write to a path wins, and every path
  is held once. A write that fails leaves what was written before it.
\<close>

type_synonym files = "(string \<times> file_kind) list"

definition write_file :: "string \<Rightarrow> string \<Rightarrow> files \<Rightarrow> files" where
  "write_file p c fs = filter (\<lambda>f. fst f \<noteq> p) fs @ [(p, Regular c)]"

text \<open>The error, if there is one, and the files that are there then.\<close>

fun extract_entries ::
  "renv \<Rightarrow> string \<Rightarrow> (string \<times> string option) list \<Rightarrow> go_error option \<Rightarrow> files \<Rightarrow> go_error option \<times> files" where
  "extract_entries e dir [] broken fs =
     (case broken of None \<Rightarrow> None | Some err \<Rightarrow> Some (Wrapped ''read archive entry'' err), fs)"
| "extract_entries e dir ((hn, c) # es) broken fs =
     (case c of
        None \<Rightarrow> extract_entries e dir es broken fs
      | Some content \<Rightarrow>
          (let name = path_clean hn
           in if entry_name_bad name then (Some (Sentinel (''invalid archive entry '' @ re_quote e hn)), fs)
              else (let target = path_join dir name
                    in case re_os e ''create'' target of
                         Some err \<Rightarrow> (Some (Wrapped (''create extracted file '' @ re_quote e name) err), fs)
                       | None \<Rightarrow>
                    (case re_os e ''write'' target of
                       Some err \<Rightarrow> (Some (Wrapped (''write extracted file '' @ re_quote e name) err),
                                   write_file target (take (re_short e target) content) fs)
                     | None \<Rightarrow>
                    (case re_os e ''close'' target of
                       Some err \<Rightarrow> (Some (Wrapped (''close extracted file '' @ re_quote e name) err), write_file target content fs)
                     | None \<Rightarrow> extract_entries e dir es broken (write_file target content fs))))))"

definition extractArchiveToDir :: "renv \<Rightarrow> tar_reader \<Rightarrow> string \<Rightarrow> string \<Rightarrow> go_error option \<times> files" where
  "extractArchiveToDir e untar archive dir =
     (case untar archive of
        Inl err \<Rightarrow> (Some (Wrapped ''open gzip archive'' err), [])
      | Inr (es, broken) \<Rightarrow> extract_entries e dir es broken [])"

section \<open>Workspaces\<close>

definition CreateWorkspace :: "renv \<Rightarrow> host \<Rightarrow> (go_error + nat) \<times> host" where
  "CreateWorkspace e h =
     (case re_os e ''mkdirall'' [] of
        Some err \<Rightarrow> (Inl (Wrapped ''runtime: create workspace root'' err), h)
      | None \<Rightarrow>
     (case re_os e ''mkdtemp'' (re_temp e (h_next h)) of
        Some err \<Rightarrow> (Inl (Wrapped ''runtime: create temp workspace'' err), h)
      | None \<Rightarrow> (Inr (h_next h), h\<lparr>h_next := Suc (h_next h), h_live := h_next h # h_live h\<rparr>)))"

text \<open>The cleanup function; a failing removal leaves the directory, and every caller ignores the error.\<close>

definition cleanup_workspace :: "renv \<Rightarrow> nat \<Rightarrow> host \<Rightarrow> host" where
  "cleanup_workspace e n h =
     (if re_os e ''removeall'' (re_temp e n) = None then h\<lparr>h_live := filter (\<lambda>m. m \<noteq> n) (h_live h)\<rparr> else h)"

definition EnsureSubmissionDir :: "renv \<Rightarrow> string \<Rightarrow> go_error + string" where
  "EnsureSubmissionDir e workspace =
     (let dir = path_join workspace ''submission''
      in case re_os e ''mkdirall'' dir of
           Some err \<Rightarrow> Inl (Wrapped ''runtime: create submission directory'' err)
         | None \<Rightarrow> Inr dir)"

fun check_entries :: "renv \<Rightarrow> string list \<Rightarrow> (string \<times> file_kind) list \<Rightarrow> go_error + unit" where
  "check_entries e declared [] = Inr ()"
| "check_entries e declared ((n, k) # es) =
     (if k = Symlink
      then Inl (Sentinel (''runtime: submission file '' @ re_quote e n @ '' must not be a symlink''))
      else if n \<notin> set declared
      then Inl (Sentinel (''runtime: unexpected submission file '' @ re_quote e n))
      else check_entries e declared es)"

fun pick_declared ::
  "renv \<Rightarrow> (string \<times> file_kind) list \<Rightarrow> string list \<Rightarrow> go_error + (string \<times> string) list" where
  "pick_declared e entries [] = Inr []"
| "pick_declared e entries (n # ns) =
     (case map_of (rev entries) n of
        None \<Rightarrow> Inl (Sentinel (''runtime: missing submission file '' @ re_quote e n))
      | Some k \<Rightarrow>
          (case re_os e ''stat'' n of
             Some err \<Rightarrow> Inl (Wrapped (''runtime: stat submission file '' @ re_quote e n) err)
           | None \<Rightarrow>
               (case k of
                  Regular c \<Rightarrow> bindR (pick_declared e entries ns) (\<lambda>fs. Inr ((n, c) # fs))
                | _ \<Rightarrow> Inl (Sentinel (''runtime: submission file '' @ re_quote e n @ '' must be a regular file'')))))"

definition listSubmissionFiles ::
  "renv \<Rightarrow> go_error + (string \<times> file_kind) list \<Rightarrow> string list \<Rightarrow> go_error + (string \<times> string) list" where
  "listSubmissionFiles e dir declared =
     (if declared = [] then Inl (Sentinel ''runtime: manifest submit.files is required'')
      else (case dir of
              Inl err \<Rightarrow> Inl (Wrapped ''runtime: read submission directory'' err)
            | Inr entries \<Rightarrow>
                bindR (check_entries e declared entries) (\<lambda>_. pick_declared e entries declared)))"

fun copy_files :: "renv \<Rightarrow> (string \<times> string) list \<Rightarrow> go_error + unit" where
  "copy_files e [] = Inr ()"
| "copy_files e ((n, c) # fs) =
     (case re_os e ''copy'' n of Some err \<Rightarrow> Inl err | None \<Rightarrow> copy_files e fs)"

text \<open>The staged directory, its files, and the workspace that the caller has to clean up.\<close>

definition StageSubmissionDir ::
  "renv \<Rightarrow> go_error + (string \<times> file_kind) list \<Rightarrow> string list \<Rightarrow> host \<Rightarrow>
   (go_error + (string \<times> (string \<times> string) list \<times> nat)) \<times> host" where
  "StageSubmissionDir e dir declared h =
     (case CreateWorkspace e h of
        (Inl err, h1) \<Rightarrow> (Inl err, h1)
      | (Inr n, h1) \<Rightarrow>
     (case EnsureSubmissionDir e (re_temp e n) of
        Inl err \<Rightarrow> (Inl err, cleanup_workspace e n h1)
      | Inr staged \<Rightarrow>
     (case listSubmissionFiles e dir declared of
        Inl err \<Rightarrow> (Inl err, cleanup_workspace e n h1)
      | Inr files \<Rightarrow>
     (case copy_files e files of
        Inl err \<Rightarrow> (Inl err, cleanup_workspace e n h1)
      | Inr _ \<Rightarrow> (Inr (staged, files, n), h1)))))"

section \<open>The docker runner\<close>

record run_request =
  rq_image :: string
  rq_dir :: string
  rq_entries :: "go_error + (string \<times> file_kind) list"
  rq_timeout :: int
  rq_manifest :: "manifest option"

record docker_runner =
  dr_memory :: string
  dr_cpus :: string

definition valueOrDefault :: "string \<Rightarrow> string \<Rightarrow> string" where
  "valueOrDefault v fallback = (if v = [] then fallback else v)"

definition createArgs :: "string \<Rightarrow> string \<Rightarrow> string \<Rightarrow> string list" where
  "createArgs img memory cpus =
     [''create'', ''--network=none'', ''--memory'', valueOrDefault memory ''512m'',
      ''--cpus'', valueOrDefault cpus ''2'', img]"

definition docker :: "renv \<Rightarrow> int option \<Rightarrow> string list \<Rightarrow> host \<Rightarrow> cmd_outcome \<times> host" where
  "docker e tmo args h = (re_docker e (h_log h) tmo args, h\<lparr>h_log := h_log h @ [args]\<rparr>)"

definition createContainer :: "renv \<Rightarrow> string \<Rightarrow> string \<Rightarrow> string \<Rightarrow> host \<Rightarrow> (go_error + string) \<times> host" where
  "createContainer e img memory cpus h =
     (let (oc, h1) = docker e None (createArgs img memory cpus) h
      in case co_err oc of
           Some err \<Rightarrow> (Inl err, h1)
         | None \<Rightarrow>
             (let cid = trim_space (co_out oc)
              in if cid = [] then (Inl (Sentinel ''docker create returned empty container id''), h1)
                 else (Inr cid, h1)))"

definition copySubmission :: "renv \<Rightarrow> string \<Rightarrow> string \<Rightarrow> host \<Rightarrow> go_error option \<times> host" where
  "copySubmission e cid dir h =
     (let (oc, h1) = docker e None [''cp'', path_clean dir, cid @ '':/''] h in (co_err oc, h1))"

definition startContainer :: "renv \<Rightarrow> int \<Rightarrow> string \<Rightarrow> host \<Rightarrow> cmd_outcome \<times> host" where
  "startContainer e timeout cid h = docker e (Some timeout) [''start'', ''-a'', cid] h"

definition removeContainer :: "renv \<Rightarrow> string \<Rightarrow> host \<Rightarrow> host" where
  "removeContainer e cid h = snd (docker e (Some 10000000000) [''rm'', ''-f'', cid] h)"

text \<open>What the outcome of the run means: interruption, timeout, abnormal exit, or a result to parse.\<close>

definition run_verdict :: "renv \<Rightarrow> manifest option \<Rightarrow> cmd_outcome \<Rightarrow> go_error + result" where
  "run_verdict e mo oc =
     (if co_ctx oc = CtxCanceled \<or> (case co_err oc of None \<Rightarrow> False | Some err \<Rightarrow> is_error ctx_canceled err)
      then Inl (WrapSystemError ''evaluator execution interrupted'' ctx_canceled)
      else if co_ctx oc = CtxDeadline \<or> (case co_err oc of None \<Rightarrow> False | Some err \<Rightarrow> is_error ctx_deadline err)
      then Inl (WrapEvaluatorError ''evaluator timed out'' ctx_deadline)
      else (case co_err oc of
              Some err \<Rightarrow> Inl (WrapEvaluatorError ''evaluator exited abnormally'' err)
            | None \<Rightarrow>
                mapErr (\<lambda>err. WrapEvaluatorError ''parse evaluator output'' (Sentinel (re_eval_text e err)))
                  (ParseResult (re_json e) mo (co_out oc))))"

text \<open>Nanoseconds; the default is 300 seconds.\<close>

definition effective_timeout :: "run_request \<Rightarrow> int" where
  "effective_timeout rq = (if rq_timeout rq \<le> 0 then 300000000000 else rq_timeout rq)"

definition Evaluate :: "renv \<Rightarrow> docker_runner \<Rightarrow> run_request \<Rightarrow> host \<Rightarrow> (go_error + result) \<times> host" where
  "Evaluate e r rq h =
     (if rq_image rq = [] then (Inl (Sentinel ''runtime: evaluator image is required''), h)
      else if rq_dir rq = [] then (Inl (Sentinel ''runtime: submission directory is required''), h)
      else (case rq_manifest rq of
        None \<Rightarrow> (Inl (Sentinel ''runtime: manifest is required''), h)
      | Some m \<Rightarrow>
     (case StageSubmissionDir e (rq_entries rq) (slice_list (submit_files (m_submit m))) h of
        (Inl err, h1) \<Rightarrow> (Inl (WrapSystemError ''stage submission workspace'' err), h1)
      | (Inr (staged, files, n), h1) \<Rightarrow>
     (case createContainer e (rq_image rq) (dr_memory r) (dr_cpus r) h1 of
        (Inl err, h2) \<Rightarrow> (Inl (WrapSystemError ''create evaluator container'' err), cleanup_workspace e n h2)
      | (Inr cid, h2) \<Rightarrow>
     (case copySubmission e cid staged h2 of
        (Some err, h3) \<Rightarrow>
          (Inl (WrapSystemError ''copy submission into evaluator container'' err),
           cleanup_workspace e n (removeContainer e cid h3))
      | (None, h3) \<Rightarrow>
          (let (oc, h4) = startContainer e (effective_timeout rq) cid h3
           in (run_verdict e (rq_manifest rq) oc, cleanup_workspace e n (removeContainer e cid h4))))))))"

section \<open>Extraction stays in its directory\<close>

definition plain_name :: "string \<Rightarrow> bool" where
  "plain_name n \<longleftrightarrow> n \<noteq> [] \<and> CHR ''/'' \<notin> set n \<and> n \<noteq> ''.'' \<and> \<not> has_prefix n ''..''"

text \<open>The path of a name directly in a directory.\<close>

definition in_dir :: "string \<Rightarrow> string \<Rightarrow> string" where
  "in_dir dir n =
     (let d = path_clean dir in if d = ''/'' then ''/'' @ n else if d = ''.'' then n else d @ ''/'' @ n)"

lemma clean_parts_snoc:
  "n \<noteq> [] \<Longrightarrow> n \<noteq> ''.'' \<Longrightarrow> n \<noteq> ''..'' \<Longrightarrow> clean_parts r acc (ps @ [n]) = clean_parts r acc ps @ [n]"
  by (induction r acc ps rule: clean_parts.induct) (auto split: list.split)

lemma split_on_append_plain: "d \<notin> set n \<Longrightarrow> split_on d (s @ d # n) = split_on d s @ [n]"
  by (induction s) (auto simp: split_on_no_sep split: list.split)

lemma join_with_snoc: "ps \<noteq> [] \<Longrightarrow> join_with sep (ps @ [n]) = join_with sep ps @ sep @ n"
  by (induction sep ps rule: join_with.induct) auto

lemma clean_parts_no_dot:
  "list_all (\<lambda>p. p \<noteq> ''.'') acc \<Longrightarrow> list_all (\<lambda>p. p \<noteq> ''.'') (clean_parts r acc ps)"
proof (induction r acc ps rule: clean_parts.induct)
  case (1 r acc)
  then show ?case by (simp add: list_all_iff)
next
  case (2 r acc p ps)
  consider "p = [] \<or> p = ''.''" | "p = ''..''" | "\<not> (p = [] \<or> p = ''.'')" "p \<noteq> ''..''" by blast
  then show ?case
  proof cases
    case p: 2
    show ?thesis
    proof (cases acc)
      case (Cons a as)
      with 2 p show ?thesis by (cases "a = ''..''") simp_all
    qed (use 2 p in simp)
  qed (use 2 in simp_all)
qed

lemma path_join_plain:
  assumes "plain_name n"
  shows "path_join dir n = in_dir dir n"
proof -
  have n: "n \<noteq> []" "n \<noteq> ''.''" "n \<noteq> ''..''" "CHR ''/'' \<notin> set n" using assms by (auto simp: plain_name_def has_prefix_def)
  let ?r = "has_prefix dir ''/''" and ?p = "clean_parts (has_prefix dir ''/'') [] (split_on (CHR ''/'') dir)"
  have slash: "list_all (\<lambda>p. CHR ''/'' \<notin> set p) ?p"
    by (rule clean_parts_all) (use split_on_piece in auto)
  have ok: "list_all (\<lambda>p. p \<noteq> [] \<and> p \<noteq> ''.'') ?p"
  proof -
    have "list_all (\<lambda>p. p \<noteq> ''.'') ?p" by (rule clean_parts_no_dot) simp
    then show ?thesis using clean_parts_nonempty [of "[]"] by (simp add: list_all_iff)
  qed
  have dot: "join_with ''/'' ?p \<noteq> ''.''" "join_with ''/'' ?p \<noteq> ''/''" if "?p \<noteq> []"
    using ok slash by (cases ?p rule: remdups_adj.cases; fastforce simp: append_eq_Cons_conv)+
  show ?thesis
  proof (cases "dir = []")
    case True
    have "\<not> has_prefix n ''/''" using n(4) by (cases n) (auto simp: has_prefix_def)
    with True n show ?thesis
      by (simp add: path_join_def in_dir_def path_clean_def split_on_no_sep has_prefix_def Let_def)
  next
    case False
    then have r: "has_prefix (dir @ ''/'' @ n) ''/'' = ?r" by (cases dir) (simp_all add: has_prefix_def)
    have parts: "clean_parts ?r [] (split_on (CHR ''/'') (dir @ ''/'' @ n)) = ?p @ [n]"
      using clean_parts_snoc [OF n(1-3)] split_on_append_plain [OF n(4)] by simp
    have "path_join dir n = (if ?r then ''/'' @ join_with ''/'' (?p @ [n]) else join_with ''/'' (?p @ [n]))"
      using False n(1) by (simp only: path_join_def path_clean_def r parts Let_def) simp
    also have "\<dots> = in_dir dir n"
      using dot join_with_nonempty [of ?p "''/''"] clean_parts_nonempty [of "[]" ?r]
      by (cases "?p = []") (auto simp: in_dir_def path_clean_def Let_def join_with_snoc)
    finally show ?thesis .
  qed
qed

definition extracted_ok :: "string \<Rightarrow> files \<Rightarrow> bool" where
  "extracted_ok dir fs \<longleftrightarrow> distinct (map fst fs) \<and>
     (\<forall>(p, k) \<in> set fs. (\<exists>n. plain_name n \<and> p = in_dir dir n) \<and> (\<exists>c. k = Regular c))"

lemma write_file_ok: "extracted_ok dir fs \<Longrightarrow> plain_name n \<Longrightarrow> extracted_ok dir (write_file (path_join dir n) c fs)"
  by (auto simp: extracted_ok_def write_file_def path_join_plain intro: distinct_map_filter)

lemma extract_entries_ok: "extracted_ok dir fs \<Longrightarrow> extracted_ok dir (snd (extract_entries e dir es broken fs))"
proof (induction e dir es broken fs rule: extract_entries.induct)
  case (2 e dir hn c es broken fs)
  show ?case
  proof (cases c)
    case (Some content)
    have "plain_name (path_clean hn)" if "\<not> entry_name_bad (path_clean hn)"
      using that path_clean_nonempty by (auto simp: entry_name_bad_def plain_name_def)
    with 2 Some write_file_ok show ?thesis by (simp add: Let_def split: option.split)
  qed (use 2 in simp)
qed simp

text \<open>C18. Extraction cannot leave the submission directory: whatever the archive holds and whatever fails, every
  file that was opened for writing, on an error too, is a regular file directly in the target directory, each path
  once, with a name that has no separator, is not empty or a dot, and does not begin with two dots.\<close>

theorem extractArchiveToDir_safe:
  assumes "extractArchiveToDir e untar archive dir = (err, fs)"
  shows "distinct (map fst fs) \<and>
    list_all (\<lambda>(p, k). (\<exists>n. plain_name n \<and> p = in_dir dir n) \<and> (\<exists>c. k = Regular c)) fs"
proof -
  have "extracted_ok dir []" by (simp add: extracted_ok_def)
  with assms extract_entries_ok [of dir "[]" e] have "extracted_ok dir fs"
    by (auto simp: extractArchiveToDir_def split: sum.splits) (metis snd_conv)+
  then show ?thesis by (simp add: extracted_ok_def list_all_iff)
qed

section \<open>Staging takes exactly the declared files\<close>

lemma check_entries_Inr:
  "check_entries e declared es = Inr u \<longleftrightarrow> (\<forall>(n, k) \<in> set es. k \<noteq> Symlink \<and> n \<in> set declared)"
  by (induction es) (auto split: if_splits)

lemma pick_declared_Inr:
  "pick_declared e entries ns = Inr fs \<longleftrightarrow>
   map fst fs = ns \<and> (\<forall>(n, c) \<in> set fs. map_of (rev entries) n = Some (Regular c) \<and> re_os e ''stat'' n = None)"
proof (induction ns arbitrary: fs)
  case Nil
  show ?case by auto
next
  case (Cons n ns)
  show ?case
  proof (cases fs)
    case Nil
    then show ?thesis by (auto split: option.splits file_kind.splits)
  next
    case (Cons f fs')
    with Cons.IH [of fs'] show ?thesis
      by (cases f) (fastforce split: option.splits file_kind.splits)
  qed
qed

text \<open>A submission directory is staged exactly when it holds the declared files, all of them regular,
  and nothing else; then the staged files are the declared ones in the declared order with their
  contents.\<close>

theorem listSubmissionFiles_iff:
  assumes "distinct (map fst entries)"
  shows "listSubmissionFiles e (Inr entries) declared = Inr files \<longleftrightarrow>
    declared \<noteq> [] \<and> map fst files = declared \<and> fst ` set entries = set declared \<and>
    list_all (\<lambda>(n, c). (n, Regular c) \<in> set entries \<and> re_os e ''stat'' n = None) files"
proof -
  have look: "map_of (rev entries) n = Some k \<longleftrightarrow> (n, k) \<in> set entries" for n k
    using assms map_of_eq_Some_iff [of "rev entries" n k] by (simp add: rev_map [symmetric])
  have key: "k = k'" if "(n, k) \<in> set entries" "(n, k') \<in> set entries" for n k k'
    using distinct_key_eq [OF assms that] by simp
  have list: "listSubmissionFiles e (Inr entries) declared = Inr files \<longleftrightarrow> declared \<noteq> [] \<and>
      (\<forall>(n, k) \<in> set entries. k \<noteq> Symlink \<and> n \<in> set declared) \<and> map fst files = declared \<and>
      (\<forall>(n, c) \<in> set files. (n, Regular c) \<in> set entries \<and> re_os e ''stat'' n = None)"
    by (simp add: listSubmissionFiles_def check_entries_Inr pick_declared_Inr look)
  have regular: "k \<noteq> Symlink" if "(n, k) \<in> set entries" "map fst files = declared" "n \<in> set declared"
    "\<forall>(n, c) \<in> set files. (n, Regular c) \<in> set entries" for n k
  proof -
    from that(2,3) obtain c where "(n, c) \<in> set files" by force
    with that(4) have "(n, Regular c) \<in> set entries" by blast
    from key [OF that(1) this] show ?thesis by simp
  qed
  have names: "set declared \<subseteq> fst ` set entries" if "map fst files = declared"
    "\<forall>(n, c) \<in> set files. (n, Regular c) \<in> set entries"
    using that by force
  show ?thesis
    unfolding list list_all_iff
  proof (intro iffI; elim conjE; intro conjI)
    assume a: "\<forall>(n, k) \<in> set entries. k \<noteq> Symlink \<and> n \<in> set declared" "map fst files = declared"
      "\<forall>(n, c) \<in> set files. (n, Regular c) \<in> set entries \<and> re_os e ''stat'' n = None"
    from a(3) have "\<forall>(n, c) \<in> set files. (n, Regular c) \<in> set entries" by blast
    with names a(2) have "set declared \<subseteq> fst ` set entries" by simp
    moreover have "fst ` set entries \<subseteq> set declared" using a(1) by auto
    ultimately show "fst ` set entries = set declared" by blast
  next
    assume a: "map fst files = declared" "fst ` set entries = set declared"
      "\<forall>(n, c) \<in> set files. (n, Regular c) \<in> set entries \<and> re_os e ''stat'' n = None"
    then have "\<forall>(n, c) \<in> set files. (n, Regular c) \<in> set entries" by blast
    moreover have "n \<in> set declared" if "(n, k) \<in> set entries" for n k using that a(2) by force
    ultimately show "\<forall>(n, k) \<in> set entries. k \<noteq> Symlink \<and> n \<in> set declared"
      using a(1) regular by blast
  qed assumption+
qed

section \<open>The run of a container\<close>

definition started :: "string \<Rightarrow> string list" where "started cid = [''start'', ''-a'', cid]"
definition removed :: "string \<Rightarrow> string list" where "removed cid = [''rm'', ''-f'', cid]"

lemma CreateWorkspace_log: "CreateWorkspace e h = (r, h') \<Longrightarrow> h_log h' = h_log h"
  by (auto simp: CreateWorkspace_def split: option.splits)

lemma cleanup_log [simp]: "h_log (cleanup_workspace e n h) = h_log h"
  by (simp add: cleanup_workspace_def)

lemma StageSubmissionDir_log: "StageSubmissionDir e dir declared h = (r, h') \<Longrightarrow> h_log h' = h_log h"
  by (auto simp: StageSubmissionDir_def split: prod.splits sum.splits dest: CreateWorkspace_log)

lemma docker_log: "docker e t args h = (oc, h') \<Longrightarrow>
    oc = re_docker e (h_log h) t args \<and> h' = h\<lparr>h_log := h_log h @ [args]\<rparr>"
  by (simp add: docker_def)

text \<open>The container that docker reports to have created, when asked so after the commands before.\<close>

definition created_id :: "renv \<Rightarrow> string list list \<Rightarrow> string list \<Rightarrow> string option" where
  "created_id e cs args =
     (let oc = re_docker e cs None args; cid = trim_space (co_out oc)
      in if co_err oc = None \<and> cid \<noteq> [] then Some cid else None)"

lemma createContainer_cases:
  assumes "createContainer e img mem cpus h = (r, h')"
  shows "h' = h\<lparr>h_log := h_log h @ [createArgs img mem cpus]\<rparr> \<and>
    created_id e (h_log h) (createArgs img mem cpus) = (case r of Inl err \<Rightarrow> None | Inr cid \<Rightarrow> Some cid)"
  using assms by (auto simp: createContainer_def created_id_def docker_def Let_def split: option.splits if_splits)

lemma created_id_nonempty: "created_id e cs args = Some cid \<Longrightarrow> cid \<noteq> []"
  by (auto simp: created_id_def Let_def split: if_splits)

text \<open>Every container that is created is removed, whatever happens in between, and runs only after
  the submission was copied: the docker commands of an evaluation are none, a failed create without
  network, or create, copy, possibly start, and the forced removal of that container; a result, or
  an error blamed on the evaluator, only comes from a container that was started.\<close>

theorem Evaluate_commands:
  assumes "Evaluate e r rq h = (res, h')"
  shows "\<exists>cmds. h_log h' = h_log h @ cmds \<and>
    (let create = createArgs (rq_image rq) (dr_memory r) (dr_cpus r)
     in cmds = [] \<or> cmds = [create] \<and> created_id e (h_log h) create = None \<or>
        (\<exists>cid dir. created_id e (h_log h) create = Some cid \<and>
           (cmds = [create, [''cp'', dir, cid @ '':/''], removed cid] \<or>
            cmds = [create, [''cp'', dir, cid @ '':/''], started cid, removed cid]))) \<and>
    (is_ok res \<or> ClassifyError (Some (projl res)) = Some ErrEvaluator \<longrightarrow>
       (\<exists>cid. started cid \<in> set cmds))"
proof -
  let ?create = "createArgs (rq_image rq) (dr_memory r) (dr_cpus r)"
  show ?thesis
  proof (cases "rq_image rq = [] \<or> rq_dir rq = [] \<or> rq_manifest rq = None")
    case True
    with assms obtain msg where "res = Inl (Sentinel msg)" "h' = h"
      by (auto simp: Evaluate_def split: if_splits)
    then show ?thesis by (auto simp: ClassifyError_def)
  next
    case False
    then obtain m where m: "rq_manifest rq = Some m" and ne: "rq_image rq \<noteq> []" "rq_dir rq \<noteq> []" by auto
    let ?decl = "slice_list (submit_files (m_submit m))"
    obtain st h1 where st: "StageSubmissionDir e (rq_entries rq) ?decl h = (st, h1)" by fastforce
    note log1 = StageSubmissionDir_log [OF st]
    show ?thesis
    proof (cases st)
      case (Inl err)
      with assms m ne st log1 show ?thesis
        by (auto simp: Evaluate_def ClassifyError_wrap intro!: exI [of _ "[]"])
    next
      case (Inr t)
      obtain staged files n where t: "t = (staged, files, n)" by (cases t)
      obtain cr h2 where cr: "createContainer e (rq_image rq) (dr_memory r) (dr_cpus r) h1 = (cr, h2)" by fastforce
      note c2 = createContainer_cases [OF cr]
      show ?thesis
      proof (cases cr)
        case (Inl err)
        with assms m ne st Inr t cr c2 log1 show ?thesis
          by (auto simp: Evaluate_def ClassifyError_wrap Let_def intro!: exI [of _ "[?create]"])
      next
        case cid: (Inr cid)
        let ?cp = "[''cp'', path_clean staged, cid @ '':/'']"
        have nonempty: "created_id e (h_log h) ?create = Some cid" using c2 cid log1 by simp
        obtain ce h3 where ce: "copySubmission e cid staged h2 = (ce, h3)" by fastforce
        then have log3: "h3 = h2\<lparr>h_log := h_log h2 @ [?cp]\<rparr>"
          by (simp add: copySubmission_def docker_def)
        show ?thesis
        proof (cases ce)
          case (Some err)
          with assms m ne st Inr t cr cid ce c2 log1 log3 nonempty show ?thesis
            by (auto simp: Evaluate_def ClassifyError_wrap Let_def removeContainer_def docker_def removed_def
                intro!: exI [of _ "[?create, ?cp, removed cid]"])
        next
          case None
          with assms m ne st Inr t cr cid ce c2 log1 log3 nonempty show ?thesis
            by (auto simp: Evaluate_def Let_def removeContainer_def startContainer_def docker_def removed_def
                started_def intro!: exI [of _ "[?create, ?cp, started cid, removed cid]"])
        qed
      qed
    qed
  qed
qed

section \<open>Workspaces are given back\<close>

lemma StageSubmissionDir_live:
  assumes "StageSubmissionDir e dir declared h = (r, h')" and "\<forall>m \<in> set (h_live h). m < h_next h"
  shows "case r of Inl _ \<Rightarrow> set (h_live h) \<subseteq> set (h_live h') \<and>
      (\<forall>n \<in> set (h_live h') - set (h_live h). re_os e ''removeall'' (re_temp e n) \<noteq> None)
    | Inr (staged, files, n) \<Rightarrow> h_live h' = n # h_live h \<and> n \<notin> set (h_live h)"
proof -
  have keep: "filter (\<lambda>m. m \<noteq> h_next h) (h_live h) = h_live h"
    using assms(2) by (intro filter_True) auto
  show ?thesis
    using assms keep
    by (auto simp: StageSubmissionDir_def CreateWorkspace_def cleanup_workspace_def
        split: sum.splits option.splits if_splits)
qed

lemma docker_live [simp]:
  "h_live (removeContainer e cid h) = h_live h"
  "startContainer e t cid h = (oc, h') \<Longrightarrow> h_live h' = h_live h"
  "copySubmission e cid dir h = (r, h') \<Longrightarrow> h_live h' = h_live h"
  "createContainer e img mem cpus h = (c, h') \<Longrightarrow> h_live h' = h_live h"
  by (auto simp: removeContainer_def startContainer_def copySubmission_def createContainer_def docker_def Let_def
      split: option.splits if_splits)


lemma Evaluate_live:
  assumes "Evaluate e r rq h = (res, h')" and "\<forall>m \<in> set (h_live h). m < h_next h"
  shows "set (h_live h) \<subseteq> set (h_live h')"
    and "n \<in> set (h_live h') \<Longrightarrow> n \<notin> set (h_live h) \<Longrightarrow> re_os e ''removeall'' (re_temp e n) \<noteq> None"
proof -
  let ?ok = "\<lambda>g. set (h_live h) \<subseteq> set (h_live g) \<and>
    (\<forall>n \<in> set (h_live g) - set (h_live h). re_os e ''removeall'' (re_temp e n) \<noteq> None)"
  have "?ok h'"
  proof (cases "rq_image rq = [] \<or> rq_dir rq = [] \<or> rq_manifest rq = None")
    case True
    with assms(1) show ?thesis by (auto simp: Evaluate_def split: if_splits)
  next
    case False
    then obtain m where m: "rq_manifest rq = Some m" and ne: "rq_image rq \<noteq> []" "rq_dir rq \<noteq> []" by auto
    obtain st h1 where st: "StageSubmissionDir e (rq_entries rq) (slice_list (submit_files (m_submit m))) h = (st, h1)"
      by fastforce
    note live = StageSubmissionDir_live [OF st assms(2)]
    have clean: "?ok (cleanup_workspace e n g)" if "n \<notin> set (h_live h)" "h_live g = n # h_live h" for n g
      using that by (auto simp: cleanup_workspace_def)
    show ?thesis
    proof (cases st)
      case (Inl err)
      with assms(1) m ne st live show ?thesis by (simp add: Evaluate_def)
    next
      case (Inr t)
      obtain staged files n where t: "t = (staged, files, n)" by (cases t)
      with live Inr have h1: "h_live h1 = n # h_live h" "n \<notin> set (h_live h)" by auto
      from assms(1) m ne st Inr t h1(1) obtain g where "h' = cleanup_workspace e n g" "h_live g = h_live h1"
        by (auto simp: Evaluate_def Let_def split: prod.splits sum.splits option.splits)
      with clean h1 show ?thesis by simp
    qed
  qed
  then show "set (h_live h) \<subseteq> set (h_live h')"
    and "n \<in> set (h_live h') \<Longrightarrow> n \<notin> set (h_live h) \<Longrightarrow> re_os e ''removeall'' (re_temp e n) \<noteq> None" by blast+
qed

text \<open>C17. Whatever docker answers, an evaluation cleans up after itself on every path: a container whose creation
  docker reported is the subject of the last command of the evaluation, its forced removal; and of the temporary
  directories none is left that was not there before, but those that the operating system fails to remove.\<close>

theorem Evaluate_cleans_up:
  assumes "Evaluate e r rq h = (res, h')" and "\<forall>m \<in> set (h_live h). m < h_next h"
  shows "\<exists>cmds. h_log h' = h_log h @ cmds \<and>
    (\<forall>pre post cid. cmds = pre @ createArgs (rq_image rq) (dr_memory r) (dr_cpus r) # post \<and>
       created_id e (h_log h @ pre) (createArgs (rq_image rq) (dr_memory r) (dr_cpus r)) = Some cid \<longrightarrow>
       post \<noteq> [] \<and> last post = [''rm'', ''-f'', cid]) \<and>
    set (h_live h) \<subseteq> set (h_live h') \<and>
    (\<forall>n \<in> set (h_live h') - set (h_live h). re_os e ''removeall'' (re_temp e n) \<noteq> None)"
proof -
  let ?create = "createArgs (rq_image rq) (dr_memory r) (dr_cpus r)"
  from Evaluate_commands [OF assms(1)] obtain cmds where log: "h_log h' = h_log h @ cmds"
    and cmds: "cmds = [] \<or> cmds = [?create] \<and> created_id e (h_log h) ?create = None \<or>
      (\<exists>cid dir. created_id e (h_log h) ?create = Some cid \<and>
         (cmds = [?create, [''cp'', dir, cid @ '':/''], removed cid] \<or>
          cmds = [?create, [''cp'', dir, cid @ '':/''], started cid, removed cid]))"
    unfolding Let_def by blast
  have "post \<noteq> [] \<and> last post = [''rm'', ''-f'', cid]"
    if "cmds = pre @ ?create # post" "created_id e (h_log h @ pre) ?create = Some cid" for pre post cid
  proof -
    have "cmds \<noteq> []" using that(1) by simp
    with cmds obtain rest where rest: "cmds = ?create # rest" "\<forall>c \<in> set rest. c \<noteq> ?create"
      "created_id e (h_log h) ?create = None \<or> (\<exists>cid. created_id e (h_log h) ?create = Some cid \<and> rest \<noteq> [] \<and> last rest = removed cid)"
      by (auto simp: removed_def started_def createArgs_def)
    with that(1) have "pre = []" "post = rest" by (cases pre; auto)+
    with rest(3) that(2) show ?thesis by (auto simp: removed_def)
  qed
  with log Evaluate_live [OF assms] show ?thesis by blast
qed

section \<open>A concrete evaluation host\<close>

definition sample_renv :: renv where
  "sample_renv =
     \<lparr>re_os = (\<lambda>op p. None), re_short = (\<lambda>p. 0), re_quote = id, re_temp = (\<lambda>n. ''/tmp/w''),
      re_docker = (\<lambda>history t args.
        \<lparr>co_out = (if hd args = ''create'' then ''c1'' else if hd args = ''start'' then ''ok'' else []),
         co_err = None, co_ctx = CtxOk\<rparr>),
      re_json = (\<lambda>line. Some \<lparr>r_verdict = BuildFailed, r_scores = [], r_detail = None, r_message = line\<rparr>),
      re_eval_text = (\<lambda>_. ''bad output'')\<rparr>"

definition sample_request :: run_request where
  "sample_request =
     \<lparr>rq_image = ''img'', rq_dir = ''/tmp/s'',
      rq_entries = Inr [(''README.md'', Regular ''r''), (''main.c'', Regular ''c'')],
      rq_timeout = 0, rq_manifest = Some sample_manifest\<rparr>"

definition sample_host :: host where "sample_host = \<lparr>h_log = [], h_next = 3, h_live = [1]\<rparr>"

lemma sample_evaluation:
  "is_ok (fst (Evaluate sample_renv \<lparr>dr_memory = [], dr_cpus = []\<rparr> sample_request sample_host))"
  by code_simp

theorem Evaluate_commands_witness:
  "\<exists>res h' cid. Evaluate sample_renv \<lparr>dr_memory = [], dr_cpus = []\<rparr> sample_request sample_host = (res, h') \<and>
     started cid \<in> set (h_log h')"
proof -
  obtain res h' where ev: "Evaluate sample_renv \<lparr>dr_memory = [], dr_cpus = []\<rparr> sample_request sample_host = (res, h')"
    by fastforce
  with sample_evaluation have "is_ok res" by simp
  with Evaluate_commands [OF ev] ev show ?thesis by auto
qed

theorem Evaluate_cleans_up_witness:
  "\<exists>res h'. Evaluate sample_renv \<lparr>dr_memory = [], dr_cpus = []\<rparr> sample_request sample_host = (res, h') \<and>
     last (h_log h') = [''rm'', ''-f'', ''c1''] \<and> set (h_live h') = {1}"
proof -
  obtain res h' where ev: "Evaluate sample_renv \<lparr>dr_memory = [], dr_cpus = []\<rparr> sample_request sample_host = (res, h')"
    by fastforce
  have log: "h_log (snd (Evaluate sample_renv \<lparr>dr_memory = [], dr_cpus = []\<rparr> sample_request sample_host)) =
      [] @ createArgs ''img'' [] [] # [[''cp'', ''/tmp/w/submission'', ''c1:/''], [''start'', ''-a'', ''c1''], [''rm'', ''-f'', ''c1'']]"
    "created_id sample_renv [] (createArgs ''img'' [] []) = Some ''c1''" "h_log sample_host = []"
    "rq_image sample_request = ''img''"
    by code_simp+
  have fresh: "\<forall>m \<in> set (h_live sample_host). m < h_next sample_host" by (simp add: sample_host_def)
  let ?create = "createArgs (rq_image sample_request) [] []"
  from Evaluate_cleans_up [OF ev fresh, unfolded docker_runner.select_convs] obtain cmds where c:
      "h_log h' = h_log sample_host @ cmds"
      "\<forall>pre post cid. cmds = pre @ ?create # post \<and> created_id sample_renv (h_log sample_host @ pre) ?create = Some cid \<longrightarrow>
         post \<noteq> [] \<and> last post = [''rm'', ''-f'', cid]"
      "set (h_live sample_host) \<subseteq> set (h_live h')"
      "\<forall>n \<in> set (h_live h') - set (h_live sample_host). re_os sample_renv ''removeall'' (re_temp sample_renv n) \<noteq> None"
    by (elim exE conjE) (rule that; assumption)
  have "cmds = [] @ ?create # [[''cp'', ''/tmp/w/submission'', ''c1:/''], [''start'', ''-a'', ''c1''], [''rm'', ''-f'', ''c1'']]"
    using log(1,3,4) c(1) ev by simp
  from c(2) [rule_format, OF conjI, OF this, of "''c1''"] this c(1) log
  have "last (h_log h') = [''rm'', ''-f'', ''c1'']" by simp
  moreover have "re_os sample_renv op path = None" for op path by (simp add: sample_renv_def)
  with c(3,4) have "set (h_live h') = set (h_live sample_host)" by blast
  then have "set (h_live h') = {1}" by (simp add: sample_host_def)
  ultimately show ?thesis using ev by blast
qed

text \<open>The second entry climbs out; the first one was written by then.\<close>

theorem extractArchiveToDir_safe_witness:
  "\<exists>err fs. extractArchiveToDir sample_renv (\<lambda>a. Inr ([(''./main.c'', Some a), (''../up.c'', Some a)], None)) ''x'' ''/tmp/w'' =
       (Some err, fs) \<and> map fst fs = [''/tmp/w/main.c''] \<and> list_all (\<lambda>(p, k). \<exists>n. p = in_dir ''/tmp/w'' n) fs"
proof -
  have ex: "extractArchiveToDir sample_renv (\<lambda>a. Inr ([(''./main.c'', Some a), (''../up.c'', Some a)], None)) ''x'' ''/tmp/w'' =
      (Some (Sentinel ''invalid archive entry ../up.c''), [(''/tmp/w/main.c'', Regular ''x'')])"
    by code_simp
  from extractArchiveToDir_safe [OF ex] ex show ?thesis by auto
qed

theorem listSubmissionFiles_iff_witness:
  "listSubmissionFiles sample_renv (rq_entries sample_request) [''main.c'', ''README.md''] =
     Inr [(''main.c'', ''c''), (''README.md'', ''r'')]"
  unfolding sample_request_def run_request.simps
  by (subst listSubmissionFiles_iff) (auto simp: sample_renv_def)

end
