(* ===== verification/Worker.thy ===== *)
theory Worker
  imports Runtime Evaluation Jobs
begin

text \<open>
  \<^verbatim>\<open>apps/worker/cmd/labkit-worker\<close> and \<^verbatim>\<open>runtime/loop.go\<close>: the handler that evaluates a claimed job, the
  development handler, the poll loop and the one-shot run, and the choice of mode from the process
  environment. The loop is generic in the queue and the handler, as in the code; the outcome of each
  \<^verbatim>\<open>select\<close> between the context and the timer is an argument, and the loop stops when that list does.
\<close>

section \<open>The runtime handler\<close>

record worker_env =
  we_runtime :: renv
  we_untar :: tar_reader
  we_docker :: docker_runner
  we_inspect :: "string \<Rightarrow> string option"
  we_open_error :: "string \<Rightarrow> go_error"
  we_id :: string

record handler_faults =
  hf_get_sub :: bool
  hf_get_lab :: bool
  hf_mark :: bool
  hf_read :: bool
  hf_persist :: "persist_call \<Rightarrow> bool"
  hf_ack :: bool

record handler_times =
  ht_started :: time
  ht_finished :: time
  ht_db :: time

datatype handle_error =
    HLoad string
  | HMark db_error
  | HPersist persist_error
  | HAck queue_error

definition loadSubmission :: "handler_faults \<Rightarrow> uuid \<Rightarrow> db \<Rightarrow> handle_error + (sub_row \<times> manifest)" where
  "loadSubmission flt i d =
     (case faulty (hf_get_sub flt) (GetSubmission i d) of
        Inl err \<Rightarrow> Inl (HLoad ''load submission'')
      | Inr s \<Rightarrow>
     (case faulty (hf_get_lab flt) (GetLab (sub_lab s) d) of
        Inl err \<Rightarrow> Inl (HLoad ''load lab manifest'')
      | Inr lab \<Rightarrow>
     (case l_manifest lab of
        None \<Rightarrow> Inl (HLoad ''decode stored manifest'')
      | Some m \<Rightarrow>
     (case Validate m of
        Inl err \<Rightarrow> Inl (HLoad ''validate stored manifest'')
      | Inr _ \<Rightarrow> Inr (s, m)))))"

definition resolveImageDigest :: "worker_env \<Rightarrow> string \<Rightarrow> string" where
  "resolveImageDigest e img =
     (if trim_space img = [] then [] else (case we_inspect e img of None \<Rightarrow> [] | Some d \<Rightarrow> d))"

text \<open>\<^verbatim>\<open>time.Duration(n) * time.Second\<close> in 64 bits.\<close>

definition seconds64 :: "int \<Rightarrow> int" where
  "seconds64 n = sint (word_of_int (n * 1000000000) :: 64 word)"

text \<open>\<^verbatim>\<open>os.ReadDir\<close> lists the files of a directory by name.\<close>

definition dir_listing :: "string \<Rightarrow> files \<Rightarrow> files" where
  "dir_listing dir fs =
     sort_stable (\<lambda>a b. fst a < fst b)
       (map (\<lambda>(p, k). (path_base p, k)) (filter (\<lambda>(p, k). path_dir p = path_clean dir) fs))"

definition evaluate_submission ::
  "worker_env \<Rightarrow> bool \<Rightarrow> sub_row \<Rightarrow> manifest \<Rightarrow> (string \<Rightarrow> string option) \<Rightarrow> host \<Rightarrow> (go_error + result) \<times> host" where
  "evaluate_submission e read_fails s m art h =
     (let r = we_runtime e
      in case (if read_fails then None else art (sub_artifact s)) of
        None \<Rightarrow> (Inl (WrapSystemError ''read submission artifact'' (we_open_error e (sub_artifact s))), h)
      | Some archive \<Rightarrow>
     (case CreateWorkspace r h of
        (Inl err, h1) \<Rightarrow> (Inl (WrapSystemError ''create evaluation workspace'' err), h1)
      | (Inr n, h1) \<Rightarrow>
     (case EnsureSubmissionDir r (re_temp r n) of
        Inl err \<Rightarrow> (Inl (WrapSystemError ''create submission workspace'' err), cleanup_workspace r n h1)
      | Inr dir \<Rightarrow>
     (case extractArchiveToDir r (we_untar e) archive dir of
        (Some err, files) \<Rightarrow> (Inl (WrapSystemError ''extract submission artifact'' err), cleanup_workspace r n h1)
      | (None, files) \<Rightarrow>
          (let entries = (case re_os r ''readdir'' dir of
                 Some err \<Rightarrow> Inl err | None \<Rightarrow> Inr (dir_listing dir files));
               (res, h2) = Evaluate r (we_docker e)
                 \<lparr>rq_image = eval_image (m_eval m), rq_dir = dir, rq_entries = entries,
                  rq_timeout = seconds64 (eval_timeout (m_eval m)), rq_manifest = Some m\<rparr> h1
           in (res, cleanup_workspace r n h2))))))"

definition error_result :: "go_error \<Rightarrow> result" where
  "error_result err = \<lparr>r_verdict = VError, r_scores = [], r_detail = None, r_message = error_text err\<rparr>"

text \<open>Status and last error of the acknowledgement.\<close>

definition ack_status :: "result \<Rightarrow> string \<times> string" where
  "ack_status r = (if r_verdict r = VError then (''error'', r_message r) else (''done'', []))"

text \<open>Persisting the result and acknowledging the job: the end of both handlers.\<close>

definition finish_job ::
  "handler_faults \<Rightarrow> handler_times \<Rightarrow> string \<Rightarrow> job_row \<Rightarrow> persist_input \<Rightarrow> db \<Rightarrow> (handle_error + unit) \<times> db" where
  "finish_job flt t w job pin d =
     (case Persist (hf_persist flt) (ht_db t) pin d of
        (Inl err, d1) \<Rightarrow> (Inl (HPersist err), d1)
      | (Inr _, d1) \<Rightarrow>
          (let (status, lastError) = ack_status (pi_result pin)
           in case Acknowledge (hf_ack flt) (ht_db t) (job_id job) w status lastError d1 of
                (Inl err, d2) \<Rightarrow> (Inl (HAck err), d2)
              | (Inr _, d2) \<Rightarrow> (Inr (), d2)))"

definition Handle ::
  "worker_env \<Rightarrow> handler_faults \<Rightarrow> handler_times \<Rightarrow> job_row \<Rightarrow> world \<times> host \<Rightarrow> (handle_error + unit) \<times> world \<times> host" where
  "Handle e flt t job wh =
     (let (w, h) = wh
      in case loadSubmission flt (job_sub job) (w_db w) of
        Inl err \<Rightarrow> (Inl err, w, h)
      | Inr (s, m) \<Rightarrow>
     (case MarkRunning (hf_mark flt) (sub_id s) (ht_started t) (w_db w) of
        Inl err \<Rightarrow> (Inl (HMark err), w, h)
      | Inr d1 \<Rightarrow>
          (let digest = resolveImageDigest e (eval_image (m_eval m));
               (ev, h1) = evaluate_submission e (hf_read flt) s m (w_art w) h;
               res = (case ev of Inl err \<Rightarrow> error_result err | Inr r \<Rightarrow> r);
               pin = \<lparr>pi_manifest = Some m, pi_sub = s, pi_result = res, pi_digest = digest,
                      pi_started = ht_started t, pi_finished = ht_finished t\<rparr>;
               (out, d2) = finish_job flt t (we_id e) job pin d1
           in (out, w\<lparr>w_db := d2\<rparr>, h1))))"

section \<open>The development handler\<close>

text \<open>A later entry of the archive replaces an earlier one of the same name.\<close>

fun archive_files ::
  "(string \<times> string option) list \<Rightarrow> go_error option \<Rightarrow> (string \<times> string) list \<Rightarrow> go_error + (string \<times> string) list" where
  "archive_files [] broken fs = (case broken of None \<Rightarrow> Inr fs | Some err \<Rightarrow> Inl (Wrapped ''read archive entry'' err))"
| "archive_files ((n, c) # es) broken fs =
     archive_files es broken (case c of None \<Rightarrow> fs | Some content \<Rightarrow> (n, content) # fs)"

definition extractArchiveFiles :: "tar_reader \<Rightarrow> string \<Rightarrow> go_error + (string \<times> string) list" where
  "extractArchiveFiles untar archive =
     (case untar archive of
        Inl err \<Rightarrow> Inl (Wrapped ''open gzip archive'' err)
      | Inr (es, broken) \<Rightarrow> archive_files es broken [])"

fun first_result ::
  "renv \<Rightarrow> manifest \<Rightarrow> (string \<times> string) list \<Rightarrow> string list \<Rightarrow> (go_error + result) option" where
  "first_result e m files [] = None"
| "first_result e m files (n # ns) =
     (case map_of files n of
        None \<Rightarrow> first_result e m files ns
      | Some content \<Rightarrow>
          Some (case re_json e content of
             None \<Rightarrow> Inl (Wrapped (''decode fake evaluator result '' @ re_quote e n) (Sentinel ''invalid JSON''))
           | Some r \<Rightarrow> mapErr (\<lambda>x. Sentinel (re_eval_text e x)) (bindR (ValidateResult (Some m) r) (\<lambda>_. Inr r))))"

definition EvaluateDevArtifact :: "renv \<Rightarrow> tar_reader \<Rightarrow> manifest option \<Rightarrow> string \<Rightarrow> go_error + result" where
  "EvaluateDevArtifact e untar mo archive =
     (case mo of
        None \<Rightarrow> Inl (Sentinel ''manifest is required'')
      | Some m \<Rightarrow>
          bindR (extractArchiveFiles untar archive) (\<lambda>files.
            case first_result e m files (slice_list (submit_files (m_submit m))) of
              Some r \<Rightarrow> r
            | None \<Rightarrow> Inl (Sentinel (''expected one of ['' @
                join_with '' '' (slice_list (submit_files (m_submit m))) @ ''] in artifact archive''))))"

definition dev_Handle ::
  "worker_env \<Rightarrow> handler_faults \<Rightarrow> handler_times \<Rightarrow> job_row \<Rightarrow> world \<Rightarrow> (handle_error + unit) \<times> world" where
  "dev_Handle e flt t job w =
     (case faulty (hf_get_sub flt) (GetSubmission (job_sub job) (w_db w)) of
        Inl err \<Rightarrow> (Inl (HLoad ''load submission''), w)
      | Inr s \<Rightarrow>
     (case MarkRunning (hf_mark flt) (sub_id s) (ht_started t) (w_db w) of
        Inl err \<Rightarrow> (Inl (HMark err), w)
      | Inr d1 \<Rightarrow>
     (case faulty (hf_get_lab flt) (GetLab (sub_lab s) d1) of
        Inl err \<Rightarrow> (Inl (HLoad ''load lab''), w\<lparr>w_db := d1\<rparr>)
      | Inr lab \<Rightarrow>
     (case l_manifest lab of
        None \<Rightarrow> (Inl (HLoad ''decode manifest''), w\<lparr>w_db := d1\<rparr>)
      | Some m \<Rightarrow>
     (case (if hf_read flt then None else w_art w (sub_artifact s)) of
        None \<Rightarrow> (Inl (HLoad ''read artifact''), w\<lparr>w_db := d1\<rparr>)
      | Some archive \<Rightarrow>
          (let ev = EvaluateDevArtifact (we_runtime e) (we_untar e) (Some m) archive;
               res = (case ev of Inl err \<Rightarrow> error_result err | Inr r \<Rightarrow> r);
               pin = \<lparr>pi_manifest = Some m, pi_sub = s, pi_result = res, pi_digest = [],
                      pi_started = ht_started t, pi_finished = ht_finished t\<rparr>;
               (out, d2) = finish_job flt t (we_id e) job pin d1
           in (out, w\<lparr>w_db := d2\<rparr>)))))))"

section \<open>The loop\<close>

datatype 'e loop_error = LoopCanceled | LoopFailed 'e

definition defaultPollInterval :: duration where "defaultPollInterval = second"

text \<open>
  One entry of the schedule per \<^verbatim>\<open>select\<close>: whether it took \<^verbatim>\<open>ctx.Done\<close>. The result is what \<^verbatim>\<open>Run\<close>
  returns (\<open>None\<close> while it is still running), the state, and the delays the timer was reset to.
\<close>

fun poll_loop ::
  "('s \<Rightarrow> ('e loop_error + 'j option) \<times> 's) \<Rightarrow> ('j \<Rightarrow> 's \<Rightarrow> ('e loop_error + unit) \<times> 's) \<Rightarrow> duration \<Rightarrow>
   bool list \<Rightarrow> 's \<Rightarrow> ('e + unit) option \<times> 's \<times> duration list" where
  "poll_loop claim handle interval [] s = (None, s, [])"
| "poll_loop claim handle interval (True # ps) s = (Some (Inr ()), s, [])"
| "poll_loop claim handle interval (False # ps) s =
     (case claim s of
        (Inl LoopCanceled, s1) \<Rightarrow> (Some (Inr ()), s1, [])
      | (Inl (LoopFailed err), s1) \<Rightarrow> (Some (Inl err), s1, [])
      | (Inr (Some j), s1) \<Rightarrow>
          (case handle j s1 of
             (Inl LoopCanceled, s2) \<Rightarrow> (Some (Inr ()), s2, [])
           | (Inl (LoopFailed err), s2) \<Rightarrow> (Some (Inl err), s2, [])
           | (Inr _, s2) \<Rightarrow>
               (let (out, s3, ds) = poll_loop claim handle interval ps s2 in (out, s3, 0 # ds)))
      | (Inr None, s1) \<Rightarrow>
          (let (out, s2, ds) = poll_loop claim handle interval ps s1 in (out, s2, interval # ds)))"

datatype 'e run_error = InvalidWorker | QueueRequired | HandlerRequired | RunFailed 'e

definition Loop_Run ::
  "string \<Rightarrow> duration \<Rightarrow> ('s \<Rightarrow> ('e loop_error + 'j option) \<times> 's) option \<Rightarrow>
   ('j \<Rightarrow> 's \<Rightarrow> ('e loop_error + unit) \<times> 's) option \<Rightarrow> bool list \<Rightarrow> 's \<Rightarrow>
   ('e run_error + unit) option \<times> 's \<times> duration list" where
  "Loop_Run w interval queue handler ps s =
     (if trim_space w = [] then (Some (Inl InvalidWorker), s, [])
      else (case queue of
        None \<Rightarrow> (Some (Inl QueueRequired), s, [])
      | Some claim \<Rightarrow>
     (case handler of
        None \<Rightarrow> (Some (Inl HandlerRequired), s, [])
      | Some handle \<Rightarrow>
          (let (out, s', ds) = poll_loop claim handle (if interval \<le> 0 then defaultPollInterval else interval) ps s
           in (map_option (mapErr RunFailed) out, s', ds)))))"

definition runOneShot ::
  "string \<Rightarrow> ('s \<Rightarrow> ('e + 'j option) \<times> 's) option \<Rightarrow> ('j \<Rightarrow> 's \<Rightarrow> ('e + unit) \<times> 's) option \<Rightarrow> 's \<Rightarrow>
   ('e run_error + unit) \<times> 's" where
  "runOneShot w queue handler s =
     (if trim_space w = [] then (Inl InvalidWorker, s)
      else (case queue of
        None \<Rightarrow> (Inl QueueRequired, s)
      | Some claim \<Rightarrow>
     (case handler of
        None \<Rightarrow> (Inl HandlerRequired, s)
      | Some handle \<Rightarrow>
     (case claim s of
        (Inl err, s1) \<Rightarrow> (Inl (RunFailed err), s1)
      | (Inr None, s1) \<Rightarrow> (Inr (), s1)
      | (Inr (Some j), s1) \<Rightarrow> (case handle j s1 of (r, s2) \<Rightarrow> (mapErr RunFailed r, s2))))))"

section \<open>Start-up\<close>

definition resolveWorkerID :: "string \<Rightarrow> string option \<Rightarrow> string option" where
  "resolveWorkerID w hostname =
     (if w \<noteq> [] then Some w else (case hostname of None \<Rightarrow> None | Some h \<Rightarrow> if h = [] then None else Some h))"

text \<open>In nanoseconds, as a 64-bit product.\<close>

definition resolvePollInterval :: "string \<Rightarrow> int option" where
  "resolvePollInterval raw =
     (if raw = [] then Some 1000000000
      else (case go_atoi raw of
              None \<Rightarrow> None
            | Some ms \<Rightarrow> if ms \<le> 0 then None else Some (sint (word_of_int (ms * 1000000) :: 64 word))))"

datatype worker_mode =
    BootstrapMode string int
  | DevMode string int bool
  | RealMode string int bool string string string

definition choose_mode :: "(string \<Rightarrow> string) \<Rightarrow> string option \<Rightarrow> string \<Rightarrow> worker_mode option" where
  "choose_mode getenv hostname workerID =
     (case resolveWorkerID workerID hostname of
        None \<Rightarrow> None
      | Some w \<Rightarrow>
     (case resolvePollInterval (getenv ''LABKIT_WORKER_POLL_INTERVAL_MS'') of
        None \<Rightarrow> None
      | Some iv \<Rightarrow>
          (let on = (\<lambda>k. equal_fold (trim_space (getenv k)) ''true''); once = on ''LABKIT_WORKER_RUN_ONCE''
           in if getenv ''LABKIT_WORKER_BOOTSTRAP_ONLY'' = ''true'' then Some (BootstrapMode w iv)
              else if on ''LABKIT_DEV_MODE'' \<and> on ''LABKIT_WORKER_DEV_FAKE_EVALUATION'' then Some (DevMode w iv once)
              else Some (RealMode w iv once (trim_space (getenv ''LABKIT_WORKER_WORKSPACE_ROOT''))
                     (trim_space (getenv ''LABKIT_WORKER_MEMORY_LIMIT''))
                     (trim_space (getenv ''LABKIT_WORKER_CPU_LIMIT''))))))"

section \<open>What a handled job leaves\<close>

lemma loadSubmission_Inr:
  "loadSubmission flt i d = Inr (s, m) \<Longrightarrow> GetSubmission i d = Inr s \<and> s \<in> set (db_subs d) \<and> sub_id s = i"
  by (auto simp: loadSubmission_def GetSubmission_def split: sum.splits option.splits dest!: find_SomeD)

lemma finish_job_Inr:
  assumes "finish_job flt t w job pin d = (Inr (), d')"
  obtains d1 where "Persist (hf_persist flt) (ht_db t) pin d = (Inr (), d1)"
    "Acknowledge (hf_ack flt) (ht_db t) (job_id job) w (fst (ack_status (pi_result pin)))
       (snd (ack_status (pi_result pin))) d1 = (Inr (), d')"
  using assms by (auto simp: finish_job_def Let_def split: prod.splits sum.splits)

lemma Handle_Inr:
  assumes "Handle e flt t job (w, h) = (Inr (), w', h')"
  obtains s m pin d1 where "loadSubmission flt (job_sub job) (w_db w) = Inr (s, m)"
    "d1 = UpdateSubmissionRunning (sub_id s) SsRunning (timestamptzValue (ht_started t)) (w_db w)"
    "pi_sub pin = s" "finish_job flt t (we_id e) job pin d1 = (Inr (), w_db w')"
proof -
  from assms obtain s m where load: "loadSubmission flt (job_sub job) (w_db w) = Inr (s, m)"
    by (auto simp: Handle_def split: sum.splits)
  obtain ev h1 where ev: "evaluate_submission e (hf_read flt) s m (w_art w) h = (ev, h1)" by fastforce
  let ?d1 = "UpdateSubmissionRunning (sub_id s) SsRunning (timestamptzValue (ht_started t)) (w_db w)"
  let ?pin = "\<lparr>pi_manifest = Some m, pi_sub = s, pi_result = (case ev of Inl err \<Rightarrow> error_result err | Inr r \<Rightarrow> r),
     pi_digest = resolveImageDigest e (eval_image (m_eval m)), pi_started = ht_started t,
     pi_finished = ht_finished t\<rparr>"
  obtain out d2 where fin: "finish_job flt t (we_id e) job ?pin ?d1 = (out, d2)" by fastforce
  from assms load ev fin have "out = Inr ()" "w_db w' = d2"
    by (auto simp: Handle_def MarkRunning_def Let_def faulty_def split: if_splits)
  with fin that [OF load refl, of ?pin] show thesis by simp
qed

text \<open>C16. When a handler returns without an error the evaluation is complete: the submission is done or in
  error, and the job it came from is terminal with the matching status and is no longer held.\<close>

theorem Handle_completes:
  assumes "Handle e flt t job (w, h) = (Inr (), w', h')"
    and "distinct (map job_id (db_jobs (w_db w)))"
  shows "\<exists>r \<in> set (db_subs (w_db w')). \<exists>j \<in> set (db_jobs (w_db w')).
    sub_id r = job_sub job \<and> sub_status r \<in> {SsDone, SsError} \<and> job_id j = job_id job \<and>
    job_status j = (if sub_status r = SsError then JError else JDone)"
  using assms(1)
proof (rule Handle_Inr)
  fix s m pin d1
  assume load: "loadSubmission flt (job_sub job) (w_db w) = Inr (s, m)"
    and d1: "d1 = UpdateSubmissionRunning (sub_id s) SsRunning (timestamptzValue (ht_started t)) (w_db w)"
    and pin: "pi_sub pin = s" and fin: "finish_job flt t (we_id e) job pin d1 = (Inr (), w_db w')"
  note s = loadSubmission_Inr [OF load]
  let ?st = "fst (ack_status (pi_result pin))"
  from fin obtain d2 where per: "Persist (hf_persist flt) (ht_db t) pin d1 = (Inr (), d2)"
    and ack: "Acknowledge (hf_ack flt) (ht_db t) (job_id job) (we_id e) ?st
      (snd (ack_status (pi_result pin))) d2 = (Inr (), w_db w')"
    by (rule finish_job_Inr)
  note a = Acknowledge_Inr [OF ack]
  have jobs2: "db_jobs d2 = db_jobs (w_db w)"
    using Persist_subs [OF per] by (auto simp: d1 UpdateSubmissionRunning_def)
  let ?r = "finished_row pin (s\<lparr>sub_status := SsRunning, sub_started := timestamptzValue (ht_started t)\<rparr>)"
  have "s\<lparr>sub_status := SsRunning, sub_started := timestamptzValue (ht_started t)\<rparr> \<in> set (db_subs d1)"
    using s by (force simp: d1 UpdateSubmissionRunning_def set_update_where)
  then have "?r \<in> set (db_subs d2)"
    using Persist_subs [OF per] by (force simp: set_update_where pin)
  then have r: "?r \<in> set (db_subs (w_db w'))" using a by (simp add: MarkEvaluationJobDone_def)
  from held_unique [of "db_jobs d2" "job_id job" "job_text (we_id e)"] a jobs2 assms(2)
  obtain j where j: "j \<in> set (db_jobs d2)" "held_by (job_id job) (job_text (we_id e)) j" by force
  let ?new = "\<lambda>j. j\<lparr>job_status := if ?st = ''done'' then JDone else JError,
     job_error := job_text (snd (ack_status (pi_result pin))), job_finished := Some (ht_db t), job_updated := ht_db t\<rparr>"
  have "?new j \<in> set (db_jobs (w_db w'))"
    using a j by (force simp: MarkEvaluationJobDone_def set_update_where)
  moreover have "job_id (?new j) = job_id job" using j(2) by (simp add: held_by_def)
  moreover have "job_status (?new j) = (if sub_status ?r = SsError then JError else JDone)"
    by (simp add: finished_row_def submissionStatusFor_def ack_status_def)
  moreover have "sub_id ?r = job_sub job" "sub_status ?r \<in> {SsDone, SsError}"
    using s by (simp_all add: finished_row_def submissionStatusFor_def)
  ultimately show ?thesis using r by blast
qed

section \<open>A stranded job\<close>

lemma Evaluate_valid:
  assumes "Evaluate e r rq h = (Inr res, h')"
  shows "ValidateResult (rq_manifest rq) res = Inr ()"
  using assms
  by (auto simp: Evaluate_def Let_def run_verdict_def mapErr_def ParseResult_Inr
      split: if_splits option.splits prod.splits sum.splits)

lemma evaluate_submission_valid:
  "evaluate_submission e rf s m art h = (Inr r, h') \<Longrightarrow> ValidateResult (Some m) r = Inr ()"
  by (auto simp: evaluate_submission_def Let_def split: option.splits prod.splits sum.splits dest: Evaluate_valid)

lemma running_never_next:
  assumes "distinct (map job_id (db_jobs d))" and "j \<in> set (db_jobs d)" and "job_status j = JRunning"
    and "GetNextQueuedEvaluationJob now locked d = Inr k"
  shows "job_id k \<noteq> job_id j"
proof
  assume eq: "job_id k = job_id j"
  from GetNext_Inr [OF assms(4)] have k: "k \<in> set (db_jobs d)" "job_status k = JQueued" by (auto simp: due_def)
  from distinct_key_eq [OF assms(1) k(1) assms(2) eq] k(2) assms(3) show False by simp
qed

text \<open>A zero byte in the evaluator's message strands its submission: the database rejects the text, the
  handler returns an error (which ends the worker's loop), the submission stays running, and the job
  stays running too, so that no later claim ever returns it.\<close>

theorem nul_message_strands_job:
  assumes "loadSubmission flt (job_sub job) (w_db w) = Inr (s, m)" and "\<not> hf_mark flt"
    and "evaluate_submission e (hf_read flt) s m (w_art w) h = (Inr r, h1)"
    and "CHR 0x00 \<in> set (r_message r)" and "\<not> hf_persist flt PeBegin" and "\<not> hf_persist flt PeResult"
    and "distinct (map job_id (db_jobs (w_db w)))" and "j \<in> set (db_jobs (w_db w))"
    and "job_id j = job_id job" and "job_status j = JRunning"
  shows "\<exists>w'. Handle e flt t job (w, h) = (Inl (HPersist (PersistDb InvalidText)), w', h1) \<and>
    j \<in> set (db_jobs (w_db w')) \<and>
    (\<exists>row \<in> set (db_subs (w_db w')). sub_id row = job_sub job \<and> sub_status row = SsRunning) \<and>
    (\<forall>now locked k. GetNextQueuedEvaluationJob now locked (w_db w') = Inr k \<longrightarrow> job_id k \<noteq> job_id job)"
proof -
  let ?d1 = "UpdateSubmissionRunning (sub_id s) SsRunning (timestamptzValue (ht_started t)) (w_db w)"
  let ?pin = "\<lparr>pi_manifest = Some m, pi_sub = s, pi_result = r,
     pi_digest = resolveImageDigest e (eval_image (m_eval m)), pi_started = ht_started t,
     pi_finished = ht_finished t\<rparr>"
  note s = loadSubmission_Inr [OF assms(1)]
  have "textValue (r_message r) = Some (r_message r)" using assms(4) by (auto simp: textValue_def)
  then have "\<not> pg_text (textValue (r_message r))" using assms(4) by (simp add: pg_text_def)
  then have "Persist (hf_persist flt) (ht_db t) ?pin ?d1 = (Inl (PersistDb InvalidText), ?d1)"
    using evaluate_submission_valid [OF assms(3)] assms(5,6)
    by (simp add: Persist_def persist_tx_def Let_def UpdateSubmissionResult_def)
  then have handle: "Handle e flt t job (w, h) = (Inl (HPersist (PersistDb InvalidText)), w\<lparr>w_db := ?d1\<rparr>, h1)"
    using assms(1-3) by (simp add: Handle_def MarkRunning_def finish_job_def)
  have jobs: "db_jobs ?d1 = db_jobs (w_db w)" by (simp add: UpdateSubmissionRunning_def)
  let ?row = "s\<lparr>sub_status := SsRunning, sub_started := timestamptzValue (ht_started t)\<rparr>"
  have row: "?row \<in> set (db_subs ?d1)"
    using s by (force simp: UpdateSubmissionRunning_def set_update_where)
  have never: "job_id k \<noteq> job_id job" if "GetNextQueuedEvaluationJob now locked ?d1 = Inr k" for now locked k
    using running_never_next [OF _ _ assms(10) that] assms(7-9) jobs by simp
  show ?thesis
  proof (intro exI [of _ "w\<lparr>w_db := ?d1\<rparr>"] conjI allI impI)
    show "\<exists>row \<in> set (db_subs (w_db (w\<lparr>w_db := ?d1\<rparr>))). sub_id row = job_sub job \<and> sub_status row = SsRunning"
      by (rule bexI [of _ ?row]) (use s row in simp_all)
  qed (use handle assms(8) jobs never in simp_all)
qed

section \<open>Draining the queue\<close>

text \<open>C19. A worker whose jobs succeed drains its queue without waiting: if every claim either finds nothing
  or yields a job that is handled and leaves fewer due jobs, then after one poll per due job, all of
  them immediate, the queue is empty and the loop settles into polling at its interval.\<close>

theorem poll_loop_drains:
  assumes step: "\<And>s. I s \<Longrightarrow> claim s = (Inr None, s) \<or>
      (\<exists>j s1 s2. claim s = (Inr (Some j), s1) \<and> handle j s1 = (Inr (), s2) \<and> I s2 \<and> jobs s2 < (jobs s :: nat))"
    and "I s" and "jobs s \<le> n"
  shows "\<exists>k s'. k \<le> jobs s \<and> claim s' = (Inr None, s') \<and>
    poll_loop claim handle interval (replicate n False) s = (None, s', replicate k 0 @ replicate (n - k) interval)"
  using assms(2,3)
proof (induction n arbitrary: s)
  case 0
  from step [OF 0(1)] 0(2) have "claim s = (Inr None, s)" by auto
  then show ?case by auto
next
  case (Suc n)
  from step [OF Suc.prems(1)] show ?case
  proof
    assume none: "claim s = (Inr None, s)"
    have "poll_loop claim handle interval (replicate k False) s = (None, s, replicate k interval)" for k
      using none by (induction k) simp_all
    from this [of "Suc n"] none show ?thesis by (intro exI [of _ 0] exI [of _ s]) simp
  next
    assume "\<exists>j s1 s2. claim s = (Inr (Some j), s1) \<and> handle j s1 = (Inr (), s2) \<and> I s2 \<and> jobs s2 < jobs s"
    then obtain j s1 s2 where c: "claim s = (Inr (Some j), s1)" "handle j s1 = (Inr (), s2)" "I s2" "jobs s2 < jobs s"
      by blast
    from c(4) Suc.prems(2) have "jobs s2 \<le> n" by simp
    from Suc.IH [OF c(3) this] obtain k s' where k: "k \<le> jobs s2" "claim s' = (Inr None, s')"
      "poll_loop claim handle interval (replicate n False) s2 = (None, s', replicate k 0 @ replicate (n - k) interval)"
      by blast
    with c show ?thesis by (intro exI [of _ "Suc k"] exI [of _ s']) simp
  qed
qed

section \<open>A concrete worker\<close>

definition sample_worker :: "string \<Rightarrow> worker_env" where
  "sample_worker msg =
     \<lparr>we_runtime = sample_renv\<lparr>re_json := \<lambda>line. Some \<lparr>r_verdict = BuildFailed, r_scores = [],
        r_detail = None, r_message = msg\<rparr>\<rparr>,
      we_untar = (\<lambda>a. Inr ([(''main.c'', Some a), (''README.md'', Some a)], None)),
      we_docker = \<lparr>dr_memory = [], dr_cpus = []\<rparr>, we_inspect = (\<lambda>img. None),
      we_open_error = (\<lambda>k. Sentinel ''no such file''), we_id = ''w''\<rparr>"

definition sample_hf :: handler_faults where
  "sample_hf = \<lparr>hf_get_sub = False, hf_get_lab = False, hf_mark = False, hf_read = False,
     hf_persist = (\<lambda>_. False), hf_ack = False\<rparr>"

definition sample_ht :: handler_times where "sample_ht = \<lparr>ht_started = 6, ht_finished = 7, ht_db = 8\<rparr>"

definition sample_job :: job_row where
  "sample_job = (new_job 5 2 1)\<lparr>job_status := JRunning, job_worker := Some ''w''\<rparr>"

definition sample_lab_manifest :: manifest where "sample_lab_manifest = normalize_manifest sample_manifest"

definition sample_wh :: world where
  "sample_wh =
     \<lparr>w_db = (sample_db QPending)\<lparr>db_labs := [\<lparr>l_id = ''lab'', l_name = ''Lab'',
        l_manifest = Some sample_lab_manifest, l_updated = 0, l_created = 0\<rparr>]\<rparr>,
      w_art = [''lab/1/a'' \<mapsto> ''x'']\<rparr>"

lemma sample_wh_jobs: "db_jobs (w_db sample_wh) = [sample_job]" "job_id sample_job = 2" "job_status sample_job = JRunning"
  by (simp_all add: sample_wh_def sample_db_def sample_job_def)

lemma sample_load: "loadSubmission sample_hf 1 (w_db sample_wh) = Inr (sample_sub QPending, sample_lab_manifest)"
proof -
  have v: "Validate sample_lab_manifest = Inr ()" by code_simp
  show ?thesis
    by (simp add: loadSubmission_def sample_hf_def GetSubmission_def GetLab_def sample_wh_def v)
qed

lemma sample_eval:
  "fst (evaluate_submission (sample_worker [CHR 0x00]) (hf_read sample_hf) (sample_sub QPending) sample_lab_manifest
     (w_art sample_wh) sample_host) = Inr \<lparr>r_verdict = BuildFailed, r_scores = [], r_detail = None, r_message = [CHR 0x00]\<rparr>"
  by code_simp

lemma sample_handle:
  "fst (Handle (sample_worker ''no main'') sample_hf sample_ht sample_job (sample_wh, sample_host)) = Inr ()"
  by code_simp

theorem Handle_completes_witness:
  "\<exists>w' h'. Handle (sample_worker ''no main'') sample_hf sample_ht sample_job (sample_wh, sample_host) = (Inr (), w', h') \<and>
     (\<exists>j \<in> set (db_jobs (w_db w')). job_id j = 2 \<and> job_status j \<in> {JDone, JError})"
proof -
  obtain w' h' where r: "Handle (sample_worker ''no main'') sample_hf sample_ht sample_job (sample_wh, sample_host) =
      (Inr (), w', h')"
    using sample_handle by (metis prod.collapse)
  from Handle_completes [OF r] r show ?thesis by (force simp: sample_wh_jobs)
qed

theorem nul_message_strands_job_witness:
  "\<exists>w' h'. Handle (sample_worker [CHR 0x00]) sample_hf sample_ht sample_job (sample_wh, sample_host) =
     (Inl (HPersist (PersistDb InvalidText)), w', h') \<and> sample_job \<in> set (db_jobs (w_db w'))"
proof -
  obtain h1 where ev: "evaluate_submission (sample_worker [CHR 0x00]) (hf_read sample_hf) (sample_sub QPending)
      sample_lab_manifest (w_art sample_wh) sample_host =
      (Inr \<lparr>r_verdict = BuildFailed, r_scores = [], r_detail = None, r_message = [CHR 0x00]\<rparr>, h1)"
    using sample_eval by (metis prod.collapse)
  have load: "loadSubmission sample_hf (job_sub sample_job) (w_db sample_wh) = Inr (sample_sub QPending, sample_lab_manifest)"
    using sample_load by (simp add: sample_job_def)
  have flt: "\<not> hf_mark sample_hf" "\<not> hf_persist sample_hf PeBegin" "\<not> hf_persist sample_hf PeResult"
    by (simp_all add: sample_hf_def)
  from nul_message_strands_job [OF load flt(1) ev _ flt(2,3), of sample_job sample_ht] show ?thesis
    by (auto simp: sample_wh_jobs)
qed

definition sample_source :: "db \<Rightarrow> (queue_error loop_error + job_row option) \<times> db" where
  "sample_source d = (case Claim (\<lambda>_. False) 9 9 [] ''w'' d of (r, d') \<Rightarrow> (mapErr LoopFailed r, d'))"

definition sample_sink :: "job_row \<Rightarrow> db \<Rightarrow> (queue_error loop_error + unit) \<times> db" where
  "sample_sink j d = (case Acknowledge False 9 (job_id j) ''w'' ''done'' [] d of (r, d') \<Rightarrow> (mapErr LoopFailed r, d'))"

definition sample_due :: db where "sample_due = empty_db\<lparr>db_jobs := [new_job 5 2 1]\<rparr>"
definition sample_drained :: db where "sample_drained = snd (sample_sink (new_job 5 2 1) (snd (sample_source sample_due)))"

lemma sample_source_steps:
  "fst (sample_source sample_due) = Inr (Some ((new_job 5 2 1)\<lparr>job_status := JRunning, job_attempts := 1,
     job_worker := Some ''w'', job_started := Some 9, job_updated := 9\<rparr>))"
  "fst (sample_sink ((new_job 5 2 1)\<lparr>job_status := JRunning, job_attempts := 1,
     job_worker := Some ''w'', job_started := Some 9, job_updated := 9\<rparr>) (snd (sample_source sample_due))) = Inr ()"
  "snd (sample_sink ((new_job 5 2 1)\<lparr>job_status := JRunning, job_attempts := 1,
     job_worker := Some ''w'', job_started := Some 9, job_updated := 9\<rparr>) (snd (sample_source sample_due))) = sample_drained"
  "sample_source sample_drained = (Inr None, sample_drained)"
  "count_where (due 9 []) (db_jobs sample_due) = 1"
  "count_where (due 9 []) (db_jobs sample_drained) = 0"
  by code_simp+

theorem poll_loop_drains_witness:
  "\<exists>k s'. k \<le> 1 \<and> sample_source s' = (Inr None, s') \<and>
     poll_loop sample_source sample_sink 5 (replicate 3 False) sample_due = (None, s', replicate k 0 @ replicate (3 - k) 5)"
proof -
  let ?I = "\<lambda>d. d \<in> {sample_due, sample_drained}"
  have "sample_source d = (Inr None, d) \<or> (\<exists>j s1 s2. sample_source d = (Inr (Some j), s1) \<and>
      sample_sink j s1 = (Inr (), s2) \<and> ?I s2 \<and>
      count_where (due 9 []) (db_jobs s2) < count_where (due 9 []) (db_jobs d))" if "?I d" for d
    using that sample_source_steps by (auto simp: prod_eq_iff)
  from poll_loop_drains [where I = ?I, OF this, of sample_due 3 5] sample_source_steps(5) show ?thesis by auto
qed

end
