(* ===== verification/Leaderboard.thy ===== *)
theory Leaderboard
  imports Quota Evaluation
begin

text \<open>
  \<^verbatim>\<open>api/internal/service/leaderboard\<close> and the board queries (\<^verbatim>\<open>db/queries/leaderboard.sql\<close>,
  \<^verbatim>\<open>profiles.sql\<close>): the public board of a lab for one metric. SQL joins are nested scans of the tables; rows that
  an \<^verbatim>\<open>ORDER BY\<close> leaves tied keep the order of the scan, on which the board turns out not to depend.
\<close>

section \<open>Queries\<close>

record metric_row =
  mr_user :: int
  mr_nickname :: string
  mr_lab :: string
  mr_sub :: uuid
  mr_updated :: time
  mr_metric :: string
  mr_value :: f32

definition join_metric :: "string \<Rightarrow> string \<Rightarrow> db \<Rightarrow> metric_row list" where
  "join_metric lab mt d =
     concat (map (\<lambda>lb. concat (map (\<lambda>u. map (\<lambda>s.
           \<lparr>mr_user = lb_user lb, mr_nickname = u_nickname u, mr_lab = lb_lab lb, mr_sub = lb_sub lb,
            mr_updated = lb_updated lb, mr_metric = sc_metric s, mr_value = sc_value s\<rparr>)
         (filter (\<lambda>s. sc_sub s = lb_sub lb \<and> sc_metric s = mt) (db_scores d)))
       (filter (\<lambda>u. u_id u = lb_user lb) (db_users d))))
     (filter (\<lambda>lb. lb_lab lb = lab) (db_board d)))"

definition ListLeaderboardByLabAndMetricAsc :: "string \<Rightarrow> string \<Rightarrow> db \<Rightarrow> metric_row list" where
  "ListLeaderboardByLabAndMetricAsc lab mt d =
     sort_stable (\<lambda>a b. mr_value a < mr_value b \<or> mr_value a = mr_value b \<and> mr_updated a < mr_updated b)
       (join_metric lab mt d)"

definition ListLeaderboardByLabAndMetricDesc :: "string \<Rightarrow> string \<Rightarrow> db \<Rightarrow> metric_row list" where
  "ListLeaderboardByLabAndMetricDesc lab mt d =
     sort_stable (\<lambda>a b. mr_value a > mr_value b \<or> mr_value a = mr_value b \<and> mr_updated a > mr_updated b)
       (join_metric lab mt d)"

definition ListLeaderboardByLab :: "string \<Rightarrow> db \<Rightarrow> board_row list" where
  "ListLeaderboardByLab lab d =
     sort_stable (\<lambda>a b. lb_updated a > lb_updated b) (filter (\<lambda>lb. lb_lab lb = lab) (db_board d))"

definition ListScoresByLab :: "string \<Rightarrow> db \<Rightarrow> score_row list" where
  "ListScoresByLab lab d =
     sort_stable (\<lambda>a b. sc_sub a < sc_sub b \<or> sc_sub a = sc_sub b \<and> sc_metric a < sc_metric b)
       (concat (map (\<lambda>lb. filter (\<lambda>s. sc_sub s = lb_sub lb) (db_scores d))
          (filter (\<lambda>lb. lb_lab lb = lab) (db_board d))))"

definition ListLabProfilesByLab :: "string \<Rightarrow> db \<Rightarrow> profile_row list" where
  "ListLabProfilesByLab lab d =
     sort_stable (\<lambda>a b. pf_user a < pf_user b) (filter (\<lambda>p. pf_lab p = lab) (db_profiles d))"

section \<open>The service\<close>

datatype board_error =
    BoardLabNotFound | BoardLabHidden | BoardMetricNotFound | BoardInvalidManifest
  | BoardUnsupportedSort string | BoardDb db_error

datatype board_call = BcLab | BcRows | BcScores | BcProfiles | BcCount

type_synonym board_score = "string \<times> f32"

record boardrow =
  br_rank :: nat
  br_nickname :: string
  br_track :: string
  br_scores :: "board_score list"
  br_updated :: time
  br_current :: bool

record board_metric =
  bm_id :: string
  bm_name :: string
  bm_sort :: string
  bm_selected :: bool

record board =
  bd_lab :: string
  bd_selected :: string
  bd_rank_all :: bool
  bd_metrics :: "board_metric list"
  bd_rows :: "boardrow list"
  bd_quota :: "quota_summary option"

record leaderboard_row =
  lr_user :: int
  lr_nickname :: string
  lr_sub :: uuid
  lr_updated :: time

record board_entry =
  be_user :: int
  be_value :: f32
  be_updated :: time
  be_row :: boardrow

text \<open>\<^verbatim>\<open>"\u533f\u540d"\<close>, the name shown for a student without one.\<close>

definition anonymous :: string where
  "anonymous = [CHR 0xE5, CHR 0x8C, CHR 0xBF, CHR 0xE5, CHR 0x90, CHR 0x8D]"

definition sort_text :: "metric_sort \<Rightarrow> string" where
  "sort_text s = (case s of Asc \<Rightarrow> ''asc'' | Desc \<Rightarrow> ''desc'' | OtherSort t \<Rightarrow> t)"

definition resolveMetric :: "manifest \<Rightarrow> string \<Rightarrow> board_error + metric_section" where
  "resolveMetric m by =
     (let wanted = (if blank by then rank_by (m_board m) else trim_space by)
      in case find (\<lambda>mt. metric_id mt = wanted) (m_metrics m) of
           None \<Rightarrow> Inl BoardMetricNotFound
         | Some mt \<Rightarrow> Inr mt)"

definition isVisible :: "schedule_section \<Rightarrow> time \<Rightarrow> bool" where
  "isVisible sc now = (if is_zero (sch_visible sc) then True else \<not> now < sch_visible sc)"

definition leaderboard_rows :: "metric_row list \<Rightarrow> leaderboard_row list" where
  "leaderboard_rows = map (\<lambda>r. \<lparr>lr_user = mr_user r, lr_nickname = mr_nickname r, lr_sub = mr_sub r,
     lr_updated = mr_updated r\<rparr>)"

definition listLeaderboardRows ::
  "bool \<Rightarrow> string \<Rightarrow> metric_section \<Rightarrow> db \<Rightarrow> board_error + leaderboard_row list" where
  "listLeaderboardRows fails lab mt d =
     (case metric_sort mt of
        Asc \<Rightarrow> mapErr BoardDb (faulty fails
                 (Inr (leaderboard_rows (ListLeaderboardByLabAndMetricAsc lab (metric_id mt) d))))
      | Desc \<Rightarrow> mapErr BoardDb (faulty fails
                 (Inr (leaderboard_rows (ListLeaderboardByLabAndMetricDesc lab (metric_id mt) d))))
      | OtherSort s \<Rightarrow> Inl (BoardUnsupportedSort s))"

text \<open>\<^verbatim>\<open>map[uuid.UUID][]sqlc.Scores\<close>: the scores of a submission in query order.\<close>

definition scores_of :: "uuid \<Rightarrow> score_row list \<Rightarrow> score_row list" where
  "scores_of i ss = filter (\<lambda>s. sc_sub s = i) ss"

text \<open>A later row replaces an earlier one of its metric; a missing metric reads as zero.\<close>

definition score_map :: "score_row list \<Rightarrow> string \<Rightarrow> f32" where
  "score_map ss mt = (case map_of (rev (map (\<lambda>s. (sc_metric s, sc_value s)) ss)) mt of None \<Rightarrow> Fin 0 | Some v \<Rightarrow> v)"

definition scoresForMetrics :: "metric_section list \<Rightarrow> score_row list \<Rightarrow> board_score list" where
  "scoresForMetrics ms ss = map (\<lambda>mt. (metric_id mt, score_map ss (metric_id mt))) ms"

definition metricValueFor :: "board_score list \<Rightarrow> string \<Rightarrow> f32" where
  "metricValueFor scores mt = (case find (\<lambda>(i, v). i = mt) scores of None \<Rightarrow> Fin 0 | Some (_, v) \<Rightarrow> v)"

definition profile_of :: "int \<Rightarrow> profile_row list \<Rightarrow> profile_row option" where
  "profile_of user ps = find (\<lambda>p. pf_user p = user) (rev ps)"

definition shown_name :: "string \<Rightarrow> string" where
  "shown_name n = (if blank n then anonymous else trim_space n)"

definition shown_track :: "profile_row option \<Rightarrow> string" where
  "shown_track p =
     (case p of None \<Rightarrow> []
      | Some p \<Rightarrow> (case pf_track p of None \<Rightarrow> [] | Some t \<Rightarrow> if blank t then [] else trim_space t))"

definition entry_of ::
  "manifest \<Rightarrow> metric_section \<Rightarrow> score_row list \<Rightarrow> profile_row list \<Rightarrow> int \<Rightarrow> leaderboard_row \<Rightarrow> board_entry" where
  "entry_of m mt scores profiles viewer r =
     (let rowScores = scoresForMetrics (m_metrics m) (scores_of (lr_sub r) scores)
      in \<lparr>be_user = lr_user r, be_value = metricValueFor rowScores (metric_id mt), be_updated = lr_updated r,
          be_row = \<lparr>br_rank = 0, br_nickname = shown_name (lr_nickname r),
            br_track = (if board_pick (m_board m) then shown_track (profile_of (lr_user r) profiles) else []),
            br_scores = rowScores, br_updated = lr_updated r,
            br_current = (viewer \<noteq> 0 \<and> lr_user r = viewer)\<rparr>\<rparr>)"

text \<open>The less function of the board.\<close>

definition board_less :: "metric_sort \<Rightarrow> board_entry \<Rightarrow> board_entry \<Rightarrow> bool" where
  "board_less srt l r =
     (case srt of
        Asc \<Rightarrow>
          (if be_value l \<noteq> be_value r then be_value l < be_value r
           else if be_updated l \<noteq> be_updated r then be_updated l < be_updated r
           else be_user l < be_user r)
      | _ \<Rightarrow>
          (if be_value l \<noteq> be_value r then be_value l > be_value r
           else if be_updated l \<noteq> be_updated r then be_updated l > be_updated r
           else be_user l < be_user r))"

fun rank_rows :: "bool \<Rightarrow> bool \<Rightarrow> string \<Rightarrow> nat \<Rightarrow> board_entry list \<Rightarrow> boardrow list" where
  "rank_rows rankAll pick selected next [] = []"
| "rank_rows rankAll pick selected next (e # es) =
     (if rankAll \<or> \<not> pick \<or> equal_fold (br_track (be_row e)) selected
      then (be_row e)\<lparr>br_rank := next\<rparr> # rank_rows rankAll pick selected (Suc next) es
      else be_row e # rank_rows rankAll pick selected next es)"

definition board_metrics :: "manifest \<Rightarrow> metric_section \<Rightarrow> board_metric list" where
  "board_metrics m mt =
     map (\<lambda>x. \<lparr>bm_id = metric_id x, bm_name = metric_name x, bm_sort = sort_text (metric_sort x),
               bm_selected = (metric_id x = metric_id mt)\<rparr>) (m_metrics m)"

definition assemble_board :: "string \<Rightarrow> manifest \<Rightarrow> metric_section \<Rightarrow> board_entry list \<Rightarrow> board" where
  "assemble_board lab m mt rows =
     \<lparr>bd_lab = lab, bd_selected = metric_id mt, bd_rank_all = IsRankAll (m_board m),
      bd_metrics = board_metrics m mt,
      bd_rows = rank_rows (IsRankAll (m_board m)) (board_pick (m_board m)) (metric_id mt) 1 rows,
      bd_quota = None\<rparr>"

text \<open>\<open>GetBoard\<close> from the resolved metric on: rows, sorting, ranks, and the quota of a known viewer.\<close>

definition board_of_metric ::
  "(board_call \<Rightarrow> bool) \<Rightarrow> time \<Rightarrow> location \<Rightarrow> string \<Rightarrow> manifest \<Rightarrow> metric_section \<Rightarrow> int \<Rightarrow> db \<Rightarrow> board_error + board" where
  "board_of_metric flt now2 loc lab m mt viewer d =
     bindR (listLeaderboardRows (flt BcRows) lab mt d) (\<lambda>lrows.
     bindR (mapErr BoardDb (faulty (flt BcScores) (Inr (ListScoresByLab lab d)))) (\<lambda>scores.
     bindR (mapErr BoardDb (faulty (flt BcProfiles) (Inr (ListLabProfilesByLab lab d)))) (\<lambda>profiles.
       let rows = sort_stable (board_less (metric_sort mt)) (map (entry_of m mt scores profiles viewer) lrows);
           bd = assemble_board lab m mt rows
       in if viewer = 0 then Inr bd
          else (let (start, stop) = quotaWindowForTime now2 loc
                in bindR (mapErr BoardDb (faulty (flt BcCount)
                     (Inr (CountSubmissionQuotaUsage viewer lab start stop d)))) (\<lambda>used.
                     Inr (bd\<lparr>bd_quota := BuildQuotaSummary (Some m) (int used) (Some loc)\<rparr>))))))"

text \<open>\<open>GetBoard\<close> reads the clock once for the visibility and once for the quota window.\<close>

definition GetBoard ::
  "(board_call \<Rightarrow> bool) \<Rightarrow> time \<Rightarrow> time \<Rightarrow> location \<Rightarrow> string \<Rightarrow> string \<Rightarrow> int \<Rightarrow> db \<Rightarrow> board_error + board" where
  "GetBoard flt now now2 loc labID by viewer d =
     (case faulty (flt BcLab) (GetLab (trim_space labID) d) of
        Inl err \<Rightarrow> Inl (if err = NoRows then BoardLabNotFound else BoardDb err)
      | Inr lab \<Rightarrow>
     (case l_manifest lab of
        None \<Rightarrow> Inl BoardInvalidManifest
      | Some m \<Rightarrow>
     (if \<not> isVisible (m_schedule m) now then Inl BoardLabHidden
      else bindR (resolveMetric m by) (\<lambda>mt. board_of_metric flt now2 loc (l_id lab) m mt viewer d))))"

section \<open>The order of the board\<close>

text \<open>The less function is a strict weak order, total on rows of different students.\<close>

interpretation board_order: weak_less "board_less srt" for srt
  by unfold_locales (auto simp: board_less_def split: metric_sort.splits if_splits)

lemma board_less_total: "be_user l \<noteq> be_user r \<Longrightarrow> board_less srt l r \<or> board_less srt r l"
  by (auto simp: board_less_def split: metric_sort.splits)

lemma board_sorted:
  assumes "distinct (map be_user es)"
  shows "sorted_wrt (board_less srt) (sort_stable (board_less srt) es)"
proof -
  let ?xs = "sort_stable (board_less srt) es"
  have d: "distinct (map be_user ?xs)" using assms by simp
  have "board_less srt a b" if "i < j" "j < length ?xs" "a = ?xs ! i" "b = ?xs ! j" for a b i j
  proof -
    have "\<not> board_less srt b a" using board_order.sorted [of srt es] that by (simp add: sorted_wrt_iff_nth_less)
    moreover have "be_user a \<noteq> be_user b"
      using nth_eq_iff_index_eq [OF d, of i j] that by simp
    ultimately show ?thesis using board_less_total by blast
  qed
  then show ?thesis by (simp add: sorted_wrt_iff_nth_less)
qed

lemma board_sort_unique:
  assumes "mset xs = mset ys" and "distinct (map be_user xs)"
  shows "sort_stable (board_less srt) xs = sort_stable (board_less srt) ys"
proof (rule sorted_wrt_unique)
  show "mset (sort_stable (board_less srt) xs) = mset (sort_stable (board_less srt) ys)" using assms by simp
  have "mset (map be_user xs) = mset (map be_user ys)" using assms(1) by (simp add: mset_map)
  with assms(2) have "distinct (map be_user ys)" using mset_eq_imp_distinct_iff by blast
  then show "sorted_wrt (board_less srt) (sort_stable (board_less srt) ys)" by (rule board_sorted)
qed (use board_order.less_asym board_sorted [OF assms(2)] in blast)+

section \<open>The joined rows\<close>

definition board_keys :: "db \<Rightarrow> bool" where
  "board_keys d \<longleftrightarrow> distinct (map (\<lambda>b. (lb_user b, lb_lab b)) (db_board d)) \<and> distinct (map u_id (db_users d)) \<and>
     distinct (map (\<lambda>s. (sc_sub s, sc_metric s)) (db_scores d))"

lemma distinct_filter_key:
  "distinct (map k xs) \<Longrightarrow> filter (\<lambda>x. k x = v) xs = (case find (\<lambda>x. k x = v) xs of None \<Rightarrow> [] | Some x \<Rightarrow> [x])"
  by (induction xs) (auto split: option.splits dest!: find_SomeD)

lemma score_filter:
  assumes "board_keys d"
  shows "filter (\<lambda>s. sc_sub s = i \<and> sc_metric s = mt) (db_scores d) =
    (case find (\<lambda>s. sc_sub s = i \<and> sc_metric s = mt) (db_scores d) of None \<Rightarrow> [] | Some s \<Rightarrow> [s])"
  using distinct_filter_key [of "\<lambda>s. (sc_sub s, sc_metric s)" "db_scores d" "(i, mt)"] assms
  by (simp add: board_keys_def)

lemma score_unique:
  "board_keys d \<Longrightarrow> s \<in> set (db_scores d) \<Longrightarrow> t \<in> set (db_scores d) \<Longrightarrow> sc_sub s = sc_sub t \<Longrightarrow>
   sc_metric s = sc_metric t \<Longrightarrow> s = t"
  using distinct_key_eq [of "\<lambda>s. (sc_sub s, sc_metric s)" "db_scores d" s t] by (simp add: board_keys_def)

lemma concat_at_most_one:
  assumes "distinct (map k xs)" and "\<And>x. x \<in> set xs \<Longrightarrow> length (f x) \<le> 1"
    and "\<And>x y. x \<in> set xs \<Longrightarrow> y \<in> set (f x) \<Longrightarrow> g y = k x"
  shows "distinct (map g (concat (map f xs)))"
  using assms
proof (induction xs)
  case (Cons x xs)
  have "distinct (map g (f x))"
    using Cons.prems(2) [of x] by (cases "f x") auto
  moreover have "distinct (map g (concat (map f xs)))" using Cons by simp
  moreover have "g ` set (f x) \<inter> g ` set (concat (map f xs)) = {}"
    using Cons.prems(1,3) by fastforce
  ultimately show ?case by simp
qed simp

lemma distinct_lab_users:
  assumes "board_keys d"
  shows "distinct (map lb_user (filter (\<lambda>lb. lb_lab lb = lab) (db_board d)))"
  using assms unfolding board_keys_def by (auto simp: distinct_map inj_on_def)

lemma join_metric_distinct:
  assumes "board_keys d"
  shows "distinct (map mr_user (join_metric lab mt d))"
  unfolding join_metric_def
proof (rule concat_at_most_one [OF distinct_lab_users [OF assms]])
  fix lb
  have users: "distinct (map u_id (db_users d))" using assms by (simp add: board_keys_def)
  show "length (concat (map (\<lambda>u. map (\<lambda>s.
           \<lparr>mr_user = lb_user lb, mr_nickname = u_nickname u, mr_lab = lb_lab lb, mr_sub = lb_sub lb,
            mr_updated = lb_updated lb, mr_metric = sc_metric s, mr_value = sc_value s\<rparr>)
         (filter (\<lambda>s. sc_sub s = lb_sub lb \<and> sc_metric s = mt) (db_scores d)))
       (filter (\<lambda>u. u_id u = lb_user lb) (db_users d)))) \<le> 1"
    by (simp add: distinct_filter_key [OF users] score_filter [OF assms] split: option.split)
qed auto

lemma join_metric_iff:
  "r \<in> set (join_metric lab mt d) \<longleftrightarrow>
   (\<exists>lb \<in> set (db_board d). \<exists>u \<in> set (db_users d). \<exists>s \<in> set (db_scores d).
      lb_lab lb = lab \<and> u_id u = lb_user lb \<and> sc_sub s = lb_sub lb \<and> sc_metric s = mt \<and>
      r = \<lparr>mr_user = lb_user lb, mr_nickname = u_nickname u, mr_lab = lb_lab lb, mr_sub = lb_sub lb,
            mr_updated = lb_updated lb, mr_metric = sc_metric s, mr_value = sc_value s\<rparr>)"
  by (auto simp: join_metric_def)

section \<open>The value of a row\<close>

lemma map_of_unique:
  assumes "(k, v) \<in> set al" and "\<And>w. (k, w) \<in> set al \<Longrightarrow> w = v"
  shows "map_of al k = Some v"
proof -
  from assms(1) have "k \<in> fst ` set al" by force
  then obtain w where w: "map_of al k = Some w" by (cases "map_of al k") (simp_all add: map_of_eq_None_iff)
  with assms(2) [OF map_of_SomeD [OF w]] show ?thesis by simp
qed

lemma score_map_unique:
  assumes "s \<in> set ss" and "\<And>t. t \<in> set ss \<Longrightarrow> sc_metric t = sc_metric s \<Longrightarrow> t = s"
  shows "score_map ss (sc_metric s) = sc_value s"
proof -
  let ?al = "rev (map (\<lambda>s. (sc_metric s, sc_value s)) ss)"
  have "map_of ?al (sc_metric s) = Some (sc_value s)"
  proof (rule map_of_unique)
    show "(sc_metric s, sc_value s) \<in> set ?al" by (simp add: rev_image_eqI [OF assms(1)])
    show "w = sc_value s" if "(sc_metric s, w) \<in> set ?al" for w
    proof -
      from that obtain t where t: "t \<in> set ss" "sc_metric t = sc_metric s" "w = sc_value t" by auto
      from assms(2) [OF t(1,2)] t(3) show ?thesis by simp
    qed
  qed
  then show ?thesis by (simp add: score_map_def)
qed

lemma metricValueFor_scores:
  "mt \<in> set ms \<Longrightarrow> metricValueFor (scoresForMetrics ms ss) (metric_id mt) = score_map ss (metric_id mt)"
  by (induction ms) (auto simp: metricValueFor_def scoresForMetrics_def)

lemma resolveMetric_Inr:
  "resolveMetric m by = Inr mt \<Longrightarrow> mt \<in> set (m_metrics m) \<and>
     metric_id mt = (if blank by then rank_by (m_board m) else trim_space by)"
  by (auto simp: resolveMetric_def Let_def split: option.splits if_splits dest: find_SomeD)

lemma entry_of_simps [simp]:
  "be_user (entry_of m mt scores ps v r) = lr_user r"
  "be_updated (entry_of m mt scores ps v r) = lr_updated r"
  by (simp_all add: entry_of_def Let_def)

lemma ListScoresByLab_set:
  "set (ListScoresByLab lab d) = {s \<in> set (db_scores d). \<exists>lb \<in> set (db_board d). lb_lab lb = lab \<and> sc_sub s = lb_sub lb}"
  by (auto simp: ListScoresByLab_def)

lemma entry_value:
  assumes "board_keys d" and "mt \<in> set (m_metrics m)" and "lb \<in> set (db_board d)" and "lb_lab lb = lab"
    and "s \<in> set (db_scores d)" and "sc_sub s = lb_sub lb" and "sc_metric s = metric_id mt" and "lr_sub r = lb_sub lb"
  shows "be_value (entry_of m mt (ListScoresByLab lab d) ps v r) = sc_value s"
proof -
  let ?ss = "scores_of (lr_sub r) (ListScoresByLab lab d)"
  have "score_map ?ss (sc_metric s) = sc_value s"
    by (rule score_map_unique)
      (use assms score_unique [OF assms(1)] in \<open>auto simp: scores_of_def ListScoresByLab_set\<close>)
  then show ?thesis using assms by (simp add: entry_of_def Let_def metricValueFor_scores)
qed

lemma metricValueFor_map_of:
  "metricValueFor xs k = (case map_of xs k of None \<Rightarrow> Fin 0 | Some v \<Rightarrow> v)"
  by (induction xs) (auto simp: metricValueFor_def)

text \<open>The stored value of a metric for a submission, zero where there is none.\<close>

definition stored_score :: "uuid \<Rightarrow> string \<Rightarrow> db \<Rightarrow> f32" where
  "stored_score i mt d =
     (case find (\<lambda>s. sc_sub s = i \<and> sc_metric s = mt) (db_scores d) of None \<Rightarrow> Fin 0 | Some s \<Rightarrow> sc_value s)"

lemma score_map_stored:
  assumes "board_keys d" and "lb \<in> set (db_board d)" and "lb_lab lb = lab"
  shows "score_map (scores_of (lb_sub lb) (ListScoresByLab lab d)) mt = stored_score (lb_sub lb) mt d"
proof (cases "find (\<lambda>s. sc_sub s = lb_sub lb \<and> sc_metric s = mt) (db_scores d)")
  case None
  then have "\<forall>s \<in> set (db_scores d). \<not> (sc_sub s = lb_sub lb \<and> sc_metric s = mt)" by (simp add: find_none)
  then have "mt \<notin> fst ` set (rev (map (\<lambda>s. (sc_metric s, sc_value s)) (scores_of (lb_sub lb) (ListScoresByLab lab d))))"
    by (auto simp: scores_of_def ListScoresByLab_set)
  then have "map_of (rev (map (\<lambda>s. (sc_metric s, sc_value s)) (scores_of (lb_sub lb) (ListScoresByLab lab d)))) mt = None"
    by (simp add: map_of_eq_None_iff)
  with None show ?thesis by (simp add: score_map_def stored_score_def)
next
  case (Some s)
  then have s: "s \<in> set (db_scores d)" "sc_sub s = lb_sub lb" "sc_metric s = mt" by (auto dest: find_SomeD)
  have "score_map (scores_of (lb_sub lb) (ListScoresByLab lab d)) (sc_metric s) = sc_value s"
    by (rule score_map_unique)
      (use assms s score_unique [OF assms(1)] in \<open>auto simp: scores_of_def ListScoresByLab_set\<close>)
  with Some s(3) show ?thesis by (simp add: stored_score_def)
qed

section \<open>Ranks\<close>

text \<open>The rows that take part in the ranking.\<close>

definition ranked :: "manifest \<Rightarrow> metric_section \<Rightarrow> boardrow \<Rightarrow> bool" where
  "ranked m mt r \<longleftrightarrow> IsRankAll (m_board m) \<or> \<not> board_pick (m_board m) \<or> equal_fold (br_track r) (metric_id mt)"

lemma ranked_rank [simp]: "ranked m mt (r\<lparr>br_rank := k\<rparr>) = ranked m mt r"
  by (simp add: ranked_def)

lemma rank_rows_nth:
  assumes "i < length es" and "\<forall>e \<in> set es. br_rank (be_row e) = 0"
  shows "rank_rows (IsRankAll (m_board m)) (board_pick (m_board m)) (metric_id mt) n es ! i =
    (be_row (es ! i))\<lparr>br_rank := if ranked m mt (be_row (es ! i)) then n + count_where (\<lambda>e. ranked m mt (be_row e)) (take i es) else 0\<rparr>"
  using assms
proof (induction es arbitrary: i n)
  case (Cons e es)
  have e: "(be_row e)\<lparr>br_rank := 0\<rparr> = be_row e" using Cons.prems(2) by (cases "be_row e") simp
  show ?case
  proof (cases i)
    case 0
    with e show ?thesis by (simp add: ranked_def)
  next
    case (Suc j)
    with Cons.prems Cons.IH [of j "Suc n"] Cons.IH [of j n] show ?thesis
      by (cases "ranked m mt (be_row e)") (simp_all add: ranked_def)
  qed
qed simp

lemma rank_rows_ranked:
  "map (ranked m mt) (rank_rows a p t n es) = map (\<lambda>e. ranked m mt (be_row e)) es"
  by (induction es arbitrary: n) auto

lemma count_where_map: "count_where P xs = count_where id (map P xs)"
  by (induction xs) simp_all

lemma rank_rows_count:
  "count_where (ranked m mt) (take i (rank_rows a p t n es)) = count_where (\<lambda>e. ranked m mt (be_row e)) (take i es)"
  by (simp only: count_where_map [of "ranked m mt"] count_where_map [of "\<lambda>e. ranked m mt (be_row e)"]
      take_map [symmetric] rank_rows_ranked)

lemma rank_rows_length [simp]: "length (rank_rows a p t n es) = length es"
  by (induction es arbitrary: n) auto

lemma entry_unranked [simp]: "br_rank (be_row (entry_of m mt scores ps v r)) = 0"
  by (simp add: entry_of_def Let_def)

section \<open>The board\<close>

text \<open>The rows before ranking, as \<open>GetBoard\<close> sorts them.\<close>

definition board_entries :: "manifest \<Rightarrow> metric_section \<Rightarrow> string \<Rightarrow> int \<Rightarrow> db \<Rightarrow> board_entry list" where
  "board_entries m mt lab viewer d =
     map (entry_of m mt (ListScoresByLab lab d) (ListLabProfilesByLab lab d) viewer)
       (leaderboard_rows (join_metric lab (metric_id mt) d))"

lemma map_be_user_entry [simp]:
  "map be_user (map (entry_of m mt scores ps v) rs) = map lr_user rs"
  by (simp add: comp_def)

lemma board_entries_users:
  "map be_user (board_entries m mt lab viewer d) = map mr_user (join_metric lab (metric_id mt) d)"
  by (simp add: board_entries_def leaderboard_rows_def comp_def)

lemma listLeaderboardRows_mset:
  "listLeaderboardRows fails lab mt d = Inr rs \<Longrightarrow>
   mset rs = mset (leaderboard_rows (join_metric lab (metric_id mt) d))"
  by (cases fails; cases "metric_sort mt")
    (auto simp: listLeaderboardRows_def leaderboard_rows_def ListLeaderboardByLabAndMetricAsc_def
      ListLeaderboardByLabAndMetricDesc_def mset_map multiset.map_comp)

lemma GetBoard_rows:
  assumes "GetBoard flt now now2 loc labID by viewer d = Inr b" and "board_keys d"
  obtains lab m mt where "GetLab (trim_space labID) d = Inr lab" and "l_manifest lab = Some m"
    and "isVisible (m_schedule m) now" and "resolveMetric m by = Inr mt"
    and "bd_rows b = rank_rows (IsRankAll (m_board m)) (board_pick (m_board m)) (metric_id mt) 1
           (sort_stable (board_less (metric_sort mt)) (board_entries m mt (l_id lab) viewer d))"
proof -
  from assms(1) obtain lab m mt rs where g: "GetLab (trim_space labID) d = Inr lab" "l_manifest lab = Some m"
      "isVisible (m_schedule m) now" "resolveMetric m by = Inr mt"
      "listLeaderboardRows (flt BcRows) (l_id lab) mt d = Inr rs"
    and b: "bd_rows b = rank_rows (IsRankAll (m_board m)) (board_pick (m_board m)) (metric_id mt) 1
           (sort_stable (board_less (metric_sort mt)) (map (entry_of m mt (ListScoresByLab (l_id lab) d)
             (ListLabProfilesByLab (l_id lab) d) viewer) rs))"
    by (auto simp: GetBoard_def board_of_metric_def assemble_board_def Let_def mapErr_def
        split: sum.splits option.splits if_splits prod.splits)
  have "sort_stable (board_less (metric_sort mt)) (board_entries m mt (l_id lab) viewer d) =
      sort_stable (board_less (metric_sort mt)) (map (entry_of m mt (ListScoresByLab (l_id lab) d)
             (ListLabProfilesByLab (l_id lab) d) viewer) rs)"
    by (rule board_sort_unique)
      (simp_all only: board_entries_users join_metric_distinct [OF assms(2)],
        simp add: board_entries_def listLeaderboardRows_mset [OF g(5)])
  with b have "bd_rows b = rank_rows (IsRankAll (m_board m)) (board_pick (m_board m)) (metric_id mt) 1
           (sort_stable (board_less (metric_sort mt)) (board_entries m mt (l_id lab) viewer d))" by simp
  from that [OF g(1-4) this] show ?thesis .
qed

lemma board_entries_iff:
  assumes "board_keys d" and "mt \<in> set (m_metrics m)" and "e \<in> set (board_entries m mt lab viewer d)"
  shows "\<exists>lb \<in> set (db_board d). \<exists>s \<in> set (db_scores d). lb_lab lb = lab \<and> lb_user lb = be_user e \<and>
     lb_updated lb = be_updated e \<and> sc_sub s = lb_sub lb \<and> sc_metric s = metric_id mt \<and> sc_value s = be_value e"
proof -
  from assms(3) obtain lb s n where r: "lb \<in> set (db_board d)" "s \<in> set (db_scores d)" "lb_lab lb = lab"
      "sc_sub s = lb_sub lb" "sc_metric s = metric_id mt"
    and e: "e = entry_of m mt (ListScoresByLab lab d) (ListLabProfilesByLab lab d) viewer
        \<lparr>lr_user = lb_user lb, lr_nickname = n, lr_sub = lb_sub lb, lr_updated = lb_updated lb\<rparr>"
    by (auto simp: board_entries_def leaderboard_rows_def join_metric_iff)
  from entry_value [OF assms(1,2) r(1,3,2,4,5)] r show ?thesis by (auto simp: e intro!: bexI [of _ lb] bexI [of _ s])
qed

lemma board_entries_all:
  "be_user ` set (board_entries m mt lab viewer d) = {lb_user lb | lb. lb \<in> set (db_board d) \<and> lb_lab lb = lab \<and>
     (\<exists>u \<in> set (db_users d). u_id u = lb_user lb) \<and>
     (\<exists>s \<in> set (db_scores d). sc_sub s = lb_sub lb \<and> sc_metric s = metric_id mt)}"
proof -
  have eq: "be_user ` set (board_entries m mt lab viewer d) = mr_user ` set (join_metric lab (metric_id mt) d)"
    using board_entries_users [of m mt lab viewer d] by (metis list.set_map)
  have in1: "lb_user lb \<in> mr_user ` set (join_metric lab (metric_id mt) d)"
    if r: "lb \<in> set (db_board d)" "lb_lab lb = lab" "u \<in> set (db_users d)" "u_id u = lb_user lb"
      "s \<in> set (db_scores d)" "sc_sub s = lb_sub lb" "sc_metric s = metric_id mt" for lb u s
  proof (rule rev_image_eqI)
    show "\<lparr>mr_user = lb_user lb, mr_nickname = u_nickname u, mr_lab = lb_lab lb, mr_sub = lb_sub lb,
        mr_updated = lb_updated lb, mr_metric = sc_metric s, mr_value = sc_value s\<rparr>
        \<in> set (join_metric lab (metric_id mt) d)"
      using r unfolding join_metric_iff by blast
  qed simp
  have in2: "\<exists>lb. mr_user r = lb_user lb \<and> lb \<in> set (db_board d) \<and> lb_lab lb = lab \<and>
     (\<exists>u \<in> set (db_users d). u_id u = lb_user lb) \<and>
     (\<exists>s \<in> set (db_scores d). sc_sub s = lb_sub lb \<and> sc_metric s = metric_id mt)"
    if "r \<in> set (join_metric lab (metric_id mt) d)" for r
    using that unfolding join_metric_iff by fastforce
  have "mr_user ` set (join_metric lab (metric_id mt) d) = {lb_user lb | lb. lb \<in> set (db_board d) \<and> lb_lab lb = lab \<and>
     (\<exists>u \<in> set (db_users d). u_id u = lb_user lb) \<and>
     (\<exists>s \<in> set (db_scores d). sc_sub s = lb_sub lb \<and> sc_metric s = metric_id mt)}"
  proof (intro equalityI subsetI)
    fix x assume "x \<in> mr_user ` set (join_metric lab (metric_id mt) d)"
    then obtain r where "r \<in> set (join_metric lab (metric_id mt) d)" "x = mr_user r" by blast
    with in2 [of r] show "x \<in> {lb_user lb | lb. lb \<in> set (db_board d) \<and> lb_lab lb = lab \<and>
     (\<exists>u \<in> set (db_users d). u_id u = lb_user lb) \<and>
     (\<exists>s \<in> set (db_scores d). sc_sub s = lb_sub lb \<and> sc_metric s = metric_id mt)}" by simp
  qed (use in1 in blast)
  with eq show ?thesis by simp
qed

text \<open>The row of a student: name, track, the stored values of all metrics, and the time of the entry.\<close>

definition row_of :: "db \<Rightarrow> string \<Rightarrow> manifest \<Rightarrow> int \<Rightarrow> int \<Rightarrow> boardrow \<Rightarrow> bool" where
  "row_of d lab m viewer user r \<longleftrightarrow>
     (\<exists>lb \<in> set (db_board d). \<exists>u \<in> set (db_users d). lb_lab lb = lab \<and> lb_user lb = user \<and> u_id u = user \<and>
        r = \<lparr>br_rank = br_rank r, br_nickname = shown_name (u_nickname u),
             br_track = (if board_pick (m_board m) then shown_track (profile_of user (ListLabProfilesByLab lab d)) else []),
             br_scores = map (\<lambda>x. (metric_id x, stored_score (lb_sub lb) (metric_id x) d)) (m_metrics m),
             br_updated = lb_updated lb, br_current = (viewer \<noteq> 0 \<and> user = viewer)\<rparr>)"

definition row_value :: "string \<Rightarrow> boardrow \<Rightarrow> f32" where
  "row_value mt r = (case map_of (br_scores r) mt of None \<Rightarrow> Fin 0 | Some v \<Rightarrow> v)"

text \<open>The order of the board: by value in the direction of the metric, then by time in the same direction, then by user.\<close>

definition goes_before :: "metric_sort \<Rightarrow> f32 \<times> time \<times> int \<Rightarrow> f32 \<times> time \<times> int \<Rightarrow> bool" where
  "goes_before srt x y \<longleftrightarrow>
     (let (v, t, i) = x; (w, s, j) = y
      in if srt = Asc then v < w \<or> v = w \<and> (t < s \<or> t = s \<and> i < j)
         else w < v \<or> v = w \<and> (s < t \<or> t = s \<and> i < j))"

lemma board_less_before:
  "board_less srt a b \<Longrightarrow> goes_before srt (be_value a, be_updated a, be_user a) (be_value b, be_updated b, be_user b)"
  by (cases srt) (auto simp: board_less_def goes_before_def split: if_splits)

lemma board_entries_row:
  assumes "board_keys d" and "e \<in> set (board_entries m mt lab viewer d)"
  shows "row_of d lab m viewer (be_user e) ((be_row e)\<lparr>br_rank := k\<rparr>)"
    and "row_value (metric_id mt) ((be_row e)\<lparr>br_rank := k\<rparr>) = be_value e" and "br_updated (be_row e) = be_updated e"
proof -
  from assms(2) obtain lb u where r: "lb \<in> set (db_board d)" "u \<in> set (db_users d)" "lb_lab lb = lab" "u_id u = lb_user lb"
    and e: "e = entry_of m mt (ListScoresByLab lab d) (ListLabProfilesByLab lab d) viewer
        \<lparr>lr_user = lb_user lb, lr_nickname = u_nickname u, lr_sub = lb_sub lb, lr_updated = lb_updated lb\<rparr>"
    by (auto simp: board_entries_def leaderboard_rows_def join_metric_iff)
  have scores: "scoresForMetrics (m_metrics m) (scores_of (lb_sub lb) (ListScoresByLab lab d)) =
      map (\<lambda>x. (metric_id x, stored_score (lb_sub lb) (metric_id x) d)) (m_metrics m)"
    by (simp add: scoresForMetrics_def score_map_stored [OF assms(1) r(1,3)])
  show "row_of d lab m viewer (be_user e) ((be_row e)\<lparr>br_rank := k\<rparr>)"
    unfolding row_of_def by (intro bexI [OF _ r(1)] bexI [OF _ r(2)]) (use r in \<open>simp add: e entry_of_def Let_def scores\<close>)
  show "row_value (metric_id mt) ((be_row e)\<lparr>br_rank := k\<rparr>) = be_value e"
    by (simp add: e entry_of_def Let_def row_value_def metricValueFor_map_of)
  show "br_updated (be_row e) = be_updated e" by (simp add: e entry_of_def Let_def)
qed

text \<open>C20. A board that is returned is the ranking of a visible lab by the requested metric. Its rows are those of
  the students who have a leaderboard entry with a score for the metric, one for each, with the stored values; from
  top to bottom they are in strict order of the metric's value, the time of the entry and the student; and a row that
  takes part in the ranking has the number of such rows above it, plus one, as its rank, every other row none.\<close>

theorem GetBoard_ranking:
  assumes "GetBoard flt now now2 loc labID by viewer d = Inr b" and "board_keys d"
  shows "\<exists>lab m mt users. GetLab (trim_space labID) d = Inr lab \<and> l_manifest lab = Some m \<and>
    isVisible (m_schedule m) now \<and> resolveMetric m by = Inr mt \<and>
    length users = length (bd_rows b) \<and> distinct users \<and>
    set users = {lb_user lb | lb. lb \<in> set (db_board d) \<and> lb_lab lb = l_id lab \<and>
      (\<exists>u \<in> set (db_users d). u_id u = lb_user lb) \<and>
      (\<exists>s \<in> set (db_scores d). sc_sub s = lb_sub lb \<and> sc_metric s = metric_id mt)} \<and>
    (\<forall>i < length users. row_of d (l_id lab) m viewer (users ! i) (bd_rows b ! i) \<and>
      br_rank (bd_rows b ! i) =
        (if ranked m mt (bd_rows b ! i) then 1 + count_where (ranked m mt) (take i (bd_rows b)) else 0)) \<and>
    (\<forall>i j. i < j \<and> j < length users \<longrightarrow>
      goes_before (metric_sort mt)
        (row_value (metric_id mt) (bd_rows b ! i), br_updated (bd_rows b ! i), users ! i)
        (row_value (metric_id mt) (bd_rows b ! j), br_updated (bd_rows b ! j), users ! j))"
proof -
  from GetBoard_rows [OF assms] obtain lab m mt where g: "GetLab (trim_space labID) d = Inr lab"
      "l_manifest lab = Some m" "isVisible (m_schedule m) now" "resolveMetric m by = Inr mt"
    and b: "bd_rows b = rank_rows (IsRankAll (m_board m)) (board_pick (m_board m)) (metric_id mt) 1
           (sort_stable (board_less (metric_sort mt)) (board_entries m mt (l_id lab) viewer d))" .
  let ?es = "sort_stable (board_less (metric_sort mt)) (board_entries m mt (l_id lab) viewer d)"
  have d: "distinct (map be_user (board_entries m mt (l_id lab) viewer d))"
    by (simp only: board_entries_users join_metric_distinct [OF assms(2)])
  have unranked: "\<forall>e \<in> set ?es. br_rank (be_row e) = 0" by (auto simp: board_entries_def)
  have nth: "bd_rows b ! i = (be_row (?es ! i))\<lparr>br_rank :=
      if ranked m mt (bd_rows b ! i) then 1 + count_where (ranked m mt) (take i (bd_rows b)) else 0\<rparr>" if "i < length ?es" for i
    using rank_rows_nth [OF that unranked, of m mt 1] by (simp add: b rank_rows_count)
  have key: "row_of d (l_id lab) m viewer (be_user (?es ! i)) (bd_rows b ! i)"
    "row_value (metric_id mt) (bd_rows b ! i) = be_value (?es ! i)" "br_updated (bd_rows b ! i) = be_updated (?es ! i)"
    "br_rank (bd_rows b ! i) = (if ranked m mt (bd_rows b ! i) then 1 + count_where (ranked m mt) (take i (bd_rows b)) else 0)"
    if "i < length ?es" for i
  proof -
    have "?es ! i \<in> set (board_entries m mt (l_id lab) viewer d)" using nth_mem [OF that] by simp
    note row = board_entries_row [OF assms(2) this]
    show "row_of d (l_id lab) m viewer (be_user (?es ! i)) (bd_rows b ! i)"
      "row_value (metric_id mt) (bd_rows b ! i) = be_value (?es ! i)"
      by (subst nth [OF that], rule row)+
    show "br_updated (bd_rows b ! i) = be_updated (?es ! i)" by (subst nth [OF that]) (simp add: row(3))
    show "br_rank (bd_rows b ! i) = (if ranked m mt (bd_rows b ! i) then 1 + count_where (ranked m mt) (take i (bd_rows b)) else 0)"
      by (subst nth [OF that]) simp
  qed
  have order: "goes_before (metric_sort mt)
        (row_value (metric_id mt) (bd_rows b ! i), br_updated (bd_rows b ! i), be_user (?es ! i))
        (row_value (metric_id mt) (bd_rows b ! j), br_updated (bd_rows b ! j), be_user (?es ! j))"
    if "i < j" "j < length ?es" for i j
  proof -
    have "board_less (metric_sort mt) (?es ! i) (?es ! j)"
      using board_sorted [OF d] that by (simp add: sorted_wrt_iff_nth_less)
    from board_less_before [OF this] that show ?thesis by (simp add: key(2,3))
  qed
  have users: "set (map be_user ?es) = {lb_user lb | lb. lb \<in> set (db_board d) \<and> lb_lab lb = l_id lab \<and>
      (\<exists>u \<in> set (db_users d). u_id u = lb_user lb) \<and>
      (\<exists>s \<in> set (db_scores d). sc_sub s = lb_sub lb \<and> sc_metric s = metric_id mt)}"
    "distinct (map be_user ?es)" "length (map be_user ?es) = length (bd_rows b)"
    using d board_entries_all [of m mt "l_id lab" viewer d] by (simp_all add: b)
  show ?thesis
    by (rule exI [of _ lab], rule exI [of _ m], rule exI [of _ mt], rule exI [of _ "map be_user ?es"])
      (use g users key(1,4) order in \<open>simp del: set_map\<close>)
qed

section \<open>Independence of the physical order\<close>

definition permuted :: "db \<Rightarrow> db \<Rightarrow> bool" where
  "permuted d d' \<longleftrightarrow> db_labs d' = db_labs d \<and> mset (db_users d') = mset (db_users d) \<and>
     mset (db_board d') = mset (db_board d) \<and> mset (db_scores d') = mset (db_scores d) \<and>
     mset (db_profiles d') = mset (db_profiles d) \<and> mset (db_subs d') = mset (db_subs d)"

lemma permuted_sets:
  assumes "permuted d d'"
  shows "set (db_users d') = set (db_users d)" "set (db_board d') = set (db_board d)"
    "set (db_scores d') = set (db_scores d)" "set (db_profiles d') = set (db_profiles d)"
  using assms unfolding permuted_def by (blast dest: mset_eq_setD)+

lemma distinct_map_mset: "mset xs = mset ys \<Longrightarrow> distinct (map f xs) = distinct (map f ys)"
  by (metis mset_eq_imp_distinct_iff mset_map)

lemma permuted_keys:
  assumes "permuted d d'"
  shows "board_keys d' = board_keys d"
proof -
  from assms have p: "mset (db_users d') = mset (db_users d)" "mset (db_board d') = mset (db_board d)"
    "mset (db_scores d') = mset (db_scores d)" by (simp_all add: permuted_def)
  show ?thesis
    by (simp add: board_keys_def distinct_map_mset [OF p(1)] distinct_map_mset [OF p(2)]
        distinct_map_mset [OF p(3)])
qed

lemma mset_concat_sum: "mset (concat (map h zs)) = (\<Sum>z \<in># mset zs. mset (h z))"
  by (induction zs) simp_all

lemma mset_concat_map:
  "mset xs = mset ys \<Longrightarrow> (\<And>x. mset (f x) = mset (g x)) \<Longrightarrow> mset (concat (map f xs)) = mset (concat (map g ys))"
  by (simp add: mset_concat_sum)

lemma join_metric_permuted:
  assumes "permuted d d'"
  shows "mset (join_metric lab mt d') = mset (join_metric lab mt d)"
  unfolding join_metric_def
  by (intro mset_concat_map) (use assms in \<open>simp_all add: permuted_def mset_map mset_filter\<close>)

lemma score_map_cong:
  assumes "set ss = set ts" and "\<And>s t. s \<in> set ss \<Longrightarrow> t \<in> set ss \<Longrightarrow> sc_metric s = sc_metric t \<Longrightarrow> s = t"
  shows "score_map ss = score_map ts"
proof
  fix mt
  show "score_map ss mt = score_map ts mt"
  proof (cases "\<exists>s \<in> set ss. sc_metric s = mt")
    case True
    then obtain s where s: "s \<in> set ss" "sc_metric s = mt" by blast
    have "score_map ss (sc_metric s) = sc_value s" by (rule score_map_unique) (use assms s in blast)+
    moreover have "score_map ts (sc_metric s) = sc_value s"
      by (rule score_map_unique) (use assms s in blast)+
    ultimately show ?thesis using s by simp
  next
    case False
    then have "map_of (rev (map (\<lambda>s. (sc_metric s, sc_value s)) us)) mt = None" if "set us = set ss" for us
      using that by (auto simp: map_of_eq_None_iff)
    with assms(1) show ?thesis by (simp add: score_map_def)
  qed
qed

lemma find_unique:
  assumes "set xs = set ys" and "\<And>x y. x \<in> set xs \<Longrightarrow> y \<in> set xs \<Longrightarrow> P x \<Longrightarrow> P y \<Longrightarrow> x = y"
  shows "find P xs = find P ys"
proof (cases "find P xs")
  case None
  with assms(1) have "find P ys = None" by (simp add: find_none)
  with None show ?thesis by simp
next
  case (Some x)
  from find_SomeD [OF Some] obtain y where y: "find P ys = Some y" "y \<in> set ys" "P y"
    using find_exists [of ys P] assms(1) by blast
  with Some assms find_SomeD [OF Some] show ?thesis by simp
qed

lemma entry_of_permuted:
  assumes "permuted d d'" and "board_keys d" and "distinct (map (\<lambda>p. (pf_user p, pf_lab p)) (db_profiles d))"
  shows "entry_of m mt (ListScoresByLab lab d') (ListLabProfilesByLab lab d') viewer =
    entry_of m mt (ListScoresByLab lab d) (ListLabProfilesByLab lab d) viewer"
proof
  fix r :: leaderboard_row
  have "score_map (scores_of (lr_sub r) (ListScoresByLab lab d')) =
      score_map (scores_of (lr_sub r) (ListScoresByLab lab d))"
  proof (rule score_map_cong)
    fix s t
    assume st: "s \<in> set (scores_of (lr_sub r) (ListScoresByLab lab d'))"
      "t \<in> set (scores_of (lr_sub r) (ListScoresByLab lab d'))" "sc_metric s = sc_metric t"
    then have "s \<in> set (db_scores d)" "t \<in> set (db_scores d)" "sc_sub s = sc_sub t"
      by (auto simp: scores_of_def ListScoresByLab_set permuted_sets [OF assms(1)])
    with score_unique [OF assms(2)] st(3) show "s = t" by blast
  qed (simp add: scores_of_def ListScoresByLab_set permuted_sets [OF assms(1)])
  moreover have "profile_of u (ListLabProfilesByLab lab d') = profile_of u (ListLabProfilesByLab lab d)" for u
    unfolding profile_of_def
  proof (rule find_unique)
    fix p q
    assume pq: "p \<in> set (rev (ListLabProfilesByLab lab d'))" "q \<in> set (rev (ListLabProfilesByLab lab d'))"
      "pf_user p = u" "pf_user q = u"
    then have "p \<in> set (db_profiles d)" "q \<in> set (db_profiles d)" "pf_lab p = pf_lab q"
      by (auto simp: ListLabProfilesByLab_def permuted_sets [OF assms(1)])
    with distinct_key_eq [OF assms(3)] pq(3,4) show "p = q" by simp
  qed (simp add: ListLabProfilesByLab_def permuted_sets [OF assms(1)])
  ultimately show "entry_of m mt (ListScoresByLab lab d') (ListLabProfilesByLab lab d') viewer r =
      entry_of m mt (ListScoresByLab lab d) (ListLabProfilesByLab lab d) viewer r"
    by (simp add: entry_of_def Let_def scoresForMetrics_def)
qed

lemma sorted_rows_permuted:
  assumes "permuted d d'" and "board_keys d" and "distinct (map (\<lambda>p. (pf_user p, pf_lab p)) (db_profiles d))"
    and "listLeaderboardRows f lab mt d = Inr rs" and "listLeaderboardRows f lab mt d' = Inr rs'"
  shows "sort_stable (board_less (metric_sort mt))
       (map (entry_of m mt (ListScoresByLab lab d') (ListLabProfilesByLab lab d') viewer) rs') =
     sort_stable (board_less (metric_sort mt))
       (map (entry_of m mt (ListScoresByLab lab d) (ListLabProfilesByLab lab d) viewer) rs)"
proof (rule board_sort_unique)
  let ?j = "leaderboard_rows (join_metric lab (metric_id mt) d)"
  have j: "mset (leaderboard_rows (join_metric lab (metric_id mt) d')) = mset ?j"
    using join_metric_permuted [OF assms(1)] by (simp add: leaderboard_rows_def)
  have rs: "mset rs = mset ?j" "mset rs' = mset ?j"
    using listLeaderboardRows_mset [OF assms(4)] listLeaderboardRows_mset [OF assms(5)] j by simp_all
  then show "mset (map (entry_of m mt (ListScoresByLab lab d') (ListLabProfilesByLab lab d') viewer) rs') =
      mset (map (entry_of m mt (ListScoresByLab lab d) (ListLabProfilesByLab lab d) viewer) rs)"
    by (simp add: entry_of_permuted [OF assms(1-3)])
  have "distinct (map lr_user ?j)"
    using join_metric_distinct [OF assms(2)] by (simp add: leaderboard_rows_def comp_def)
  then have "distinct (map lr_user rs')" by (simp add: distinct_map_mset [OF rs(2)])
  then show "distinct (map be_user (map (entry_of m mt (ListScoresByLab lab d')
      (ListLabProfilesByLab lab d') viewer) rs'))" by (simp only: map_be_user_entry)
qed

lemma listLeaderboardRows_Inl:
  "listLeaderboardRows f lab mt d = Inl err \<longleftrightarrow> listLeaderboardRows f lab mt d' = Inl err"
  by (auto simp: listLeaderboardRows_def faulty_def split: metric_sort.splits if_splits)

text \<open>C21. The board is determined by the stored rows alone: whatever order the tables hold them in, and so
  whatever order the joins deliver rows that the queries leave tied in, the same request gets the same
  answer, rank by rank.\<close>

theorem GetBoard_determined:
  assumes "permuted d d'" and "board_keys d" and "distinct (map (\<lambda>p. (pf_user p, pf_lab p)) (db_profiles d))"
  shows "GetBoard flt now now2 loc labID by viewer d' = GetBoard flt now now2 loc labID by viewer d"
proof -
  have lab: "GetLab i d' = GetLab i d" for i using assms(1) by (simp add: GetLab_def permuted_def)
  have count: "CountSubmissionQuotaUsage u l a b d' = CountSubmissionQuotaUsage u l a b d" for u l a b
    unfolding CountSubmissionQuotaUsage_def by (rule count_where_mset) (use assms(1) in \<open>simp add: permuted_def\<close>)
  have eq: "board_of_metric flt now2 loc l m mt viewer d' = board_of_metric flt now2 loc l m mt viewer d" for l m mt
  proof (cases "listLeaderboardRows (flt BcRows) l mt d")
    case (Inl err)
    with listLeaderboardRows_Inl [of "flt BcRows" l mt d err d'] show ?thesis by (simp add: board_of_metric_def)
  next
    case (Inr rs)
    then obtain rs' where rs': "listLeaderboardRows (flt BcRows) l mt d' = Inr rs'"
      using listLeaderboardRows_Inl [of "flt BcRows" l mt d' _ d]
      by (cases "listLeaderboardRows (flt BcRows) l mt d'") auto
    show ?thesis
      by (cases "flt BcScores"; cases "flt BcProfiles"; cases "quotaWindowForTime now2 loc")
        (simp_all add: board_of_metric_def Let_def Inr rs' sorted_rows_permuted [OF assms Inr rs'] count)
  qed
  show ?thesis unfolding GetBoard_def lab eq ..
qed

section \<open>A concrete board\<close>

definition sample_users :: "user_row list" where
  "sample_users = map (\<lambda>i. \<lparr>u_id = i, u_student = ''s'', u_nickname = []\<rparr>) [1, 2, 3]"

definition sample_board_db :: db where
  "sample_board_db = empty_db\<lparr>db_users := sample_users,
     db_labs := [\<lparr>l_id = ''lab'', l_name = ''Lab'', l_manifest = Some sample_manifest, l_updated = 0, l_created = 0\<rparr>],
     db_board := map (\<lambda>i. \<lparr>lb_user = i, lb_lab = ''lab'', lb_sub = nat i, lb_updated = 5\<rparr>) [1, 2, 3],
     db_scores := map (\<lambda>(i, v). \<lparr>sc_sub = i, sc_metric = ''speed'', sc_value = Fin v\<rparr>) [(1, 10), (2, 30), (3, 10)]\<rparr>"

definition shuffled_board_db :: db where
  "shuffled_board_db = sample_board_db\<lparr>db_board := rev (db_board sample_board_db)\<rparr>"

definition sample_board :: "db \<Rightarrow> board_error + board" where
  "sample_board d = GetBoard (\<lambda>_. False) 100 100 (fixed_zone ''Asia/Shanghai'' (8 * hour)) ''lab'' ''speed'' 3 d"

lemma sample_board_facts:
  "map_sum (\<lambda>_. ()) (\<lambda>b. map (\<lambda>r. (br_rank r, br_scores r, br_current r)) (bd_rows b)) (sample_board sample_board_db) =
     Inr [(1, [(''speed'', Fin 30), (''mem'', Fin 0)], False), (2, [(''speed'', Fin 10), (''mem'', Fin 0)], False),
          (3, [(''speed'', Fin 10), (''mem'', Fin 0)], True)]"
  "board_keys sample_board_db"
  by code_simp+

theorem GetBoard_ranking_witness:
  "\<exists>b users. sample_board sample_board_db = Inr b \<and> map br_rank (bd_rows b) = [1, 2, 3] \<and> set users = {1, 2, 3} \<and>
     row_of sample_board_db ''lab'' sample_manifest 3 (users ! 0) (bd_rows b ! 0) \<and>
     goes_before Desc (Fin 30, 5, users ! 0) (Fin 10, 5, users ! 1)"
proof -
  from sample_board_facts(1) obtain b where b: "sample_board sample_board_db = Inr b"
      "map (\<lambda>r. (br_rank r, br_scores r, br_current r)) (bd_rows b) =
        [(1, [(''speed'', Fin 30), (''mem'', Fin 0)], False), (2, [(''speed'', Fin 10), (''mem'', Fin 0)], False),
          (3, [(''speed'', Fin 10), (''mem'', Fin 0)], True)]"
    by (cases "sample_board sample_board_db") auto
  from arg_cong [OF b(2), of "map fst"] have ranks: "map br_rank (bd_rows b) = [1, 2, 3]" by (simp add: comp_def)
  from arg_cong [OF b(2), of length] have len: "length (bd_rows b) = 3" by simp
  have vals: "row_value ''speed'' (bd_rows b ! 0) = Fin 30" "row_value ''speed'' (bd_rows b ! 1) = Fin 10"
    using arg_cong [OF b(2), of "\<lambda>xs. fst (snd (xs ! 0))"] arg_cong [OF b(2), of "\<lambda>xs. fst (snd (xs ! 1))"] len
    by (simp_all add: row_value_def)
  have users: "{lb_user lb | lb. lb \<in> set (db_board sample_board_db) \<and> lb_lab lb = ''lab'' \<and>
      (\<exists>u \<in> set (db_users sample_board_db). u_id u = lb_user lb) \<and>
      (\<exists>s \<in> set (db_scores sample_board_db). sc_sub s = lb_sub lb \<and> sc_metric s = ''speed'')} = {1, 2, 3}" (is "?U = _")
  proof (intro equalityI subsetI)
    fix x :: int assume "x \<in> {1, 2, 3}"
    then show "x \<in> ?U"
      by (intro CollectI exI [of _ "\<lparr>lb_user = x, lb_lab = ''lab'', lb_sub = nat x, lb_updated = 5\<rparr>"])
        (auto simp: sample_board_db_def sample_users_def)
  qed (auto simp: sample_board_db_def sample_users_def)
  have lab: "map_sum id l_id (GetLab (trim_space ''lab'') sample_board_db) = Inr ''lab''"
    "map_sum id l_manifest (GetLab (trim_space ''lab'') sample_board_db) = Inr (Some sample_manifest)"
    "map_sum id (\<lambda>x. (metric_id x, metric_sort x)) (resolveMetric sample_manifest ''speed'') = Inr (''speed'', Desc)" by code_simp+
  from GetBoard_ranking [OF b(1)[unfolded sample_board_def] sample_board_facts(2)]
  obtain lr m mt us where r: "GetLab (trim_space ''lab'') sample_board_db = Inr lr" "l_manifest lr = Some m"
      "resolveMetric m ''speed'' = Inr mt" "length us = length (bd_rows b)"
      "set us = {lb_user lb | lb. lb \<in> set (db_board sample_board_db) \<and> lb_lab lb = l_id lr \<and>
      (\<exists>u \<in> set (db_users sample_board_db). u_id u = lb_user lb) \<and>
      (\<exists>s \<in> set (db_scores sample_board_db). sc_sub s = lb_sub lb \<and> sc_metric s = metric_id mt)}"
      "\<forall>i < length us. row_of sample_board_db (l_id lr) m 3 (us ! i) (bd_rows b ! i) \<and>
      br_rank (bd_rows b ! i) =
        (if ranked m mt (bd_rows b ! i) then 1 + count_where (ranked m mt) (take i (bd_rows b)) else 0)"
      "\<forall>i j. i < j \<and> j < length us \<longrightarrow>
      goes_before (metric_sort mt)
        (row_value (metric_id mt) (bd_rows b ! i), br_updated (bd_rows b ! i), us ! i)
        (row_value (metric_id mt) (bd_rows b ! j), br_updated (bd_rows b ! j), us ! j)"
    by (elim exE conjE) (rule that; assumption)
  from lab r(1-3) have m: "l_id lr = ''lab''" "metric_id mt = ''speed''" "metric_sort mt = Desc" "m = sample_manifest" by auto
  have "set us = {1, 2, 3}" using users r(5) m by simp
  moreover have rows: "row_of sample_board_db ''lab'' sample_manifest 3 (us ! i) (bd_rows b ! i)" if "i < 3" for i
    using r(4,6) len m that by auto
  moreover have "br_updated (bd_rows b ! i) = 5" if "i < 3" for i
    using rows [OF that] by (cases "bd_rows b ! i") (auto simp: row_of_def sample_board_db_def)
  then have "goes_before Desc (Fin 30, 5, us ! 0) (Fin 10, 5, us ! 1)"
    using r(7) [rule_format, of 0 1] r(4) len m vals by simp
  ultimately show ?thesis using b(1) ranks by (metis zero_less_numeral)
qed

theorem GetBoard_determined_witness:
  "sample_board shuffled_board_db = sample_board sample_board_db \<and> shuffled_board_db \<noteq> sample_board_db"
proof -
  have p: "permuted sample_board_db shuffled_board_db" by (simp add: permuted_def shuffled_board_db_def)
  have k: "distinct (map (\<lambda>p. (pf_user p, pf_lab p)) (db_profiles sample_board_db))"
    by (simp add: sample_board_db_def empty_db_def)
  have "db_board shuffled_board_db \<noteq> db_board sample_board_db" by (simp add: shuffled_board_db_def sample_board_db_def)
  then show ?thesis
    unfolding sample_board_def using GetBoard_determined [OF p sample_board_facts(2) k] by auto
qed

end
