(* ===== verification/Admin.thy ===== *)
theory Admin
  imports Leaderboard "HOL-Library.Word"
begin

text \<open>
  \<^verbatim>\<open>api/internal/service/admin\<close>: quota and bonus administration, the grade export, re-evaluation and the queue view.
  Every repository call may fail (the argument \<open>flt\<close>, per row where the code loops); \<^verbatim>\<open>strconv.FormatFloat\<close>
  is an argument of the export.
\<close>

datatype admin_error = AdminLabNotFound | AdminInvalidManifest | AdminDeltaZero | AdminDb db_error

datatype admin_call =
    AcLab | AcParticipants | AcBonus | AcReset | AcBoard | AcProfiles | AcScores | AcUser | AcJobs
  | AcBegin | AcSubmission nat | AcCreate nat | AcJob nat | AcCommit

definition loadLabRow :: "(admin_call \<Rightarrow> bool) \<Rightarrow> string \<Rightarrow> db \<Rightarrow> admin_error + lab_row" where
  "loadLabRow flt labID d =
     (case faulty (flt AcLab) (GetLab (trim_space labID) d) of
        Inl err \<Rightarrow> Inl (if err = NoRows then AdminLabNotFound else AdminDb err)
      | Inr lab \<Rightarrow> Inr lab)"

definition parseStoredManifest :: "lab_row \<Rightarrow> admin_error + manifest" where
  "parseStoredManifest lab = (case l_manifest lab of None \<Rightarrow> Inl AdminInvalidManifest | Some m \<Rightarrow> Inr m)"

definition admin_loadLab :: "(admin_call \<Rightarrow> bool) \<Rightarrow> string \<Rightarrow> db \<Rightarrow> admin_error + (lab_row \<times> manifest)" where
  "admin_loadLab flt labID d =
     bindR (loadLabRow flt labID d) (\<lambda>lab. bindR (parseStoredManifest lab) (\<lambda>m. Inr (lab, m)))"

section \<open>Quota\<close>

text \<open>The lab id is used as given.\<close>

definition ResetLabQuota ::
  "(admin_call \<Rightarrow> bool) \<Rightarrow> time \<Rightarrow> location \<Rightarrow> string \<Rightarrow> db \<Rightarrow> (admin_error + nat) \<times> db" where
  "ResetLabQuota flt now loc labID d =
     (if flt AcReset then (Inl (AdminDb Unavailable), d)
      else (let (n, d') = AdminResetLabQuotaToday labID (fst (quotaWindowForTime now loc)) d in (Inr n, d')))"

record bonus_result =
  br_lab :: string
  br_delta :: int
  br_affected :: nat
  br_participants :: nat
  br_reset :: bool
  br_dry :: bool

text \<open>The repository converts the delta with \<^verbatim>\<open>int32(delta)\<close>.\<close>

definition int32 :: "int \<Rightarrow> int" where
  "int32 n = sint (word_of_int n :: 32 word)"

definition AdjustBonusQuota ::
  "(admin_call \<Rightarrow> bool) \<Rightarrow> time \<Rightarrow> string \<Rightarrow> int \<Rightarrow> bool \<Rightarrow> db \<Rightarrow> (admin_error + bonus_result) \<times> db" where
  "AdjustBonusQuota flt now labID delta dryRun d =
     (case loadLabRow flt labID d of
        Inl err \<Rightarrow> (Inl err, d)
      | Inr _ \<Rightarrow>
     (if delta = 0 then (Inl AdminDeltaZero, d)
      else if flt AcParticipants then (Inl (AdminDb Unavailable), d)
      else (let n = CountLabParticipants labID d
            in if dryRun
               then (Inr \<lparr>br_lab = labID, br_delta = delta, br_affected = n, br_participants = n,
                          br_reset = False, br_dry = True\<rparr>, d)
               else (case faulty (flt AcBonus) (AdjustBonusQuotaForLab now labID (int32 delta) d) of
                       Inl err \<Rightarrow> (Inl (AdminDb err), d)
                     | Inr (k, d') \<Rightarrow>
                         (Inr \<lparr>br_lab = labID, br_delta = delta, br_affected = k, br_participants = n,
                               br_reset = False, br_dry = False\<rparr>, d')))))"

definition ResetBonusQuota ::
  "(admin_call \<Rightarrow> bool) \<Rightarrow> time \<Rightarrow> string \<Rightarrow> bool \<Rightarrow> db \<Rightarrow> (admin_error + bonus_result) \<times> db" where
  "ResetBonusQuota flt now labID dryRun d =
     (case loadLabRow flt labID d of
        Inl err \<Rightarrow> (Inl err, d)
      | Inr _ \<Rightarrow>
     (if flt AcParticipants then (Inl (AdminDb Unavailable), d)
      else (let n = CountLabParticipants labID d
            in if dryRun
               then (Inr \<lparr>br_lab = labID, br_delta = 0, br_affected = n, br_participants = n,
                          br_reset = True, br_dry = True\<rparr>, d)
               else if flt AcBonus then (Inl (AdminDb Unavailable), d)
               else (let (k, d') = ResetBonusQuotaForLab now labID d
                     in (Inr \<lparr>br_lab = labID, br_delta = 0, br_affected = k, br_participants = n,
                              br_reset = True, br_dry = False\<rparr>, d')))))"

section \<open>Grade export\<close>

record export_row =
  er_student :: string
  er_rank :: nat
  er_nickname :: string
  er_track :: string
  er_scores :: "string list"

record export_result =
  ex_lab :: string
  ex_filename :: string
  ex_columns :: "string list"
  ex_rows :: "export_row list"

record sort_row =
  gw_user :: int
  gw_sub :: uuid
  gw_value :: f32
  gw_updated :: time
  gw_row :: export_row

definition GetUserByID :: "int \<Rightarrow> db \<Rightarrow> db_error + user_row" where
  "GetUserByID i d = one (find (\<lambda>u. u_id u = i) (db_users d))"

definition admin_resolveMetric :: "manifest \<Rightarrow> string \<Rightarrow> admin_error + metric_section" where
  "admin_resolveMetric m by =
     (let wanted = (if blank by then rank_by (m_board m) else trim_space by)
      in if wanted = [] \<and> m_metrics m \<noteq> [] then Inr (hd (m_metrics m))
         else (case find (\<lambda>mt. metric_id mt = wanted) (m_metrics m) of
                 None \<Rightarrow> Inl AdminInvalidManifest
               | Some mt \<Rightarrow> Inr mt))"

definition normalizedScore :: "f32 \<Rightarrow> metric_sort \<Rightarrow> f32" where
  "normalizedScore v srt = (if srt = Asc then neg_f32 v else v)"

definition grade_less :: "sort_row \<Rightarrow> sort_row \<Rightarrow> bool" where
  "grade_less l r =
     (if gw_value l \<noteq> gw_value r then gw_value l > gw_value r
      else if gw_updated l \<noteq> gw_updated r then gw_updated l > gw_updated r
      else gw_user l < gw_user r)"

definition gradeColumns :: "metric_section list \<Rightarrow> string list" where
  "gradeColumns ms = [''student_id'', ''rank'', ''nickname'', ''track''] @ map metric_id ms"

text \<open>\<open>loadGradeInputs\<close>: the rows of the board, the profiles, the scores and the user of every row.\<close>

definition loadGradeInputs ::
  "(admin_call \<Rightarrow> bool) \<Rightarrow> string \<Rightarrow> db \<Rightarrow>
   admin_error + (board_row list \<times> profile_row list \<times> score_row list \<times> (int \<Rightarrow> user_row option))" where
  "loadGradeInputs flt lab d =
     (if flt AcBoard \<or> flt AcProfiles \<or> flt AcScores then Inl (AdminDb Unavailable)
      else (let rows = ListLeaderboardByLab lab d
            in if rows \<noteq> [] \<and> flt AcUser then Inl (AdminDb Unavailable)
               else if \<exists>r \<in> set rows. find (\<lambda>u. u_id u = lb_user r) (db_users d) = None then Inl (AdminDb NoRows)
               else Inr (rows, ListLabProfilesByLab lab d, ListScoresByLab lab d,
                         \<lambda>i. if i \<in> lb_user ` set rows then find (\<lambda>u. u_id u = i) (db_users d) else None)))"

text \<open>The metric a row is ranked by: the student's track on a board with tracks, if it resolves.\<close>

definition row_metric :: "manifest \<Rightarrow> metric_section \<Rightarrow> profile_row option \<Rightarrow> metric_section" where
  "row_metric m rankMetric p =
     (if board_pick (m_board m)
      then (case p of None \<Rightarrow> rankMetric
            | Some p \<Rightarrow> (case pf_track p of None \<Rightarrow> rankMetric
                | Some t \<Rightarrow> if blank t then rankMetric
                           else (case admin_resolveMetric m t of Inl _ \<Rightarrow> rankMetric | Inr mt \<Rightarrow> mt)))
      else rankMetric)"

definition grade_row_of ::
  "(f32 \<Rightarrow> string) \<Rightarrow> manifest \<Rightarrow> metric_section \<Rightarrow> profile_row list \<Rightarrow> score_row list \<Rightarrow> (int \<Rightarrow> user_row option) \<Rightarrow>
   board_row \<Rightarrow> sort_row" where
  "grade_row_of scoreText m rankMetric profiles scores users r =
     (let scoreMap = score_map (scores_of (lb_sub r) scores);
          p = profile_of (lb_user r) profiles;
          rowMetric = row_metric m rankMetric p
      in \<lparr>gw_user = lb_user r, gw_sub = lb_sub r,
          gw_value = normalizedScore (scoreMap (metric_id rowMetric)) (metric_sort rowMetric),
          gw_updated = lb_updated r,
          gw_row = \<lparr>er_student = (case users (lb_user r) of None \<Rightarrow> [] | Some u \<Rightarrow> u_student u), er_rank = 0,
            er_nickname = (case p of None \<Rightarrow> anonymous | Some p \<Rightarrow> shown_name (pf_nickname p)),
            er_track = shown_track p,
            er_scores = map (\<lambda>mt. scoreText (scoreMap (metric_id mt))) (m_metrics m)\<rparr>\<rparr>)"

definition number_rows :: "sort_row list \<Rightarrow> export_row list" where
  "number_rows rs = map (\<lambda>(i, r). (gw_row r)\<lparr>er_rank := i + 1\<rparr>) (enumerate 0 rs)"

definition ExportGrades ::
  "(admin_call \<Rightarrow> bool) \<Rightarrow> (f32 \<Rightarrow> string) \<Rightarrow> string \<Rightarrow> db \<Rightarrow> admin_error + export_result" where
  "ExportGrades flt scoreText labID d =
     bindR (admin_loadLab flt labID d) (\<lambda>(lab, m).
     bindR (loadGradeInputs flt (l_id lab) d) (\<lambda>(rows, profiles, scores, users).
     bindR (admin_resolveMetric m (rank_by (m_board m))) (\<lambda>rankMetric.
       Inr \<lparr>ex_lab = l_id lab, ex_filename = l_id lab @ ''-grades.csv'', ex_columns = gradeColumns (m_metrics m),
            ex_rows = number_rows (sort_stable grade_less
              (map (grade_row_of scoreText m rankMetric profiles scores users) rows))\<rparr>)))"

section \<open>Re-evaluation\<close>

text \<open>
  One free submission and one job per row of the board. The submission is read outside the
  transaction, from the state \<open>d0\<close> the transaction started in.
\<close>

fun reevaluate_rows ::
  "(admin_call \<Rightarrow> bool) \<Rightarrow> time \<Rightarrow> db \<Rightarrow> nat \<Rightarrow> board_row list \<Rightarrow> db \<Rightarrow> db_error + db" where
  "reevaluate_rows flt now d0 n [] d = Inr d"
| "reevaluate_rows flt now d0 n (r # rs) d =
     bindR (faulty (flt (AcSubmission n)) (GetSubmission (lb_sub r) d0)) (\<lambda>s.
     bindR (faulty (flt (AcCreate n)) (CreateFreeSubmission now (sub_user s) (sub_lab s) (sub_key s)
              (sub_artifact s) (sub_hash s) SsQueued d)) (\<lambda>(c, d1).
     bindR (faulty (flt (AcJob n)) (CreateEvaluationJob now (sub_id c) d1)) (\<lambda>(j, d2).
       reevaluate_rows flt now d0 (Suc n) rs d2)))"

definition Reevaluate :: "(admin_call \<Rightarrow> bool) \<Rightarrow> time \<Rightarrow> string \<Rightarrow> db \<Rightarrow> (admin_error + (string \<times> nat)) \<times> db" where
  "Reevaluate flt now labID d =
     (case loadLabRow flt labID d of
        Inl err \<Rightarrow> (Inl err, d)
      | Inr lab \<Rightarrow>
     (if flt AcBegin \<or> flt AcBoard then (Inl (AdminDb Unavailable), d)
      else (let rows = ListLeaderboardByLab (l_id lab) d
            in case reevaluate_rows flt now d 0 rows d of
                 Inl err \<Rightarrow> (Inl (AdminDb err), d)
               | Inr d' \<Rightarrow>
                   (if flt AcCommit then (Inl (AdminDb Unavailable), d)
                    else (Inr (l_id lab, length rows), d')))))"

section \<open>Queue view and lab view\<close>

record job_view =
  jv_id :: uuid
  jv_sub :: uuid
  jv_user :: int
  jv_status :: job_status
  jv_attempts :: int
  jv_available :: time
  jv_worker :: string
  jv_error :: string
  jv_started :: time
  jv_finished :: time
  jv_created :: time
  jv_updated :: time

definition recentQueueLimit :: nat where "recentQueueLimit = 20"

definition ListRecentEvaluationJobsByLab :: "string \<Rightarrow> nat \<Rightarrow> db \<Rightarrow> (job_row \<times> sub_row) list" where
  "ListRecentEvaluationJobsByLab lab n d =
     take n (sort_stable
       (\<lambda>(a, _) (b, _). job_updated a > job_updated b \<or> job_updated a = job_updated b \<and> job_created a > job_created b)
       (concat (map (\<lambda>j. map (Pair j) (filter (\<lambda>s. sub_id s = job_sub j \<and> sub_lab s = lab) (db_subs d))) (db_jobs d))))"

definition view_text :: "string option \<Rightarrow> string" where
  "view_text v = (case v of None \<Rightarrow> [] | Some t \<Rightarrow> trim_space t)"

definition view_time :: "time option \<Rightarrow> time" where
  "view_time v = (case v of None \<Rightarrow> zero_time | Some t \<Rightarrow> t)"

definition QueueStatus :: "(admin_call \<Rightarrow> bool) \<Rightarrow> string \<Rightarrow> db \<Rightarrow> admin_error + (string \<times> job_view list)" where
  "QueueStatus flt labID d =
     bindR (loadLabRow flt labID d) (\<lambda>lab.
     bindR (mapErr AdminDb (faulty (flt AcJobs) (Inr (ListRecentEvaluationJobsByLab (l_id lab) recentQueueLimit d)))) (\<lambda>rows.
       Inr (l_id lab, map (\<lambda>(j, s). \<lparr>jv_id = job_id j, jv_sub = job_sub j, jv_user = sub_user s, jv_status = job_status j,
          jv_attempts = job_attempts j, jv_available = job_available j, jv_worker = view_text (job_worker j),
          jv_error = view_text (job_error j), jv_started = view_time (job_started j),
          jv_finished = view_time (job_finished j), jv_created = job_created j, jv_updated = job_updated j\<rparr>) rows)))"

definition admin_GetLab :: "(admin_call \<Rightarrow> bool) \<Rightarrow> string \<Rightarrow> db \<Rightarrow> admin_error + (string \<times> string \<times> manifest)" where
  "admin_GetLab flt labID d =
     bindR (loadLabRow flt labID d) (\<lambda>lab.
     bindR (parseStoredManifest lab) (\<lambda>m. Inr (l_id lab, l_name lab, m)))"

section \<open>Quota resets\<close>

lemma update_where_none_left:
  "(\<And>r. P r \<Longrightarrow> \<not> P (f r)) \<Longrightarrow> count_where P (update_where P f rs) = 0"
  by (induction rs) auto

lemma reset_none_left:
  "count_where (\<lambda>r. sub_lab r = lab \<and> since \<le> sub_created r \<and> sub_quota r \<in> {QPending, QCharged})
     (db_subs (snd (AdminResetLabQuotaToday lab since d))) = 0"
  (is "count_where ?P _ = 0")
proof -
  have "count_where ?P (update_where ?P (\<lambda>r. r\<lparr>sub_quota := QAdminReset\<rparr>) (db_subs d)) = 0"
    by (rule update_where_none_left) simp
  moreover have "db_subs (snd (AdminResetLabQuotaToday lab since d)) =
      update_where ?P (\<lambda>r. r\<lparr>sub_quota := QAdminReset\<rparr>) (db_subs d)"
    by (simp add: AdminResetLabQuotaToday_def Let_def)
  ultimately show ?thesis by (simp only:)
qed

text \<open>Resetting the quota of a lab gives every student the whole day's allowance back: nothing counts
  against the lab in the current window any more, the number reported is the number of submissions
  that counted since the window began, and other labs and bonus balances keep what they had.\<close>

theorem ResetLabQuota_clears:
  assumes "ResetLabQuota flt now loc labID d = (Inr n, d')" and "quotaWindowForTime now loc = (start, stop)"
  shows "(\<forall>user. CountSubmissionQuotaUsage user labID start stop d' = 0) \<and>
    (\<forall>user lab a b. lab \<noteq> labID \<longrightarrow> CountSubmissionQuotaUsage user lab a b d' = CountSubmissionQuotaUsage user lab a b d) \<and>
    n = count_where (\<lambda>r. sub_lab r = labID \<and> start \<le> sub_created r \<and> sub_quota r \<in> {QPending, QCharged}) (db_subs d) \<and>
    db_bonus d' = db_bonus d \<and> map sub_id (db_subs d') = map sub_id (db_subs d)"
proof -
  let ?P = "\<lambda>r. sub_lab r = labID \<and> start \<le> sub_created r \<and> sub_quota r \<in> {QPending, QCharged}"
  from assms have d': "d' = snd (AdminResetLabQuotaToday labID start d)" "n = count_where ?P (db_subs d)"
    by (auto simp: ResetLabQuota_def AdminResetLabQuotaToday_def Let_def split: if_splits)
  have "CountSubmissionQuotaUsage user labID start stop d' = 0" for user
  proof -
    have "CountSubmissionQuotaUsage user labID start stop d' \<le> count_where ?P (db_subs d')"
      unfolding CountSubmissionQuotaUsage_def by (rule count_where_mono) (simp add: counts_for_def)
    then show ?thesis unfolding d'(1) reset_none_left by simp
  qed
  moreover have "CountSubmissionQuotaUsage user lab a b d' = CountSubmissionQuotaUsage user lab a b d"
    if "lab \<noteq> labID" for user lab a b
    unfolding CountSubmissionQuotaUsage_def d'(1) AdminResetLabQuotaToday_def Let_def
    by (simp, rule count_update_where) (use that in \<open>auto simp: counts_for_def\<close>)
  moreover have "map sub_id (db_subs d') = map sub_id (db_subs d)"
    by (simp add: d'(1) AdminResetLabQuotaToday_def Let_def map_update_where)
  ultimately show ?thesis using d' by (simp add: AdminResetLabQuotaToday_def Let_def)
qed

section \<open>Bonus grants\<close>

definition balance_in :: "bonus_row list \<Rightarrow> int \<Rightarrow> string \<Rightarrow> int" where
  "balance_in bs user lab = (case find (is_bonus user lab) bs of None \<Rightarrow> 0 | Some b \<Rightarrow> bq_remaining b)"

lemma find_bonus_update:
  assumes "distinct (map bonus_key bs)" and "\<And>b. bonus_key (f b) = bonus_key b"
  shows "find (is_bonus v l) (update_where (is_bonus u k) f bs) =
    (if v = u \<and> l = k then map_option f (find (is_bonus v l) bs) else find (is_bonus v l) bs)"
proof -
  have key: "is_bonus v l (f b) = is_bonus v l b" for b by (simp add: is_bonus_key assms(2))
  have "find (is_bonus v l) (update_where (is_bonus u k) f bs) =
      map_option (\<lambda>b. if is_bonus u k b then f b else b) (find (is_bonus v l) bs)"
    by (rule find_update_where) (simp add: key)
  then show ?thesis
  proof (cases "find (is_bonus v l) bs")
    case (Some a)
    from find_SomeD [OF Some] have "is_bonus u k a \<longleftrightarrow> v = u \<and> l = k" by (auto simp: is_bonus_def)
    with \<open>find (is_bonus v l) (update_where (is_bonus u k) f bs) = _\<close> Some show ?thesis by auto
  qed auto
qed

lemma upsert_bonus_balance:
  assumes "distinct (map bonus_key bs)" and "upsert_bonus now lab delta u bs = Inr bs'"
  shows "balance_in bs' v l = (if v = u \<and> l = lab then max 0 (balance_in bs v l + delta) else balance_in bs v l) \<and>
    distinct (map bonus_key bs')"
proof (cases "find (is_bonus u lab) bs")
  case None
  with assms(2) have bs': "bs' = bs @ [\<lparr>bq_user = u, bq_lab = lab, bq_remaining = max 0 delta, bq_updated = now\<rparr>]"
    by (simp add: upsert_bonus_def)
  from None have "(u, lab) \<notin> bonus_key ` set bs" by (auto simp: find_none is_bonus_key)
  with assms(1) None show ?thesis
    by (auto simp: bs' balance_in_def find_append is_bonus_def bonus_key_def split: option.splits)
next
  case (Some b)
  let ?f = "\<lambda>b. b\<lparr>bq_remaining := max 0 (bq_remaining b + delta), bq_updated := now\<rparr>"
  from Some assms(2) have bs': "bs' = update_where (is_bonus u lab) ?f bs"
    by (simp add: upsert_bonus_def split: if_splits)
  have "map bonus_key bs' = map bonus_key bs"
    unfolding bs' by (rule map_update_where) (simp add: bonus_key_def)
  moreover have "find (is_bonus v l) bs' =
      (if v = u \<and> l = lab then map_option ?f (find (is_bonus v l) bs) else find (is_bonus v l) bs)"
    unfolding bs' by (rule find_bonus_update [OF assms(1)]) (simp add: bonus_key_def)
  ultimately show ?thesis using assms(1) Some by (simp add: balance_in_def)
qed

lemma upsert_bonuses_balance:
  assumes "distinct us" and "distinct (map bonus_key bs)" and "upsert_bonuses now lab delta us bs = Inr bs'"
  shows "balance_in bs' v l =
    (if v \<in> set us \<and> l = lab then max 0 (balance_in bs v l + delta) else balance_in bs v l)"
  using assms
proof (induction us arbitrary: bs)
  case (Cons u us)
  from Cons.prems(3) obtain b1 where b1: "upsert_bonus now lab delta u bs = Inr b1"
    "upsert_bonuses now lab delta us b1 = Inr bs'" by auto
  from upsert_bonus_balance [OF Cons.prems(2) b1(1), of v l] Cons.IH [OF _ _ b1(2)] Cons.prems(1)
    upsert_bonus_balance [OF Cons.prems(2) b1(1)]
  show ?case by auto
qed simp

lemma int32_id: "- 2147483648 \<le> n \<Longrightarrow> n \<le> 2147483647 \<Longrightarrow> int32 n = n"
  by (simp add: int32_def sint_sbintrunc' signed_take_bit_int_eq_self)

text \<open>A bonus grant (or cut) reaches exactly the students who have submitted to the lab: each balance
  changes by the delta but never below zero, the counts reported are the number of those students,
  and nobody else's balance moves. A failed request and a dry run change nothing. The delta that is
  applied is the one requested as long as it fits 32 bits.\<close>

theorem AdjustBonusQuota_balances:
  assumes "distinct (map bonus_key (db_bonus d))" and "AdjustBonusQuota flt now labID delta dryRun d = (res, d')"
  shows "(case res of
      Inl _ \<Rightarrow> d' = d
    | Inr r \<Rightarrow> br_affected r = CountLabParticipants labID d \<and> br_participants r = br_affected r \<and>
        (if dryRun then d' = d
         else \<forall>user lab. balance_in (db_bonus d') user lab =
           (if lab = labID \<and> user \<in> set (lab_participants labID d)
            then max 0 (balance_in (db_bonus d) user lab + int32 delta) else balance_in (db_bonus d) user lab))) \<and>
    (- 2147483648 \<le> delta \<longrightarrow> delta \<le> 2147483647 \<longrightarrow> int32 delta = delta)"
proof -
  define Q where "Q bs \<longleftrightarrow> (\<forall>user lab. balance_in bs user lab =
      (if lab = labID \<and> user \<in> set (lab_participants labID d)
       then max 0 (balance_in (db_bonus d) user lab + int32 delta) else balance_in (db_bonus d) user lab))" for bs
  have "Q bs" if "upsert_bonuses now labID (int32 delta) (lab_participants labID d) (db_bonus d) = Inr bs" for bs
    unfolding Q_def using upsert_bonuses_balance [OF _ assms(1) that] by (auto simp: lab_participants_def)
  with assms(2) show ?thesis
    unfolding Q_def [symmetric]
    by (auto simp: AdjustBonusQuota_def AdjustBonusQuotaForLab_def Let_def int32_id
        split: sum.splits if_splits prod.splits)
qed

section \<open>Re-evaluation is free\<close>

text \<open>\<open>c\<close> is a fresh copy of the submission that board row \<open>r\<close> refers to.\<close>

definition copy_of :: "db \<Rightarrow> board_row \<Rightarrow> sub_row \<Rightarrow> bool" where
  "copy_of d r c \<longleftrightarrow> (\<exists>s. GetSubmission (lb_sub r) d = Inr s \<and> sub_user c = sub_user s \<and> sub_lab c = sub_lab s \<and>
     sub_key c = sub_key s \<and> sub_artifact c = sub_artifact s \<and> sub_hash c = sub_hash s) \<and>
     sub_status c = SsQueued \<and> sub_quota c = QFree \<and> sub_verdict c = None \<and> db_uuid_seq d < sub_id c"

lemma reevaluate_rows_Inr:
  assumes "reevaluate_rows flt now d0 n rs d = Inr d'" and "db_uuid_seq d0 \<le> db_uuid_seq d"
  shows "\<exists>new jobs. db_subs d' = db_subs d @ new \<and> db_jobs d' = db_jobs d @ jobs \<and> db_bonus d' = db_bonus d \<and>
    list_all2 (copy_of d0) rs new \<and> map job_sub jobs = map sub_id new \<and>
    (\<forall>j \<in> set jobs. job_status j = JQueued \<and> job_available j = now)"
  using assms
proof (induction rs arbitrary: n d)
  case Nil
  then show ?case by simp
next
  case (Cons r rs)
  from Cons.prems(1) obtain s c d1 j d2 where s: "GetSubmission (lb_sub r) d0 = Inr s"
    and c: "CreateFreeSubmission now (sub_user s) (sub_lab s) (sub_key s) (sub_artifact s) (sub_hash s) SsQueued d = Inr (c, d1)"
    and j: "CreateEvaluationJob now (sub_id c) d1 = Inr (j, d2)"
    and rest: "reevaluate_rows flt now d0 (Suc n) rs d2 = Inr d'"
    by (auto split: prod.splits)
  from c have c': "db_subs d1 = db_subs d @ [c]" "db_jobs d1 = db_jobs d" "db_bonus d1 = db_bonus d"
      "db_uuid_seq d1 = Suc (db_uuid_seq d)" "sub_id c = Suc (db_uuid_seq d)" "sub_status c = SsQueued"
      "sub_quota c = QFree" "sub_verdict c = None" "sub_user c = sub_user s" "sub_lab c = sub_lab s"
      "sub_key c = sub_key s" "sub_artifact c = sub_artifact s" "sub_hash c = sub_hash s"
    by (auto simp: CreateFreeSubmission_def insert_submission_def Let_def split: if_splits)
  from j have j': "db_subs d2 = db_subs d1" "db_jobs d2 = db_jobs d1 @ [j]" "db_bonus d2 = db_bonus d1"
      "db_uuid_seq d2 = Suc (db_uuid_seq d1)" "job_sub j = sub_id c" "job_status j = JQueued" "job_available j = now"
    by (auto simp: CreateEvaluationJob_def Let_def split: if_splits)
  have copy: "copy_of d0 r c" using s c' Cons.prems(2) by (simp add: copy_of_def)
  have seq: "db_uuid_seq d0 \<le> db_uuid_seq d2" using c' j' Cons.prems(2) by simp
  from Cons.IH [OF rest seq] obtain new jobs where ih: "db_subs d' = db_subs d2 @ new" "db_jobs d' = db_jobs d2 @ jobs"
      "db_bonus d' = db_bonus d2" "list_all2 (copy_of d0) rs new" "map job_sub jobs = map sub_id new"
      "\<forall>j \<in> set jobs. job_status j = JQueued \<and> job_available j = now" by blast
  show ?case
    by (rule exI [of _ "c # new"], rule exI [of _ "j # jobs"]) (use ih c' j' copy in simp)
qed

lemma copies_free: "list_all2 (copy_of d) rs new \<Longrightarrow> \<forall>c \<in> set new. sub_quota c = QFree"
  by (auto simp: list_all2_conv_all_nth in_set_conv_nth copy_of_def)

text \<open>C22. Re-evaluating a lab is all or nothing: either nothing changes, or every row of the board gets one
  queued job for a fresh queued copy of its submission (same student, key, artifact and hash). The
  copies are free, so no student's quota usage in any window and no bonus balance changes.\<close>

theorem Reevaluate_free:
  assumes "Reevaluate flt now labID d = (res, d')"
  shows "case res of
      Inl _ \<Rightarrow> d' = d
    | Inr (lab, n) \<Rightarrow> (\<exists>new jobs. db_subs d' = db_subs d @ new \<and> db_jobs d' = db_jobs d @ jobs \<and>
        list_all2 (copy_of d) (ListLeaderboardByLab lab d) new \<and> n = length new \<and>
        map job_sub jobs = map sub_id new \<and> (\<forall>j \<in> set jobs. job_status j = JQueued \<and> job_available j = now)) \<and>
        (\<forall>user l a b. CountSubmissionQuotaUsage user l a b d' = CountSubmissionQuotaUsage user l a b d) \<and>
        db_bonus d' = db_bonus d"
proof (cases res)
  case (Inl err)
  with assms show ?thesis
    by (auto simp: Reevaluate_def Let_def split: sum.splits if_splits)
next
  case (Inr r)
  with assms obtain lab where r: "r = (lab, length (ListLeaderboardByLab (lab) d))"
      "reevaluate_rows flt now d 0 (ListLeaderboardByLab (lab) d) d = Inr d'"
    by (auto simp: Reevaluate_def Let_def split: sum.splits if_splits)
  from reevaluate_rows_Inr [OF r(2)] obtain new jobs where new: "db_subs d' = db_subs d @ new"
      "db_jobs d' = db_jobs d @ jobs" "db_bonus d' = db_bonus d"
      "list_all2 (copy_of d) (ListLeaderboardByLab (lab) d) new" "map job_sub jobs = map sub_id new"
      "\<forall>j \<in> set jobs. job_status j = JQueued \<and> job_available j = now" by blast
  have "count_where (counts_for user l a b) new = 0" for user l a b
    using copies_free [OF new(4)] by (auto simp: counts_for_def)
  then have "CountSubmissionQuotaUsage user l a b d' = CountSubmissionQuotaUsage user l a b d" for user l a b
    by (simp only: CountSubmissionQuotaUsage_def new(1) count_where_append)
  with new Inr r(1) list_all2_lengthD [OF new(4)] show ?thesis by auto
qed

section \<open>The order of the export\<close>

interpretation grade_order: weak_less grade_less
  by unfold_locales (auto simp: grade_less_def split: if_splits)

lemma sort_row_sorted_distinct:
  assumes "distinct (map gw_user rs)"
  shows "sorted_wrt grade_less (sort_stable grade_less rs)"
proof -
  let ?xs = "sort_stable grade_less rs"
  have d: "distinct (map gw_user ?xs)" using assms by simp
  have "grade_less (?xs ! i) (?xs ! j)" if "i < j" "j < length ?xs" for i j
  proof -
    have "\<not> grade_less (?xs ! j) (?xs ! i)" using grade_order.sorted [of rs] that by (simp add: sorted_wrt_iff_nth_less)
    moreover have "gw_user (?xs ! i) \<noteq> gw_user (?xs ! j)"
      using nth_eq_iff_index_eq [OF d, of i j] that by simp
    ultimately show ?thesis by (auto simp: grade_less_def split: if_splits)
  qed
  then show ?thesis by (simp add: sorted_wrt_iff_nth_less)
qed

lemma number_rows_ranks: "map er_rank (number_rows rs) = [1 ..< Suc (length rs)]"
proof (rule nth_equalityI)
  fix i assume "i < length (map er_rank (number_rows rs))"
  then have i: "i < length rs" by (simp add: number_rows_def)
  then show "map er_rank (number_rows rs) ! i = [1 ..< Suc (length rs)] ! i"
    by (simp add: number_rows_def nth_enumerate_eq del: upt_Suc)
qed (simp add: number_rows_def del: upt_Suc)

lemma number_rows_rows: "map (\<lambda>r. r\<lparr>er_rank := 0\<rparr>) (number_rows rs) = map (\<lambda>r. (gw_row r)\<lparr>er_rank := 0\<rparr>) rs"
  by (rule nth_equalityI) (simp_all add: number_rows_def nth_enumerate_eq)

lemma ListLeaderboardByLab_users:
  assumes "board_keys d"
  shows "distinct (map lb_user (ListLeaderboardByLab lab d))"
  using distinct_lab_users [OF assms] by (simp add: ListLeaderboardByLab_def)

text \<open>The exported grades list every student on the lab's board exactly once, in strict grade order
  (normalised score, then the later update, then the smaller user id), numbered 1, 2, ..., each row
  carrying the student id of its user and one score text per metric under a matching header.\<close>

theorem ExportGrades_order:
  assumes "ExportGrades flt scoreText labID d = Inr x" and "board_keys d"
  shows "\<exists>lab m gs. GetLab (trim_space labID) d = Inr lab \<and> l_manifest lab = Some m \<and>
    sorted_wrt grade_less gs \<and> distinct (map gw_user gs) \<and>
    gw_user ` set gs = lb_user ` {lb \<in> set (db_board d). lb_lab lb = l_id lab} \<and>
    map (\<lambda>r. r\<lparr>er_rank := 0\<rparr>) (ex_rows x) = map (\<lambda>g. (gw_row g)\<lparr>er_rank := 0\<rparr>) gs \<and>
    map er_rank (ex_rows x) = [1 ..< Suc (length gs)] \<and>
    (\<forall>g \<in> set gs. (\<exists>u \<in> set (db_users d). u_id u = gw_user g \<and> er_student (gw_row g) = u_student u) \<and>
       length (er_scores (gw_row g)) + 4 = length (ex_columns x))"
proof -
  from assms(1) obtain lab m rows profiles scores users rankMetric
    where lab: "GetLab (trim_space labID) d = Inr lab" "l_manifest lab = Some m"
      and inputs: "loadGradeInputs flt (l_id lab) d = Inr (rows, profiles, scores, users)"
      and x: "ex_rows x = number_rows (sort_stable grade_less (map (grade_row_of scoreText m rankMetric profiles scores users) rows))"
        "ex_columns x = gradeColumns (m_metrics m)"
    by (auto simp: ExportGrades_def admin_loadLab_def loadLabRow_def parseStoredManifest_def
        split: sum.splits option.splits prod.splits)
  from inputs have rows: "rows = ListLeaderboardByLab (l_id lab) d"
    and users: "\<forall>r \<in> set rows. users (lb_user r) = find (\<lambda>u. u_id u = lb_user r) (db_users d)"
      "\<forall>r \<in> set rows. find (\<lambda>u. u_id u = lb_user r) (db_users d) \<noteq> None"
    by (auto simp: loadGradeInputs_def Let_def split: if_splits)
  let ?g = "grade_row_of scoreText m rankMetric profiles scores users"
  let ?gs = "sort_stable grade_less (map ?g rows)"
  have u: "map gw_user (map ?g rows) = map lb_user rows" by (simp add: grade_row_of_def Let_def comp_def)
  then have d: "distinct (map gw_user (map ?g rows))"
    using ListLeaderboardByLab_users [OF assms(2)] by (simp only: rows)
  have set: "gw_user ` set ?gs = lb_user ` {lb \<in> set (db_board d). lb_lab lb = l_id lab}"
    by (simp add: rows grade_row_of_def Let_def image_image ListLeaderboardByLab_def)
  have row: "(\<exists>u \<in> set (db_users d). u_id u = gw_user g \<and> er_student (gw_row g) = u_student u) \<and>
       length (er_scores (gw_row g)) + 4 = length (ex_columns x)" if "g \<in> set ?gs" for g
  proof -
    from that obtain r where r: "r \<in> set rows" "g = ?g r" by auto
    with users obtain v where v: "users (lb_user r) = Some v" "find (\<lambda>u. u_id u = lb_user r) (db_users d) = Some v" by auto
    from find_SomeD [OF v(2)] v(1) r(2) show ?thesis
      by (auto simp: grade_row_of_def Let_def x(2) gradeColumns_def)
  qed
  show ?thesis
    by (rule exI [of _ lab], rule exI [of _ m], rule exI [of _ ?gs], intro conjI lab ballI)
      (use d set row sort_row_sorted_distinct [OF d] number_rows_ranks [of ?gs] number_rows_rows [of ?gs] in
        \<open>simp_all only: x(1) distinct_map_sort_stable\<close>)
qed

text \<open>The export orders students as the public board does when the metric is sorted descending. For an
  ascending metric it does so too, except among equal values reached at different times, where the
  board puts the earlier student first and the export the later one.\<close>

theorem grade_order_vs_board:
  assumes "gw_user g = be_user e" and "gw_updated g = be_updated e" and "gw_value g = normalizedScore (be_value e) srt"
    and "gw_user h = be_user f" and "gw_updated h = be_updated f" and "gw_value h = normalizedScore (be_value f) srt"
  shows "(srt \<noteq> Asc \<or> be_value e \<noteq> be_value f \<or> be_updated e = be_updated f \<longrightarrow>
      grade_less g h = board_less srt e f) \<and>
    (srt = Asc \<and> be_value e = be_value f \<and> be_updated e \<noteq> be_updated f \<longrightarrow>
      grade_less g h = board_less srt f e)"
  using assms by (cases srt) (auto simp: grade_less_def board_less_def normalizedScore_def)

section \<open>A concrete lab\<close>

definition admin_sample_key :: key_row where
  "admin_sample_key = \<lparr>k_id = 1, k_user = 1, k_public = ''k'', k_fingerprint = None, k_device = ''d'', k_created = 0, k_revoked = None\<rparr>"

definition sample_row :: "nat \<Rightarrow> sub_row" where
  "sample_row i = \<lparr>sub_id = i, sub_user = int i, sub_lab = ''lab'', sub_key = 1, sub_artifact = ''a'', sub_hash = ''h'',
     sub_status = SsDone, sub_verdict = None, sub_message = None, sub_detail = None, sub_digest = None,
     sub_started = None, sub_finished = None, sub_created = 7, sub_quota = QCharged\<rparr>"

definition sample_admin_db :: db where
  "sample_admin_db = sample_board_db\<lparr>db_keys := [admin_sample_key], db_subs := map sample_row [1, 2, 3], db_uuid_seq := 3\<rparr>"

definition sample_export_db :: db where
  "sample_export_db = sample_admin_db\<lparr>db_labs := map (\<lambda>l. l\<lparr>l_manifest := Some (normalize_manifest sample_manifest)\<rparr>)
     (db_labs sample_board_db)\<rparr>"

definition utc :: location where "utc = fixed_zone ''UTC'' 0"

lemma sample_admin_facts:
  "fst (ResetLabQuota (\<lambda>_. False) 100 utc ''lab'' sample_admin_db) = Inr 3"
  "fst (Reevaluate (\<lambda>_. False) 100 ''lab'' sample_admin_db) = Inr (''lab'', 3)"
  "is_ok (ExportGrades (\<lambda>_. False) (\<lambda>_. ''0'') ''lab'' sample_export_db)"
  "fst (AdjustBonusQuota (\<lambda>_. False) 100 ''lab'' 2 False sample_admin_db) =
     Inr \<lparr>br_lab = ''lab'', br_delta = 2, br_affected = 3, br_participants = 3, br_reset = False, br_dry = False\<rparr>"
  "quotaWindowForTime 100 utc = (0, day)"
  by code_simp+

theorem ResetLabQuota_clears_witness:
  "\<exists>d'. ResetLabQuota (\<lambda>_. False) 100 utc ''lab'' sample_admin_db = (Inr 3, d') \<and>
     CountSubmissionQuotaUsage 1 ''lab'' 0 day d' = 0"
proof -
  obtain d' where r: "ResetLabQuota (\<lambda>_. False) 100 utc ''lab'' sample_admin_db = (Inr 3, d')"
    using sample_admin_facts(1) by (metis prod.collapse)
  from ResetLabQuota_clears [OF r sample_admin_facts(5)] r show ?thesis by blast
qed

theorem AdjustBonusQuota_balances_witness:
  "\<exists>r d'. AdjustBonusQuota (\<lambda>_. False) 100 ''lab'' 2 False sample_admin_db = (Inr r, d') \<and>
     balance_in (db_bonus d') 3 ''lab'' = 2"
proof -
  obtain r d' where r: "AdjustBonusQuota (\<lambda>_. False) 100 ''lab'' 2 False sample_admin_db = (Inr r, d')"
    using sample_admin_facts(4) by (metis prod.collapse)
  have p: "3 \<in> set (lab_participants ''lab'' sample_admin_db)" "db_bonus sample_admin_db = []"
    by (simp_all add: sample_admin_db_def sample_board_db_def empty_db_def lab_participants_def sample_row_def)
  have k: "distinct (map bonus_key (db_bonus sample_admin_db))" by (simp add: p(2))
  from AdjustBonusQuota_balances [OF k r] p have "balance_in (db_bonus d') 3 ''lab'' = 2"
    by (simp add: balance_in_def)
  with r show ?thesis by blast
qed

theorem Reevaluate_free_witness:
  "\<exists>d' jobs. Reevaluate (\<lambda>_. False) 100 ''lab'' sample_admin_db = (Inr (''lab'', 3), d') \<and>
     db_jobs d' = db_jobs sample_admin_db @ jobs \<and> length jobs = 3 \<and>
     CountSubmissionQuotaUsage 1 ''lab'' 0 day d' = CountSubmissionQuotaUsage 1 ''lab'' 0 day sample_admin_db"
proof -
  obtain d' where r: "Reevaluate (\<lambda>_. False) 100 ''lab'' sample_admin_db = (Inr (''lab'', 3), d')"
    using sample_admin_facts(2) by (metis prod.collapse)
  from Reevaluate_free [OF r] obtain new :: "sub_row list" and jobs :: "job_row list" where "db_jobs d' = db_jobs sample_admin_db @ jobs"
      "map job_sub jobs = map sub_id new" "3 = length new"
      "CountSubmissionQuotaUsage 1 ''lab'' 0 day d' = CountSubmissionQuotaUsage 1 ''lab'' 0 day sample_admin_db"
    by auto
  with r show ?thesis by (metis length_map)
qed

theorem ExportGrades_order_witness:
  "\<exists>x. ExportGrades (\<lambda>_. False) (\<lambda>_. ''0'') ''lab'' sample_export_db = Inr x \<and>
     (\<exists>n. map er_rank (ex_rows x) = [1 ..< Suc n])"
proof -
  from sample_admin_facts(3) obtain x where x: "ExportGrades (\<lambda>_. False) (\<lambda>_. ''0'') ''lab'' sample_export_db = Inr x"
    by (cases "ExportGrades (\<lambda>_. False) (\<lambda>_. ''0'') ''lab'' sample_export_db") auto
  have k: "board_keys sample_export_db"
    using sample_board_facts(2) by (simp add: board_keys_def sample_export_db_def sample_admin_db_def)
  from ExportGrades_order [OF x k] x show ?thesis by blast
qed

theorem grade_order_vs_board_witness:
  "\<exists>g h :: sort_row. \<exists>e f :: board_entry. board_less Asc e f \<and> grade_less h g \<and> gw_user g = be_user e \<and> gw_user h = be_user f"
proof -
  let ?r = "\<lparr>br_rank = 0, br_nickname = [], br_track = [], br_scores = [], br_updated = 0, br_current = False\<rparr>"
  let ?x = "\<lparr>er_student = [], er_rank = 0, er_nickname = [], er_track = [], er_scores = []\<rparr>"
  let ?e = "\<lambda>u t. \<lparr>be_user = u, be_value = Fin 1, be_updated = t, be_row = ?r\<rparr>"
  let ?g = "\<lambda>u t. \<lparr>gw_user = u, gw_sub = 0, gw_value = Fin (- 1), gw_updated = t, gw_row = ?x\<rparr>"
  have "grade_less (?g 2 20) (?g 1 10) = board_less Asc (?e 1 10) (?e 2 20)"
    using grade_order_vs_board [of "?g 2 20" "?e 2 20" Asc "?g 1 10" "?e 1 10"] by (simp add: normalizedScore_def)
  moreover have "board_less Asc (?e 1 10) (?e 2 20)" by (simp add: board_less_def)
  ultimately show ?thesis by (intro exI [of _ "?g 1 10"] exI [of _ "?g 2 20"] exI [of _ "?e 1 10"] exI [of _ "?e 2 20"]) simp
qed

end
