(* ===== verification/Go_Csv.thy ===== *)
theory Go_Csv
  imports Go_Strings
begin

text \<open>
  \<^verbatim>\<open>encoding/csv\<close> as the services use it: \<^verbatim>\<open>csv.Writer\<close> with its defaults, and \<^verbatim>\<open>csv.Reader\<close> with
  \<^verbatim>\<open>TrimLeadingSpace\<close> and any number of fields per record. The reader works line by line; a quoted field
  continues on the following lines. What is written is read back, but for carriage returns before a line feed.
\<close>

abbreviation "csv_quote \<equiv> CHR 0x22"
abbreviation "csv_comma \<equiv> CHR '','' "
abbreviation "csv_nl \<equiv> CHR 0x0A"
abbreviation "csv_cr \<equiv> CHR 0x0D"

section \<open>Writer\<close>

definition leading_space :: "string \<Rightarrow> bool" where
  "leading_space f \<longleftrightarrow> find (\<lambda>p. p \<noteq> [] \<and> has_prefix f p) space_runes \<noteq> None"

definition field_needs_quotes :: "string \<Rightarrow> bool" where
  "field_needs_quotes f =
     (if f = [] then False
      else f = [CHR 0x5C, CHR ''.''] \<or> csv_nl \<in> set f \<or> csv_cr \<in> set f \<or> csv_quote \<in> set f \<or> csv_comma \<in> set f \<or>
           leading_space f)"

definition csv_escape :: "string \<Rightarrow> string" where
  "csv_escape f = concat (map (\<lambda>c. if c = csv_quote then [csv_quote, csv_quote] else [c]) f)"

definition csv_field :: "string \<Rightarrow> string" where
  "csv_field f = (if field_needs_quotes f then csv_quote # csv_escape f @ [csv_quote] else f)"

definition csv_record :: "string list \<Rightarrow> string" where
  "csv_record fs = join_with [csv_comma] (map csv_field fs) @ [csv_nl]"

definition csv_write :: "string list list \<Rightarrow> string" where
  "csv_write rs = concat (map csv_record rs)"

section \<open>Reader\<close>

text \<open>
  Lines keep their line feed; \<^verbatim>\<open>\r\n\<close> counts as \<^verbatim>\<open>\n\<close>, and a carriage return at the very end is dropped.
\<close>

fun csv_lines :: "string \<Rightarrow> string list" where
  "csv_lines [] = []"
| "csv_lines (c # s) =
     (if c = csv_nl then [csv_nl] # csv_lines s
      else if c = csv_cr \<and> s = [] then []
      else if c = csv_cr \<and> hd s = csv_nl then csv_lines s
      else (case csv_lines s of
              [] \<Rightarrow> [[c]]
            | l # ls \<Rightarrow> (c # l) # ls))"

datatype csv_error = BareQuote | QuoteError

fun split_first :: "char \<Rightarrow> string \<Rightarrow> (string \<times> string) option" where
  "split_first d [] = None"
| "split_first d (c # s) = (if c = d then Some ([], s) else map_option (\<lambda>(a, b). (c # a, b)) (split_first d s))"

definition strip_nl :: "string \<Rightarrow> string" where
  "strip_nl l = (if l \<noteq> [] \<and> last l = csv_nl then butlast l else l)"

definition cons_field :: "string \<Rightarrow> csv_error + (string list \<times> string list) \<Rightarrow> csv_error + (string list \<times> string list)" where
  "cons_field f r = map_sum id (\<lambda>(fs, rest). (f # fs, rest)) r"

lemma split_first_Some:
  "split_first d s = Some (a, b) \<Longrightarrow> s = a @ d # b \<and> d \<notin> set a"
  by (induction s arbitrary: a b) (auto split: if_splits option.splits)

lemma split_first_None: "split_first d s = None \<longleftrightarrow> d \<notin> set s"
  by (induction s) auto

lemma split_first_append: "d \<notin> set a \<Longrightarrow> split_first d (a @ d # b) = Some (a, b)"
  by (induction a) auto

lemma trim_left_le: "length (trim_left s) \<le> length s"
  using drop_runes_suffix [of s space_runes] unfolding trim_left_def by (metis length_append le_add2)

text \<open>The fields from \<open>line\<close> on, and the lines after the record.\<close>

function parse_fields :: "string \<Rightarrow> string list \<Rightarrow> csv_error + (string list \<times> string list)"
  and parse_quoted :: "string \<Rightarrow> string list \<Rightarrow> string \<Rightarrow> csv_error + (string list \<times> string list)" where
  "parse_fields line rest =
     (let l = trim_left line
      in if l = [] \<or> hd l \<noteq> csv_quote
         then (case split_first csv_comma l of
                 None \<Rightarrow> if csv_quote \<in> set l then Inl BareQuote else Inr ([strip_nl l], rest)
               | Some (f, more) \<Rightarrow>
                   if csv_quote \<in> set f then Inl BareQuote else cons_field f (parse_fields more rest))
         else parse_quoted (tl l) rest [])"
| "parse_quoted line rest acc =
     (case split_first csv_quote line of
        Some (pre, post) \<Rightarrow>
          (if post \<noteq> [] \<and> hd post = csv_quote then parse_quoted (tl post) rest (acc @ pre @ [csv_quote])
           else if post \<noteq> [] \<and> hd post = csv_comma then cons_field (acc @ pre) (parse_fields (tl post) rest)
           else if strip_nl post = [] then Inr ([acc @ pre], rest)
           else Inl QuoteError)
      | None \<Rightarrow>
          (if line = [] then Inl QuoteError
           else (case rest of
                   [] \<Rightarrow> parse_quoted [] [] (acc @ line)
                 | l # ls \<Rightarrow> parse_quoted l ls (acc @ line))))"
  by pat_completeness auto
termination
proof (relation "measure (\<lambda>x. case x of
    Inl (line, rest) \<Rightarrow> length line + sum_list (map length rest) + length rest
  | Inr (line, rest, acc) \<Rightarrow> length line + sum_list (map length rest) + length rest)", goal_cases)
  case (2 line rest l x f more)
  then have "length more < length l" using split_first_Some [of csv_comma l f more] by auto
  with 2 trim_left_le [of line] show ?case by simp
next
  case (3 line rest l)
  then show ?case using trim_left_le [of line] by (cases "trim_left line") auto
qed (auto dest!: split_first_Some simp: neq_Nil_conv)

declare parse_fields.simps [simp del] parse_quoted.simps [simp del]

lemma cons_field_Inr: "cons_field f r = Inr (fs, rest) \<longleftrightarrow> (\<exists>gs. r = Inr (gs, rest) \<and> fs = f # gs)"
  by (cases r) (auto simp: cons_field_def)

lemma parse_rest_le:
  "parse_fields line rest = Inr (fs, rest') \<Longrightarrow> length rest' \<le> length rest"
  "parse_quoted line rest acc = Inr (fs, rest') \<Longrightarrow> length rest' \<le> length rest"
proof (induction line rest and line rest acc arbitrary: fs rest' and fs rest'
    rule: parse_fields_parse_quoted.induct)
  case (1 line rest)
  from 1(3) show ?case
    unfolding parse_fields.simps [of line rest] Let_def
    by (auto simp: cons_field_Inr split: if_splits option.splits prod.splits intro: 1(1,2))
next
  case (2 line rest acc)
  note eq = 2(5)[unfolded parse_quoted.simps [of line rest acc]]
  show ?case
  proof (cases "split_first csv_quote line")
    case None
    with eq 2(1,2) show ?thesis
      by (cases rest) (fastforce split: if_splits)+
  next
    case (Some pp)
    obtain pre post where pp: "pp = (pre, post)" by fastforce
    from eq Some 2(3,4) show ?thesis
      by (auto simp: pp cons_field_Inr split: if_splits)
  qed
qed

text \<open>All records up to the end or the first malformed one; lines that are empty are skipped.\<close>

function csv_records :: "string list \<Rightarrow> string list list \<times> csv_error option" where
  "csv_records [] = ([], None)"
| "csv_records (l # ls) =
     (if l = [csv_nl] then csv_records ls
      else (case parse_fields l ls of
              Inl err \<Rightarrow> ([], Some err)
            | Inr (fs, rest) \<Rightarrow> (let (rs, err) = csv_records rest in (fs # rs, err))))"
  by pat_completeness auto
termination
  by (relation "measure length") (auto dest: parse_rest_le)

definition csv_read :: "string \<Rightarrow> string list list \<times> csv_error option" where
  "csv_read t = csv_records (csv_lines t)"

section \<open>Reading what was written\<close>

text \<open>The reader on a text rather than on its lines.\<close>

definition fields_of :: "string \<Rightarrow> csv_error + (string list \<times> string list)" where
  "fields_of t = (case csv_lines t of [] \<Rightarrow> parse_fields [] [] | l # ls \<Rightarrow> parse_fields l ls)"

definition quoted_of :: "string \<Rightarrow> string \<Rightarrow> csv_error + (string list \<times> string list)" where
  "quoted_of t acc = (case csv_lines t of [] \<Rightarrow> parse_quoted [] [] acc | l # ls \<Rightarrow> parse_quoted l ls acc)"

lemma lines_plain:
  "csv_nl \<notin> set w \<Longrightarrow> csv_cr \<notin> set w \<Longrightarrow>
   csv_lines (w @ s) = (case csv_lines s of [] \<Rightarrow> (if w = [] then [] else [w]) | l # ls \<Rightarrow> (w @ l) # ls)"
  by (induction w) (auto split: list.splits)

lemma lines_nonempty: "[] \<notin> set (csv_lines s)"
  by (induction s rule: csv_lines.induct) (auto split: list.splits)

lemma quoted_char:
  assumes "c \<noteq> csv_quote" and "c = csv_cr \<Longrightarrow> t \<noteq> [] \<and> hd t \<noteq> csv_nl"
  shows "quoted_of (c # t) acc = quoted_of t (acc @ [c])"
proof (cases "csv_lines t")
  case Nil
  with assms show ?thesis
    by (cases "c = csv_nl"; cases "c = csv_cr")
      (simp_all add: quoted_of_def parse_quoted.simps [of "[c]"] parse_quoted.simps [of "[csv_nl]"]
        parse_quoted.simps [of "[csv_cr]"])
next
  case (Cons l ls)
  with lines_nonempty [of t] have l: "l \<noteq> []" by auto
  show ?thesis
  proof (cases "c = csv_nl")
    case True
    with Cons show ?thesis by (simp add: quoted_of_def parse_quoted.simps [of "[csv_nl]"])
  next
    case False
    with Cons assms have "csv_lines (c # t) = (c # l) # ls" by auto
    with Cons assms l show ?thesis
      by (simp add: quoted_of_def parse_quoted.simps [of "c # l"] parse_quoted.simps [of l] split: option.split list.split)
  qed
qed

text \<open>What the reader makes of a quoted text: a carriage return before a line feed is dropped.\<close>

fun crlf :: "string \<Rightarrow> string" where
  "crlf [] = []"
| "crlf (c # s) = (if c = csv_cr \<and> s \<noteq> [] \<and> hd s = csv_nl then crlf s else c # crlf s)"

lemma crlf_Nil [simp]: "crlf f = [] \<longleftrightarrow> f = []" "[] = crlf f \<longleftrightarrow> f = []"
proof -
  show "crlf f = [] \<longleftrightarrow> f = []"
  proof (induction f)
    case (Cons c f)
    then show ?case by (cases f) auto
  qed simp
  then show "[] = crlf f \<longleftrightarrow> f = []" by auto
qed

lemma crlf_idle: "csv_cr \<notin> set f \<Longrightarrow> crlf f = f"
  by (induction f) auto

lemma quoted_pair: "quoted_of (csv_quote # csv_quote # t) acc = quoted_of t (acc @ [csv_quote])"
  by (cases "csv_lines t") (simp_all add: quoted_of_def parse_quoted.simps [of "csv_quote # csv_quote # _"])

lemma quoted_comma: "quoted_of (csv_quote # csv_comma # t) acc = cons_field acc (fields_of t)"
  by (cases "csv_lines t")
    (simp_all add: quoted_of_def fields_of_def parse_quoted.simps [of "csv_quote # csv_comma # _"])

lemma quoted_end: "quoted_of (csv_quote # csv_nl # t) acc = Inr ([acc], csv_lines t)"
  by (simp add: quoted_of_def parse_quoted.simps [of "[csv_quote, csv_nl]"] strip_nl_def)

lemma csv_escape_simps [simp]:
  "csv_escape [] = []" "csv_escape (c # f) = (if c = csv_quote then [csv_quote, csv_quote] else [c]) @ csv_escape f"
  by (simp_all add: csv_escape_def)

lemma quoted_escape:
  "quoted_of (csv_escape f @ csv_quote # t) acc = quoted_of (csv_quote # t) (acc @ crlf f)"
proof (induction f arbitrary: acc)
  case (Cons c f)
  consider "c = csv_quote" | "c = csv_cr" "f \<noteq> []" "hd f = csv_nl" | "c \<noteq> csv_quote" "\<not> (c = csv_cr \<and> f \<noteq> [] \<and> hd f = csv_nl)"
    by auto
  then show ?case
  proof cases
    case 1
    with Cons show ?thesis by (simp add: quoted_pair)
  next
    case 2
    then obtain g where g: "f = csv_nl # g" by (cases f) auto
    have "quoted_of (csv_cr # csv_nl # u) acc = quoted_of (csv_nl # u) acc" for u by (simp add: quoted_of_def)
    with 2 g Cons [of acc] show ?thesis by simp
  next
    case 3
    have "hd (csv_escape f @ csv_quote # t) \<noteq> csv_nl" if "c = csv_cr"
      using 3 that by (cases f) auto
    with 3 quoted_char [of c "csv_escape f @ csv_quote # t" acc] Cons [of "acc @ [c]"] show ?thesis by auto
  qed
qed simp

lemma trim_left_idle: "\<not> leading_space s \<Longrightarrow> trim_left s = s"
  by (simp add: leading_space_def trim_left_def drop_runes_idle)

lemma leading_quote: "\<not> leading_space (csv_quote # s)" "\<not> leading_space (csv_comma # s)"
  by (simp_all add: leading_space_def space_runes_def has_prefix_def)

lemma fields_quoted: "fields_of (csv_quote # t) = quoted_of t []"
  by (cases "csv_lines t")
    (simp_all add: fields_of_def quoted_of_def parse_fields.simps [of "csv_quote # _"] Let_def
      trim_left_idle leading_quote)

lemma leading_append:
  assumes "f \<noteq> []" and "\<not> leading_space f" and "csv_nl \<notin> set f" and "c = csv_comma \<or> c = csv_nl"
  shows "\<not> leading_space (f @ c # s)"
proof
  assume "leading_space (f @ c # s)"
  then obtain p where p: "p \<in> set space_runes" "p \<noteq> []" "has_prefix (f @ c # s) p"
    by (auto simp: leading_space_def find_none)
  have none: "\<not> has_prefix f p" using assms(2) p(1,2) by (auto simp: leading_space_def find_none)
  from p(3) obtain r where r: "f @ c # s = p @ r" by (auto simp: has_prefix_append)
  have "length f < length p"
  proof (rule ccontr)
    assume "\<not> length f < length p"
    with r have "take (length p) f = p"
      by (metis append_eq_append_conv_if append_take_drop_id linorder_not_le nat_less_le take_all_iff)
    with none show False by (simp add: has_prefix_def)
  qed
  then have "take (Suc (length f)) p = f @ [c]"
    using arg_cong [OF r, of "take (Suc (length f))"] by simp
  then have "c \<in> set p" "1 < length p"
    using assms(1) \<open>length f < length p\<close> by (metis in_set_takeD list.set_intros(1) rotate1.simps(2) set_rotate1, cases f, simp_all)
  with p(1) assms(4) show False by (auto simp: space_runes_def)
qed

lemma plain_field:
  assumes "\<not> field_needs_quotes f"
  shows "csv_quote \<notin> set f" "csv_nl \<notin> set f" "csv_cr \<notin> set f" "csv_comma \<notin> set f"
    "f = [] \<or> \<not> leading_space f"
  using assms by (auto simp: field_needs_quotes_def split: if_splits)

lemma fields_plain_comma:
  assumes "\<not> field_needs_quotes f"
  shows "fields_of (f @ csv_comma # t) = cons_field f (fields_of t)"
proof -
  note f = plain_field [OF assms]
  have lead: "trim_left (f @ csv_comma # s) = f @ csv_comma # s" for s
    using f leading_append [of f csv_comma s] leading_quote by (intro trim_left_idle) fastforce
  have hd: "hd (f @ csv_comma # s) \<noteq> csv_quote" for s using f(1) by (cases f) auto
  have lines: "csv_lines (f @ csv_comma # t) = (case csv_lines t of [] \<Rightarrow> [f @ [csv_comma]] | l # ls \<Rightarrow> (f @ csv_comma # l) # ls)"
    using lines_plain [of "f @ [csv_comma]" t] f by (simp split: list.split)
  show ?thesis
    by (cases "csv_lines t")
      (use f(1) split_first_append [OF f(4)] lead hd in
        \<open>simp_all add: fields_of_def lines parse_fields.simps [of "f @ _"] Let_def\<close>)
qed

lemma fields_plain_end:
  assumes "\<not> field_needs_quotes f"
  shows "fields_of (f @ csv_nl # t) = Inr ([f], csv_lines t)"
proof (cases "f = []")
  case True
  have "trim_left [csv_nl] = []" by code_simp
  with True show ?thesis
    by (simp add: fields_of_def parse_fields.simps [of "[csv_nl]"] Let_def strip_nl_def)
next
  case False
  note f = plain_field [OF assms]
  have lead: "trim_left (f @ [csv_nl]) = f @ [csv_nl]"
    using f False leading_append [of f csv_nl "[]"] by (intro trim_left_idle) auto
  have hd: "hd (f @ [csv_nl]) \<noteq> csv_quote" using f(1) False by (cases f) auto
  have lines: "csv_lines (f @ csv_nl # t) = (f @ [csv_nl]) # csv_lines t"
    using lines_plain [of f "csv_nl # t"] f by simp
  have "split_first csv_comma (f @ [csv_nl]) = None" using f by (simp add: split_first_None)
  then show ?thesis
    using f(1) lead hd by (simp add: fields_of_def lines parse_fields.simps [of "f @ _"] Let_def strip_nl_def)
qed

lemma fields_comma: "fields_of (csv_field f @ csv_comma # t) = cons_field (crlf f) (fields_of t)"
  by (cases "field_needs_quotes f")
    (simp_all add: csv_field_def fields_plain_comma fields_quoted quoted_escape quoted_comma crlf_idle plain_field(3))

lemma fields_end: "fields_of (csv_field f @ csv_nl # t) = Inr ([crlf f], csv_lines t)"
  by (cases "field_needs_quotes f")
    (simp_all add: csv_field_def fields_plain_end fields_quoted quoted_escape quoted_end crlf_idle plain_field(3))

lemma fields_record: "fs \<noteq> [] \<Longrightarrow> fields_of (csv_record fs @ t) = Inr (map crlf fs, csv_lines t)"
proof (induction fs rule: induct_list012)
  case (3 f g fs)
  then show ?case by (simp add: csv_record_def fields_comma cons_field_def)
qed (simp_all add: csv_record_def fields_end)

lemma record_lines:
  assumes "fs \<noteq> []" and "fs \<noteq> [[]]"
  shows "\<exists>l ls. csv_lines (csv_record fs @ t) = l # ls \<and> l \<noteq> [csv_nl] \<and> parse_fields l ls = Inr (map crlf fs, csv_lines t)"
proof -
  have ends: "csv_lines (x @ csv_nl # t) \<noteq> []" for x
  proof (induction x)
    case (Cons c x)
    then show ?case by (auto split: list.splits)
  qed simp
  have rec: "\<exists>x. csv_record fs @ t = x @ csv_nl # t" by (simp add: csv_record_def)
  with ends obtain l ls where l: "csv_lines (csv_record fs @ t) = l # ls"
    by (metis neq_Nil_conv)
  have fields: "parse_fields l ls = Inr (map crlf fs, csv_lines t)"
    using fields_record [OF assms(1), of t] by (simp add: fields_of_def l)
  have "l \<noteq> [csv_nl]"
  proof
    assume nl: "l = [csv_nl]"
    have "trim_left [csv_nl] = []" by code_simp
    then have "parse_fields l ls = Inr ([[]], ls)"
      by (simp add: nl parse_fields.simps [of "[csv_nl]"] Let_def strip_nl_def)
    with fields assms(2) show False by (auto simp: map_eq_Cons_conv)
  qed
  with l fields show ?thesis by blast
qed

text \<open>Records of at least one field, not the single empty one, come back.\<close>

definition csv_clean :: "string list \<Rightarrow> bool" where
  "csv_clean fs \<longleftrightarrow> fs \<noteq> [] \<and> fs \<noteq> [[]]"

lemma csv_read_write:
  "\<forall>fs \<in> set rs. csv_clean fs \<Longrightarrow> csv_read (csv_write rs) = (map (map crlf) rs, None)"
proof (induction rs)
  case Nil
  show ?case by (simp add: csv_read_def csv_write_def)
next
  case (Cons fs rs)
  then have "csv_clean fs" by simp
  from record_lines [of fs "csv_write rs"] this obtain l ls where
    "csv_lines (csv_record fs @ csv_write rs) = l # ls" "l \<noteq> [csv_nl]"
    "parse_fields l ls = Inr (map crlf fs, csv_lines (csv_write rs))" by (auto simp: csv_clean_def)
  with Cons show ?case by (simp add: csv_read_def csv_write_def)
qed

end
