(* ===== verification/Grades.thy ===== *)
theory Grades
  imports Admin Go_Csv "HOL-Library.Sublist"
begin

text \<open>
  \<^verbatim>\<open>api/internal/service/grade\<close> with the queries of \<^verbatim>\<open>db/queries/grades.sql\<close>, and the CSV that the admin
  handler writes for an export. Grades are stored per lab and student id with an ordered list of
  labelled items (a JSONB column, kept as the decoded list). An import upserts row by row, without a
  transaction; \<open>now i\<close> is the database clock at the i-th upsert.
\<close>

section \<open>Queries\<close>

definition is_grade :: "string \<Rightarrow> string \<Rightarrow> grade_row \<Rightarrow> bool" where
  "is_grade lab student g \<longleftrightarrow> gr_lab g = lab \<and> gr_student g = student"

definition published_by :: "time \<Rightarrow> grade_row \<Rightarrow> bool" where
  "published_by now g = (case gr_published g of None \<Rightarrow> False | Some p \<Rightarrow> p \<le> now)"

definition GetFinalGrade :: "time \<Rightarrow> string \<Rightarrow> string \<Rightarrow> db \<Rightarrow> db_error + grade_row" where
  "GetFinalGrade now lab student d = one (find (\<lambda>g. is_grade lab student g \<and> published_by now g) (db_grades d))"

definition ListPublishedFinalGradesByStudent :: "time \<Rightarrow> string \<Rightarrow> db \<Rightarrow> grade_row list" where
  "ListPublishedFinalGradesByStudent now student d =
     sort_stable (\<lambda>a b. gr_updated a > gr_updated b)
       (filter (\<lambda>g. gr_student g = student \<and> published_by now g) (db_grades d))"

definition PublishFinalGrades :: "time \<Rightarrow> string \<Rightarrow> db \<Rightarrow> nat \<times> db" where
  "PublishFinalGrades now lab d =
     (let P = (\<lambda>g. gr_lab g = lab \<and> gr_published g = None)
      in (count_where P (db_grades d),
          d\<lparr>db_grades := update_where P (\<lambda>g. g\<lparr>gr_published := Some now, gr_updated := now\<rparr>) (db_grades d)\<rparr>))"

definition DeleteFinalGradesByLab :: "string \<Rightarrow> db \<Rightarrow> nat \<times> db" where
  "DeleteFinalGradesByLab lab d =
     (count_where (\<lambda>g. gr_lab g = lab) (db_grades d),
      d\<lparr>db_grades := delete_where (\<lambda>g. gr_lab g = lab) (db_grades d)\<rparr>)"

text \<open>Rows, published rows, and the latest update.\<close>

definition SummarizeFinalGrades :: "string \<Rightarrow> db \<Rightarrow> nat \<times> nat \<times> time option" where
  "SummarizeFinalGrades lab d =
     (let gs = filter (\<lambda>g. gr_lab g = lab) (db_grades d)
      in (length gs, count_where (\<lambda>g. gr_published g \<noteq> None) gs,
          if gs = [] then None else Some (fold max (map gr_updated (tl gs)) (gr_updated (hd gs)))))"

record grade_params =
  gp_student :: string
  gp_total :: "string option"
  gp_remark :: "string option"
  gp_items :: "(string \<times> string) list"

definition params_text :: "grade_params \<Rightarrow> bool" where
  "params_text p \<longleftrightarrow> pg_text (Some (gp_student p)) \<and> pg_text (gp_total p) \<and> pg_text (gp_remark p) \<and>
     list_all (\<lambda>(l, v). pg_text (Some l) \<and> pg_text (Some v)) (gp_items p)"

definition UpsertFinalGrade :: "time \<Rightarrow> string \<Rightarrow> grade_params \<Rightarrow> db \<Rightarrow> db_error + db" where
  "UpsertFinalGrade now lab p d =
     (if \<not> (pg_text (Some lab) \<and> params_text p) then Inl InvalidText
      else if find (is_grade lab (gp_student p)) (db_grades d) = None
      then Inr (d\<lparr>db_grades := db_grades d @ [\<lparr>gr_lab = lab, gr_student = gp_student p, gr_total = gp_total p,
             gr_remark = gp_remark p, gr_items = gp_items p, gr_published = None, gr_updated = now\<rparr>]\<rparr>)
      else Inr (d\<lparr>db_grades := update_where (is_grade lab (gp_student p))
             (\<lambda>g. g\<lparr>gr_total := gp_total p, gr_remark := gp_remark p, gr_items := gp_items p, gr_updated := now\<rparr>)
             (db_grades d)\<rparr>))"

section \<open>Reading grades\<close>

datatype grade_error = GradeNotFound | GradeInvalidCSV | GradeInvalidLab | GradeDb db_error

record grade_view =
  gv_lab :: string
  gv_student :: string
  gv_total :: string
  gv_items :: "(string \<times> string) list"
  gv_remark :: string
  gv_published :: "time option"
  gv_updated :: time

definition trimmed_text :: "string option \<Rightarrow> string" where
  "trimmed_text v = (case v of None \<Rightarrow> [] | Some t \<Rightarrow> trim_space t)"

definition gradeFromRow :: "grade_row \<Rightarrow> grade_view" where
  "gradeFromRow g =
     \<lparr>gv_lab = gr_lab g, gv_student = gr_student g, gv_total = trimmed_text (gr_total g), gv_items = gr_items g,
      gv_remark = trimmed_text (gr_remark g), gv_published = gr_published g, gv_updated = gr_updated g\<rparr>"

definition GetGrade :: "bool \<Rightarrow> time \<Rightarrow> string \<Rightarrow> string \<Rightarrow> db \<Rightarrow> grade_error + grade_view" where
  "GetGrade fails now labID studentID d =
     (if blank labID \<or> blank studentID then Inl GradeNotFound
      else (case faulty fails (GetFinalGrade now (trim_space labID) (trim_space studentID) d) of
              Inl err \<Rightarrow> Inl (if err = NoRows then GradeNotFound else GradeDb err)
            | Inr g \<Rightarrow> Inr (gradeFromRow g)))"

definition ListGrades :: "bool \<Rightarrow> time \<Rightarrow> string \<Rightarrow> db \<Rightarrow> grade_error + grade_view list" where
  "ListGrades fails now studentID d =
     (if blank studentID then Inr []
      else if fails then Inl (GradeDb Unavailable)
      else Inr (map gradeFromRow (ListPublishedFinalGradesByStudent now (trim_space studentID) d)))"

section \<open>Importing\<close>

datatype column_role = RoleIgnore | RoleStudentID | RoleTotal | RoleRemark | RoleItem

definition totalAliases :: "string list" where
  "totalAliases = [''total'', ''score'', ''grade'',
     [CHR 0xE6, CHR 0x80, CHR 0xBB, CHR 0xE8, CHR 0xAF, CHR 0x84],
     [CHR 0xE6, CHR 0x80, CHR 0xBB, CHR 0xE5, CHR 0x88, CHR 0x86],
     [CHR 0xE6, CHR 0x88, CHR 0x90, CHR 0xE7, CHR 0xBB, CHR 0xA9]]"

definition remarkAliases :: "string list" where
  "remarkAliases = [''remark'', ''note'', ''comment'',
     [CHR 0xE5, CHR 0xA4, CHR 0x87, CHR 0xE6, CHR 0xB3, CHR 0xA8],
     [CHR 0xE8, CHR 0xAF, CHR 0xB4, CHR 0xE6, CHR 0x98, CHR 0x8E]]"

definition column_label :: "string \<Rightarrow> string" where
  "column_label raw = trim_prefix (trim_space raw) [CHR 0xEF, CHR 0xBB, CHR 0xBF]"

text \<open>The state of the loop: the index, the student column, and whether total and remark are taken.\<close>

fun plan_from :: "nat \<Rightarrow> nat option \<Rightarrow> bool \<Rightarrow> bool \<Rightarrow> string list \<Rightarrow> (column_role \<times> string) list \<times> nat option" where
  "plan_from i sid totalTaken remarkTaken [] = ([], sid)"
| "plan_from i sid totalTaken remarkTaken (raw # hs) =
     (let label = column_label raw; key = to_lower label;
          (role, sid', totalTaken', remarkTaken') =
            (if key = [] then (RoleIgnore, sid, totalTaken, remarkTaken)
             else if key = ''student_id'' \<and> sid = None then (RoleStudentID, Some i, totalTaken, remarkTaken)
             else if \<not> totalTaken \<and> key \<in> set totalAliases then (RoleTotal, sid, True, remarkTaken)
             else if \<not> remarkTaken \<and> key \<in> set remarkAliases then (RoleRemark, sid, totalTaken, True)
             else (RoleItem, sid, totalTaken, remarkTaken));
          (plan, s) = plan_from (Suc i) sid' totalTaken' remarkTaken' hs
      in ((role, if role = RoleIgnore then [] else label) # plan, s))"

definition planColumns :: "string list \<Rightarrow> (column_role \<times> string) list \<times> nat option" where
  "planColumns header = plan_from 0 None False False header"

definition cell :: "string list \<Rightarrow> nat \<Rightarrow> string" where
  "cell record i = (if i < length record then trim_space (record ! i) else [])"

definition optionalText :: "string \<Rightarrow> string option" where
  "optionalText v = (if v = [] then None else Some v)"

text \<open>The value of the last column of a role.\<close>

definition role_value :: "column_role \<Rightarrow> (column_role \<times> string) list \<Rightarrow> string list \<Rightarrow> string" where
  "role_value role plan record =
     (case find (\<lambda>(i, r, l). r = role) (rev (enumerate 0 plan)) of
        None \<Rightarrow> [] | Some (i, _) \<Rightarrow> cell record i)"

definition item_values :: "(column_role \<times> string) list \<Rightarrow> string list \<Rightarrow> (string \<times> string) list" where
  "item_values plan record =
     map (\<lambda>(i, r, l). (l, cell record i))
       (filter (\<lambda>(i, r, l). r = RoleItem \<and> cell record i \<noteq> []) (enumerate 0 plan))"

definition buildGradeParams :: "(column_role \<times> string) list \<Rightarrow> nat \<Rightarrow> string list \<Rightarrow> grade_params option" where
  "buildGradeParams plan sid record =
     (let student = cell record sid
      in if student = [] then None
         else Some \<lparr>gp_student = student, gp_total = optionalText (role_value RoleTotal plan record),
                    gp_remark = optionalText (role_value RoleRemark plan record), gp_items = item_values plan record\<rparr>)"

definition isBlankRecord :: "string list \<Rightarrow> bool" where
  "isBlankRecord record = list_all blank record"

text \<open>
  The loop over the records after the header; \<open>broken\<close> tells whether the reader stopped at a malformed one.
\<close>

fun import_rows ::
  "(nat \<Rightarrow> bool) \<Rightarrow> (nat \<Rightarrow> time) \<Rightarrow> string \<Rightarrow> (column_role \<times> string) list \<Rightarrow> nat \<Rightarrow> nat \<Rightarrow> string list list \<Rightarrow> bool \<Rightarrow>
   db \<Rightarrow> (grade_error + nat) \<times> db" where
  "import_rows flt now lab plan sid n [] broken d = ((if broken then Inl GradeInvalidCSV else Inr n), d)"
| "import_rows flt now lab plan sid n (r # rs) broken d =
     (if isBlankRecord r then import_rows flt now lab plan sid n rs broken d
      else (case buildGradeParams plan sid r of
              None \<Rightarrow> import_rows flt now lab plan sid n rs broken d
            | Some p \<Rightarrow>
                (case faulty (flt n) (UpsertFinalGrade (now n) lab p d) of
                   Inl err \<Rightarrow> (Inl (GradeDb err), d)
                 | Inr d' \<Rightarrow> import_rows flt now lab plan sid (Suc n) rs broken d')))"

definition ImportGrades ::
  "(nat \<Rightarrow> bool) \<Rightarrow> (nat \<Rightarrow> time) \<Rightarrow> string \<Rightarrow> string \<Rightarrow> db \<Rightarrow> (grade_error + (string \<times> nat)) \<times> db" where
  "ImportGrades flt now labID text d =
     (if blank labID then (Inl GradeInvalidLab, d)
      else (case csv_read text of
              ([], _) \<Rightarrow> (Inl GradeInvalidCSV, d)
            | (header # records, err) \<Rightarrow>
                (case planColumns header of
                   (plan, None) \<Rightarrow> (Inl GradeInvalidCSV, d)
                 | (plan, Some sid) \<Rightarrow>
                     (let (res, d') = import_rows flt now (trim_space labID) plan sid 0 records (err \<noteq> None) d
                      in (map_sum id (Pair (trim_space labID)) res, d')))))"

section \<open>Publishing, deleting, status\<close>

definition PublishGrades :: "bool \<Rightarrow> time \<Rightarrow> string \<Rightarrow> db \<Rightarrow> (grade_error + (string \<times> nat)) \<times> db" where
  "PublishGrades fails now labID d =
     (if blank labID then (Inl GradeInvalidLab, d)
      else if fails then (Inl (GradeDb Unavailable), d)
      else (let (n, d') = PublishFinalGrades now (trim_space labID) d in (Inr (trim_space labID, n), d')))"

definition DeleteGrades :: "bool \<Rightarrow> string \<Rightarrow> db \<Rightarrow> (grade_error + (string \<times> nat)) \<times> db" where
  "DeleteGrades fails labID d =
     (if blank labID then (Inl GradeInvalidLab, d)
      else if fails then (Inl (GradeDb Unavailable), d)
      else (let (n, d') = DeleteFinalGradesByLab (trim_space labID) d in (Inr (trim_space labID, n), d')))"

record grade_status =
  gs_lab :: string
  gs_total :: int
  gs_published :: int
  gs_unpublished :: int
  gs_last :: "time option"

definition GradeStatus :: "bool \<Rightarrow> string \<Rightarrow> db \<Rightarrow> grade_error + grade_status" where
  "GradeStatus fails labID d =
     (if blank labID then Inl GradeInvalidLab
      else if fails then Inl (GradeDb Unavailable)
      else (let (n, published, latest) = SummarizeFinalGrades (trim_space labID) d
            in Inr \<lparr>gs_lab = trim_space labID, gs_total = int n, gs_published = int published,
                    gs_unpublished = int n - int published, gs_last = latest\<rparr>))"

section \<open>The export file\<close>

text \<open>The CSV of the export: the columns, then one record per row with its rank in decimal.\<close>

definition export_records :: "export_result \<Rightarrow> string list list" where
  "export_records x =
     ex_columns x # map (\<lambda>r. [er_student r, nat_text (er_rank r), er_nickname r, er_track r] @ er_scores r) (ex_rows x)"

definition export_csv :: "export_result \<Rightarrow> string" where
  "export_csv x = csv_write (export_records x)"

section \<open>What an import stores\<close>

definition grade_key :: "grade_row \<Rightarrow> string \<times> string" where "grade_key g = (gr_lab g, gr_student g)"

definition grade_at :: "string \<Rightarrow> string \<Rightarrow> db \<Rightarrow> grade_row option" where
  "grade_at lab student d = find (is_grade lab student) (db_grades d)"

definition content :: "grade_row \<Rightarrow> string option \<times> string option \<times> (string \<times> string) list" where
  "content g = (gr_total g, gr_remark g, gr_items g)"

definition params_content :: "grade_params \<Rightarrow> string option \<times> string option \<times> (string \<times> string) list" where
  "params_content p = (gp_total p, gp_remark p, gp_items p)"

lemma is_grade_key: "is_grade lab student = (\<lambda>g. grade_key g = (lab, student))"
  by (auto simp: is_grade_def grade_key_def)

lemma upsert_grade_at:
  assumes "UpsertFinalGrade now lab p d = Inr d'"
  shows "map_option content (grade_at l s d') =
      (if l = lab \<and> s = gp_student p then Some (params_content p) else map_option content (grade_at l s d))"
    and "Option.bind (grade_at l s d') gr_published = Option.bind (grade_at l s d) gr_published"
proof -
  let ?new = "\<lparr>gr_lab = lab, gr_student = gp_student p, gr_total = gp_total p,
             gr_remark = gp_remark p, gr_items = gp_items p, gr_published = None, gr_updated = now\<rparr>"
  let ?f = "\<lambda>g. g\<lparr>gr_total := gp_total p, gr_remark := gp_remark p, gr_items := gp_items p, gr_updated := now\<rparr>"
  have "map_option content (grade_at l s d') =
      (if l = lab \<and> s = gp_student p then Some (params_content p) else map_option content (grade_at l s d)) \<and>
    Option.bind (grade_at l s d') gr_published = Option.bind (grade_at l s d) gr_published"
  proof (cases "find (is_grade lab (gp_student p)) (db_grades d)")
    case None
    with assms have "db_grades d' = db_grades d @ [?new]" by (auto simp: UpsertFinalGrade_def split: if_splits)
    with None show ?thesis
      by (auto simp: grade_at_def find_append is_grade_def content_def params_content_def split: option.splits)
  next
    case (Some g)
    with assms have d': "db_grades d' = update_where (is_grade lab (gp_student p)) ?f (db_grades d)"
      by (auto simp: UpsertFinalGrade_def split: if_splits)
    have "grade_at l s d' = map_option (\<lambda>g. if is_grade lab (gp_student p) g then ?f g else g) (grade_at l s d)"
      unfolding grade_at_def d' by (rule find_update_where) (simp add: is_grade_def)
    moreover have "h = g" if "grade_at lab (gp_student p) d = Some h" for h
      using that Some by (simp add: grade_at_def)
    ultimately show ?thesis
      using Some find_SomeD [of "is_grade l s" "db_grades d"]
      by (cases "grade_at l s d") (auto simp: grade_at_def is_grade_def content_def params_content_def)
  qed
  then show "map_option content (grade_at l s d') =
      (if l = lab \<and> s = gp_student p then Some (params_content p) else map_option content (grade_at l s d))"
    and "Option.bind (grade_at l s d') gr_published = Option.bind (grade_at l s d) gr_published"
    by blast+
qed

definition updates :: "(column_role \<times> string) list \<Rightarrow> nat \<Rightarrow> string list list \<Rightarrow> grade_params list" where
  "updates plan sid rs = List.map_filter (\<lambda>r. if isBlankRecord r then None else buildGradeParams plan sid r) rs"

text \<open>The content of the row of a student after the updates \<open>us\<close> of a lab: the last one wins.\<close>

definition after_updates :: "string \<Rightarrow> grade_params list \<Rightarrow> db \<Rightarrow> string \<Rightarrow> string \<Rightarrow>
   (string option \<times> string option \<times> (string \<times> string) list) option" where
  "after_updates lab us d l s =
     (case (if l = lab then find (\<lambda>p. gp_student p = s) (rev us) else None) of
        None \<Rightarrow> map_option content (grade_at l s d)
      | Some p \<Rightarrow> Some (params_content p))"

lemma import_rows_stores:
  assumes "import_rows flt now lab plan sid n rs broken d = (res, d')"
  shows "\<exists>us. prefix us (updates plan sid rs) \<and>
    (\<forall>l s. map_option content (grade_at l s d') = after_updates lab us d l s) \<and>
    (\<forall>l s. Option.bind (grade_at l s d') gr_published = Option.bind (grade_at l s d) gr_published) \<and>
    (\<forall>k. res = Inr k \<longrightarrow> us = updates plan sid rs \<and> k = n + length us \<and> \<not> broken)"
  using assms
proof (induction rs arbitrary: n d)
  case Nil
  then show ?case
    by (intro exI [of _ "[]"]) (auto simp: updates_def after_updates_def map_filter_simps split: if_splits)
next
  case (Cons r rs)
  show ?case
  proof (cases "if isBlankRecord r then None else buildGradeParams plan sid r")
    case None
    then have "import_rows flt now lab plan sid n rs broken d = (res, d')"
      using Cons.prems by (simp split: if_splits)
    moreover have "updates plan sid (r # rs) = updates plan sid rs"
      using None by (simp add: updates_def map_filter_simps)
    ultimately show ?thesis using Cons.IH by simp
  next
    case (Some p)
    then have u: "updates plan sid (r # rs) = p # updates plan sid rs"
      by (simp add: updates_def map_filter_simps)
    show ?thesis
    proof (cases "faulty (flt n) (UpsertFinalGrade (now n) lab p d)")
      case (Inl err)
      with Some Cons.prems have "res = Inl (GradeDb err) \<and> d' = d" by (simp split: if_splits)
      then show ?thesis by (intro exI [of _ "[]"]) (simp add: after_updates_def)
    next
      case (Inr d1)
      with Some Cons.prems have "import_rows flt now lab plan sid (Suc n) rs broken d1 = (res, d')"
        by (simp split: if_splits)
      from Cons.IH [OF this] obtain us where us: "prefix us (updates plan sid rs)"
        "\<forall>l s. map_option content (grade_at l s d') = after_updates lab us d1 l s"
        "\<forall>l s. Option.bind (grade_at l s d') gr_published = Option.bind (grade_at l s d1) gr_published"
        "\<forall>k. res = Inr k \<longrightarrow> us = updates plan sid rs \<and> k = Suc n + length us \<and> \<not> broken" by blast
      from Inr have up: "UpsertFinalGrade (now n) lab p d = Inr d1" by simp
      have "after_updates lab us d1 l s = after_updates lab (p # us) d l s" for l s
        using upsert_grade_at(1) [OF up, of l s]
        by (auto simp: after_updates_def find_append split: option.splits)
      with us upsert_grade_at(2) [OF up] u show ?thesis
        by (intro exI [of _ "p # us"]) auto
    qed
  qed
qed

text \<open>An import stores, for each student, the values of the last record that names the student, and
  touches no other row; what had been published stays published. A successful import has stored every
  record of the file with a student id, and reports how many there were; a failed one has stored some
  of them.\<close>

theorem ImportGrades_last_wins:
  assumes "ImportGrades flt now labID text d = (res, d')"
  shows "\<exists>us. (\<forall>l s. map_option content (grade_at l s d') = after_updates (trim_space labID) us d l s) \<and>
    (\<forall>l s. Option.bind (grade_at l s d') gr_published = Option.bind (grade_at l s d) gr_published) \<and>
    (us \<noteq> [] \<longrightarrow> (\<exists>header records err plan sid. csv_read text = (header # records, err) \<and>
       planColumns header = (plan, Some sid) \<and> prefix us (updates plan sid records))) \<and>
    (\<forall>lab k. res = Inr (lab, k) \<longrightarrow> lab = trim_space labID \<and> k = length us \<and>
       (\<exists>header records plan sid. csv_read text = (header # records, None) \<and>
          planColumns header = (plan, Some sid) \<and> us = updates plan sid records))"
proof -
  have none: "(\<forall>l s. map_option content (grade_at l s d) = after_updates (trim_space labID) [] d l s)"
    by (simp add: after_updates_def)
  show ?thesis
  proof (cases "blank labID")
    case True
    with assms none show ?thesis by (intro exI [of _ "[]"]) (auto simp: ImportGrades_def)
  next
    case False
    obtain rows err where read: "csv_read text = (rows, err)" by fastforce
    show ?thesis
    proof (cases rows)
      case Nil
      with assms none False read show ?thesis by (intro exI [of _ "[]"]) (auto simp: ImportGrades_def)
    next
      case (Cons header records)
      obtain plan sid where plan: "planColumns header = (plan, sid)" by fastforce
      show ?thesis
      proof (cases sid)
        case None
        with assms none False read Cons plan show ?thesis by (intro exI [of _ "[]"]) (auto simp: ImportGrades_def)
      next
        case (Some i)
        obtain r e where rows: "import_rows flt now (trim_space labID) plan i 0 records (err \<noteq> None) d = (r, e)"
          by fastforce
        with assms False read Cons plan Some have res: "res = map_sum id (Pair (trim_space labID)) r" "d' = e"
          by (simp_all add: ImportGrades_def)
        from import_rows_stores [OF rows] obtain us where us: "prefix us (updates plan i records)"
          "\<forall>l s. map_option content (grade_at l s e) = after_updates (trim_space labID) us d l s"
          "\<forall>l s. Option.bind (grade_at l s e) gr_published = Option.bind (grade_at l s d) gr_published"
          "\<forall>k. r = Inr k \<longrightarrow> us = updates plan i records \<and> k = 0 + length us \<and> \<not> err \<noteq> None" by blast
        then show ?thesis
          by (intro exI [of _ us]) (cases r; use res read Cons plan Some in auto)
      qed
    qed
  qed
qed

lemma updates_trimmed: "p \<in> set (updates plan sid rs) \<Longrightarrow> gp_student p \<noteq> [] \<and> trim_space (gp_student p) = gp_student p"
  by (auto simp: updates_def map_filter_def buildGradeParams_def Let_def cell_def split: if_splits)

lemma GetGrade_at:
  assumes "grade_at (trim_space labID) s d = Some g" and "published_by t g" and "\<not> blank labID"
    and "trim_space s = s" and "s \<noteq> []"
  shows "GetGrade False t labID s d = Inr (gradeFromRow g)"
proof -
  have "find (\<lambda>g. P g \<and> Q g) xs = Some x" if "find P xs = Some x" "Q x" for P Q and xs :: "grade_row list" and x
    using that by (induction xs) (auto split: if_splits)
  with assms show ?thesis by (simp add: GetGrade_def GetFinalGrade_def grade_at_def blank_def)
qed

text \<open>Importing again over published grades shows the new values to the students at once: they are not
  held back until the next publication.\<close>

theorem reimport_is_visible:
  assumes "ImportGrades flt now labID text d = (Inr (lab, k), d')"
    and "csv_read text = (header # records, None)" and "planColumns header = (plan, Some sid)"
    and "find (\<lambda>p. gp_student p = s) (rev (updates plan sid records)) = Some p"
    and "grade_at lab s d = Some g" and "published_by t g"
  shows "\<exists>v. GetGrade False t labID s d' = Inr v \<and> gv_total v = trimmed_text (gp_total p) \<and>
    gv_remark v = trimmed_text (gp_remark p) \<and> gv_items v = gp_items p"
proof -
  have "\<not> blank labID" using assms(1) by (auto simp: ImportGrades_def split: if_splits)
  then obtain r where rows: "import_rows flt now (trim_space labID) plan sid 0 records False d = (r, d')"
    and r: "map_sum id (Pair (trim_space labID)) r = Inr (lab, k)"
    using assms(1-3) by (auto simp: ImportGrades_def split: prod.splits)
  from r have lab: "lab = trim_space labID" "r = Inr k" by (cases r; simp)+
  from import_rows_stores [OF rows] lab have st:
      "map_option content (grade_at lab s d') = after_updates lab (updates plan sid records) d lab s"
      "Option.bind (grade_at lab s d') gr_published = Option.bind (grade_at lab s d) gr_published" by auto
  from st(1) assms(4) obtain h where h: "grade_at lab s d' = Some h" "content h = params_content p"
    by (cases "grade_at lab s d'") (auto simp: after_updates_def)
  with st(2) assms(5,6) have "published_by t h" by (simp add: published_by_def)
  moreover have "gp_student p = s" "p \<in> set (updates plan sid records)" using find_SomeD [OF assms(4)] by auto
  ultimately have "GetGrade False t labID s d' = Inr (gradeFromRow h)"
    using GetGrade_at [of labID s d' h t] h \<open>\<not> blank labID\<close> lab updates_trimmed [of p plan sid records] by auto
  with h(2) show ?thesis by (auto simp: gradeFromRow_def content_def params_content_def)
qed


section \<open>A concrete import\<close>

definition sample_csv :: string where
  "sample_csv = ''student_id,total,part 1'' @ [csv_nl] @ ''ann,90,3'' @ [csv_nl] @ ''bob,80,'' @ [csv_nl] @ ''ann,95,4'' @ [csv_nl]"

definition sample_grade_db :: db where
  "sample_grade_db = empty_db\<lparr>db_grades := [\<lparr>gr_lab = ''lab'', gr_student = ''ann'', gr_total = Some ''10'',
     gr_remark = None, gr_items = [], gr_published = Some 1, gr_updated = 1\<rparr>]\<rparr>"

lemma sample_import:
  "fst (ImportGrades (\<lambda>_. False) (\<lambda>i. 5) ''lab'' sample_csv sample_grade_db) = Inr (''lab'', 3)"
  "csv_read sample_csv = ([[''student_id'', ''total'', ''part 1''], [''ann'', ''90'', ''3''], [''bob'', ''80'', []],
     [''ann'', ''95'', ''4'']], None)"
  "planColumns [''student_id'', ''total'', ''part 1''] =
     ([(RoleStudentID, ''student_id''), (RoleTotal, ''total''), (RoleItem, ''part 1'')], Some 0)"
  "find (\<lambda>p. gp_student p = ''ann'') (rev (updates
     [(RoleStudentID, ''student_id''), (RoleTotal, ''total''), (RoleItem, ''part 1'')] 0
     [[''ann'', ''90'', ''3''], [''bob'', ''80'', []], [''ann'', ''95'', ''4'']])) =
     Some \<lparr>gp_student = ''ann'', gp_total = Some ''95'', gp_remark = None, gp_items = [(''part 1'', ''4'')]\<rparr>"
  "trim_space ''lab'' = ''lab''" "trimmed_text (Some ''95'') = ''95''"
  by code_simp+

theorem ImportGrades_last_wins_witness:
  "\<exists>d'. ImportGrades (\<lambda>_. False) (\<lambda>i. 5) ''lab'' sample_csv sample_grade_db = (Inr (''lab'', 3), d') \<and>
     map_option content (grade_at ''lab'' ''ann'' d') = Some (Some ''95'', None, [(''part 1'', ''4'')])"
proof -
  obtain d' where r: "ImportGrades (\<lambda>_. False) (\<lambda>i. 5) ''lab'' sample_csv sample_grade_db = (Inr (''lab'', 3), d')"
    using sample_import(1) by (metis prod.collapse)
  from ImportGrades_last_wins [OF r] obtain us where us:
      "\<forall>l s. map_option content (grade_at l s d') = after_updates ''lab'' us sample_grade_db l s"
      "\<exists>header records plan sid. csv_read sample_csv = (header # records, None) \<and>
          planColumns header = (plan, Some sid) \<and> us = updates plan sid records"
    using sample_import(5) by auto
  from us(2) have "us = updates [(RoleStudentID, ''student_id''), (RoleTotal, ''total''), (RoleItem, ''part 1'')] 0
     [[''ann'', ''90'', ''3''], [''bob'', ''80'', []], [''ann'', ''95'', ''4'']]"
    by (auto simp: sample_import(2,3))
  with us(1) [rule_format, of "''lab''" "''ann''"] sample_import(4)
  have "map_option content (grade_at ''lab'' ''ann'' d') = Some (Some ''95'', None, [(''part 1'', ''4'')])"
    by (simp add: after_updates_def params_content_def)
  with r show ?thesis by blast
qed

theorem reimport_is_visible_witness:
  "\<exists>d' v. ImportGrades (\<lambda>_. False) (\<lambda>i. 5) ''lab'' sample_csv sample_grade_db = (Inr (''lab'', 3), d') \<and>
     GetGrade False 6 ''lab'' ''ann'' d' = Inr v \<and> gv_total v = ''95''"
proof -
  obtain d' where r: "ImportGrades (\<lambda>_. False) (\<lambda>i. 5) ''lab'' sample_csv sample_grade_db = (Inr (''lab'', 3), d')"
    using sample_import(1) by (metis prod.collapse)
  let ?g = "\<lparr>gr_lab = ''lab'', gr_student = ''ann'', gr_total = Some ''10'', gr_remark = None, gr_items = [],
     gr_published = Some 1, gr_updated = 1\<rparr>"
  have g: "grade_at ''lab'' ''ann'' sample_grade_db = Some ?g" "published_by 6 ?g"
    by (simp_all add: grade_at_def sample_grade_db_def is_grade_def published_by_def)
  from reimport_is_visible [OF r sample_import(2,3,4) g] r show ?thesis by (auto simp: sample_import(6))
qed

definition sample_export :: export_result where
  "sample_export = \<lparr>ex_lab = ''lab'', ex_filename = ''lab-grades.csv'',
     ex_columns = [''student_id'', ''rank'', ''nickname'', ''track'', ''speed'', ''mem''],
     ex_rows = map (\<lambda>k. \<lparr>er_student = ''s'', er_rank = k, er_nickname = anonymous, er_track = [],
       er_scores = [''0'', ''0'']\<rparr>) [1, 2, 3]\<rparr>"

lemma sample_export_facts:
  "ExportGrades (\<lambda>_. False) (\<lambda>_. ''0'') ''lab'' sample_export_db = Inr sample_export"
  "map crlf (ex_columns sample_export) = ex_columns sample_export"
  "map (\<lambda>r. map crlf ([er_student r, nat_text (er_rank r), er_nickname r, er_track r] @ er_scores r)) (ex_rows sample_export) =
   map (\<lambda>r. [er_student r, nat_text (er_rank r), er_nickname r, er_track r] @ er_scores r) (ex_rows sample_export)"
  by code_simp+


end
