(* ===== verification/Device_Auth.thy ===== *)
theory Device_Auth
  imports Db_Keys Leaderboard
begin

text \<open>
  \<^verbatim>\<open>api/internal/service/auth\<close> (\<^verbatim>\<open>device_flow.go\<close>, \<^verbatim>\<open>web_login.go\<close>) and its queries in \<^verbatim>\<open>db/queries/auth.sql\<close>: a
  device requests authorisation for its public key, the student signs in at the identity provider, and
  the callback binds the key to the student. The provider, the random bytes and the failing of each
  repository call are arguments. \<open>CompleteDeviceAuthRequest\<close> is one statement with data-modifying
  \<^verbatim>\<open>WITH\<close> clauses: they run whether or not the final \<^verbatim>\<open>SELECT\<close> yields a row.
\<close>

section \<open>Queries\<close>

definition pending :: "device_row \<Rightarrow> bool" where "pending r \<longleftrightarrow> da_status r = DaPending"

definition CreateDeviceAuthRequest :: "device_row \<Rightarrow> db \<Rightarrow> db_error + (device_row \<times> db)" where
  "CreateDeviceAuthRequest r d =
     (if \<not> (pg_text (Some (da_public r)) \<and> pg_text (Some (da_device r))) then Inl InvalidText
      else if \<exists>q \<in> set (db_devices d). da_code q = da_code r \<or> da_state r \<noteq> None \<and> da_state q = da_state r \<or>
           pending r \<and> pending q \<and> da_user_code q = da_user_code r
      then Inl UniqueViolation
      else Inr (r, d\<lparr>db_devices := db_devices d @ [r]\<rparr>))"

definition GetDeviceAuthRequestByDeviceCode :: "string \<Rightarrow> db \<Rightarrow> db_error + device_row" where
  "GetDeviceAuthRequestByDeviceCode code d = one (find (\<lambda>r. da_code r = code) (db_devices d))"

definition GetPendingDeviceAuthRequestByUserCode :: "string \<Rightarrow> db \<Rightarrow> db_error + device_row" where
  "GetPendingDeviceAuthRequestByUserCode code d = one (find (\<lambda>r. da_user_code r = code \<and> pending r) (db_devices d))"

definition GetPendingDeviceAuthRequestByOAuthState :: "string option \<Rightarrow> db \<Rightarrow> db_error + device_row" where
  "GetPendingDeviceAuthRequestByOAuthState state d =
     one (find (\<lambda>r. state \<noteq> None \<and> da_state r = state \<and> pending r) (db_devices d))"

definition ExpireDeviceAuthRequests :: "time \<Rightarrow> db \<Rightarrow> db" where
  "ExpireDeviceAuthRequests now d =
     d\<lparr>db_devices := update_where (\<lambda>r. pending r \<and> da_expires r < now) (\<lambda>r. r\<lparr>da_status := DaExpired\<rparr>) (db_devices d)\<rparr>"

definition GetUserKeyByPublicKey :: "string \<Rightarrow> db \<Rightarrow> db_error + key_row" where
  "GetUserKeyByPublicKey pub d = one (find (\<lambda>k. k_public k = pub \<and> active_key k) (db_keys d))"

text \<open>The serial column advances on a conflict too. A new user has the default nickname.\<close>

definition UpsertUser :: "string \<Rightarrow> db \<Rightarrow> db_error + (user_row \<times> db)" where
  "UpsertUser student d =
     (if \<not> pg_text (Some student) then Inl InvalidText
      else (let i = db_user_seq d + 1
            in case find (\<lambda>u. u_student u = student) (db_users d) of
                 Some u \<Rightarrow> Inr (u, d\<lparr>db_user_seq := i\<rparr>)
               | None \<Rightarrow>
                   (let u = \<lparr>u_id = i, u_student = student, u_nickname = anonymous\<rparr>
                    in Inr (u, d\<lparr>db_users := db_users d @ [u], db_user_seq := i\<rparr>))))"

definition completes :: "time \<Rightarrow> string \<Rightarrow> string option \<Rightarrow> device_row \<Rightarrow> bool" where
  "completes now code state r \<longleftrightarrow>
     da_code r = code \<and> state \<noteq> None \<and> da_state r = state \<and> pending r \<and> now < da_expires r"

text \<open>User id, key id and the new state; without a row the state may have changed all the same.\<close>

definition CompleteDeviceAuthRequest ::
  "time \<Rightarrow> string \<Rightarrow> string option \<Rightarrow> string \<Rightarrow> string \<Rightarrow> string \<Rightarrow> db \<Rightarrow> (db_error + (int \<times> int)) \<times> db" where
  "CompleteDeviceAuthRequest now code state student fp device d =
     (if \<not> (pg_text (Some student) \<and> pg_text (Some device)) then (Inl InvalidText, d)
      else (case find (completes now code state) (db_devices d) of
        None \<Rightarrow> (Inl NoRows, d)
      | Some r \<Rightarrow>
          (let d1 = d\<lparr>db_devices := update_where (completes now code state)
                 (\<lambda>r. r\<lparr>da_student := Some student, da_status := DaApproved\<rparr>) (db_devices d)\<rparr>
           in case UpsertUser student d1 of
                Inl err \<Rightarrow> (Inl err, d)
              | Inr (u, d2) \<Rightarrow>
                  (case find (\<lambda>k. active_key k \<and> k_fingerprint k = Some fp) (db_keys d) of
                     Some k \<Rightarrow>
                       (if k_user k = u_id u \<and> k_public k = da_public r
                        then (Inr (u_id u, k_id k),
                              d2\<lparr>db_keys := update_where (\<lambda>q. k_id q = k_id k) (\<lambda>q. q\<lparr>k_device := device\<rparr>) (db_keys d2),
                                 db_key_seq := db_key_seq d2 + 1\<rparr>)
                        else (Inl NoRows, d2\<lparr>db_key_seq := db_key_seq d2 + 1\<rparr>))
                   | None \<Rightarrow>
                       (if \<exists>k \<in> set (db_keys d). active_key k \<and> k_public k = da_public r then (Inl UniqueViolation, d)
                        else (let i = db_key_seq d2 + 1;
                                  k = \<lparr>k_id = i, k_user = u_id u, k_public = da_public r, k_fingerprint = Some fp,
                                       k_device = device, k_created = now, k_revoked = None\<rparr>
                              in (Inr (u_id u, i), d2\<lparr>db_keys := db_keys d2 @ [k], db_key_seq := i\<rparr>)))))))"

section \<open>Codes\<close>

text \<open>\<^verbatim>\<open>base32.StdEncoding\<close> without padding: five bits per character, the last group filled with zeros.\<close>

definition byte_bits :: "nat \<Rightarrow> bool list" where
  "byte_bits b = map (\<lambda>i. odd (b div 2 ^ i)) [7, 6, 5, 4, 3, 2, 1, 0]"

definition base32_char :: "nat \<Rightarrow> char" where
  "base32_char v = (if v < 26 then char_of (65 + v) else char_of (24 + v))"

definition bits_value :: "bool list \<Rightarrow> nat" where
  "bits_value bs = foldl (\<lambda>a b. 2 * a + of_bool b) 0 bs"

function base32_bits :: "bool list \<Rightarrow> string" where
  "base32_bits bs =
     (if bs = [] then []
      else base32_char (bits_value (take 5 (bs @ replicate 4 False))) # base32_bits (drop 5 bs))"
  by pat_completeness auto
termination by (relation "measure length") (auto simp: neq_Nil_conv)

declare base32_bits.simps [simp del]

definition base32_text :: "nat list \<Rightarrow> string" where
  "base32_text bs = base32_bits (concat (map byte_bits bs))"

text \<open>The token of the random bytes read, and the user code made of five of them.\<close>

definition randomToken :: "(nat \<Rightarrow> nat list option) \<Rightarrow> nat \<Rightarrow> string option" where
  "randomToken rand n = map_option base32_text (rand (if n = 0 then 16 else n))"

definition randomUserCode :: "(nat \<Rightarrow> nat list option) \<Rightarrow> string option" where
  "randomUserCode rand =
     map_option (\<lambda>t. let u = to_upper t; u' = u @ replicate (8 - length u) (CHR ''X'')
                     in take 4 u' @ ''-'' @ take 4 (drop 4 u')) (randomToken rand 5)"

section \<open>The device flow\<close>

datatype flow_error =
    AuthInvalidState | AuthInvalidCode | AuthInvalidRequest | AuthNoProvider | AuthProviderFailed
  | AuthRandom | AuthDb db_error

text \<open>An authorisation URL for a state, the token set of a code, and the student id of a token set.\<close>

record token_set =
  ts_access :: string
  ts_type :: string
  ts_scope :: string
  ts_expiry :: "time option"

record provider =
  pv_authorize :: "string \<Rightarrow> string option"
  pv_exchange :: "string \<Rightarrow> token_set option"
  pv_identity :: "token_set \<Rightarrow> string option"

definition defaultDeviceAuthTTL :: duration where "defaultDeviceAuthTTL = 10 * minute"
definition defaultDeviceName :: string where "defaultDeviceName = ''unknown''"
definition defaultVerificationURL :: string where "defaultVerificationURL = ''/auth/device''"

definition name_or :: "string \<Rightarrow> string \<Rightarrow> string" where
  "name_or n fallback = (if blank n then fallback else trim_space n)"

record device_codes =
  dc_device :: "string option"
  dc_user :: "string option"
  dc_state :: "string option"

record device_result =
  dr_code :: string
  dr_user_code :: string
  dr_url :: string
  dr_state :: string
  dr_status :: device_status
  dr_expires :: time

definition CreateDeviceAuthorizationRequest ::
  "bool \<Rightarrow> device_codes \<Rightarrow> duration \<Rightarrow> time \<Rightarrow> string \<Rightarrow> string \<Rightarrow> db \<Rightarrow> (flow_error + device_result) \<times> db" where
  "CreateDeviceAuthorizationRequest fails codes ttl now publicKey deviceName d =
     (if blank publicKey then (Inl AuthInvalidRequest, d)
      else (case (dc_device codes, dc_user codes, dc_state codes) of
        (Some code, Some userCode, Some state) \<Rightarrow>
          (let ttl' = (if ttl \<le> 0 then defaultDeviceAuthTTL else ttl);
               r = \<lparr>da_code = code, da_user_code = userCode, da_public = publicKey,
                    da_device = name_or deviceName defaultDeviceName, da_student = None, da_state = Some state,
                    da_status = DaPending, da_expires = now + ttl'\<rparr>
           in case faulty fails (CreateDeviceAuthRequest r d) of
                Inl err \<Rightarrow> (Inl (AuthDb err), d)
              | Inr (row, d') \<Rightarrow>
                  (Inr \<lparr>dr_code = da_code row, dr_user_code = da_user_code row, dr_url = defaultVerificationURL,
                        dr_state = state, dr_status = da_status row, dr_expires = da_expires row\<rparr>, d'))
      | _ \<Rightarrow> (Inl AuthRandom, d)))"

record poll_result =
  po_code :: string
  po_user_code :: string
  po_status :: device_status
  po_student :: string
  po_key :: int

text \<open>\<open>fails\<close> tells which of the two reads fails.\<close>

definition PollDeviceAuthorizationRequest ::
  "bool \<times> bool \<Rightarrow> time \<Rightarrow> string \<Rightarrow> db \<Rightarrow> flow_error + poll_result" where
  "PollDeviceAuthorizationRequest fails now deviceCode d =
     (if blank deviceCode then Inl AuthInvalidRequest
      else (case faulty (fst fails) (GetDeviceAuthRequestByDeviceCode deviceCode d) of
        Inl err \<Rightarrow> Inl (if err = NoRows then AuthInvalidRequest else AuthDb err)
      | Inr r \<Rightarrow>
          (let status = (if da_status r = DaPending \<and> da_expires r < now then DaExpired else da_status r);
               result = (\<lambda>key. \<lparr>po_code = da_code r, po_user_code = da_user_code r, po_status = status,
                  po_student = (case da_student r of None \<Rightarrow> [] | Some s \<Rightarrow> s), po_key = key\<rparr>)
           in if status \<noteq> DaApproved then Inr (result 0)
              else (case faulty (snd fails) (GetUserKeyByPublicKey (da_public r) d) of
                      Inl err \<Rightarrow> if err = NoRows then Inr (result 0) else Inl (AuthDb err)
                    | Inr k \<Rightarrow> Inr (result (k_id k))))))"

definition blank_state :: "device_row \<Rightarrow> bool" where
  "blank_state r = (case da_state r of None \<Rightarrow> True | Some s \<Rightarrow> blank s)"

definition BeginDeviceVerification ::
  "bool \<Rightarrow> provider option \<Rightarrow> time \<Rightarrow> string \<Rightarrow> db \<Rightarrow> flow_error + string" where
  "BeginDeviceVerification fails prov now userCode d =
     (if blank userCode then Inl AuthInvalidRequest
      else (case faulty fails (GetPendingDeviceAuthRequestByUserCode (trim_space userCode) d) of
        Inl err \<Rightarrow> Inl (if err = NoRows then AuthInvalidRequest else AuthDb err)
      | Inr r \<Rightarrow>
          (if da_status r \<noteq> DaPending then Inl AuthInvalidRequest
           else if da_expires r < now then Inl AuthInvalidRequest
           else if blank_state r then Inl AuthInvalidState
           else (case prov of
                   None \<Rightarrow> Inl AuthNoProvider
                 | Some p \<Rightarrow> (case da_state r of
                     None \<Rightarrow> Inl AuthInvalidState
                   | Some state \<Rightarrow> (case pv_authorize p state of None \<Rightarrow> Inl AuthProviderFailed | Some url \<Rightarrow> Inr url))))))"

record bind_result =
  bi_student :: string
  bi_user :: int
  bi_key :: int

text \<open>\<open>now\<close> is the service clock, \<open>dbnow\<close> the one of the database.\<close>

definition DevBindDeviceAuthorizationRequest ::
  "bool \<times> bool \<Rightarrow> env \<Rightarrow> time \<Rightarrow> time \<Rightarrow> string \<Rightarrow> string \<Rightarrow> string \<Rightarrow> db \<Rightarrow> (flow_error + bind_result) \<times> db" where
  "DevBindDeviceAuthorizationRequest fails e now dbnow deviceCode studentID deviceName d =
     (if blank deviceCode \<or> blank studentID then (Inl AuthInvalidRequest, d)
      else (case faulty (fst fails) (GetDeviceAuthRequestByDeviceCode (trim_space deviceCode) d) of
        Inl err \<Rightarrow> (Inl (if err = NoRows then AuthInvalidRequest else AuthDb err), d)
      | Inr r \<Rightarrow>
          (if da_status r \<noteq> DaPending \<or> da_expires r < now then (Inl AuthInvalidRequest, d)
           else if blank_state r then (Inl AuthInvalidState, d)
           else (case AuthorizedKeyFingerprint e (da_public r) of
                   None \<Rightarrow> (Inl AuthInvalidRequest, d)
                 | Some fp \<Rightarrow>
                     (if snd fails then (Inl (AuthDb Unavailable), d)
                      else (case CompleteDeviceAuthRequest dbnow (da_code r) (da_state r) (trim_space studentID) fp
                                   (name_or deviceName (name_or (da_device r) defaultDeviceName)) d of
                              (Inl err, d') \<Rightarrow> (Inl (if err = NoRows then AuthInvalidRequest else AuthDb err), d')
                            | (Inr (u, k), d') \<Rightarrow> (Inr \<lparr>bi_student = trim_space studentID, bi_user = u, bi_key = k\<rparr>, d')))))))"

definition identify :: "provider \<Rightarrow> string \<Rightarrow> flow_error + string" where
  "identify p code =
     (case pv_exchange p code of
        None \<Rightarrow> Inl AuthInvalidCode
      | Some token \<Rightarrow> (case pv_identity p token of
          None \<Rightarrow> Inl AuthProviderFailed
        | Some s \<Rightarrow> if blank s then Inl AuthInvalidCode else Inr (trim_space s)))"

definition HandleOAuthCallback ::
  "bool \<times> bool \<Rightarrow> env \<Rightarrow> provider option \<Rightarrow> time \<Rightarrow> time \<Rightarrow> string \<Rightarrow> string \<Rightarrow> db \<Rightarrow> (flow_error + bind_result) \<times> db" where
  "HandleOAuthCallback fails e prov now dbnow state code d =
     (if blank state \<or> blank code then (Inl AuthInvalidState, d)
      else (case faulty (fst fails) (GetPendingDeviceAuthRequestByOAuthState (Some state) d) of
        Inl err \<Rightarrow> (Inl (if err = NoRows then AuthInvalidState else AuthDb err), d)
      | Inr r \<Rightarrow>
          (if da_state r \<noteq> None \<and> da_state r \<noteq> Some state then (Inl AuthInvalidState, d)
           else if da_status r \<noteq> DaPending \<or> da_expires r < now then (Inl AuthInvalidState, d)
           else (case prov of
                   None \<Rightarrow> (Inl AuthNoProvider, d)
                 | Some p \<Rightarrow> (case identify p code of
                     Inl err \<Rightarrow> (Inl err, d)
                   | Inr student \<Rightarrow> (case AuthorizedKeyFingerprint e (da_public r) of
                       None \<Rightarrow> (Inl AuthInvalidRequest, d)
                     | Some fp \<Rightarrow>
                         (if snd fails then (Inl (AuthDb Unavailable), d)
                          else (case CompleteDeviceAuthRequest dbnow (da_code r) (Some state) student fp
                                       (name_or (da_device r) defaultDeviceName) d of
                                  (Inl err, d') \<Rightarrow> (Inl (if err = NoRows then AuthInvalidState else AuthDb err), d')
                                | (Inr (u, k), d') \<Rightarrow> (Inr \<lparr>bi_student = student, bi_user = u, bi_key = k\<rparr>, d')))))))))"

section \<open>Web login\<close>

definition BuildWebLoginAuthorizeURL :: "provider option \<Rightarrow> string option \<Rightarrow> flow_error + (string \<times> string)" where
  "BuildWebLoginAuthorizeURL prov newState =
     (case prov of
        None \<Rightarrow> Inl AuthNoProvider
      | Some p \<Rightarrow> (case newState of
          None \<Rightarrow> Inl AuthRandom
        | Some state \<Rightarrow> (case pv_authorize p state of None \<Rightarrow> Inl AuthProviderFailed | Some url \<Rightarrow> Inr (url, state))))"

definition HandleWebLoginCallback ::
  "bool \<Rightarrow> provider option \<Rightarrow> string \<Rightarrow> db \<Rightarrow> (flow_error + (int \<times> string)) \<times> db" where
  "HandleWebLoginCallback fails prov code d =
     (if blank code then (Inl AuthInvalidCode, d)
      else (case prov of
              None \<Rightarrow> (Inl AuthNoProvider, d)
            | Some p \<Rightarrow> (case identify p code of
                Inl err \<Rightarrow> (Inl err, d)
              | Inr student \<Rightarrow> (case faulty fails (UpsertUser student d) of
                  Inl err \<Rightarrow> (Inl (AuthDb err), d)
                | Inr (u, d') \<Rightarrow> (Inr (u_id u, u_student u), d')))))"

section \<open>Well-formed accounts\<close>

text \<open>The keys and unique indexes of the three tables, and the foreign key of \<^verbatim>\<open>user_keys\<close>.\<close>

definition same_state :: "device_row \<Rightarrow> device_row \<Rightarrow> bool" where
  "same_state q r \<longleftrightarrow> da_state q \<noteq> None \<and> da_state q = da_state r"

definition devices_wf :: "device_row list \<Rightarrow> bool" where
  "devices_wf rs \<longleftrightarrow> distinct (map da_code rs) \<and>
     (\<forall>q \<in> set rs. \<forall>r \<in> set rs. same_state q r \<longrightarrow> da_code q = da_code r) \<and>
     (\<forall>r \<in> set rs. (da_status r = DaApproved) = (da_student r \<noteq> None))"

definition users_wf :: "user_row list \<Rightarrow> int \<Rightarrow> bool" where
  "users_wf us n \<longleftrightarrow> distinct (map u_student us) \<and> distinct (map u_id us) \<and> (\<forall>u \<in> set us. u_id u \<le> n)"

definition same_key :: "key_row \<Rightarrow> key_row \<Rightarrow> bool" where
  "same_key k q \<longleftrightarrow> active_key k \<and> active_key q \<and>
     (k_public k = k_public q \<or> k_fingerprint k \<noteq> None \<and> k_fingerprint k = k_fingerprint q)"

definition keys_wf :: "key_row list \<Rightarrow> int \<Rightarrow> bool" where
  "keys_wf ks n \<longleftrightarrow> distinct (map k_id ks) \<and> (\<forall>k \<in> set ks. k_id k \<le> n) \<and>
     (\<forall>k \<in> set ks. \<forall>q \<in> set ks. same_key k q \<longrightarrow> k_id k = k_id q)"

definition accounts_wf :: "db \<Rightarrow> bool" where
  "accounts_wf d \<longleftrightarrow> devices_wf (db_devices d) \<and> users_wf (db_users d) (db_user_seq d) \<and>
     keys_wf (db_keys d) (db_key_seq d) \<and> (\<forall>k \<in> set (db_keys d). k_user k \<in> u_id ` set (db_users d))"

lemma UpsertUser_cases:
  assumes "UpsertUser s d = Inr (u, d')"
  obtains (found) "u \<in> set (db_users d)" "u_student u = s" "d' = d\<lparr>db_user_seq := db_user_seq d + 1\<rparr>"
  | (new) "u = \<lparr>u_id = db_user_seq d + 1, u_student = s, u_nickname = anonymous\<rparr>"
      "s \<notin> u_student ` set (db_users d)"
      "d' = d\<lparr>db_users := db_users d @ [u], db_user_seq := db_user_seq d + 1\<rparr>"
  using assms
  by (auto simp: UpsertUser_def Let_def find_none split: if_splits option.splits dest!: find_SomeD)

lemma UpsertUser_frame:
  assumes "UpsertUser s d = Inr (u, d')"
  shows "db_devices d' = db_devices d" "db_keys d' = db_keys d" "db_key_seq d' = db_key_seq d"
    "u \<in> set (db_users d')" "u_student u = s" "u_id ` set (db_users d) \<subseteq> u_id ` set (db_users d')"
    "set (db_users d) \<subseteq> set (db_users d')"
  using assms by (auto elim!: UpsertUser_cases)

lemma UpsertUser_users_wf:
  assumes "UpsertUser s d = Inr (u, d')" and "users_wf (db_users d) (db_user_seq d)"
  shows "users_wf (db_users d') (db_user_seq d')"
  using assms(1)
proof (cases rule: UpsertUser_cases)
  case found
  with assms(2) show ?thesis by (auto simp: users_wf_def)
next
  case new
  with assms(2) show ?thesis by (auto simp: users_wf_def)
qed

definition approve :: "string \<Rightarrow> device_row \<Rightarrow> device_row" where
  "approve s r = r\<lparr>da_student := Some s, da_status := DaApproved\<rparr>"

lemma approve_simps [simp]:
  "da_code (approve s r) = da_code r" "da_state (approve s r) = da_state r" "da_public (approve s r) = da_public r"
  "da_student (approve s r) = Some s" "da_status (approve s r) = DaApproved" "\<not> pending (approve s r)"
  by (simp_all add: approve_def pending_def)

text \<open>What a completion does: nothing, or it approves the request and resolves the key.\<close>

definition approved_db :: "time \<Rightarrow> string \<Rightarrow> string option \<Rightarrow> string \<Rightarrow> db \<Rightarrow> db" where
  "approved_db now code st s d = d\<lparr>db_devices := update_where (completes now code st) (approve s) (db_devices d)\<rparr>"

definition bound_key :: "time \<Rightarrow> device_row \<Rightarrow> user_row \<Rightarrow> string \<Rightarrow> string \<Rightarrow> db \<Rightarrow> key_row" where
  "bound_key now r u fp device d =
     \<lparr>k_id = db_key_seq d + 1, k_user = u_id u, k_public = da_public r, k_fingerprint = Some fp,
      k_device = device, k_created = now, k_revoked = None\<rparr>"

lemma CompleteDeviceAuthRequest_cases:
  assumes "CompleteDeviceAuthRequest now code st s fp device d = (res, d')"
  obtains (failed) err where "res = Inl err" "d' = d"
  | (foreign) r u d2 k where "find (completes now code st) (db_devices d) = Some r"
      "UpsertUser s (approved_db now code st s d) = Inr (u, d2)"
      "k \<in> set (db_keys d)" "active_key k" "k_fingerprint k = Some fp" "k_user k \<noteq> u_id u \<or> k_public k \<noteq> da_public r"
      "res = Inl NoRows" "d' = d2\<lparr>db_key_seq := db_key_seq d2 + 1\<rparr>"
  | (renamed) r u d2 k where "find (completes now code st) (db_devices d) = Some r"
      "UpsertUser s (approved_db now code st s d) = Inr (u, d2)"
      "k \<in> set (db_keys d)" "active_key k" "k_fingerprint k = Some fp" "k_user k = u_id u" "k_public k = da_public r"
      "res = Inr (u_id u, k_id k)"
      "d' = d2\<lparr>db_keys := update_where (\<lambda>q. k_id q = k_id k) (\<lambda>q. q\<lparr>k_device := device\<rparr>) (db_keys d2),
              db_key_seq := db_key_seq d2 + 1\<rparr>"
  | (bound) r u d2 where "find (completes now code st) (db_devices d) = Some r"
      "UpsertUser s (approved_db now code st s d) = Inr (u, d2)"
      "\<forall>k \<in> set (db_keys d). active_key k \<longrightarrow> k_public k \<noteq> da_public r \<and> k_fingerprint k \<noteq> Some fp"
      "res = Inr (u_id u, db_key_seq d2 + 1)"
      "d' = d2\<lparr>db_keys := db_keys d2 @ [bound_key now r u fp device d2], db_key_seq := db_key_seq d2 + 1\<rparr>"
  using assms
  by (auto simp: CompleteDeviceAuthRequest_def Let_def approved_db_def approve_def [abs_def] bound_key_def find_none
      split: if_splits option.splits sum.splits dest!: find_SomeD)

lemma approved_db_frame [simp]:
  "db_users (approved_db now code st s d) = db_users d" "db_user_seq (approved_db now code st s d) = db_user_seq d"
  "db_keys (approved_db now code st s d) = db_keys d" "db_key_seq (approved_db now code st s d) = db_key_seq d"
  "db_devices (approved_db now code st s d) = update_where (completes now code st) (approve s) (db_devices d)"
  by (simp_all add: approved_db_def)

lemma same_state_approve [simp]:
  "same_state (approve s q) r = same_state q r" "same_state q (approve s r) = same_state q r"
  by (simp_all add: same_state_def)

lemma same_state_status [simp]:
  "same_state (q\<lparr>da_status := x\<rparr>) r = same_state q r" "same_state q (r\<lparr>da_status := x\<rparr>) = same_state q r"
  by (simp_all add: same_state_def)

lemma same_key_revoked [simp]:
  "\<not> same_key (k\<lparr>k_revoked := Some t\<rparr>) q" "\<not> same_key k (q\<lparr>k_revoked := Some t\<rparr>)"
  by (simp_all add: same_key_def active_key_def)

lemma same_key_device [simp]:
  "same_key (k\<lparr>k_device := x\<rparr>) q = same_key k q" "same_key k (q\<lparr>k_device := x\<rparr>) = same_key k q"
  by (simp_all add: same_key_def active_key_def)

lemma devices_wf_approve: "devices_wf rs \<Longrightarrow> devices_wf (update_where P (approve s) rs)"
  unfolding devices_wf_def by (auto simp: map_update_where set_update_where)

lemma keys_wf_update:
  assumes "keys_wf ks n" and "\<And>k. k_id (f k) = k_id k"
    and "\<And>k q. k \<in> set ks \<Longrightarrow> q \<in> set ks \<Longrightarrow> same_key (if P k then f k else k) (if P q then f q else q) \<Longrightarrow>
      same_key k q \<or> k_id k = k_id q"
  shows "keys_wf (update_where P f ks) n"
proof -
  let ?g = "\<lambda>k. if P k then f k else k"
  have ids: "k_id (?g k) = k_id k" for k using assms(2) by simp
  have "k_id (?g k) = k_id (?g q)" if "k \<in> set ks" "q \<in> set ks" "same_key (?g k) (?g q)" for k q
    using assms(3) [OF that] assms(1) that(1,2) unfolding ids keys_wf_def by blast
  moreover have "distinct (map k_id (update_where P f ks))"
    using assms(1) by (simp add: keys_wf_def map_update_where assms(2))
  moreover have "k_id (?g k) \<le> n" if "k \<in> set ks" for k
    using assms(1) that unfolding ids keys_wf_def by blast
  ultimately show ?thesis
    unfolding keys_wf_def set_update_where by blast
qed

lemma keys_wf_device: "keys_wf ks n \<Longrightarrow> keys_wf (update_where P (\<lambda>q. q\<lparr>k_device := dev\<rparr>) ks) n"
  by (rule keys_wf_update) (auto split: if_splits)

lemma keys_wf_seq: "keys_wf ks n \<Longrightarrow> keys_wf ks (n + 1)"
  unfolding keys_wf_def by fastforce

lemma keys_wf_add:
  assumes "keys_wf ks n" and "k_id k = n + 1" and "\<And>q. q \<in> set ks \<Longrightarrow> \<not> same_key q k \<and> \<not> same_key k q"
  shows "keys_wf (ks @ [k]) (n + 1)"
proof -
  from assms(1,2) have "distinct (map k_id (ks @ [k]))" by (fastforce simp: keys_wf_def)
  moreover from assms(1,2) have "\<forall>q \<in> set (ks @ [k]). k_id q \<le> n + 1" by (fastforce simp: keys_wf_def)
  ultimately show ?thesis using assms(1,3) unfolding keys_wf_def by simp
qed

lemma keys_wf_bound:
  assumes "keys_wf ks n" and "k_fingerprint k = Some fp" and "k_id k = n + 1"
    and "\<forall>q \<in> set ks. active_key q \<longrightarrow> k_public q \<noteq> k_public k \<and> k_fingerprint q \<noteq> Some fp"
  shows "keys_wf (ks @ [k]) (n + 1)"
  using assms(1,3)
proof (rule keys_wf_add)
  fix q assume "q \<in> set ks"
  with assms(2,4) show "\<not> same_key q k \<and> \<not> same_key k q" unfolding same_key_def by metis
qed

lemma CompleteDeviceAuthRequest_wf:
  assumes "CompleteDeviceAuthRequest now code st s fp device d = (res, d')" and wf: "accounts_wf d"
  shows "accounts_wf d'"
proof -
  have devs: "devices_wf (db_devices (approved_db now code st s d))"
    using wf by (simp add: accounts_wf_def devices_wf_approve)
  have users: "users_wf (db_users d2) (db_user_seq d2)" if "UpsertUser s (approved_db now code st s d) = Inr (u, d2)" for u d2
    using UpsertUser_users_wf [OF that] wf by (simp add: accounts_wf_def)
  have keys: "keys_wf (db_keys d) (db_key_seq d)" and owners: "k_user ` set (db_keys d) \<subseteq> u_id ` set (db_users d)"
    using wf by (auto simp: accounts_wf_def)
  from assms(1) show ?thesis
  proof (cases rule: CompleteDeviceAuthRequest_cases)
    case failed
    with wf show ?thesis by simp
  next
    case (foreign r u d2 k)
    note up = UpsertUser_frame [OF foreign(2)]
    from keys_wf_seq [OF keys] owners up users [OF foreign(2)] devs show ?thesis
      unfolding foreign(8) accounts_wf_def by (auto simp: image_subset_iff subset_iff)
  next
    case (renamed r u d2 k)
    note up = UpsertUser_frame [OF renamed(2)]
    from keys_wf_device [OF keys_wf_seq [OF keys]] owners up users [OF renamed(2)] devs show ?thesis
      unfolding renamed(9) accounts_wf_def by (auto simp: image_subset_iff subset_iff set_update_where)
  next
    case (bound r u d2)
    note up = UpsertUser_frame [OF bound(2)]
    have "keys_wf (db_keys d @ [bound_key now r u fp device d2]) (db_key_seq d + 1)"
      using keys by (rule keys_wf_bound) (use bound(3) up in \<open>auto simp: bound_key_def\<close>)
    with owners up users [OF bound(2)] devs show ?thesis
      unfolding bound(5) accounts_wf_def by (auto simp: image_subset_iff subset_iff bound_key_def)
  qed
qed

text \<open>A settled request stays so.\<close>

definition settled :: "string \<Rightarrow> string \<Rightarrow> db \<Rightarrow> bool" where
  "settled st s d \<longleftrightarrow> (\<exists>r \<in> set (db_devices d). da_state r = Some st \<and> da_status r = DaApproved \<and> da_student r = Some s)"

lemma settled_update:
  assumes "settled st s d" and "db_devices d' = update_where P f (db_devices d)" and "\<And>r. P r \<Longrightarrow> pending r"
  shows "settled st s d'"
proof -
  from assms(1) obtain r where r: "r \<in> set (db_devices d)" "da_state r = Some st" "da_status r = DaApproved" "da_student r = Some s"
    by (auto simp: settled_def)
  have "\<not> P r" using assms(3) [of r] r(3) by (auto simp: pending_def)
  then have "r \<in> set (db_devices d')" using r(1) by (force simp: assms(2) set_update_where)
  with r show ?thesis by (auto simp: settled_def)
qed

lemma CompleteDeviceAuthRequest_settled:
  assumes "CompleteDeviceAuthRequest now code st' s' fp device d = (res, d')" and "settled st s d"
  shows "settled st s d'"
  using assms(1)
proof (cases rule: CompleteDeviceAuthRequest_cases)
  case failed
  with assms(2) show ?thesis by simp
next
  case (foreign r u d2 k)
  show ?thesis by (rule settled_update [OF assms(2), where P = "completes now code st'" and f = "approve s'"])
    (use UpsertUser_frame(1) [OF foreign(2)] foreign(8) in \<open>auto simp: completes_def\<close>)
next
  case (renamed r u d2 k)
  show ?thesis by (rule settled_update [OF assms(2), where P = "completes now code st'" and f = "approve s'"])
    (use UpsertUser_frame(1) [OF renamed(2)] renamed(9) in \<open>auto simp: completes_def\<close>)
next
  case (bound r u d2)
  show ?thesis by (rule settled_update [OF assms(2), where P = "completes now code st'" and f = "approve s'"])
    (use UpsertUser_frame(1) [OF bound(2)] bound(5) in \<open>auto simp: completes_def\<close>)
qed

section \<open>The device flow as a state machine\<close>

text \<open>
  Every operation that writes the account tables: the requests of the auth service, the statement that
  expires old requests, and the two updates of \<^verbatim>\<open>user_keys\<close> other services make.
\<close>

inductive auth_step :: "env \<Rightarrow> db \<Rightarrow> db \<Rightarrow> bool" for e where
  create: "CreateDeviceAuthorizationRequest fails codes ttl now pub dev d = (res, d') \<Longrightarrow> auth_step e d d'"
| bind: "DevBindDeviceAuthorizationRequest fs e now dbnow code student dev d = (res', d') \<Longrightarrow> auth_step e d d'"
| callback: "HandleOAuthCallback fs e prov now dbnow st code d = (res', d') \<Longrightarrow> auth_step e d d'"
| login: "HandleWebLoginCallback fails prov code d = (res'', d') \<Longrightarrow> auth_step e d d'"
| expire: "auth_step e d (ExpireDeviceAuthRequests now d)"
| revoke: "auth_step e d (DeleteUserKey now i user d)"
| backfill: "UpdateUserKeyFingerprint i fp d = Inr d' \<Longrightarrow> auth_step e d d'"

lemma CreateDeviceAuthRequest_row: "CreateDeviceAuthRequest r d = Inr (q, d') \<Longrightarrow> q = r"
  by (auto simp: CreateDeviceAuthRequest_def split: if_splits)

lemma CreateDeviceAuthRequest_cases:
  assumes "CreateDeviceAuthorizationRequest fails codes ttl now pub dev d = (res, d')"
  obtains "d' = d"
  | r :: device_row where "CreateDeviceAuthRequest r d = Inr (r, d')" "da_status r = DaPending" "da_student r = None"
proof (cases "d' = d")
  case False
  with assms obtain q code userCode st ttl' where
    "CreateDeviceAuthRequest \<lparr>da_code = code, da_user_code = userCode, da_public = pub,
       da_device = name_or dev defaultDeviceName, da_student = None, da_state = Some st,
       da_status = DaPending, da_expires = now + ttl'\<rparr> d = Inr (q, d')"
    by (auto simp: CreateDeviceAuthorizationRequest_def Let_def split: if_splits option.splits sum.splits)
  with CreateDeviceAuthRequest_row [OF this] show thesis by (intro that(2)) auto
qed (rule that(1))

lemma HandleOAuthCallback_cases:
  assumes "HandleOAuthCallback fs e prov now dbnow st code d = (res, d')"
  obtains (failed) err where "res = Inl err" "d' = d"
  | (completed) r p student fp res' where
      "r \<in> set (db_devices d)" "da_state r = Some st" "pending r" "\<not> da_expires r < now" "prov = Some p"
      "identify p code = Inr student" "AuthorizedKeyFingerprint e (da_public r) = Some fp"
      "CompleteDeviceAuthRequest dbnow (da_code r) (Some st) student fp (name_or (da_device r) defaultDeviceName) d = (res', d')"
      "res = (case res' of Inl err \<Rightarrow> Inl (if err = NoRows then AuthInvalidState else AuthDb err)
              | Inr (u, k) \<Rightarrow> Inr \<lparr>bi_student = student, bi_user = u, bi_key = k\<rparr>)"
  using assms
  by (auto simp: HandleOAuthCallback_def GetPendingDeviceAuthRequestByOAuthState_def
      split: if_splits sum.splits option.splits prod.splits dest!: find_SomeD)

lemma DevBind_cases:
  assumes "DevBindDeviceAuthorizationRequest fs e now dbnow code student dev d = (res, d')"
  obtains (failed) "d' = d"
  | (completed) r :: device_row and fp name res' where
      "CompleteDeviceAuthRequest dbnow (da_code r) (da_state r) (trim_space student) fp name d = (res', d')"
  using assms
  by (auto simp: DevBindDeviceAuthorizationRequest_def Let_def split: if_splits sum.splits option.splits prod.splits)

lemma HandleWebLoginCallback_cases:
  assumes "HandleWebLoginCallback fails prov code d = (res, d')"
  obtains "d' = d" | s u where "UpsertUser s d = Inr (u, d')"
  using assms
  by (auto simp: HandleWebLoginCallback_def split: if_splits sum.splits option.splits)

lemma CreateDeviceAuthRequest_wf:
  assumes "CreateDeviceAuthRequest r d = Inr (r', d')" and "da_status r = DaPending" "da_student r = None"
    and wf: "accounts_wf d"
  shows "accounts_wf d'"
proof -
  from assms(1) have d': "d' = d\<lparr>db_devices := db_devices d @ [r]\<rparr>"
    and new: "\<forall>q \<in> set (db_devices d). da_code q \<noteq> da_code r \<and> \<not> same_state q r \<and> \<not> same_state r q"
    by (auto simp: CreateDeviceAuthRequest_def same_state_def split: if_splits)
  have "devices_wf (db_devices d @ [r])"
    using wf new assms(2,3) unfolding accounts_wf_def devices_wf_def by auto
  with wf show ?thesis by (simp add: d' accounts_wf_def)
qed

lemma auth_step_settled:
  assumes "auth_step e d d'" and "settled st s d"
  shows "settled st s d'"
  using assms(1)
proof (cases rule: auth_step.cases)
  case create
  with assms(2) show ?thesis
    by (elim CreateDeviceAuthRequest_cases) (auto simp: settled_def CreateDeviceAuthRequest_def split: if_splits)
next
  case bind
  with assms(2) show ?thesis by (elim DevBind_cases) (auto dest: CompleteDeviceAuthRequest_settled)
next
  case callback
  with assms(2) show ?thesis by (elim HandleOAuthCallback_cases) (auto dest: CompleteDeviceAuthRequest_settled)
next
  case login
  with assms(2) show ?thesis by (elim HandleWebLoginCallback_cases) (auto simp: settled_def UpsertUser_frame)
next
  case (expire now)
  show ?thesis
    by (rule settled_update [OF assms(2), where P = "\<lambda>r. pending r \<and> da_expires r < now" and f = "\<lambda>r. r\<lparr>da_status := DaExpired\<rparr>"])
      (simp_all add: expire ExpireDeviceAuthRequests_def)
next
  case revoke
  with assms(2) show ?thesis by (simp add: settled_def DeleteUserKey_def)
next
  case backfill
  with assms(2) show ?thesis by (auto simp: settled_def UpdateUserKeyFingerprint_def split: if_splits)
qed

lemma auth_step_wf:
  assumes "auth_step e d d'" and "accounts_wf d"
  shows "accounts_wf d'"
  using assms(1)
proof (cases rule: auth_step.cases)
  case create
  with assms(2) show ?thesis
    by (elim CreateDeviceAuthRequest_cases) (auto dest: CreateDeviceAuthRequest_wf)
next
  case bind
  with assms(2) show ?thesis by (elim DevBind_cases) (auto dest: CompleteDeviceAuthRequest_wf)
next
  case callback
  with assms(2) show ?thesis by (elim HandleOAuthCallback_cases) (auto dest: CompleteDeviceAuthRequest_wf)
next
  case login
  then show ?thesis
  proof (cases rule: HandleWebLoginCallback_cases)
    case (2 s u)
    note up = UpsertUser_frame [OF 2]
    from assms(2) UpsertUser_users_wf [OF 2] up show ?thesis
      unfolding accounts_wf_def by (auto simp: image_subset_iff subset_iff)
  qed (use assms(2) in simp)
next
  case (expire now)
  have "devices_wf (update_where (\<lambda>r. pending r \<and> da_expires r < now) (\<lambda>r. r\<lparr>da_status := DaExpired\<rparr>) (db_devices d))"
    using assms(2) unfolding accounts_wf_def devices_wf_def
    by (auto simp: map_update_where set_update_where pending_def)
  with assms(2) show ?thesis by (simp add: expire ExpireDeviceAuthRequests_def accounts_wf_def)
next
  case (revoke now i user)
  have "keys_wf (update_where (\<lambda>k. k_id k = i \<and> k_user k = user \<and> active_key k) (\<lambda>k. k\<lparr>k_revoked := Some now\<rparr>) (db_keys d)) (db_key_seq d)"
    by (rule keys_wf_update) (use assms(2) in \<open>auto simp: accounts_wf_def split: if_splits\<close>)
  with assms(2) show ?thesis by (auto simp: revoke DeleteUserKey_def accounts_wf_def set_update_where)
next
  case (backfill i fp)
  from backfill have d': "d' = d\<lparr>db_keys := update_where (\<lambda>k. k_id k = i \<and> k_fingerprint k = None) (\<lambda>k. k\<lparr>k_fingerprint := fp\<rparr>) (db_keys d)\<rparr>"
    by (simp add: UpdateUserKeyFingerprint_def split: if_splits)
  have free: "same_key (k\<lparr>k_fingerprint := fp\<rparr>) q \<Longrightarrow> same_key k q" "same_key q (k\<lparr>k_fingerprint := fp\<rparr>) \<Longrightarrow> same_key q k"
    if "q \<in> set (db_keys d)" "k \<in> set (db_keys d)" "k_id k = i" "k_id q \<noteq> i" "k_fingerprint k = None" for k q
  proof -
    from backfill that have "\<not> (fp \<noteq> None \<and> active_key q \<and> active_key k \<and> k_fingerprint q = fp)"
      unfolding UpdateUserKeyFingerprint_def by (metis Inl_Inr_False)
    then show "same_key (k\<lparr>k_fingerprint := fp\<rparr>) q \<Longrightarrow> same_key k q" "same_key q (k\<lparr>k_fingerprint := fp\<rparr>) \<Longrightarrow> same_key q k"
      unfolding same_key_def active_key_def by auto
  qed
  have "keys_wf (update_where (\<lambda>k. k_id k = i \<and> k_fingerprint k = None) (\<lambda>k. k\<lparr>k_fingerprint := fp\<rparr>) (db_keys d)) (db_key_seq d)"
  proof (rule keys_wf_update)
    show "keys_wf (db_keys d) (db_key_seq d)" using assms(2) by (simp add: accounts_wf_def)
  next
    fix k q assume "k \<in> set (db_keys d)" "q \<in> set (db_keys d)"
      and "same_key (if k_id k = i \<and> k_fingerprint k = None then k\<lparr>k_fingerprint := fp\<rparr> else k)
        (if k_id q = i \<and> k_fingerprint q = None then q\<lparr>k_fingerprint := fp\<rparr> else q)"
    then show "same_key k q \<or> k_id k = k_id q"
      by (cases "k_id k = i"; cases "k_id q = i") (auto dest: free [of q k] free [of k q] split: if_splits)
  qed simp
  with assms(2) show ?thesis by (auto simp: d' accounts_wf_def set_update_where)
qed

lemma steps_wf: "(auth_step e)\<^sup>*\<^sup>* d d' \<Longrightarrow> accounts_wf d \<Longrightarrow> accounts_wf d'"
  by (induction rule: rtranclp_induct) (auto dest: auth_step_wf)

lemma steps_settled: "(auth_step e)\<^sup>*\<^sup>* d d' \<Longrightarrow> settled st s d \<Longrightarrow> settled st s d'"
  by (induction rule: rtranclp_induct) (auto dest: auth_step_settled)

text \<open>A well-formed table has one row for a state, so a settled state has no pending request.\<close>

lemma same_row: "devices_wf rs \<Longrightarrow> q \<in> set rs \<Longrightarrow> r \<in> set rs \<Longrightarrow> same_state q r \<Longrightarrow> q = r"
  unfolding devices_wf_def by (meson distinct_key_eq)

lemma settled_not_pending:
  assumes "settled st s d" and "accounts_wf d"
  shows "GetPendingDeviceAuthRequestByOAuthState (Some st) d = Inl NoRows"
proof -
  from assms(1) obtain r where r: "r \<in> set (db_devices d)" "da_state r = Some st" "da_status r = DaApproved"
    by (auto simp: settled_def)
  have "\<not> (da_state q = Some st \<and> pending q)" if q: "q \<in> set (db_devices d)" for q
  proof
    assume st: "da_state q = Some st \<and> pending q"
    with assms(2) q r(1,2) have "q = r"
      by (intro same_row [of "db_devices d"]) (auto simp: accounts_wf_def same_state_def)
    with st r(3) show False by (simp add: pending_def)
  qed
  then have "find (\<lambda>r. Some st \<noteq> None \<and> da_state r = Some st \<and> pending r) (db_devices d) = None"
    by (auto simp: find_none)
  then show ?thesis unfolding GetPendingDeviceAuthRequestByOAuthState_def by simp
qed

text \<open>The row that a completion approves is the pending one with the code and state.\<close>

lemma completes_find:
  assumes "accounts_wf d" and "r \<in> set (db_devices d)" and "da_state r = Some st"
    and "find (completes now (da_code r) (Some st)) (db_devices d) = Some q"
  shows "q = r \<and> now < da_expires r"
proof -
  from find_SomeD [OF assms(4)] have q: "q \<in> set (db_devices d)" "same_state q r" "now < da_expires q"
    using assms(3) by (auto simp: completes_def same_state_def)
  with assms(1,2) have "q = r" by (intro same_row [of "db_devices d"]) (auto simp: accounts_wf_def)
  with q(3) show ?thesis by simp
qed

text \<open>
  C0. Type invariant of the account tables: from well-formed tables every run of the device flow, the
  web login, key revocation and fingerprint back-fill keeps device codes, OAuth states, student ids and
  keys unique, a request approved exactly when it names a student, and every key owned by a user.
\<close>

theorem accounts_stay_wf:
  assumes "accounts_wf d" and "(auth_step e)\<^sup>*\<^sup>* d d'"
  shows "accounts_wf d'"
  using assms(2,1) by (rule steps_wf)

text \<open>
  C0. A callback that succeeds binds the key to the student: the request was pending and unexpired
  under that state, it alone is approved, for the student id the provider gave, and the returned key is an
  active key with the public key of the request and its fingerprint, owned by the user with that id;
  nobody else's account changes.
\<close>

theorem callback_binds_key:
  assumes wf: "accounts_wf d" and run: "HandleOAuthCallback fs e prov now dbnow st code d = (Inr b, d')"
  shows "\<exists>r p fp. r \<in> set (db_devices d) \<and> da_state r = Some st \<and> da_status r = DaPending \<and>
      now \<le> da_expires r \<and> dbnow < da_expires r \<and>
      prov = Some p \<and> identify p code = Inr (bi_student b) \<and> AuthorizedKeyFingerprint e (da_public r) = Some fp \<and>
      db_devices d' = map (\<lambda>q. if q = r then r\<lparr>da_student := Some (bi_student b), da_status := DaApproved\<rparr> else q) (db_devices d) \<and>
      (\<exists>u \<in> set (db_users d'). u_id u = bi_user b \<and> u_student u = bi_student b) \<and>
      (\<exists>k \<in> set (db_keys d'). k_id k = bi_key b \<and> k_revoked k = None \<and> k_user k = bi_user b \<and>
         k_public k = da_public r \<and> k_fingerprint k = Some fp) \<and>
      set (db_users d) \<subseteq> set (db_users d') \<and> (\<forall>k \<in> set (db_keys d). k_id k \<noteq> bi_key b \<longrightarrow> k \<in> set (db_keys d'))"
proof -
  from run obtain r p fp res' where r: "r \<in> set (db_devices d)" "da_state r = Some st" "pending r" "\<not> da_expires r < now"
    and p: "prov = Some p" "identify p code = Inr (bi_student b)" "AuthorizedKeyFingerprint e (da_public r) = Some fp"
    and com: "CompleteDeviceAuthRequest dbnow (da_code r) (Some st) (bi_student b) fp (name_or (da_device r) defaultDeviceName) d = (res', d')"
    and res': "res' = Inr (bi_user b, bi_key b)"
    by (elim HandleOAuthCallback_cases) (auto split: sum.splits prod.splits)
  have one: "completes dbnow (da_code r) (Some st) q \<longleftrightarrow> q = r" if "dbnow < da_expires r" "q \<in> set (db_devices d)" for q
  proof
    assume c: "completes dbnow (da_code r) (Some st) q"
    with that(2) r wf show "q = r"
      by (intro same_row [of "db_devices d"]) (auto simp: accounts_wf_def same_state_def completes_def)
  qed (use that r in \<open>auto simp: completes_def\<close>)
  then have devs: "db_devices d2 = map (\<lambda>q. if q = r then r\<lparr>da_student := Some (bi_student b), da_status := DaApproved\<rparr> else q) (db_devices d)"
    if "dbnow < da_expires r" "UpsertUser (bi_student b) (approved_db dbnow (da_code r) (Some st) (bi_student b) d) = Inr (u, d2)" for u d2
    using that UpsertUser_frame(1) [OF that(2)] by (auto simp: update_where_def approve_def cong: map_cong)
  have found: "q = r \<and> dbnow < da_expires r" if "find (completes dbnow (da_code r) (Some st)) (db_devices d) = Some q" for q
    using completes_find [OF wf r(1,2) that] .
  from com show ?thesis
  proof (cases rule: CompleteDeviceAuthRequest_cases)
    case (renamed q u d2 k)
    note up = UpsertUser_frame [OF renamed(2)]
    have q: "q = r" "dbnow < da_expires r" using found [OF renamed(1)] by auto
    have "\<exists>k \<in> set (db_keys d'). k_id k = bi_key b \<and> k_revoked k = None \<and> k_user k = bi_user b \<and>
         k_public k = da_public r \<and> k_fingerprint k = Some fp"
      using renamed up res' by (intro bexI [of _ "k\<lparr>k_device := name_or (da_device r) defaultDeviceName\<rparr>"])
        (auto simp: q set_update_where active_key_def)
    moreover have "\<forall>k \<in> set (db_keys d). k_id k \<noteq> bi_key b \<longrightarrow> k \<in> set (db_keys d')"
      using renamed(8,9) up res' by (force simp: set_update_where)
    moreover have "db_users d' = db_users d2" "db_devices d' = db_devices d2" by (simp_all add: renamed(9))
    ultimately show ?thesis
      using r p q devs [OF q(2) renamed(2)] up renamed(8) res' by (auto simp: pending_def not_less intro!: exI [of _ r])
  next
    case (bound q u d2)
    note up = UpsertUser_frame [OF bound(2)]
    have q: "q = r" "dbnow < da_expires r" using found [OF bound(1)] by auto
    from r p q devs [OF q(2) bound(2)] up bound(4) res' show ?thesis
      unfolding bound(5) by (auto simp: pending_def not_less bound_key_def intro!: exI [of _ r])
  qed (use res' in auto)
qed

lemma approve_in: "find P rs = Some q \<Longrightarrow> approve s q \<in> set (update_where P (approve s) rs)"
  by (drule find_SomeD) (force simp: set_update_where)

lemma UpsertUser_total: "pg_text (Some s) \<Longrightarrow> \<exists>u d'. UpsertUser s d = Inr (u, d')"
  by (cases "find (\<lambda>u. u_student u = s) (db_users d)") (simp_all add: UpsertUser_def Let_def)

lemma callback_settles:
  assumes "HandleOAuthCallback fs e prov now dbnow st code d = (Inr b, d')" and wf: "accounts_wf d"
  shows "settled st (bi_student b) d'"
proof -
  from assms(1) obtain r fp res' where r: "r \<in> set (db_devices d)" "da_state r = Some st"
    and com: "CompleteDeviceAuthRequest dbnow (da_code r) (Some st) (bi_student b) fp (name_or (da_device r) defaultDeviceName) d = (res', d')"
    and res': "res' = Inr (bi_user b, bi_key b)"
    by (elim HandleOAuthCallback_cases) (auto split: sum.splits prod.splits)
  from com show ?thesis
  proof (cases rule: CompleteDeviceAuthRequest_cases)
    case (renamed q u d2 k)
    with approve_in [OF renamed(1), of "bi_student b"] UpsertUser_frame(1) [OF renamed(2)] find_SomeD [OF renamed(1)] show ?thesis
      unfolding settled_def by (intro bexI [of _ "approve (bi_student b) q"]) (auto simp: completes_def)
  next
    case (bound q u d2)
    with approve_in [OF bound(1), of "bi_student b"] UpsertUser_frame(1) [OF bound(2)] find_SomeD [OF bound(1)] show ?thesis
      unfolding settled_def by (intro bexI [of _ "approve (bi_student b) q"]) (auto simp: completes_def)
  qed (use res' in auto)
qed

text \<open>
  C0. An OAuth state is used once: after a callback succeeded, whatever else the service, the clean-up or
  the students do, every later callback with that state is refused and changes nothing, and the request
  stays approved for the student it was bound to.
\<close>

theorem oauth_state_single_use:
  assumes "accounts_wf d" and "HandleOAuthCallback fs e prov now dbnow st code d = (Inr b, d1)"
    and "(auth_step e)\<^sup>*\<^sup>* d1 d2"
  shows "HandleOAuthCallback (False, fails) e prov' now' dbnow' st code' d2 = (Inl AuthInvalidState, d2) \<and>
    (\<exists>r \<in> set (db_devices d2). da_state r = Some st \<and> da_status r = DaApproved \<and> da_student r = Some (bi_student b))"
proof -
  have "accounts_wf d1" using auth_step.callback [OF assms(2)] assms(1) by (rule auth_step_wf)
  with assms(3) have "accounts_wf d2" by (rule steps_wf)
  moreover have "settled st (bi_student b) d2"
    using assms(3) callback_settles [OF assms(2,1)] by (rule steps_settled)
  ultimately show ?thesis
    using settled_not_pending [of st "bi_student b" d2] by (simp add: HandleOAuthCallback_def settled_def)
qed

lemma find_key_active:
  assumes "keys_wf ks n" and "k \<in> set ks" and "active_key k"
  shows "k_fingerprint k = Some fp \<Longrightarrow> find (\<lambda>q. active_key q \<and> k_fingerprint q = Some fp) ks = Some k"
    and "find (\<lambda>q. k_public q = k_public k \<and> active_key q) ks = Some k"
proof -
  have eq: "q = k" if "q \<in> set ks" "same_key q k" for q
    using assms(1,2) that unfolding keys_wf_def by (meson distinct_key_eq)
  { assume "k_fingerprint k = Some fp"
    with find_exists [of ks "\<lambda>q. active_key q \<and> k_fingerprint q = Some fp"] assms(2,3) eq
    show "find (\<lambda>q. active_key q \<and> k_fingerprint q = Some fp) ks = Some k"
      unfolding same_key_def by (metis option.distinct(1)) }
  show "find (\<lambda>q. k_public q = k_public k \<and> active_key q) ks = Some k"
    using find_exists [of ks "\<lambda>q. k_public q = k_public k \<and> active_key q"] assms(2,3) eq
    unfolding same_key_def by metis
qed

text \<open>
  A refused binding is left approved. When the key of a pending request is already the active key of
  another student, the callback answers that the state is invalid, but its statement has approved
  the request for the new student, and the device that polls is told that it is approved as the new
  student with the key of the other one.
\<close>

theorem refused_binding_is_approved:
  assumes "accounts_wf d"
    and "r \<in> set (db_devices d)" and "da_state r = Some st" and "da_status r = DaPending"
    and "now \<le> da_expires r" and "dbnow < da_expires r"
    and "identify p code = Inr s" and "AuthorizedKeyFingerprint e (da_public r) = Some fp"
    and "k \<in> set (db_keys d)" and "active_key k" and "k_public k = da_public r" and "k_fingerprint k = Some fp"
    and "\<forall>u \<in> set (db_users d). u_id u = k_user k \<longrightarrow> u_student u \<noteq> s"
    and "\<not> blank st" and "\<not> blank code" and "\<not> blank (da_code r)"
    and "pg_text (Some s)" and "pg_text (Some (name_or (da_device r) defaultDeviceName))"
  shows "case HandleOAuthCallback (False, False) e (Some p) now dbnow st code d of (res, d') \<Rightarrow>
    res = Inl AuthInvalidState \<and> k \<in> set (db_keys d') \<and>
    PollDeviceAuthorizationRequest (False, False) later (da_code r) d' =
      Inr \<lparr>po_code = da_code r, po_user_code = da_user_code r, po_status = DaApproved, po_student = s, po_key = k_id k\<rparr>"
proof -
  let ?P = "completes dbnow (da_code r) (Some st)"
  have devs: "devices_wf (db_devices d)" and keys: "keys_wf (db_keys d) (db_key_seq d)"
    using assms(1) by (simp_all add: accounts_wf_def)
  have only: "q = r" if "q \<in> set (db_devices d)" "da_state q = Some st" for q
    using same_row [OF devs that(1) assms(2)] that(2) assms(3) by (simp add: same_state_def)
  obtain q where q: "find (\<lambda>r. Some st \<noteq> None \<and> da_state r = Some st \<and> pending r) (db_devices d) = Some q"
    using find_exists [of "db_devices d" "\<lambda>r. Some st \<noteq> None \<and> da_state r = Some st \<and> pending r"] assms(2-4)
    by (auto simp: pending_def)
  have get: "GetPendingDeviceAuthRequestByOAuthState (Some st) d = Inr r"
    using only [of q] find_SomeD [OF q] q by (simp add: GetPendingDeviceAuthRequestByOAuthState_def)
  obtain q' where q': "find ?P (db_devices d) = Some q'"
    using find_exists [of "db_devices d" ?P] assms(2-4,6) by (auto simp: completes_def pending_def)
  have fnd: "find ?P (db_devices d) = Some r"
    using completes_find [OF assms(1,2,3) q'] q' by simp
  obtain u d2 where up: "UpsertUser s (approved_db dbnow (da_code r) (Some st) s d) = Inr (u, d2)"
    using UpsertUser_total [OF assms(17)] by blast
  note fr = UpsertUser_frame [OF up]
  have owner: "k_user k \<in> u_id ` set (db_users d)" "\<forall>u \<in> set (db_users d). u_id u \<le> db_user_seq d"
    using assms(1,9) by (auto simp: accounts_wf_def users_wf_def)
  have other: "k_user k \<noteq> u_id u"
    using up by (cases rule: UpsertUser_cases) (use owner assms(13) in fastforce)+
  have com: "CompleteDeviceAuthRequest dbnow (da_code r) (Some st) s fp (name_or (da_device r) defaultDeviceName) d =
      (Inl NoRows, d2\<lparr>db_key_seq := db_key_seq d2 + 1\<rparr>)"
    using up fnd find_key_active(1) [OF keys assms(9,10,12)] other assms(17,18)
    by (simp add: CompleteDeviceAuthRequest_def approved_db_def approve_def [abs_def] Let_def)
  have "distinct (map da_code (db_devices d2))"
    using devs by (simp add: fr(1) map_update_where devices_wf_def)
  moreover have "approve s r \<in> set (db_devices d2)" using approve_in [OF fnd, of s] fr(1) by simp
  ultimately have poll: "find (\<lambda>q. da_code q = da_code r) (db_devices d2) = Some (approve s r)"
    using find_key_Some [of da_code "db_devices d2" "approve s r"] by simp
  have key: "find (\<lambda>q. k_public q = da_public r \<and> active_key q) (db_keys d2) = Some k"
    using find_key_active(2) [OF keys assms(9,10)] fr(2) by (simp add: assms(11))
  show ?thesis
    using assms(2-10,14-16) get com poll key fr(2)
    by (simp add: HandleOAuthCallback_def PollDeviceAuthorizationRequest_def GetDeviceAuthRequestByDeviceCode_def
        GetUserKeyByPublicKey_def Let_def) (simp add: approve_def)
qed

section \<open>Examples\<close>

definition sample_device :: device_row where
  "sample_device = \<lparr>da_code = ''dc'', da_user_code = ''AAAA-BBBB'', da_public = replicate 32 (CHR ''k''), da_device = ''pc'',
     da_student = None, da_state = Some ''st'', da_status = DaPending, da_expires = 10\<rparr>"

definition sample_provider :: provider where
  "sample_provider = \<lparr>pv_authorize = Some,
     pv_exchange = (\<lambda>c. if c = ''code'' then Some \<lparr>ts_access = ''token'', ts_type = [], ts_scope = [], ts_expiry = None\<rparr> else None),
     pv_identity = (\<lambda>t. Some ''bob'')\<rparr>"

definition sample_fp :: string where
  "sample_fp = PublicKeyFingerprint demo_env (replicate 32 (CHR ''k''))"

definition sample_key :: key_row where
  "sample_key = \<lparr>k_id = 7, k_user = 1, k_public = replicate 32 (CHR ''k''), k_fingerprint = Some sample_fp,
     k_device = ''pc'', k_created = 0, k_revoked = None\<rparr>"

definition sample_accounts :: "key_row list \<Rightarrow> db" where
  "sample_accounts ks = empty_db\<lparr>db_devices := [sample_device], db_keys := ks,
     db_users := [\<lparr>u_id = 1, u_student = ''alice'', u_nickname = anonymous\<rparr>], db_user_seq := 1, db_key_seq := 7\<rparr>"

lemma sample_accounts_wf: "accounts_wf (sample_accounts [])" "accounts_wf (sample_accounts [sample_key])"
  by (simp_all add: accounts_wf_def devices_wf_def users_wf_def keys_wf_def sample_accounts_def sample_device_def
      sample_key_def empty_db_def)

lemma sample_parse: "AuthorizedKeyFingerprint demo_env (replicate 32 (CHR ''k'')) = Some sample_fp"
  unfolding sample_fp_def by code_simp

lemma sample_identify: "identify sample_provider ''code'' = Inr ''bob''"
  by code_simp

lemma sample_callback:
  "\<exists>d'. HandleOAuthCallback (False, False) demo_env (Some sample_provider) 3 3 ''st'' ''code'' (sample_accounts []) =
     (Inr \<lparr>bi_student = ''bob'', bi_user = 2, bi_key = 8\<rparr>, d')"
proof -
  have "fst (HandleOAuthCallback (False, False) demo_env (Some sample_provider) 3 3 ''st'' ''code'' (sample_accounts [])) =
     Inr \<lparr>bi_student = ''bob'', bi_user = 2, bi_key = 8\<rparr>"
    by code_simp
  then show ?thesis by (metis prod.collapse)
qed

lemma accounts_stay_wf_witness:
  "accounts_wf (ExpireDeviceAuthRequests 11 (sample_accounts [sample_key]))"
  by (rule accounts_stay_wf [OF sample_accounts_wf(2), of demo_env], rule r_into_rtranclp, rule auth_step.expire)

lemma callback_binds_key_witness:
  "\<exists>r d'. HandleOAuthCallback (False, False) demo_env (Some sample_provider) 3 3 ''st'' ''code'' (sample_accounts []) =
       (Inr \<lparr>bi_student = ''bob'', bi_user = 2, bi_key = 8\<rparr>, d') \<and>
     (\<exists>k \<in> set (db_keys d'). k_id k = 8 \<and> k_user k = 2 \<and> k_public k = da_public r) \<and> r \<in> set (db_devices (sample_accounts []))"
proof -
  obtain d' where run: "HandleOAuthCallback (False, False) demo_env (Some sample_provider) 3 3 ''st'' ''code'' (sample_accounts []) =
       (Inr \<lparr>bi_student = ''bob'', bi_user = 2, bi_key = 8\<rparr>, d')"
    using sample_callback by blast
  from callback_binds_key [OF sample_accounts_wf(1) run] run show ?thesis by auto
qed

lemma oauth_state_single_use_witness:
  "\<exists>d1. HandleOAuthCallback (False, False) demo_env (Some sample_provider) 3 3 ''st'' ''code'' (sample_accounts []) =
       (Inr \<lparr>bi_student = ''bob'', bi_user = 2, bi_key = 8\<rparr>, d1) \<and>
     fst (HandleOAuthCallback (False, False) demo_env (Some sample_provider) 4 4 ''st'' ''code'' (ExpireDeviceAuthRequests 11 d1)) =
       Inl AuthInvalidState"
proof -
  obtain d1 where run: "HandleOAuthCallback (False, False) demo_env (Some sample_provider) 3 3 ''st'' ''code'' (sample_accounts []) =
       (Inr \<lparr>bi_student = ''bob'', bi_user = 2, bi_key = 8\<rparr>, d1)"
    using sample_callback by blast
  have "(auth_step demo_env)\<^sup>*\<^sup>* d1 (ExpireDeviceAuthRequests 11 d1)"
    by (rule r_into_rtranclp) (rule auth_step.expire)
  from oauth_state_single_use [OF sample_accounts_wf(1) run this, of False "Some sample_provider" 4 4 "''code''"] run
  show ?thesis by auto
qed

lemma refused_binding_is_approved_witness:
  "case HandleOAuthCallback (False, False) demo_env (Some sample_provider) 3 3 ''st'' ''code'' (sample_accounts [sample_key]) of
     (res, d') \<Rightarrow> res = Inl AuthInvalidState \<and> sample_key \<in> set (db_keys d') \<and>
       PollDeviceAuthorizationRequest (False, False) 4 (da_code sample_device) d' =
         Inr \<lparr>po_code = da_code sample_device, po_user_code = da_user_code sample_device, po_status = DaApproved,
              po_student = ''bob'', po_key = k_id sample_key\<rparr>"
proof (rule refused_binding_is_approved [OF sample_accounts_wf(2)])
  show "AuthorizedKeyFingerprint demo_env (da_public sample_device) = Some sample_fp"
    by (simp add: sample_device_def sample_parse)
  show "identify sample_provider ''code'' = Inr ''bob''" by (rule sample_identify)
  show "\<not> blank ''st''" "\<not> blank ''code''" "\<not> blank (da_code sample_device)" "pg_text (Some ''bob'')"
    "pg_text (Some (name_or (da_device sample_device) defaultDeviceName))" by code_simp+
qed (simp_all add: sample_accounts_def sample_device_def sample_key_def active_key_def empty_db_def)

end
