(* ===== verification/Web_Session.thy ===== *)
theory Web_Session
  imports Db_Keys "HOL-Library.AList"
begin

text \<open>
  \<^verbatim>\<open>api/internal/service/websession\<close> (\<^verbatim>\<open>service.go\<close>, \<^verbatim>\<open>repo.go\<close>) and \<^verbatim>\<open>db/queries/web_session_tickets.sql\<close>:
  one-minute tickets that hand a signed command-line session over to the browser. The service keeps them
  in memory or in the database; both stores are instances of one contract, a partial map from keys to
  live tickets, from which single use and the limit on outstanding tickets are derived once.
\<close>

section \<open>Redirect paths\<close>

text \<open>
  \<^verbatim>\<open>url.Parse\<close> on a reference that starts with one slash: it fails on a control byte before the fragment
  and on a broken percent escape in the path or the fragment; scheme and host are empty and the path is not.
\<close>

definition hex_byte :: "char \<Rightarrow> bool" where
  "hex_byte c \<longleftrightarrow> (let v = of_char c :: nat in 48 \<le> v \<and> v \<le> 57 \<or> 65 \<le> v \<and> v \<le> 70 \<or> 97 \<le> v \<and> v \<le> 102)"

fun percents_ok :: "string \<Rightarrow> bool" where
  "percents_ok [] = True"
| "percents_ok (c # s) =
     (if c \<noteq> CHR ''%'' then percents_ok s
      else (case s of a # b # t \<Rightarrow> hex_byte a \<and> hex_byte b \<and> percents_ok t | _ \<Rightarrow> False))"

definition ctl_byte :: "char \<Rightarrow> bool" where
  "ctl_byte c \<longleftrightarrow> (of_char c :: nat) < 32 \<or> (of_char c :: nat) = 127"

definition url_parses :: "string \<Rightarrow> bool" where
  "url_parses s =
     (let u = takeWhile (\<lambda>c. c \<noteq> CHR ''#'') s; frag = drop (length u + 1) s
      in list_all (\<lambda>c. \<not> ctl_byte c) u \<and> percents_ok (takeWhile (\<lambda>c. c \<noteq> CHR ''?'') u) \<and> percents_ok frag)"

definition validateRedirectPath :: "string \<Rightarrow> bool" where
  "validateRedirectPath p \<longleftrightarrow> \<not> blank p \<and> has_prefix p ''/'' \<and> \<not> has_prefix p ''//'' \<and> url_parses p"

section \<open>Tokens\<close>

definition url_char :: "char \<Rightarrow> char" where
  "url_char c = (if c = CHR ''+'' then CHR ''-'' else if c = CHR ''/'' then CHR ''_'' else c)"

definition randomTicketToken :: "nat list option \<Rightarrow> string option" where
  "randomTicketToken rand = map_option (\<lambda>bs. map url_char (base64_raw bs)) rand"

definition hashTicketToken :: "env \<Rightarrow> string \<Rightarrow> string" where
  "hashTicketToken e token = hex_text (env_sha256 e token)"

definition redirect_url :: "string \<Rightarrow> string" where
  "redirect_url token = ''/auth/session#ticket='' @ token"

section \<open>Queries\<close>

definition CleanupExpiredWebSessionTickets :: "time \<Rightarrow> db \<Rightarrow> db" where
  "CleanupExpiredWebSessionTickets now d = d\<lparr>db_tickets := delete_where (\<lambda>t. tk_expires t \<le> now) (db_tickets d)\<rparr>"

definition CountActiveWebSessionTickets :: "time \<Rightarrow> db \<Rightarrow> int" where
  "CountActiveWebSessionTickets now d = int (count_where (\<lambda>t. now < tk_expires t) (db_tickets d))"

definition CreateWebSessionTicket :: "ticket_row \<Rightarrow> db \<Rightarrow> db_error + (ticket_row \<times> db)" where
  "CreateWebSessionTicket t d =
     (if \<not> pg_text (Some (tk_path t)) then Inl InvalidText
      else if tk_hash t \<in> tk_hash ` set (db_tickets d) then Inl UniqueViolation
      else if tk_user t \<notin> u_id ` set (db_users d) \<or> tk_key t \<notin> k_id ` set (db_keys d) then Inl ForeignKeyViolation
      else Inr (t, d\<lparr>db_tickets := db_tickets d @ [t]\<rparr>))"

definition ConsumeWebSessionTicket :: "time \<Rightarrow> string \<Rightarrow> db \<Rightarrow> db_error + (ticket_row \<times> db)" where
  "ConsumeWebSessionTicket now h d =
     (case find (\<lambda>t. tk_hash t = h \<and> now < tk_expires t) (db_tickets d) of
        None \<Rightarrow> Inl NoRows
      | Some t \<Rightarrow> Inr (t, d\<lparr>db_tickets := delete_where (\<lambda>t. tk_hash t = h \<and> now < tk_expires t) (db_tickets d)\<rparr>))"

section \<open>The service\<close>

datatype ticket_error =
  InvalidTicket | InvalidRedirectPath | SessionTicketLimitReached | TicketRandom | TicketDb db_error

record ticket_in =
  ti_user :: int
  ti_key :: int
  ti_path :: string

record ticket_result =
  tr_ticket :: string
  tr_url :: string
  tr_expires :: time

record session_ticket =
  st_user :: int
  st_key :: int
  st_path :: string
  st_expires :: time

record consumed =
  co_user :: int
  co_key :: int
  co_path :: string

definition defaultMaxOutstandingTickets :: int where "defaultMaxOutstandingTickets = 64"
definition ticket_ttl :: duration where "ticket_ttl = minute"

definition ticket_limit :: "int \<Rightarrow> int" where
  "ticket_limit n = (if n \<le> 0 then defaultMaxOutstandingTickets else n)"

text \<open>\<^verbatim>\<open>CreateTicket\<close> up to the token.\<close>

definition check_ticket :: "string option \<Rightarrow> ticket_in \<Rightarrow> ticket_error + (ticket_in \<times> string)" where
  "check_ticket token i =
     (if ti_user i \<le> 0 \<or> ti_key i \<le> 0 then Inl InvalidTicket
      else (let path = trim_space (ti_path i)
            in if \<not> validateRedirectPath path then Inl InvalidRedirectPath
               else (case token of None \<Rightarrow> Inl TicketRandom | Some t \<Rightarrow> Inr (i\<lparr>ti_path := path\<rparr>, t))))"

datatype ticket_call = TBegin | TLock | TCleanup | TCount | TCreate | TConsume | TCommit

text \<open>The transaction bodies; a failure of any call or of the commit rolls back.\<close>

definition create_tx ::
  "(ticket_call \<Rightarrow> bool) \<Rightarrow> env \<Rightarrow> int \<Rightarrow> time \<Rightarrow> time \<Rightarrow> ticket_in \<Rightarrow> string \<Rightarrow> db \<Rightarrow> ticket_error + (ticket_result \<times> db)" where
  "create_tx fails e limit now dbnow i token d =
     (if fails TBegin \<or> fails TLock \<or> fails TCleanup then Inl (TicketDb Unavailable)
      else (let d1 = CleanupExpiredWebSessionTickets dbnow d
            in if fails TCount then Inl (TicketDb Unavailable)
               else if ticket_limit limit \<le> CountActiveWebSessionTickets dbnow d1 then Inl SessionTicketLimitReached
               else (let row = \<lparr>tk_hash = hashTicketToken e token, tk_user = ti_user i, tk_key = ti_key i,
                                tk_path = ti_path i, tk_expires = now + ticket_ttl\<rparr>
                     in case faulty (fails TCreate) (CreateWebSessionTicket row d1) of
                          Inl err \<Rightarrow> Inl (TicketDb err)
                        | Inr (_, d2) \<Rightarrow>
                            (if fails TCommit then Inl (TicketDb Unavailable)
                             else Inr (\<lparr>tr_ticket = token, tr_url = redirect_url token, tr_expires = now + ticket_ttl\<rparr>, d2)))))"

definition CreateTicket ::
  "(ticket_call \<Rightarrow> bool) \<Rightarrow> env \<Rightarrow> int \<Rightarrow> time \<Rightarrow> time \<Rightarrow> string option \<Rightarrow> ticket_in \<Rightarrow> db \<Rightarrow> (ticket_error + ticket_result) \<times> db" where
  "CreateTicket fails e limit now dbnow token i d =
     (case check_ticket token i of
        Inl err \<Rightarrow> (Inl err, d)
      | Inr (i', t) \<Rightarrow> (case create_tx fails e limit now dbnow i' t d of
          Inl err \<Rightarrow> (Inl err, d)
        | Inr (res, d') \<Rightarrow> (Inr res, d')))"

definition ConsumeTicket ::
  "(ticket_call \<Rightarrow> bool) \<Rightarrow> env \<Rightarrow> time \<Rightarrow> string \<Rightarrow> db \<Rightarrow> (ticket_error + consumed) \<times> db" where
  "ConsumeTicket fails e dbnow ticket d =
     (if blank ticket then (Inl InvalidTicket, d)
      else if fails TBegin \<or> fails TCleanup then (Inl (TicketDb Unavailable), d)
      else (case faulty (fails TConsume)
                   (ConsumeWebSessionTicket dbnow (hashTicketToken e (trim_space ticket)) (CleanupExpiredWebSessionTickets dbnow d)) of
              Inl err \<Rightarrow> (Inl (if err = NoRows then InvalidTicket else TicketDb err), d)
            | Inr (t, d') \<Rightarrow>
                (if fails TCommit then (Inl (TicketDb Unavailable), d)
                 else (Inr \<lparr>co_user = tk_user t, co_key = tk_key t, co_path = tk_path t\<rparr>, d'))))"

text \<open>The store in memory: a Go map with the token as key.\<close>

type_synonym ticket_map = "(string \<times> session_ticket) list"

definition cleanupExpiredLocked :: "time \<Rightarrow> ticket_map \<Rightarrow> ticket_map" where
  "cleanupExpiredLocked now m = filter (\<lambda>(_, t). \<not> st_expires t < now) m"

definition mem_CreateTicket ::
  "int \<Rightarrow> time \<Rightarrow> string option \<Rightarrow> ticket_in \<Rightarrow> ticket_map \<Rightarrow> (ticket_error + ticket_result) \<times> ticket_map" where
  "mem_CreateTicket limit now token i m =
     (case check_ticket token i of
        Inl err \<Rightarrow> (Inl err, m)
      | Inr (i', t) \<Rightarrow>
          (let m1 = cleanupExpiredLocked now m
           in if ticket_limit limit \<le> int (length m1) then (Inl SessionTicketLimitReached, m1)
              else (Inr \<lparr>tr_ticket = t, tr_url = redirect_url t, tr_expires = now + ticket_ttl\<rparr>,
                    AList.update t \<lparr>st_user = ti_user i', st_key = ti_key i', st_path = ti_path i',
                                    st_expires = now + ticket_ttl\<rparr> m1)))"

definition mem_ConsumeTicket :: "time \<Rightarrow> string \<Rightarrow> ticket_map \<Rightarrow> (ticket_error + consumed) \<times> ticket_map" where
  "mem_ConsumeTicket now ticket m =
     (if blank ticket then (Inl InvalidTicket, m)
      else (let m1 = cleanupExpiredLocked now m
            in case map_of m1 (trim_space ticket) of
                 None \<Rightarrow> (Inl InvalidTicket, m1)
               | Some t \<Rightarrow> (Inr \<lparr>co_user = st_user t, co_key = st_key t, co_path = st_path t\<rparr>,
                            AList.delete (trim_space ticket) m1)))"

section \<open>The contract of a ticket store\<close>

text \<open>Requests at the clock of the store, with whatever else decides their outcome, and what they did.\<close>

datatype 'f ticket_op = Issue 'f time "string option" ticket_in | Redeem 'f time string
datatype ticket_event = Issued string consumed | Redeemed string consumed | Refused

fun op_time :: "'f ticket_op \<Rightarrow> time" where
  "op_time (Issue f t tok i) = t"
| "op_time (Redeem f t tok) = t"

definition ticket_of :: "ticket_in \<Rightarrow> consumed" where
  "ticket_of i = \<lparr>co_user = ti_user i, co_key = ti_key i, co_path = trim_space (ti_path i)\<rparr>"

fun ticket_step ::
  "('f \<Rightarrow> time \<Rightarrow> string option \<Rightarrow> ticket_in \<Rightarrow> 's \<Rightarrow> (ticket_error + ticket_result) \<times> 's) \<Rightarrow>
   ('f \<Rightarrow> time \<Rightarrow> string \<Rightarrow> 's \<Rightarrow> (ticket_error + consumed) \<times> 's) \<Rightarrow> 'f ticket_op \<Rightarrow> 's \<Rightarrow> ticket_event \<times> 's" where
  "ticket_step issue redeem (Issue f t tok i) s =
     (case issue f t tok i s of (Inl _, s') \<Rightarrow> (Refused, s') | (Inr r, s') \<Rightarrow> (Issued (tr_ticket r) (ticket_of i), s'))"
| "ticket_step issue redeem (Redeem f t tok) s =
     (case redeem f t tok s of (Inl _, s') \<Rightarrow> (Refused, s') | (Inr c, s') \<Rightarrow> (Redeemed (trim_space tok) c, s'))"

primrec ticket_run ::
  "('f \<Rightarrow> time \<Rightarrow> string option \<Rightarrow> ticket_in \<Rightarrow> 's \<Rightarrow> (ticket_error + ticket_result) \<times> 's) \<Rightarrow>
   ('f \<Rightarrow> time \<Rightarrow> string \<Rightarrow> 's \<Rightarrow> (ticket_error + consumed) \<times> 's) \<Rightarrow> 'f ticket_op list \<Rightarrow> 's \<Rightarrow> ticket_event list \<times> 's" where
  "ticket_run issue redeem [] s = ([], s)"
| "ticket_run issue redeem (o1 # os) s =
     (let (ev, s1) = ticket_step issue redeem o1 s; (evs, s2) = ticket_run issue redeem os s1 in (ev # evs, s2))"

fun issued :: "(string \<Rightarrow> 'k) \<Rightarrow> 'k \<Rightarrow> consumed \<Rightarrow> ticket_event \<Rightarrow> bool" where
  "issued key k c (Issued t c') = (key t = k \<and> c' = c)"
| "issued key k c _ = False"

fun redeemed :: "(string \<Rightarrow> 'k) \<Rightarrow> 'k \<Rightarrow> consumed \<Rightarrow> ticket_event \<Rightarrow> bool" where
  "redeemed key k c (Redeemed t c') = (key t = k \<and> c' = c)"
| "redeemed key k c _ = False"

locale ticket_store =
  fixes ok :: "'s \<Rightarrow> bool"
    and view :: "time \<Rightarrow> 's \<Rightarrow> 'k \<Rightarrow> consumed option"
    and live :: "time \<Rightarrow> 's \<Rightarrow> nat"
    and key :: "string \<Rightarrow> 'k"
    and limit :: nat
    and issue :: "'f \<Rightarrow> time \<Rightarrow> string option \<Rightarrow> ticket_in \<Rightarrow> 's \<Rightarrow> (ticket_error + ticket_result) \<times> 's"
    and redeem :: "'f \<Rightarrow> time \<Rightarrow> string \<Rightarrow> 's \<Rightarrow> (ticket_error + consumed) \<times> 's"
  assumes ok_issue: "ok s \<Longrightarrow> ok (snd (issue f t tok i s))"
    and ok_redeem: "ok s \<Longrightarrow> ok (snd (redeem f t tk s))"
    and issue_refused: "ok s \<Longrightarrow> issue f t tok i s = (Inl err, s') \<Longrightarrow> view t s' = view t s \<and> live t s' \<le> live t s"
    and issue_done: "ok s \<Longrightarrow> issue f t tok i s = (Inr r, s') \<Longrightarrow>
      (\<exists>x. (x = None \<or> x = Some (ticket_of i)) \<and> view t s' = (view t s)(key (tr_ticket r) := x)) \<and> live t s' \<le> limit"
    and redeem_refused: "ok s \<Longrightarrow> redeem f t tk s = (Inl err, s') \<Longrightarrow> view t s' = view t s \<and> live t s' \<le> live t s"
    and redeem_done: "ok s \<Longrightarrow> redeem f t tk s = (Inr c, s') \<Longrightarrow>
      view t s (key (trim_space tk)) = Some c \<and> view t s' = (view t s)(key (trim_space tk) := None) \<and> live t s' \<le> live t s"
    and view_fades: "ok s \<Longrightarrow> t \<le> t' \<Longrightarrow> view t' s k = Some c \<Longrightarrow> view t s k = Some c"
    and live_fades: "t \<le> t' \<Longrightarrow> live t' s \<le> live t s"
begin

lemma step_ok: "ok s \<Longrightarrow> ticket_step issue redeem o1 s = (ev, s') \<Longrightarrow> ok s'"
  using ok_issue ok_redeem
  by (cases o1) (auto split: prod.splits sum.splits, (metis snd_conv)+)

lemma step_balance:
  assumes "ok s" and "ticket_step issue redeem o1 s = (ev, s')"
  shows "of_bool (redeemed key k c ev) + of_bool (view (op_time o1) s' k = Some c) \<le>
    (of_bool (issued key k c ev) + of_bool (view (op_time o1) s k = Some c) :: nat)"
proof (cases o1)
  case (Issue f t tok i)
  obtain r s1 where r: "issue f t tok i s = (r, s1)" by fastforce
  show ?thesis
  proof (cases r)
    case (Inl err)
    with assms Issue r issue_refused [OF assms(1), of f t tok i err s1] show ?thesis by auto
  next
    case (Inr tr)
    with assms Issue r issue_done [OF assms(1), of f t tok i tr s1] show ?thesis by (auto split: if_splits)
  qed
next
  case (Redeem f t tk)
  obtain r s1 where r: "redeem f t tk s = (r, s1)" by fastforce
  show ?thesis
  proof (cases r)
    case (Inl err)
    with assms Redeem r redeem_refused [OF assms(1), of f t tk err s1] show ?thesis by auto
  next
    case (Inr c')
    with assms Redeem r redeem_done [OF assms(1), of f t tk c' s1] show ?thesis by (auto split: if_splits)
  qed
qed

lemma step_live:
  assumes "ok s" and "ticket_step issue redeem o1 s = (ev, s')" and "live (op_time o1) s \<le> limit"
  shows "live (op_time o1) s' \<le> limit"
proof (cases o1)
  case (Issue f t tok i)
  obtain r s1 where r: "issue f t tok i s = (r, s1)" by fastforce
  with assms Issue show ?thesis
    using issue_refused [OF assms(1), of f t tok i _ s1] issue_done [OF assms(1), of f t tok i _ s1]
    by (cases r) fastforce+
next
  case (Redeem f t tk)
  obtain r s1 where r: "redeem f t tk s = (r, s1)" by fastforce
  with assms Redeem show ?thesis
    using redeem_refused [OF assms(1), of f t tk _ s1] redeem_done [OF assms(1), of f t tk _ s1]
    by (cases r) fastforce+
qed

lemma run_ok: "ok s \<Longrightarrow> ticket_run issue redeem os s = (evs, s') \<Longrightarrow> ok s'"
  by (induction os arbitrary: s evs) (auto simp: Let_def split: prod.splits dest: step_ok)

lemma run_balance:
  assumes "ok s" and "sorted (t0 # map op_time os @ [t1])" and "ticket_run issue redeem os s = (evs, s')"
  shows "count_where (redeemed key k c) evs + of_bool (view t1 s' k = Some c) \<le>
    count_where (issued key k c) evs + of_bool (view t0 s k = Some c)"
  using assms
proof (induction os arbitrary: s t0 evs)
  case Nil
  then show ?case using view_fades [of s t0 t1 k c] by auto
next
  case (Cons o1 os)
  obtain ev s1 evs1 where st: "ticket_step issue redeem o1 s = (ev, s1)"
    and rn: "ticket_run issue redeem os s1 = (evs1, s')" and evs: "evs = ev # evs1"
    using Cons.prems(3) by (auto simp: Let_def split: prod.splits)
  have "count_where (redeemed key k c) evs1 + of_bool (view t1 s' k = Some c) \<le>
    count_where (issued key k c) evs1 + of_bool (view (op_time o1) s1 k = Some c)"
    using step_ok [OF Cons.prems(1) st] Cons.prems(2) rn by (intro Cons.IH) auto
  moreover have "of_bool (view (op_time o1) s k = Some c) \<le> (of_bool (view t0 s k = Some c) :: nat)"
    using Cons.prems(2) view_fades [OF Cons.prems(1), of t0 "op_time o1" k c] by auto
  moreover have cw: "count_where P (ev # evs1) = of_bool (P ev) + count_where P evs1" for P by simp
  ultimately show ?case
    using step_balance [OF Cons.prems(1) st, of k c] unfolding evs cw by linarith
qed

lemma run_live:
  assumes "ok s" and "sorted (t0 # map op_time os @ [t1])" and "ticket_run issue redeem os s = (evs, s')"
    and "live t0 s \<le> limit"
  shows "live t1 s' \<le> limit"
  using assms
proof (induction os arbitrary: s t0 evs)
  case Nil
  then show ?case using live_fades [of t0 t1 s] by simp
next
  case (Cons o1 os)
  obtain ev s1 evs1 where st: "ticket_step issue redeem o1 s = (ev, s1)"
    and rn: "ticket_run issue redeem os s1 = (evs1, s')"
    using Cons.prems(3) by (auto simp: Let_def split: prod.splits)
  have "live (op_time o1) s \<le> limit"
    using live_fades [of t0 "op_time o1" s] Cons.prems(2,4) by simp
  from step_live [OF Cons.prems(1) st this] step_ok [OF Cons.prems(1) st] Cons.prems(2) rn show ?case
    by (intro Cons.IH [of s1 "op_time o1" evs1]) auto
qed

end

section \<open>The two stores\<close>

definition row_ticket :: "ticket_row \<Rightarrow> consumed" where
  "row_ticket t = \<lparr>co_user = tk_user t, co_key = tk_key t, co_path = tk_path t\<rparr>"

definition db_view :: "time \<Rightarrow> db \<Rightarrow> string \<Rightarrow> consumed option" where
  "db_view now d h = map_option row_ticket (find (\<lambda>t. tk_hash t = h \<and> now < tk_expires t) (db_tickets d))"

definition db_live :: "time \<Rightarrow> db \<Rightarrow> nat" where
  "db_live now d = count_where (\<lambda>t. now < tk_expires t) (db_tickets d)"

definition tickets_wf :: "db \<Rightarrow> bool" where
  "tickets_wf d \<longleftrightarrow> distinct (map tk_hash (db_tickets d))"

lemma find_delete [simp]:
  "find (\<lambda>t. P t \<and> now < tk_expires t) (delete_where (\<lambda>t. tk_expires t \<le> now) ts) = find (\<lambda>t. P t \<and> now < tk_expires t) ts"
  by (induction ts) (auto simp: delete_where_def)

lemma count_delete [simp]:
  "count_where (\<lambda>t. now < tk_expires t) (delete_where (\<lambda>t. tk_expires t \<le> now) ts) = count_where (\<lambda>t. now < tk_expires t) ts"
  by (induction ts) (auto simp: delete_where_def)

lemma cleanup_view [simp]:
  "db_view now (CleanupExpiredWebSessionTickets now d) = db_view now d"
  "db_live now (CleanupExpiredWebSessionTickets now d) = db_live now d"
  by (simp_all add: fun_eq_iff db_view_def db_live_def CleanupExpiredWebSessionTickets_def)

lemma tickets_wf_delete: "tickets_wf d \<Longrightarrow> tickets_wf (d\<lparr>db_tickets := delete_where P (db_tickets d)\<rparr>)"
  by (simp add: tickets_wf_def delete_where_def distinct_map_filter)

lemma cleanup_wf: "tickets_wf d \<Longrightarrow> tickets_wf (CleanupExpiredWebSessionTickets now d)"
  unfolding CleanupExpiredWebSessionTickets_def by (rule tickets_wf_delete)

lemma create_tx_accepted:
  assumes "create_tx fails e limit now dbnow i t d = Inr (r, d')"
  shows "r = \<lparr>tr_ticket = t, tr_url = redirect_url t, tr_expires = now + ticket_ttl\<rparr>"
    and "CountActiveWebSessionTickets dbnow (CleanupExpiredWebSessionTickets dbnow d) < ticket_limit limit"
    and "hashTicketToken e t \<notin> tk_hash ` set (db_tickets (CleanupExpiredWebSessionTickets dbnow d))"
    and "d' = d\<lparr>db_tickets := db_tickets (CleanupExpiredWebSessionTickets dbnow d) @
         [\<lparr>tk_hash = hashTicketToken e t, tk_user = ti_user i, tk_key = ti_key i,
           tk_path = ti_path i, tk_expires = now + ticket_ttl\<rparr>]\<rparr>"
  using assms
  by (simp_all add: create_tx_def Let_def CreateWebSessionTicket_def not_le CleanupExpiredWebSessionTickets_def
      split: if_splits sum.splits prod.splits)

lemma check_ticket_accepted:
  "check_ticket tok i = Inr (i', t) \<Longrightarrow> tok = Some t \<and> i' = i\<lparr>ti_path := trim_space (ti_path i)\<rparr>"
  by (auto simp: check_ticket_def Let_def split: if_splits option.splits)

lemma CreateTicket_cases:
  assumes "CreateTicket fails e limit now dbnow tok i d = (res, d')"
  obtains (refused) err where "res = Inl err" "d' = d"
  | (accepted) t where "tok = Some t" "res = Inr \<lparr>tr_ticket = t, tr_url = redirect_url t, tr_expires = now + ticket_ttl\<rparr>"
      "CountActiveWebSessionTickets dbnow (CleanupExpiredWebSessionTickets dbnow d) < ticket_limit limit"
      "hashTicketToken e t \<notin> tk_hash ` set (db_tickets (CleanupExpiredWebSessionTickets dbnow d))"
      "d' = d\<lparr>db_tickets := db_tickets (CleanupExpiredWebSessionTickets dbnow d) @
         [\<lparr>tk_hash = hashTicketToken e t, tk_user = ti_user i, tk_key = ti_key i,
           tk_path = trim_space (ti_path i), tk_expires = now + ticket_ttl\<rparr>]\<rparr>"
proof (cases "\<exists>i' t r. check_ticket tok i = Inr (i', t) \<and> create_tx fails e limit now dbnow i' t d = Inr (r, d') \<and> res = Inr r")
  case True
  then obtain i' t r where "check_ticket tok i = Inr (i', t)" "create_tx fails e limit now dbnow i' t d = Inr (r, d')" "res = Inr r"
    by blast
  with check_ticket_accepted [OF this(1)] create_tx_accepted [OF this(2)] show thesis
    by (intro accepted [of t]) auto
next
  case False
  with assms have "\<exists>err. res = Inl err \<and> d' = d"
    by (auto simp: CreateTicket_def split: sum.splits prod.splits)
  then show thesis using refused by blast
qed

lemma ConsumeWebSessionTicket_ok:
  "ConsumeWebSessionTicket now h d = Inr (t, d') \<Longrightarrow>
   find (\<lambda>t. tk_hash t = h \<and> now < tk_expires t) (db_tickets d) = Some t \<and>
   d' = d\<lparr>db_tickets := delete_where (\<lambda>t. tk_hash t = h \<and> now < tk_expires t) (db_tickets d)\<rparr>"
  by (auto simp: ConsumeWebSessionTicket_def split: option.splits)

lemma cleanup_find:
  "find (\<lambda>t. P t \<and> now < tk_expires t) (db_tickets (CleanupExpiredWebSessionTickets now d)) =
   find (\<lambda>t. P t \<and> now < tk_expires t) (db_tickets d)"
  by (simp add: CleanupExpiredWebSessionTickets_def)

lemma ConsumeTicket_cases:
  assumes "ConsumeTicket fails e dbnow tk d = (res, d')"
  obtains (refused) err where "res = Inl err" "d' = d"
  | (accepted) t where "find (\<lambda>t. tk_hash t = hashTicketToken e (trim_space tk) \<and> dbnow < tk_expires t) (db_tickets d) = Some t"
      "res = Inr (row_ticket t)"
      "d' = d\<lparr>db_tickets := delete_where (\<lambda>t. tk_hash t = hashTicketToken e (trim_space tk) \<and> dbnow < tk_expires t)
          (db_tickets (CleanupExpiredWebSessionTickets dbnow d))\<rparr>"
proof (cases "\<exists>t. ConsumeWebSessionTicket dbnow (hashTicketToken e (trim_space tk)) (CleanupExpiredWebSessionTickets dbnow d) = Inr (t, d') \<and>
    res = Inr (row_ticket t)")
  case True
  then obtain t where "ConsumeWebSessionTicket dbnow (hashTicketToken e (trim_space tk)) (CleanupExpiredWebSessionTickets dbnow d) = Inr (t, d')"
    "res = Inr (row_ticket t)" by blast
  with ConsumeWebSessionTicket_ok [OF this(1)] show thesis
    by (intro accepted [of t]) (simp_all add: cleanup_find, simp add: CleanupExpiredWebSessionTickets_def)
next
  case False
  with assms have "\<exists>err. res = Inl err \<and> d' = d"
    by (auto simp: ConsumeTicket_def row_ticket_def split: if_splits sum.splits prod.splits)
  then show thesis using refused by blast
qed

text \<open>The database: besides the calls that fail, the clock of the service sets the expiry.\<close>

definition db_issue ::
  "env \<Rightarrow> int \<Rightarrow> (ticket_call \<Rightarrow> bool) \<times> time \<Rightarrow> time \<Rightarrow> string option \<Rightarrow> ticket_in \<Rightarrow> db \<Rightarrow> (ticket_error + ticket_result) \<times> db" where
  "db_issue e limit f t tok i d = CreateTicket (fst f) e limit (snd f) t tok i d"

definition db_redeem ::
  "env \<Rightarrow> (ticket_call \<Rightarrow> bool) \<times> time \<Rightarrow> time \<Rightarrow> string \<Rightarrow> db \<Rightarrow> (ticket_error + consumed) \<times> db" where
  "db_redeem e f t tk d = ConsumeTicket (fst f) e t tk d"

lemma db_issue_wf:
  assumes "tickets_wf d" and "CreateTicket fails e limit now t tok i d = (res, d')"
  shows "tickets_wf d'"
  using assms(2)
proof (cases rule: CreateTicket_cases)
  case refused
  with assms(1) show ?thesis by simp
next
  case (accepted tk)
  with cleanup_wf [OF assms(1), of t] show ?thesis by (simp add: tickets_wf_def)
qed

lemma db_redeem_wf:
  assumes "tickets_wf d" and "ConsumeTicket fails e t tk d = (res, d')"
  shows "tickets_wf d'"
  using assms(2)
proof (cases rule: ConsumeTicket_cases)
  case refused
  with assms(1) show ?thesis by simp
next
  case (accepted tr)
  with tickets_wf_delete [OF cleanup_wf [OF assms(1), of t]] show ?thesis by (simp add: tickets_wf_def)
qed

lemma db_issue_view:
  assumes "tickets_wf d" and "CreateTicket fails e limit now t tok i d = (Inr r, d')"
  shows "(\<exists>x. (x = None \<or> x = Some (ticket_of i)) \<and> db_view t d' = (db_view t d)(hashTicketToken e (tr_ticket r) := x)) \<and>
    db_live t d' \<le> nat (ticket_limit limit)"
  using assms(2)
proof (cases rule: CreateTicket_cases)
  case (accepted tk)
  let ?d = "CleanupExpiredWebSessionTickets t d"
  let ?x = "if t < now + ticket_ttl then Some (ticket_of i) else None"
  have new: "find (\<lambda>q. tk_hash q = hashTicketToken e tk \<and> t < tk_expires q) (db_tickets ?d) = None"
    using accepted(4) by (force simp: find_none)
  have "db_view t d' k = ((db_view t ?d)(hashTicketToken e tk := ?x)) k" for k
    using new by (auto simp: accepted(5) db_view_def find_append row_ticket_def ticket_of_def simp del: cleanup_view split: option.splits)
  then have "db_view t d' = (db_view t d)(hashTicketToken e (tr_ticket r) := ?x)"
    using accepted(2) by (auto simp: fun_eq_iff)
  then have "\<exists>x. (x = None \<or> x = Some (ticket_of i)) \<and> db_view t d' = (db_view t d)(hashTicketToken e (tr_ticket r) := x)"
    by (intro exI [of _ ?x]) auto
  moreover have "db_live t d' \<le> Suc (db_live t ?d)" by (simp add: accepted(5) db_live_def)
  moreover from accepted(3) have "int (db_live t d) < ticket_limit limit"
    by (simp add: CountActiveWebSessionTickets_def flip: db_live_def)
  ultimately have "db_live t d' \<le> nat (ticket_limit limit)" by simp
  with \<open>\<exists>x. _ x\<close> show ?thesis by blast
qed simp

lemma db_redeem_view:
  assumes "tickets_wf d" and "find (\<lambda>t. tk_hash t = h \<and> now < tk_expires t) (db_tickets d) = Some t"
  shows "db_view now (d\<lparr>db_tickets := delete_where (\<lambda>t. tk_hash t = h \<and> now < tk_expires t)
          (db_tickets (CleanupExpiredWebSessionTickets now d))\<rparr>) = (db_view now d)(h := None)"
proof
  fix k
  show "db_view now (d\<lparr>db_tickets := delete_where (\<lambda>t. tk_hash t = h \<and> now < tk_expires t)
          (db_tickets (CleanupExpiredWebSessionTickets now d))\<rparr>) k = ((db_view now d)(h := None)) k"
  proof (cases "k = h")
    case True
    then show ?thesis by (auto simp: db_view_def find_none)
  next
    case False
    have eq: "find (\<lambda>t. tk_hash t = k \<and> now < tk_expires t) (delete_where (\<lambda>t. tk_hash t = h \<and> now < tk_expires t) ts) =
      find (\<lambda>t. tk_hash t = k \<and> now < tk_expires t) ts" for ts
      using False by (induction ts) (auto simp: delete_where_def)
    have "db_tickets (d\<lparr>db_tickets := x\<rparr>) = x" for x by simp
    with False show ?thesis
      unfolding db_view_def fun_upd_def by (simp add: eq cleanup_find)
  qed
qed

lemma db_redeem_live: "db_live now (d\<lparr>db_tickets := delete_where P (db_tickets (CleanupExpiredWebSessionTickets now d))\<rparr>) \<le> db_live now d"
proof -
  have "count_where Q (delete_where P ts) \<le> count_where Q ts" for Q ts
    by (induction ts) (auto simp: delete_where_def)
  then have "db_live now (d\<lparr>db_tickets := delete_where P (db_tickets (CleanupExpiredWebSessionTickets now d))\<rparr>)
      \<le> db_live now (CleanupExpiredWebSessionTickets now d)"
    by (simp add: db_live_def)
  then show ?thesis by simp
qed

lemma db_view_fades:
  assumes "tickets_wf d" and "t \<le> t'" and "db_view t' d k = Some c"
  shows "db_view t d k = Some c"
proof -
  from assms(3) obtain r where r: "r \<in> set (db_tickets d)" "tk_hash r = k" "t' < tk_expires r" "c = row_ticket r"
    by (auto simp: db_view_def dest!: find_SomeD)
  obtain q where q: "find (\<lambda>q. tk_hash q = k \<and> t < tk_expires q) (db_tickets d) = Some q"
    using find_exists [of "db_tickets d" "\<lambda>q. tk_hash q = k \<and> t < tk_expires q"] r assms(2) by force
  from find_SomeD [OF q] r(1,2) assms(1) have "q = r"
    by (intro distinct_key_eq [of tk_hash "db_tickets d"]) (auto simp: tickets_wf_def)
  with q r(4) show ?thesis by (simp add: db_view_def)
qed

interpretation pst: ticket_store tickets_wf db_view db_live "hashTicketToken e" "nat (ticket_limit limit)"
    "db_issue e limit" "db_redeem e"
  for e limit
proof
  fix d d' :: db and f t tok i err
  assume wf: "tickets_wf d"
  show "tickets_wf (snd (db_issue e limit f t tok i d))"
    unfolding db_issue_def by (rule db_issue_wf [OF wf]) (rule prod.collapse [symmetric])
  show "tickets_wf (snd (db_redeem e f t tk d))" for tk
    unfolding db_redeem_def by (rule db_redeem_wf [OF wf]) (rule prod.collapse [symmetric])
  show "db_view t d' = db_view t d \<and> db_live t d' \<le> db_live t d" if "db_issue e limit f t tok i d = (Inl err, d')"
    using that unfolding db_issue_def by (cases rule: CreateTicket_cases) auto
  show "(\<exists>x. (x = None \<or> x = Some (ticket_of i)) \<and> db_view t d' = (db_view t d)(hashTicketToken e (tr_ticket r) := x)) \<and>
      db_live t d' \<le> nat (ticket_limit limit)" if "db_issue e limit f t tok i d = (Inr r, d')" for r
    using db_issue_view [OF wf that [unfolded db_issue_def]] .
  show "db_view t d' = db_view t d \<and> db_live t d' \<le> db_live t d" if "db_redeem e f t tk d = (Inl err, d')" for tk
    using that unfolding db_redeem_def by (cases rule: ConsumeTicket_cases) auto
  show "db_view t d (hashTicketToken e (trim_space tk)) = Some c \<and>
      db_view t d' = (db_view t d)(hashTicketToken e (trim_space tk) := None) \<and> db_live t d' \<le> db_live t d"
    if "db_redeem e f t tk d = (Inr c, d')" for tk c
    using that unfolding db_redeem_def
    by (cases rule: ConsumeTicket_cases) (use db_redeem_view [OF wf] db_redeem_live in \<open>auto simp: db_view_def\<close>)
  show "t \<le> t' \<Longrightarrow> db_view t' d k = Some c \<Longrightarrow> db_view t d k = Some c" for t' k c
    using wf by (rule db_view_fades)
next
  fix t t' d
  show "t \<le> t' \<Longrightarrow> db_live t' d \<le> db_live t d"
    unfolding db_live_def by (rule count_where_mono) simp
qed

text \<open>The map in memory.\<close>

definition mem_ticket :: "session_ticket \<Rightarrow> consumed" where
  "mem_ticket t = \<lparr>co_user = st_user t, co_key = st_key t, co_path = st_path t\<rparr>"

definition mem_view :: "time \<Rightarrow> ticket_map \<Rightarrow> string \<Rightarrow> consumed option" where
  "mem_view now m k = map_option mem_ticket (map_of (cleanupExpiredLocked now m) k)"

definition mem_live :: "time \<Rightarrow> ticket_map \<Rightarrow> nat" where
  "mem_live now m = length (cleanupExpiredLocked now m)"

definition mem_wf :: "ticket_map \<Rightarrow> bool" where
  "mem_wf m \<longleftrightarrow> distinct (map fst m)"

lemma mem_cleanup_wf: "mem_wf m \<Longrightarrow> mem_wf (cleanupExpiredLocked now m)"
  unfolding mem_wf_def cleanupExpiredLocked_def by (rule distinct_map_filter)

lemma map_of_cleanup:
  "mem_wf m \<Longrightarrow> map_of (cleanupExpiredLocked now m) k = Some t \<longleftrightarrow> map_of m k = Some t \<and> \<not> st_expires t < now"
  using mem_cleanup_wf [of m now] by (auto simp: mem_wf_def cleanupExpiredLocked_def)

lemma cleanup_idem [simp]: "cleanupExpiredLocked now (cleanupExpiredLocked now m) = cleanupExpiredLocked now m"
  by (simp add: cleanupExpiredLocked_def)

lemma mem_cleanup_view [simp]:
  "mem_view now (cleanupExpiredLocked now m) = mem_view now m" "mem_live now (cleanupExpiredLocked now m) = mem_live now m"
  by (simp_all add: fun_eq_iff mem_view_def mem_live_def)

lemma length_cleanup: "length (cleanupExpiredLocked now m) \<le> length m"
  by (simp add: cleanupExpiredLocked_def)

lemma length_alist_update: "length (AList.update k v m) \<le> Suc (length m)"
  by (induction m) auto

lemma opt_eqI: "(\<And>t. x = Some t \<longleftrightarrow> y = Some t) \<Longrightarrow> x = y"
  by (cases x) (force, metis)

lemma mem_view_eqI:
  assumes "mem_wf m" and "mem_wf m'"
    and "\<And>k t. (map_of m' k = Some t \<and> \<not> st_expires t < now) = (if k = a then x = Some t else map_of m k = Some t \<and> \<not> st_expires t < now)"
  shows "mem_view now m' = (mem_view now m)(a := map_option mem_ticket x)"
proof
  fix k
  have "map_of (cleanupExpiredLocked now m') k = (if k = a then x else map_of (cleanupExpiredLocked now m) k)"
  proof (rule opt_eqI)
    fix t
    show "map_of (cleanupExpiredLocked now m') k = Some t \<longleftrightarrow> (if k = a then x else map_of (cleanupExpiredLocked now m) k) = Some t"
      using assms(3) [of k t] by (simp add: map_of_cleanup assms(1,2))
  qed
  then show "mem_view now m' k = ((mem_view now m)(a := map_option mem_ticket x)) k"
    by (simp add: mem_view_def)
qed

lemma mem_view_fades:
  assumes "mem_wf m" and "t \<le> t'" and "mem_view t' m k = Some c"
  shows "mem_view t m k = Some c"
proof -
  from assms(3) obtain x where "map_of (cleanupExpiredLocked t' m) k = Some x" "c = mem_ticket x"
    by (auto simp: mem_view_def)
  then have "map_of (cleanupExpiredLocked t m) k = Some x"
    using assms(1,2) by (simp add: map_of_cleanup)
  with \<open>c = _\<close> show ?thesis by (simp add: mem_view_def)
qed

lemma mem_issue_cases:
  assumes "mem_CreateTicket limit now tok i m = (res, m')"
  obtains (refused) err where "res = Inl err" "m' = m \<or> m' = cleanupExpiredLocked now m"
  | (accepted) t where "res = Inr \<lparr>tr_ticket = t, tr_url = redirect_url t, tr_expires = now + ticket_ttl\<rparr>"
      "int (mem_live now m) < ticket_limit limit"
      "m' = AList.update t \<lparr>st_user = ti_user i, st_key = ti_key i, st_path = trim_space (ti_path i),
         st_expires = now + ticket_ttl\<rparr> (cleanupExpiredLocked now m)"
proof (cases "check_ticket tok i")
  case (Inl err)
  with assms show thesis by (intro refused) (auto simp: mem_CreateTicket_def)
next
  case (Inr p)
  obtain i' t where p: "p = (i', t)" by fastforce
  show thesis
  proof (cases "ticket_limit limit \<le> int (length (cleanupExpiredLocked now m))")
    case True
    with assms show thesis by (intro refused) (auto simp: mem_CreateTicket_def Inr p Let_def)
  next
    case False
    with assms check_ticket_accepted [OF Inr [unfolded p], THEN conjunct2] show thesis
      by (intro accepted [of t]) (simp_all add: mem_CreateTicket_def Inr p Let_def mem_live_def)
  qed
qed

lemma mem_issue_view:
  assumes wf: "mem_wf m" and "mem_CreateTicket limit now tok i m = (Inr r, m')"
  shows "(\<exists>x. (x = None \<or> x = Some (ticket_of i)) \<and> mem_view now m' = (mem_view now m)(tr_ticket r := x)) \<and>
    mem_live now m' \<le> nat (ticket_limit limit)"
  using assms(2)
proof (cases rule: mem_issue_cases)
  case (accepted t)
  let ?x = "\<lparr>st_user = ti_user i, st_key = ti_key i, st_path = trim_space (ti_path i), st_expires = now + ticket_ttl\<rparr>"
  have "mem_view now m' = (mem_view now m)(t := map_option mem_ticket (Some ?x))"
  proof (rule mem_view_eqI [OF wf])
    show "mem_wf m'"
      using mem_cleanup_wf [OF wf, of now] unfolding accepted(3) mem_wf_def by (rule distinct_update)
    fix k q
    show "(map_of m' k = Some q \<and> \<not> st_expires q < now) = (if k = t then Some ?x = Some q else map_of m k = Some q \<and> \<not> st_expires q < now)"
      by (auto simp: accepted(3) update_conv' map_of_cleanup [OF wf] ticket_ttl_def minute_def second_def)
  qed
  moreover have "mem_live now m' \<le> Suc (mem_live now m)"
    using length_cleanup [of now m'] length_alist_update [of t ?x "cleanupExpiredLocked now m"]
    unfolding mem_live_def accepted(3) by linarith
  ultimately show ?thesis
    using accepted(1,2) by (auto simp: mem_ticket_def ticket_of_def intro!: exI [of _ "Some (ticket_of i)"])
qed simp

lemma mem_redeem_cases:
  assumes "mem_ConsumeTicket now tk m = (res, m')"
  obtains (refused) err where "res = Inl err" "m' = m \<or> m' = cleanupExpiredLocked now m"
  | (accepted) t where "map_of (cleanupExpiredLocked now m) (trim_space tk) = Some t" "res = Inr (mem_ticket t)"
      "m' = AList.delete (trim_space tk) (cleanupExpiredLocked now m)"
proof (cases "blank tk \<or> map_of (cleanupExpiredLocked now m) (trim_space tk) = None")
  case True
  with assms show thesis by (intro refused) (auto simp: mem_ConsumeTicket_def Let_def split: if_splits)
next
  case False
  then obtain t where "map_of (cleanupExpiredLocked now m) (trim_space tk) = Some t" "\<not> blank tk" by blast
  with assms show thesis
    by (intro accepted [of t]) (simp_all add: mem_ConsumeTicket_def Let_def mem_ticket_def)
qed

lemma mem_issue_wf: "mem_wf m \<Longrightarrow> mem_CreateTicket limit now tok i m = (res, m') \<Longrightarrow> mem_wf m'"
  by (erule mem_issue_cases) (use mem_cleanup_wf in \<open>auto simp: mem_wf_def distinct_update\<close>)

lemma mem_redeem_wf: "mem_wf m \<Longrightarrow> mem_ConsumeTicket now tk m = (res, m') \<Longrightarrow> mem_wf m'"
  by (erule mem_redeem_cases) (use mem_cleanup_wf in \<open>auto simp: mem_wf_def distinct_delete\<close>)

lemma mem_redeem_view:
  assumes wf: "mem_wf m" and "mem_ConsumeTicket now tk m = (Inr c, m')"
  shows "mem_view now m (trim_space tk) = Some c \<and> mem_view now m' = (mem_view now m)(trim_space tk := None) \<and>
    mem_live now m' \<le> mem_live now m"
  using assms(2)
proof (cases rule: mem_redeem_cases)
  case (accepted t)
  have "mem_view now m' = (mem_view now m)(trim_space tk := map_option mem_ticket None)"
  proof (rule mem_view_eqI [OF wf])
    show "mem_wf m'"
      using mem_cleanup_wf [OF wf, of now] unfolding accepted(3) mem_wf_def by (rule distinct_delete)
    fix k q
    show "(map_of m' k = Some q \<and> \<not> st_expires q < now) =
        (if k = trim_space tk then None = Some q else map_of m k = Some q \<and> \<not> st_expires q < now)"
      by (auto simp: accepted(3) delete_conv' map_of_cleanup [OF wf])
  qed
  moreover have "mem_live now m' \<le> mem_live now m"
    using length_cleanup [of now m'] length_delete_le [of "trim_space tk" "cleanupExpiredLocked now m"]
    unfolding mem_live_def accepted(3) by linarith
  ultimately show ?thesis using accepted(1,2) by (simp add: mem_view_def)
qed simp

interpretation mem: ticket_store mem_wf mem_view mem_live "\<lambda>t. t" "nat (ticket_limit limit)"
    "\<lambda>f. mem_CreateTicket limit" "\<lambda>f. mem_ConsumeTicket"
  for limit
proof
  fix m m' :: ticket_map and f :: unit and t tok i err
  assume wf: "mem_wf m"
  show "mem_wf (snd (mem_CreateTicket limit t tok i m))"
    by (rule mem_issue_wf [OF wf]) (rule prod.collapse [symmetric])
  show "mem_wf (snd (mem_ConsumeTicket t tk m))" for tk
    by (rule mem_redeem_wf [OF wf]) (rule prod.collapse [symmetric])
  show "mem_view t m' = mem_view t m \<and> mem_live t m' \<le> mem_live t m" if "mem_CreateTicket limit t tok i m = (Inl err, m')"
    using that by (cases rule: mem_issue_cases) auto
  show "(\<exists>x. (x = None \<or> x = Some (ticket_of i)) \<and> mem_view t m' = (mem_view t m)(tr_ticket r := x)) \<and>
      mem_live t m' \<le> nat (ticket_limit limit)" if "mem_CreateTicket limit t tok i m = (Inr r, m')" for r
    using wf that by (rule mem_issue_view)
  show "mem_view t m' = mem_view t m \<and> mem_live t m' \<le> mem_live t m" if "mem_ConsumeTicket t tk m = (Inl err, m')" for tk
    using that by (cases rule: mem_redeem_cases) auto
  show "mem_view t m (trim_space tk) = Some c \<and> mem_view t m' = (mem_view t m)(trim_space tk := None) \<and>
      mem_live t m' \<le> mem_live t m" if "mem_ConsumeTicket t tk m = (Inr c, m')" for tk c
    using wf that by (rule mem_redeem_view)
  show "t \<le> t' \<Longrightarrow> mem_view t' m k = Some c \<Longrightarrow> mem_view t m k = Some c" for t' k c
    using wf by (rule mem_view_fades)
next
  fix t t' :: time and m :: ticket_map
  assume "t \<le> t'"
  then have "length (filter (\<lambda>(_, q). \<not> st_expires q < t') m) \<le> length (filter (\<lambda>(_, q). \<not> st_expires q < t) m)"
    by (induction m) auto
  then show "mem_live t' m \<le> mem_live t m" by (simp add: mem_live_def cleanupExpiredLocked_def)
qed

section \<open>Single use and the limit\<close>

text \<open>
  C0. Whatever requests the service serves, failing calls included: a ticket is redeemed at most once per
  time it was issued, and only with the user, key and path it was issued with; and never more tickets are
  outstanding than the limit allows.
\<close>

theorem tickets_single_use:
  assumes "tickets_wf d" and "sorted (t0 # map op_time os @ [t1])"
    and "ticket_run (db_issue e limit) (db_redeem e) os d = (evs, d')"
    and "CountActiveWebSessionTickets t0 d \<le> ticket_limit limit"
  shows "count_where (redeemed (hashTicketToken e) h c) evs \<le>
      count_where (issued (hashTicketToken e) h c) evs +
      count_where (\<lambda>r. tk_hash r = h \<and> t0 < tk_expires r \<and>
        c = \<lparr>co_user = tk_user r, co_key = tk_key r, co_path = tk_path r\<rparr>) (db_tickets d) \<and>
    CountActiveWebSessionTickets t1 d' \<le> ticket_limit limit"
proof -
  let ?P = "\<lambda>r. tk_hash r = h \<and> t0 < tk_expires r \<and> c = \<lparr>co_user = tk_user r, co_key = tk_key r, co_path = tk_path r\<rparr>"
  have "of_bool (db_view t0 d h = Some c) \<le> count_where ?P (db_tickets d)"
  proof (cases "db_view t0 d h = Some c")
    case True
    then have "\<not> (\<forall>r \<in> set (db_tickets d). \<not> ?P r)"
      by (auto simp: db_view_def row_ticket_def dest!: find_SomeD)
    then have "count_where ?P (db_tickets d) \<noteq> 0" unfolding count_where_zero .
    then show ?thesis
      by (intro order_trans [OF of_bool_less_eq_one]) (simp only: Suc_le_eq One_nat_def neq0_conv)
  qed simp
  moreover have "db_live t1 d' \<le> nat (ticket_limit limit)"
    using assms(4) by (intro pst.run_live [OF assms(1-3)]) (simp add: db_live_def CountActiveWebSessionTickets_def)
  ultimately show ?thesis
    using pst.run_balance [OF assms(1-3), of h c]
    by (auto simp: db_live_def CountActiveWebSessionTickets_def ticket_limit_def defaultMaxOutstandingTickets_def split: if_splits)
qed

text \<open>A token is printable, so trimming the ticket a client sends back does not change it.\<close>

lemma graphic_b64_char: "v < 64 \<Longrightarrow> graphic (url_char (b64_char v))"
  by (auto simp: graphic_def url_char_def b64_char_def)

lemma graphic_base64: "list_all (\<lambda>b. b < 256) bs \<Longrightarrow> list_all graphic (map url_char (base64_raw bs))"
  by (induction bs rule: base64_raw.induct) (auto intro!: graphic_b64_char)

lemma base64_raw_Nil [simp]: "base64_raw bs = [] \<longleftrightarrow> bs = []"
  by (cases bs rule: base64_raw.cases) auto

text \<open>
  C0. Round trip of a ticket: a ticket issued for an existing user and key is accepted once before it
  expires, gives the user, the key and the trimmed path back, and is refused the second time.
\<close>

theorem ticket_round_trip:
  assumes "list_all (\<lambda>b. b < 256) bs" and "bs \<noteq> []" and "randomTicketToken (Some bs) = Some tok"
    and "0 < ti_user i" and "0 < ti_key i" and "validateRedirectPath (trim_space (ti_path i))" and "pg_text (Some (trim_space (ti_path i)))"
    and "ti_user i \<in> u_id ` set (db_users d)" and "ti_key i \<in> k_id ` set (db_keys d)"
    and "CountActiveWebSessionTickets dbnow d < ticket_limit limit" and "hashTicketToken e tok \<notin> tk_hash ` set (db_tickets d)"
    and "later < now + minute"
  shows "case CreateTicket (\<lambda>_. False) e limit now dbnow (randomTicketToken (Some bs)) i d of (res, d1) \<Rightarrow>
    res = Inr \<lparr>tr_ticket = tok, tr_url = ''/auth/session#ticket='' @ tok, tr_expires = now + minute\<rparr> \<and>
    (case ConsumeTicket (\<lambda>_. False) e later tok d1 of (res2, d2) \<Rightarrow>
       res2 = Inr \<lparr>co_user = ti_user i, co_key = ti_key i, co_path = trim_space (ti_path i)\<rparr> \<and>
       fst (ConsumeTicket (\<lambda>_. False) e later tok d2) = Inl InvalidTicket)"
proof -
  have tok: "tok = map url_char (base64_raw bs)" using assms(3) by (simp add: randomTicketToken_def)
  then have plain: "trim_space tok = tok" "\<not> blank tok"
    using graphic_base64 [OF assms(1)] assms(2) by (simp_all add: trim_space_graphic blank_graphic)
  let ?row = "\<lparr>tk_hash = hashTicketToken e tok, tk_user = ti_user i, tk_key = ti_key i,
      tk_path = trim_space (ti_path i), tk_expires = now + minute\<rparr>"
  let ?d1 = "d\<lparr>db_tickets := delete_where (\<lambda>t. tk_expires t \<le> dbnow) (db_tickets d) @ [?row]\<rparr>"
  have create: "CreateTicket (\<lambda>_. False) e limit now dbnow (Some tok) i d =
      (Inr \<lparr>tr_ticket = tok, tr_url = redirect_url tok, tr_expires = now + minute\<rparr>, ?d1)"
    using assms(4-11)
    by (auto simp: CreateTicket_def check_ticket_def create_tx_def Let_def CreateWebSessionTicket_def
        CountActiveWebSessionTickets_def CleanupExpiredWebSessionTickets_def ticket_ttl_def)
  let ?live = "\<lambda>t. tk_hash t = hashTicketToken e tok \<and> later < tk_expires t"
  let ?d2 = "?d1\<lparr>db_tickets := delete_where ?live (db_tickets (CleanupExpiredWebSessionTickets later ?d1))\<rparr>"
  have "find ?live (delete_where (\<lambda>t. tk_expires t \<le> dbnow) (db_tickets d)) = None"
    using assms(11) by (force simp: find_none)
  then have found: "find ?live (db_tickets ?d1) = Some ?row"
    using assms(12) by (simp add: find_append)
  have "ConsumeWebSessionTicket later (hashTicketToken e tok) (CleanupExpiredWebSessionTickets later ?d1) = Inr (?row, ?d2)"
    unfolding ConsumeWebSessionTicket_def cleanup_find found
    by (simp add: CleanupExpiredWebSessionTickets_def)
  then have first: "ConsumeTicket (\<lambda>_. False) e later tok ?d1 =
      (Inr \<lparr>co_user = ti_user i, co_key = ti_key i, co_path = trim_space (ti_path i)\<rparr>, ?d2)"
    by (simp add: ConsumeTicket_def plain)
  have "find ?live (db_tickets ?d2) = None" by (auto simp: find_none)
  then have second: "fst (ConsumeTicket (\<lambda>_. False) e later tok ?d2) = Inl InvalidTicket"
    unfolding ConsumeTicket_def ConsumeWebSessionTicket_def cleanup_find plain(1) by (simp add: plain)
  show ?thesis
    unfolding assms(3) create by (simp only: first second prod.case redirect_url_def simp_thms)
qed

section \<open>Examples\<close>

definition sample_session_db :: db where
  "sample_session_db = empty_db\<lparr>db_users := [\<lparr>u_id = 1, u_student = ''s'', u_nickname = ''n''\<rparr>],
     db_keys := [\<lparr>k_id = 7, k_user = 1, k_public = ''k'', k_fingerprint = None, k_device = ''d'', k_created = 0, k_revoked = None\<rparr>]\<rparr>"

definition sample_ticket_in :: ticket_in where
  "sample_ticket_in = \<lparr>ti_user = 1, ti_key = 7, ti_path = '' /p ''\<rparr>"

definition sample_ticket_ops :: "((ticket_call \<Rightarrow> bool) \<times> time) ticket_op list" where
  "sample_ticket_ops = [Issue (\<lambda>_. False, 2) 2 (Some ''tok1'') sample_ticket_in, Redeem (\<lambda>_. False, 3) 3 '' tok1'',
     Redeem (\<lambda>_. False, 4) 4 ''tok1'']"

lemma sample_session_empty [simp]: "db_tickets sample_session_db = []"
  by (simp add: sample_session_db_def empty_db_def)

lemma tickets_single_use_witness:
  "\<exists>evs d'. ticket_run (db_issue demo_env 64) (db_redeem demo_env) sample_ticket_ops sample_session_db = (evs, d') \<and>
     evs = [Issued ''tok1'' (ticket_of sample_ticket_in), Redeemed ''tok1'' (ticket_of sample_ticket_in), Refused] \<and>
     count_where (redeemed (hashTicketToken demo_env) (hashTicketToken demo_env ''tok1'') (ticket_of sample_ticket_in)) evs \<le>
       count_where (issued (hashTicketToken demo_env) (hashTicketToken demo_env ''tok1'') (ticket_of sample_ticket_in)) evs"
proof -
  obtain evs d' where run: "ticket_run (db_issue demo_env 64) (db_redeem demo_env) sample_ticket_ops sample_session_db = (evs, d')"
    by fastforce
  have "fst (ticket_run (db_issue demo_env 64) (db_redeem demo_env) sample_ticket_ops sample_session_db) =
    [Issued ''tok1'' (ticket_of sample_ticket_in), Redeemed ''tok1'' (ticket_of sample_ticket_in), Refused]"
    by code_simp
  then have evs: "evs = [Issued ''tok1'' (ticket_of sample_ticket_in), Redeemed ''tok1'' (ticket_of sample_ticket_in), Refused]"
    by (simp add: run)
  have "count_where (redeemed (hashTicketToken demo_env) (hashTicketToken demo_env ''tok1'') (ticket_of sample_ticket_in)) evs \<le>
       count_where (issued (hashTicketToken demo_env) (hashTicketToken demo_env ''tok1'') (ticket_of sample_ticket_in)) evs"
    using tickets_single_use [OF _ _ run, of 0 5 "hashTicketToken demo_env ''tok1''" "ticket_of sample_ticket_in"]
    by (simp add: tickets_wf_def CountActiveWebSessionTickets_def ticket_limit_def sample_ticket_ops_def)
  with run evs show ?thesis by blast
qed

lemma ticket_round_trip_witness:
  "case CreateTicket (\<lambda>_. False) demo_env 64 5 5 (randomTicketToken (Some [251, 255, 190])) sample_ticket_in sample_session_db of
    (res, d1) \<Rightarrow> res = Inr \<lparr>tr_ticket = ''-_--'', tr_url = ''/auth/session#ticket='' @ ''-_--'', tr_expires = 5 + minute\<rparr> \<and>
      (case ConsumeTicket (\<lambda>_. False) demo_env 6 ''-_--'' d1 of (res2, d2) \<Rightarrow>
         res2 = Inr \<lparr>co_user = ti_user sample_ticket_in, co_key = ti_key sample_ticket_in, co_path = trim_space (ti_path sample_ticket_in)\<rparr> \<and>
         fst (ConsumeTicket (\<lambda>_. False) demo_env 6 ''-_--'' d2) = Inl InvalidTicket)"
proof (rule ticket_round_trip)
  show "randomTicketToken (Some [251, 255, 190]) = Some ''-_--''" "validateRedirectPath (trim_space (ti_path sample_ticket_in))"
    "pg_text (Some (trim_space (ti_path sample_ticket_in)))" by code_simp+
qed (simp_all add: sample_ticket_in_def sample_session_db_def empty_db_def CountActiveWebSessionTickets_def
    ticket_limit_def minute_def second_def)

end
