(* ===== verification/Labs.thy ===== *)
theory Labs
  imports Submissions
begin

text \<open>
  \<^verbatim>\<open>api/internal/service/labs/service.go\<close>: registering a lab from its manifest, updating it as long as
  its structure stays the same, and the public views. What Go and PostgreSQL do with the JSON document is
  an argument: whether a manifest marshals, and what \<^verbatim>\<open>json.Unmarshal\<close> makes of the stored document.
\<close>

record lab_codec =
  lc_toml :: "string \<Rightarrow> manifest option"
  lc_json :: "string \<Rightarrow> manifest option"
  lc_marshals :: "manifest \<Rightarrow> bool"
  lc_stored :: "manifest \<Rightarrow> db_error + manifest option"

datatype labs_error =
  LabsNotFound | LabsAlreadyExists | LabsInvalidManifest parse_error | LabsStructuralUpdate | LabsMarshal | LabsDecode
| LabsDb db_error

record public_lab =
  pl_id :: string
  pl_name :: string
  pl_manifest :: manifest
  pl_updated :: time

definition parseAndMarshalManifest :: "lab_codec \<Rightarrow> string \<Rightarrow> labs_error + manifest" where
  "parseAndMarshalManifest c raw =
     bindR (mapErr LabsInvalidManifest (parse_manifest (lc_toml c) (lc_json c) raw))
       (\<lambda>m. if lc_marshals c m then Inr m else Inl LabsMarshal)"

definition labs_parseStoredManifest :: "manifest option \<Rightarrow> labs_error + manifest" where
  "labs_parseStoredManifest m = (case m of None \<Rightarrow> Inl LabsDecode | Some x \<Rightarrow> Inr x)"

definition publicLabFromRow :: "lab_row \<Rightarrow> labs_error + public_lab" where
  "publicLabFromRow r =
     bindR (labs_parseStoredManifest (l_manifest r))
       (\<lambda>m. Inr \<lparr>pl_id = l_id r, pl_name = l_name r, pl_manifest = Public m, pl_updated = l_updated r\<rparr>)"

definition labs_isVisible :: "schedule_section \<Rightarrow> time \<Rightarrow> bool" where
  "labs_isVisible sc now = (if is_zero (sch_visible sc) then True else \<not> now < sch_visible sc)"

fun same_metrics :: "metric_section list \<Rightarrow> metric_section list \<Rightarrow> bool" where
  "same_metrics (a # as) (b # bs) \<longleftrightarrow> metric_id a = metric_id b \<and> metric_sort a = metric_sort b \<and> same_metrics as bs"
| "same_metrics _ _ \<longleftrightarrow> True"

definition sameStructure :: "manifest \<Rightarrow> manifest \<Rightarrow> bool" where
  "sameStructure current next \<longleftrightarrow>
     max_size (m_submit current) = max_size (m_submit next) \<and>
     slice_list (submit_files (m_submit current)) = slice_list (submit_files (m_submit next)) \<and>
     length (m_metrics current) = length (m_metrics next) \<and>
     rank_by (m_board current) = rank_by (m_board next) \<and>
     same_metrics (m_metrics current) (m_metrics next)"

datatype labs_call = LabsGet | LabsCreate | LabsUpdate | LabsReload | LabsList

definition RegisterLab ::
  "(labs_call \<Rightarrow> bool) \<Rightarrow> lab_codec \<Rightarrow> time \<Rightarrow> string \<Rightarrow> db \<Rightarrow> (labs_error + public_lab) \<times> db" where
  "RegisterLab fails c dbnow raw d =
     (case parseAndMarshalManifest c raw of
        Inl err \<Rightarrow> (Inl err, d)
      | Inr m \<Rightarrow>
          (case faulty (fails LabsGet) (GetLab (lab_id (m_lab m)) d) of
             Inr _ \<Rightarrow> (Inl LabsAlreadyExists, d)
           | Inl err \<Rightarrow>
               (if err \<noteq> NoRows then (Inl (LabsDb err), d)
                else (case faulty (fails LabsCreate)
                         (bindR (lc_stored c m) (\<lambda>j. CreateLab dbnow (lab_id (m_lab m)) (lab_name (m_lab m)) j d)) of
                        Inl err \<Rightarrow> (Inl (if err = UniqueViolation then LabsAlreadyExists else LabsDb err), d)
                      | Inr (row, d') \<Rightarrow> (publicLabFromRow row, d')))))"

definition UpdateLab ::
  "(labs_call \<Rightarrow> bool) \<Rightarrow> lab_codec \<Rightarrow> time \<Rightarrow> string \<Rightarrow> string \<Rightarrow> db \<Rightarrow> (labs_error + public_lab) \<times> db" where
  "UpdateLab fails c dbnow i raw d =
     (case parseAndMarshalManifest c raw of
        Inl err \<Rightarrow> (Inl err, d)
      | Inr m \<Rightarrow>
          (if lab_id (m_lab m) \<noteq> i then (Inl LabsStructuralUpdate, d)
           else (case faulty (fails LabsGet) (GetLab i d) of
             Inl err \<Rightarrow> (Inl (if err = NoRows then LabsNotFound else LabsDb err), d)
           | Inr row \<Rightarrow>
               (case labs_parseStoredManifest (l_manifest row) of
                  Inl err \<Rightarrow> (Inl err, d)
                | Inr current \<Rightarrow>
                    (if \<not> sameStructure current m then (Inl LabsStructuralUpdate, d)
                     else (case faulty (fails LabsUpdate)
                              (bindR (lc_stored c m) (\<lambda>j. UpdateLabManifest dbnow i (lab_name (m_lab m)) j d)) of
                             Inl err \<Rightarrow> (Inl (LabsDb err), d)
                           | Inr d' \<Rightarrow>
                               (case faulty (fails LabsReload) (GetLab i d') of
                                  Inl err \<Rightarrow> (Inl (LabsDb err), d')
                                | Inr updated \<Rightarrow> (publicLabFromRow updated, d'))))))))"

text \<open>The loop stops at the first row that does not decode.\<close>

fun visible_labs :: "time \<Rightarrow> lab_row list \<Rightarrow> labs_error + public_lab list" where
  "visible_labs now [] = Inr []"
| "visible_labs now (r # rs) =
     bindR (publicLabFromRow r) (\<lambda>l. bindR (visible_labs now rs)
       (\<lambda>ls. Inr (if labs_isVisible (m_schedule (pl_manifest l)) now then l # ls else ls)))"

definition ListPublicLabs :: "(labs_call \<Rightarrow> bool) \<Rightarrow> time \<Rightarrow> db \<Rightarrow> labs_error + public_lab list" where
  "ListPublicLabs fails now d =
     (if fails LabsList then Inl (LabsDb Unavailable) else visible_labs now (ListLabs d))"

definition GetPublicLab :: "(labs_call \<Rightarrow> bool) \<Rightarrow> time \<Rightarrow> string \<Rightarrow> db \<Rightarrow> labs_error + public_lab" where
  "GetPublicLab fails now i d =
     (case faulty (fails LabsGet) (GetLab i d) of
        Inl err \<Rightarrow> Inl (if err = NoRows then LabsNotFound else LabsDb err)
      | Inr row \<Rightarrow> bindR (publicLabFromRow row)
          (\<lambda>l. if labs_isVisible (m_schedule (pl_manifest l)) now then Inr l else Inl LabsNotFound))"

section \<open>The structure of a lab is fixed\<close>

inductive labs_step :: "lab_codec \<Rightarrow> db \<Rightarrow> db \<Rightarrow> bool" for c where
  register: "RegisterLab fails c dbnow raw d = (res, d') \<Longrightarrow> labs_step c d d'"
| update: "UpdateLab fails c dbnow i raw d = (res, d') \<Longrightarrow> labs_step c d d'"

definition labs_wf :: "db \<Rightarrow> bool" where
  "labs_wf d \<longleftrightarrow> distinct (map l_id (db_labs d))"

lemma same_metrics_iff:
  "length as = length bs \<Longrightarrow> same_metrics as bs \<longleftrightarrow> map metric_id as = map metric_id bs \<and> map metric_sort as = map metric_sort bs"
  by (induction as bs rule: list_induct2) auto

lemma sameStructure_iff:
  "sameStructure m m' \<longleftrightarrow>
     max_size (m_submit m) = max_size (m_submit m') \<and>
     slice_list (submit_files (m_submit m)) = slice_list (submit_files (m_submit m')) \<and>
     rank_by (m_board m) = rank_by (m_board m') \<and>
     map metric_id (m_metrics m) = map metric_id (m_metrics m') \<and>
     map metric_sort (m_metrics m) = map metric_sort (m_metrics m')"
  unfolding sameStructure_def using same_metrics_iff map_eq_imp_length_eq by metis

lemma sameStructure_refl [simp]: "sameStructure m m"
  by (simp add: sameStructure_iff)

lemma sameStructure_trans: "sameStructure a b \<Longrightarrow> sameStructure b c \<Longrightarrow> sameStructure a c"
  by (simp add: sameStructure_iff)

lemma parseAndMarshal_ok: "parseAndMarshalManifest c raw = Inr m \<Longrightarrow> parse_manifest (lc_toml c) (lc_json c) raw = Inr m"
  by (auto simp: parseAndMarshalManifest_def mapErr_def split: sum.splits if_splits)

lemma RegisterLab_cases:
  assumes "RegisterLab fails c dbnow raw d = (res, d')"
  obtains (refused) err where "res = Inl err" "d' = d"
  | (created) m j r where "parse_manifest (lc_toml c) (lc_json c) raw = Inr m" "lc_stored c m = Inr j"
      "r = \<lparr>l_id = lab_id (m_lab m), l_name = lab_name (m_lab m), l_manifest = j, l_updated = dbnow, l_created = dbnow\<rparr>"
      "l_id r \<notin> l_id ` set (db_labs d)" "d' = d\<lparr>db_labs := db_labs d @ [r]\<rparr>" "res = publicLabFromRow r"
proof (cases "\<exists>m j r. parseAndMarshalManifest c raw = Inr m \<and> lc_stored c m = Inr j \<and>
    CreateLab dbnow (lab_id (m_lab m)) (lab_name (m_lab m)) j d = Inr (r, d') \<and> res = publicLabFromRow r")
  case True
  then obtain m j r where m: "parseAndMarshalManifest c raw = Inr m" and j: "lc_stored c m = Inr j"
    and cr: "CreateLab dbnow (lab_id (m_lab m)) (lab_name (m_lab m)) j d = Inr (r, d')" and res: "res = publicLabFromRow r"
    by blast
  from cr have "r = \<lparr>l_id = lab_id (m_lab m), l_name = lab_name (m_lab m), l_manifest = j, l_updated = dbnow, l_created = dbnow\<rparr>"
    "l_id r \<notin> l_id ` set (db_labs d)" "d' = d\<lparr>db_labs := db_labs d @ [r]\<rparr>"
    by (auto simp: CreateLab_def Let_def split: if_splits)
  then show thesis using created parseAndMarshal_ok [OF m] j res by blast
next
  case False
  then have "\<exists>err. res = Inl err \<and> d' = d"
    using assms by (auto simp: RegisterLab_def split: sum.splits if_splits)
  then show thesis using refused by blast
qed

lemma UpdateLab_cases:
  assumes "UpdateLab fails c dbnow i raw d = (res, d')"
  obtains (refused) err where "res = Inl err" "d' = d"
  | (updated) m j row current where "parse_manifest (lc_toml c) (lc_json c) raw = Inr m" "lc_stored c m = Inr j"
      "lab_id (m_lab m) = i" "GetLab i d = Inr row" "l_manifest row = Some current" "sameStructure current m"
      "d' = d\<lparr>db_labs := update_where (\<lambda>r. l_id r = i)
          (\<lambda>r. r\<lparr>l_name := lab_name (m_lab m), l_manifest := j, l_updated := dbnow\<rparr>) (db_labs d)\<rparr>"
proof (cases "\<exists>m j row current. parseAndMarshalManifest c raw = Inr m \<and> lc_stored c m = Inr j \<and> lab_id (m_lab m) = i \<and>
    GetLab i d = Inr row \<and> l_manifest row = Some current \<and> sameStructure current m \<and>
    UpdateLabManifest dbnow i (lab_name (m_lab m)) j d = Inr d'")
  case True
  then obtain m j row current where m: "parseAndMarshalManifest c raw = Inr m" and j: "lc_stored c m = Inr j"
    and rest: "lab_id (m_lab m) = i" "GetLab i d = Inr row" "l_manifest row = Some current" "sameStructure current m"
    and up: "UpdateLabManifest dbnow i (lab_name (m_lab m)) j d = Inr d'"
    by blast
  from up have "d' = d\<lparr>db_labs := update_where (\<lambda>r. l_id r = i)
          (\<lambda>r. r\<lparr>l_name := lab_name (m_lab m), l_manifest := j, l_updated := dbnow\<rparr>) (db_labs d)\<rparr>"
    by (auto simp: UpdateLabManifest_def split: if_splits)
  then show thesis using updated parseAndMarshal_ok [OF m] j rest by blast
next
  case False
  then have "\<exists>err. res = Inl err \<and> d' = d"
    using assms
    by (auto simp: UpdateLab_def labs_parseStoredManifest_def split: sum.splits if_splits option.splits)
  then show thesis using refused by blast
qed

text \<open>
  What is stored: every lab has a well-formed manifest under its own id and name, given that a stored
  document reads back as the manifest it was made from.
\<close>

definition lossless :: "lab_codec \<Rightarrow> bool" where
  "lossless c \<longleftrightarrow> (\<forall>m j. lc_stored c m = Inr j \<longrightarrow> j = Some m)"

definition lab_row_ok :: "lab_row \<Rightarrow> bool" where
  "lab_row_ok r \<longleftrightarrow> (case l_manifest r of None \<Rightarrow> False
     | Some m \<Rightarrow> well_formed m \<and> lab_id (m_lab m) = l_id r \<and> lab_name (m_lab m) = l_name r)"

definition labs_ok :: "db \<Rightarrow> bool" where
  "labs_ok d \<longleftrightarrow> labs_wf d \<and> (\<forall>r \<in> set (db_labs d). lab_row_ok r)"

text \<open>A later row of the same lab.\<close>

definition lab_evolved :: "lab_row \<Rightarrow> lab_row \<Rightarrow> bool" where
  "lab_evolved r r' \<longleftrightarrow> l_id r' = l_id r \<and> l_created r' = l_created r \<and>
     (\<exists>m m'. l_manifest r = Some m \<and> l_manifest r' = Some m' \<and> sameStructure m m')"

lemma parse_well_formed: "parse_manifest td jd raw = Inr m \<Longrightarrow> well_formed m"
  by (drule parse_manifest_Inr) auto

lemma lab_evolved_refl: "lab_row_ok r \<Longrightarrow> lab_evolved r r"
  by (auto simp: lab_evolved_def lab_row_ok_def split: option.splits)

lemma labs_step_ok:
  assumes "labs_step c d d'" and "lossless c" and ok: "labs_ok d"
  shows "labs_ok d' \<and> (\<forall>r \<in> set (db_labs d). \<exists>r' \<in> set (db_labs d'). lab_evolved r r')"
  using assms(1)
proof (cases rule: labs_step.cases)
  case (register fails dbnow raw res)
  from register show ?thesis
  proof (cases rule: RegisterLab_cases)
    case refused
    with ok show ?thesis by (auto simp: labs_ok_def intro: lab_evolved_refl)
  next
    case (created m j r)
    have "j = Some m" using created(2) assms(2) by (simp add: lossless_def)
    then have "lab_row_ok r"
      using created(3) parse_well_formed [OF created(1)] by (simp add: lab_row_ok_def)
    with ok created(4,5) show ?thesis by (auto simp: labs_ok_def labs_wf_def intro: lab_evolved_refl)
  qed
next
  case (update fails dbnow i raw res)
  from update show ?thesis
  proof (cases rule: UpdateLab_cases)
    case refused
    with ok show ?thesis by (auto simp: labs_ok_def intro: lab_evolved_refl)
  next
    case (updated m j row current)
    let ?f = "\<lambda>r. r\<lparr>l_name := lab_name (m_lab m), l_manifest := j, l_updated := dbnow\<rparr>"
    have j: "j = Some m" using updated(2) assms(2) by (simp add: lossless_def)
    have new: "lab_row_ok (?f r) \<and> lab_evolved r (?f r)" if r: "r \<in> set (db_labs d)" "l_id r = i" for r
    proof -
      have "row \<in> set (db_labs d)" "l_id row = i"
        using updated(4) by (auto simp: GetLab_def dest: find_SomeD)
      with ok r have "row = r"
        by (intro distinct_key_eq [of l_id "db_labs d"]) (auto simp: labs_ok_def labs_wf_def)
      with updated(3,5,6) parse_well_formed [OF updated(1)] r(2) show ?thesis
        by (auto simp: lab_row_ok_def lab_evolved_def j)
    qed
    have "labs_wf d'" using ok by (simp add: updated(7) labs_ok_def labs_wf_def map_update_where)
    moreover have "\<forall>r \<in> set (db_labs d'). lab_row_ok r"
      using ok new by (auto simp: updated(7) labs_ok_def set_update_where)
    moreover have "\<exists>r' \<in> set (db_labs d'). lab_evolved r r'" if r: "r \<in> set (db_labs d)" for r
    proof (rule bexI)
      show "lab_evolved r (if l_id r = i then ?f r else r)"
        using new [OF r] ok r by (auto simp: labs_ok_def intro: lab_evolved_refl)
      show "(if l_id r = i then ?f r else r) \<in> set (db_labs d')"
        using r by (auto simp: updated(7) set_update_where)
    qed
    ultimately show ?thesis by (simp add: labs_ok_def)
  qed
qed

lemma lab_evolved_trans: "lab_evolved a b \<Longrightarrow> lab_evolved b c \<Longrightarrow> lab_evolved a c"
  by (auto simp: lab_evolved_def intro: sameStructure_trans)

lemma labs_steps_ok:
  assumes "(labs_step c)\<^sup>*\<^sup>* d d'" and "lossless c" and "labs_ok d"
  shows "labs_ok d' \<and> (\<forall>r \<in> set (db_labs d). \<exists>r' \<in> set (db_labs d'). lab_evolved r r')"
  using assms(1)
proof (induction rule: rtranclp_induct)
  case base
  with assms(3) show ?case by (auto simp: labs_ok_def intro: lab_evolved_refl)
next
  case (step y z)
  from labs_step_ok [OF step.hyps(2) assms(2)] step.IH show ?case by (blast intro: lab_evolved_trans)
qed

lemma check_declared_cong: "map metric_id ms = map metric_id ms' \<Longrightarrow> check_declared ms sc = check_declared ms' sc"
proof (induction ms arbitrary: ms')
  case (Cons mt ms)
  then show ?case by (cases ms') auto
qed simp

lemma sameStructure_ValidateResult: "sameStructure m m' \<Longrightarrow> ValidateResult (Some m') r = ValidateResult (Some m) r"
  using check_declared_cong [of "m_metrics m" "m_metrics m'" "r_scores r"]
  by (simp add: sameStructure_iff ValidateResult_def ValidateScores_def)

text \<open>
  C0. The structure of a lab is fixed: whatever labs are registered and updated, every lab keeps its id,
  its creation time, its files in order and its size limit, the ids and the directions of its metrics in order, and its
  rank metric (names and units of metrics may change);
  so an upload or an evaluator result that was valid stays valid, with the same error otherwise, and
  every stored manifest stays well formed under its own id and name.
\<close>

theorem lab_structure_is_fixed:
  assumes "(labs_step c)\<^sup>*\<^sup>* d d'" and "lossless c" and "labs_ok d" and "GetLab i d = Inr row" and "l_manifest row = Some m"
  shows "labs_ok d' \<and> (\<exists>row' m'. GetLab i d' = Inr row' \<and> l_manifest row' = Some m' \<and> l_created row' = l_created row \<and>
    well_formed m' \<and> lab_id (m_lab m') = i \<and>
    slice_list (submit_files (m_submit m')) = slice_list (submit_files (m_submit m)) \<and>
    max_size (m_submit m') = max_size (m_submit m) \<and>
    map metric_id (m_metrics m') = map metric_id (m_metrics m) \<and>
    map metric_sort (m_metrics m') = map metric_sort (m_metrics m) \<and> rank_by (m_board m') = rank_by (m_board m) \<and>
    (\<forall>r. ValidateResult (Some m') r = ValidateResult (Some m) r) \<and>
    (\<forall>e files. validateFiles e (slice_list (submit_files (m_submit m'))) (max_size (m_submit m')) files =
       validateFiles e (slice_list (submit_files (m_submit m))) (max_size (m_submit m)) files))"
proof -
  have row: "row \<in> set (db_labs d)" "l_id row = i"
    using assms(4) by (auto simp: GetLab_def dest: find_SomeD)
  from labs_steps_ok [OF assms(1-3)] row(1) obtain row' where ok: "labs_ok d'" and row': "row' \<in> set (db_labs d')" "lab_evolved row row'"
    by blast
  have "GetLab i d' = Inr row'"
    using find_key_Some [of l_id "db_labs d'" row'] ok row' row(2)
    by (simp add: labs_ok_def labs_wf_def lab_evolved_def GetLab_def)
  moreover from row'(2) assms(5) obtain m' where m': "l_manifest row' = Some m'" "sameStructure m m'" "l_id row' = i" "l_created row' = l_created row"
    using row(2) by (auto simp: lab_evolved_def)
  moreover from ok row'(1) m'(1,3) have "well_formed m'" "lab_id (m_lab m') = i"
    by (auto simp: labs_ok_def lab_row_ok_def split: option.splits)
  ultimately show ?thesis
    using ok sameStructure_ValidateResult [OF m'(2)] m'(2) by (auto simp: sameStructure_iff)
qed

section \<open>Examples\<close>

definition sample_codec :: lab_codec where
  "sample_codec = \<lparr>lc_toml = (\<lambda>_. None),
     lc_json = (\<lambda>s. if s = ''{}'' then Some sample_manifest
       else Some (sample_manifest\<lparr>m_lab := (m_lab sample_manifest)\<lparr>lab_name := ''New name''\<rparr>\<rparr>)),
     lc_marshals = (\<lambda>_. True), lc_stored = (\<lambda>m. Inr (Some m))\<rparr>"

definition sample_labs_db :: db where
  "sample_labs_db = snd (RegisterLab (\<lambda>_. False) sample_codec 1 ''{}'' empty_db)"

definition sample_updated_db :: db where
  "sample_updated_db = snd (UpdateLab (\<lambda>_. False) sample_codec 2 ''sorting'' ''{x'' sample_labs_db)"

lemma sample_labs_rows:
  "map_sum id l_manifest (GetLab ''sorting'' sample_labs_db) = Inr (Some (normalize_manifest sample_manifest))"
  "map_sum id l_name (GetLab ''sorting'' sample_updated_db) = Inr ''New name''"
  by code_simp+

lemma sample_labs_metrics:
  "map metric_id (m_metrics (normalize_manifest sample_manifest)) = [''speed'', ''mem'']"
  "rank_by (m_board (normalize_manifest sample_manifest)) = ''speed''"
  by code_simp+

lemma lossless_sample: "lossless sample_codec"
  by (simp add: lossless_def sample_codec_def)

lemma sample_labs_steps: "labs_step sample_codec empty_db sample_labs_db" "labs_step sample_codec sample_labs_db sample_updated_db"
  unfolding sample_labs_db_def sample_updated_db_def
  by (rule labs_step.register, rule prod.collapse [symmetric], rule labs_step.update, rule prod.collapse [symmetric])

lemma labs_ok_empty: "labs_ok empty_db"
  by (simp add: labs_ok_def labs_wf_def empty_db_def)

lemma lab_structure_is_fixed_witness:
  "\<exists>row' m'. GetLab ''sorting'' sample_updated_db = Inr row' \<and> l_manifest row' = Some m' \<and> l_name row' = ''New name'' \<and>
     map metric_id (m_metrics m') = [''speed'', ''mem''] \<and> rank_by (m_board m') = ''speed''"
proof -
  have ok: "labs_ok sample_labs_db"
    using labs_step_ok [OF sample_labs_steps(1) lossless_sample labs_ok_empty] by simp
  obtain row where row: "GetLab ''sorting'' sample_labs_db = Inr row" "l_manifest row = Some (normalize_manifest sample_manifest)"
    using sample_labs_rows(1) by (cases "GetLab ''sorting'' sample_labs_db") auto
  from lab_structure_is_fixed [OF r_into_rtranclp [of "labs_step sample_codec", OF sample_labs_steps(2)] lossless_sample ok row]
    sample_labs_rows(2)
  show ?thesis by (auto simp: sample_labs_metrics)
qed

end
