(* ===== verification/Personal.thy ===== *)
theory Personal
  imports Admin Labs Device_Auth
begin

text \<open>
  \<^verbatim>\<open>api/internal/service/personal\<close> (\<^verbatim>\<open>service.go\<close>, \<^verbatim>\<open>repo.go\<close>): signed requests of a student about their own
  submissions, profile and keys. A request is signed like a submission, with the method and path in the
  place of the lab id and the hash of the body as content hash; both use the same table of nonces.
\<close>

section \<open>Queries\<close>

definition UpdateUserNickname :: "int \<Rightarrow> string \<Rightarrow> db \<Rightarrow> db_error + (user_row \<times> db)" where
  "UpdateUserNickname i n d =
     (if \<not> pg_text (Some n) then Inl InvalidText
      else (let us = update_where (\<lambda>u. u_id u = i) (\<lambda>u. u\<lparr>u_nickname := n\<rparr>) (db_users d)
            in bindR (one (find (\<lambda>u. u_id u = i) us)) (\<lambda>u. Inr (u, d\<lparr>db_users := us\<rparr>))))"

definition upsert_profile :: "int \<Rightarrow> string \<Rightarrow> (profile_row \<Rightarrow> profile_row) \<Rightarrow> db \<Rightarrow> db_error + (profile_row \<times> db)" where
  "upsert_profile user lab f d =
     (case find (\<lambda>p. pf_user p = user \<and> pf_lab p = lab) (db_profiles d) of
        Some p \<Rightarrow> Inr (f p, d\<lparr>db_profiles := update_where (\<lambda>p. pf_user p = user \<and> pf_lab p = lab) f (db_profiles d)\<rparr>)
      | None \<Rightarrow>
          (if user \<notin> u_id ` set (db_users d) \<or> lab \<notin> l_id ` set (db_labs d) then Inl ForeignKeyViolation
           else (let p = f \<lparr>pf_user = user, pf_lab = lab, pf_nickname = anonymous, pf_track = None\<rparr>
                 in Inr (p, d\<lparr>db_profiles := db_profiles d @ [p]\<rparr>))))"

definition UpsertLabProfileNickname :: "int \<Rightarrow> string \<Rightarrow> string \<Rightarrow> db \<Rightarrow> db_error + (profile_row \<times> db)" where
  "UpsertLabProfileNickname user lab n d =
     (if \<not> pg_text (Some n) then Inl InvalidText else upsert_profile user lab (\<lambda>p. p\<lparr>pf_nickname := n\<rparr>) d)"

definition UpsertLabProfileTrack :: "int \<Rightarrow> string \<Rightarrow> string option \<Rightarrow> db \<Rightarrow> db_error + (profile_row \<times> db)" where
  "UpsertLabProfileTrack user lab t d =
     (if \<not> pg_text t then Inl InvalidText else upsert_profile user lab (\<lambda>p. p\<lparr>pf_track := t\<rparr>) d)"

section \<open>Authentication\<close>

datatype personal_error =
    PeLabNotFound | PeSubmissionNotFound | PeInvalidNickname | PeInvalidTrack | PeTrackSelectionDisabled
  | PeUnauthorized | PeVerify auth_error | PeManifest | PeDb db_error

record auth_input =
  ai_fingerprint :: string
  ai_method :: string
  ai_path :: string
  ai_timestamp :: time
  ai_nonce :: string
  ai_signature :: string
  ai_body :: string

record authenticated_user =
  au_user :: int
  au_key :: int

definition bodyHash :: "env \<Rightarrow> string \<Rightarrow> string" where
  "bodyHash e body = hex_text (env_sha256 e body)"

definition api_payload :: "env \<Rightarrow> auth_input \<Rightarrow> payload" where
  "api_payload e i =
     WithContentHash (NewPayload (to_upper (trim_space (ai_method i)) @ '' '' @ trim_space (ai_path i))
        (ai_timestamp i) (ai_nonce i) []) (bodyHash e (ai_body i))"

text \<open>\<^verbatim>\<open>repo.ReserveNonce\<close>, as the store of the verifier.\<close>

definition repo_ReserveNonce :: "bool \<Rightarrow> string \<Rightarrow> db \<Rightarrow> (auth_error + bool) \<times> db" where
  "repo_ReserveNonce fails n d =
     (if fails then (Inl NonceStoreFailed, d) else (let (b, d') = ReserveNonce n d in (Inr b, d')))"

text \<open>\<open>fails\<close>: the key lookup and the nonce insert.\<close>

definition Authenticate ::
  "bool \<times> bool \<Rightarrow> env \<Rightarrow> time \<Rightarrow> auth_input \<Rightarrow> db \<Rightarrow> (personal_error + authenticated_user) \<times> db" where
  "Authenticate fails e now i d =
     (if fst fails then (Inl (PeDb Unavailable), d)
      else (case repo_GetUserKeyByFingerprint e (ai_fingerprint i) d of
        (Inl err, d1) \<Rightarrow> (Inl (if err = NoRows then PeUnauthorized else PeDb err), d1)
      | (Inr key, d1) \<Rightarrow>
          (case parseAuthorizedKey e (k_public key) of
             None \<Rightarrow> (Inl PeUnauthorized, d1)
           | Some pub \<Rightarrow>
               (case Verify (env_ed_verify e) now 0 (Some (repo_ReserveNonce (snd fails))) pub (api_payload e i) (ai_signature i) d1 of
                  (Inl err, d2) \<Rightarrow>
                    (Inl (if err \<in> {InvalidSignature, ExpiredTimestamp, NonceReplayed, NonceStoreRequired}
                          then PeUnauthorized else PeVerify err), d2)
                | (Inr _, d2) \<Rightarrow> (Inr \<lparr>au_user = k_user key, au_key = k_id key\<rparr>, d2)))))"

section \<open>History and details\<close>

datatype personal_call =
  PcLab | PcSubs | PcSub | PcScores | PcUpsert | PcKeys | PcUser | PcRecent | PcNickname | PcRevoke

record history_item =
  hi_id :: uuid
  hi_status :: submission_status
  hi_verdict :: "verdict option"
  hi_message :: string
  hi_created :: time
  hi_finished :: "time option"

record submission_detail =
  sd_item :: history_item
  sd_lab :: string
  sd_key :: int
  sd_artifact :: string
  sd_hash :: string
  sd_quota_state :: quota_state
  sd_detail :: "detail option"
  sd_scores :: "(string \<times> f32) list"
  sd_quota :: "quota_summary option"

definition historyItemFromSubmission :: "sub_row \<Rightarrow> history_item" where
  "historyItemFromSubmission r =
     \<lparr>hi_id = sub_id r, hi_status = sub_status r, hi_verdict = sub_verdict r,
      hi_message = (case sub_message r of None \<Rightarrow> [] | Some t \<Rightarrow> t), hi_created = sub_created r, hi_finished = sub_finished r\<rparr>"

definition submissionDetailFromRow :: "sub_row \<Rightarrow> score_row list \<Rightarrow> quota_summary option \<Rightarrow> submission_detail" where
  "submissionDetailFromRow r ss q =
     \<lparr>sd_item = historyItemFromSubmission r, sd_lab = sub_lab r, sd_key = sub_key r, sd_artifact = sub_artifact r,
      sd_hash = sub_hash r, sd_quota_state = sub_quota r, sd_detail = sub_detail r,
      sd_scores = map (\<lambda>s. (sc_metric s, sc_value s)) ss, sd_quota = q\<rparr>"

text \<open>The lab and its manifest, as every lab request of a student reads them.\<close>

definition personal_lab :: "(personal_call \<Rightarrow> bool) \<Rightarrow> string \<Rightarrow> db \<Rightarrow> personal_error + lab_row" where
  "personal_lab fails lab d =
     (if blank lab then Inl PeLabNotFound
      else mapErr (\<lambda>err. if err = NoRows then PeLabNotFound else PeDb err) (faulty (fails PcLab) (GetLab lab d)))"

definition manifestFromRow :: "lab_row \<Rightarrow> personal_error + manifest" where
  "manifestFromRow r = (case l_manifest r of None \<Rightarrow> Inl PeManifest | Some m \<Rightarrow> Inr m)"

definition personal_quota :: "manifest \<Rightarrow> sub_row list \<Rightarrow> time \<Rightarrow> location \<Rightarrow> quota_summary option" where
  "personal_quota m rows now loc =
     (let (start, stop) = quotaWindowForTime now loc
      in BuildQuotaSummary (Some m) (int (CountQuotaUsage rows start stop)) (Some loc))"

definition ListSubmissionHistory ::
  "(personal_call \<Rightarrow> bool) \<Rightarrow> time \<Rightarrow> location \<Rightarrow> int \<Rightarrow> string \<Rightarrow> db \<Rightarrow>
   personal_error + (history_item list \<times> quota_summary option)" where
  "ListSubmissionHistory fails now loc user lab d =
     bindR (personal_lab fails lab d) (\<lambda>row.
     bindR (manifestFromRow row) (\<lambda>m.
     bindR (mapErr PeDb (faulty (fails PcSubs) (Inr (ListSubmissionsByUserLab user lab d)))) (\<lambda>rows.
     Inr (map historyItemFromSubmission rows, personal_quota m rows now loc))))"

definition GetSubmissionDetail ::
  "(personal_call \<Rightarrow> bool) \<Rightarrow> time \<Rightarrow> location \<Rightarrow> int \<Rightarrow> string \<Rightarrow> uuid \<Rightarrow> db \<Rightarrow> personal_error + submission_detail" where
  "GetSubmissionDetail fails now loc user lab i d =
     bindR (personal_lab fails lab d) (\<lambda>row.
     bindR (manifestFromRow row) (\<lambda>m.
     bindR (mapErr (\<lambda>err. if err = NoRows then PeSubmissionNotFound else PeDb err) (faulty (fails PcSub) (GetSubmission i d))) (\<lambda>r.
     if sub_user r \<noteq> user \<or> sub_lab r \<noteq> lab then Inl PeSubmissionNotFound
     else bindR (mapErr PeDb (faulty (fails PcScores) (Inr (ListScoresBySubmission i d)))) (\<lambda>ss.
          bindR (mapErr PeDb (faulty (fails PcSubs) (Inr (ListSubmissionsByUserLab user lab d)))) (\<lambda>rows.
          Inr (submissionDetailFromRow r ss (personal_quota m rows now loc)))))))"

section \<open>Profiles and keys\<close>

record lab_profile =
  lp_lab :: string
  lp_nickname :: string
  lp_track :: string
  lp_pick :: bool

definition profileFromRow :: "profile_row \<Rightarrow> lab_row \<Rightarrow> personal_error + lab_profile" where
  "profileFromRow p lab =
     bindR (manifestFromRow lab) (\<lambda>m. Inr
       \<lparr>lp_lab = pf_lab p, lp_nickname = pf_nickname p, lp_track = (case pf_track p of None \<Rightarrow> [] | Some t \<Rightarrow> t),
        lp_pick = board_pick (m_board m)\<rparr>)"

text \<open>The row is written before the manifest is read.\<close>

definition UpdateNickname ::
  "(personal_call \<Rightarrow> bool) \<Rightarrow> int \<Rightarrow> string \<Rightarrow> string \<Rightarrow> db \<Rightarrow> (personal_error + lab_profile) \<times> db" where
  "UpdateNickname fails user labID nickname d =
     (case personal_lab fails labID d of
        Inl err \<Rightarrow> (Inl err, d)
      | Inr lab \<Rightarrow>
          (let name = trim_space nickname
           in if name = [] then (Inl PeInvalidNickname, d)
              else (case faulty (fails PcUpsert) (UpsertLabProfileNickname user labID name d) of
                      Inl err \<Rightarrow> (Inl (PeDb err), d)
                    | Inr (row, d') \<Rightarrow> (profileFromRow row lab, d'))))"

definition trackExists :: "manifest \<Rightarrow> string \<Rightarrow> bool" where
  "trackExists m track \<longleftrightarrow> (\<exists>mt \<in> set (m_metrics m). metric_id mt = track)"

definition UpdateTrack ::
  "(personal_call \<Rightarrow> bool) \<Rightarrow> int \<Rightarrow> string \<Rightarrow> string \<Rightarrow> db \<Rightarrow> (personal_error + lab_profile) \<times> db" where
  "UpdateTrack fails user labID track d =
     (case bindR (personal_lab fails labID d) (\<lambda>lab. bindR (manifestFromRow lab) (\<lambda>m. Inr (lab, m))) of
        Inl err \<Rightarrow> (Inl err, d)
      | Inr (lab, m) \<Rightarrow>
          (let t = trim_space track
           in if \<not> board_pick (m_board m) then (Inl PeTrackSelectionDisabled, d)
              else if t = [] then (Inl PeInvalidTrack, d)
              else if \<not> trackExists m t then (Inl PeInvalidTrack, d)
              else (case faulty (fails PcUpsert) (UpsertLabProfileTrack user labID (Some t) d) of
                      Inl err \<Rightarrow> (Inl (PeDb err), d)
                    | Inr (row, d') \<Rightarrow> (profileFromRow row lab, d'))))"

record key_view =
  kv_id :: int
  kv_public :: string
  kv_device :: string
  kv_created :: time

definition keyFromRow :: "key_row \<Rightarrow> key_view" where
  "keyFromRow k = \<lparr>kv_id = k_id k, kv_public = k_public k, kv_device = k_device k, kv_created = k_created k\<rparr>"

definition ListKeys :: "(personal_call \<Rightarrow> bool) \<Rightarrow> int \<Rightarrow> db \<Rightarrow> personal_error + key_view list" where
  "ListKeys fails user d =
     (if fails PcKeys then Inl (PeDb Unavailable) else Inr (map keyFromRow (ListUserKeys user d)))"

definition RevokeKey :: "(personal_call \<Rightarrow> bool) \<Rightarrow> time \<Rightarrow> int \<Rightarrow> int \<Rightarrow> db \<Rightarrow> (personal_error + unit) \<times> db" where
  "RevokeKey fails dbnow user key d =
     (if fails PcRevoke then (Inl (PeDb Unavailable), d) else (Inr (), DeleteUserKey dbnow key user d))"

record recent_submission =
  rs_id :: uuid
  rs_lab :: string
  rs_status :: submission_status
  rs_created :: time

record user_profile =
  up_user :: int
  up_student :: string
  up_nickname :: string
  up_keys :: "key_view list"
  up_activity :: "recent_submission list"
  up_labs :: "string list"

text \<open>The loop over the recent rows collects each lab once, in order of first appearance.\<close>

fun recent_labs :: "string list \<Rightarrow> sub_row list \<Rightarrow> string list" where
  "recent_labs seen [] = []"
| "recent_labs seen (r # rs) =
     (if sub_lab r \<noteq> [] \<and> sub_lab r \<notin> set seen then sub_lab r # recent_labs (sub_lab r # seen) rs
      else recent_labs seen rs)"

definition GetProfile :: "(personal_call \<Rightarrow> bool) \<Rightarrow> int \<Rightarrow> db \<Rightarrow> personal_error + user_profile" where
  "GetProfile fails user d =
     bindR (mapErr PeDb (faulty (fails PcUser) (GetUserByID user d))) (\<lambda>u.
     bindR (ListKeys fails user d) (\<lambda>ks.
     bindR (mapErr PeDb (faulty (fails PcRecent) (Inr (ListRecentSubmissionsByUser user 20 d)))) (\<lambda>rows.
     Inr \<lparr>up_user = u_id u, up_student = u_student u, up_nickname = u_nickname u, up_keys = ks,
          up_activity = map (\<lambda>r. \<lparr>rs_id = sub_id r, rs_lab = sub_lab r, rs_status = sub_status r, rs_created = sub_created r\<rparr>) rows,
          up_labs = recent_labs [] rows\<rparr>)))"

definition UpdateUserProfile ::
  "(personal_call \<Rightarrow> bool) \<Rightarrow> int \<Rightarrow> string \<Rightarrow> db \<Rightarrow> (personal_error + user_profile) \<times> db" where
  "UpdateUserProfile fails user nickname d =
     (let name = trim_space nickname
      in if name = [] then (Inl PeInvalidNickname, d)
         else (case faulty (fails PcNickname) (UpdateUserNickname user name d) of
                 Inl err \<Rightarrow> (Inl (PeDb err), d)
               | Inr (_, d') \<Rightarrow> (GetProfile fails user d', d')))"

section \<open>Requests are authentic\<close>

lemma urlSafeID_no_space: "urlSafeID s \<Longrightarrow> CHR '' '' \<notin> set s"
  by (cases s) (auto simp: urlSafeID_def list_all_iff id_start_def id_rest_def)

lemma api_payload_space: "CHR '' '' \<in> set (p_lab_id (api_payload e i))"
  by (simp add: api_payload_def WithContentHash_def NewPayload_def)

lemma Authenticate_Inr:
  assumes "Authenticate fails e now i d = (Inr u, d')"
  obtains k pub d1 where "repo_GetUserKeyByFingerprint e (ai_fingerprint i) d = (Inr k, d1)"
    "u = \<lparr>au_user = k_user k, au_key = k_id k\<rparr>" "parseAuthorizedKey e (k_public k) = Some pub"
    "VerifySignature (env_ed_verify e) now 0 pub (api_payload e i) (ai_signature i) = Inr ()"
    "ReserveNonce (ai_nonce i) d1 = (True, d')"
proof -
  obtain kr d1 where look: "repo_GetUserKeyByFingerprint e (ai_fingerprint i) d = (kr, d1)" by fastforce
  with assms obtain k where k: "kr = Inr k" by (cases kr) (auto simp: Authenticate_def split: if_splits)
  obtain pub where pub: "parseAuthorizedKey e (k_public k) = Some pub"
    using assms look k by (cases "parseAuthorizedKey e (k_public k)") (auto simp: Authenticate_def split: if_splits)
  obtain vr d2 where ver: "Verify (env_ed_verify e) now 0 (Some (repo_ReserveNonce (snd fails))) pub (api_payload e i) (ai_signature i) d1 = (vr, d2)"
    by fastforce
  from assms look k pub ver have vr: "vr = Inr ()" "d2 = d'" "u = \<lparr>au_user = k_user k, au_key = k_id k\<rparr>"
    by (cases vr; simp add: Authenticate_def split: if_splits)+
  have nonce: "p_nonce (api_payload e i) = ai_nonce i" by (simp add: api_payload_def WithContentHash_def NewPayload_def)
  obtain sr where sig: "VerifySignature (env_ed_verify e) now 0 pub (api_payload e i) (ai_signature i) = sr" by simp
  with ver vr have sr: "sr = Inr ()" by (cases sr) (auto simp: Verify_def)
  obtain b d3 where rs: "ReserveNonce (ai_nonce i) d1 = (b, d3)" by fastforce
  with ver vr sig sr have "b \<and> d3 = d'"
    by (auto simp: Verify_def verifier_ReserveNonce_def repo_ReserveNonce_def nonce split: if_splits)
  with look k pub sig sr rs vr show thesis by (intro that) auto
qed

lemma VerifySignature_Inr:
  "VerifySignature ver now 0 pub p sig = Inr u \<longleftrightarrow>
   length pub = 32 \<and> ver pub (SigningBytes p) sig \<and> freshWithin now (p_timestamp p) defaultSkew"
  by (auto simp: VerifySignature_def Let_def)

text \<open>
  What a submission signs names at least one file, since every manifest requires one, and a lab whose id is safe in
  a URL; a request of the API signs no file and a subject with a space in it.
\<close>

definition submission_payload :: "payload \<Rightarrow> bool" where
  "submission_payload p \<longleftrightarrow> p_files p \<noteq> [] \<or> urlSafeID (p_lab_id p)"

lemma submission_not_api:
  assumes "submission_payload p"
  shows "SigningBytes p \<noteq> SigningBytes (api_payload e i)"
proof
  assume eq: "SigningBytes p = SigningBytes (api_payload e i)"
  have "map runes (sort (p_files p)) = []"
    using SigningBytes_unique(2) [OF eq] by (simp add: api_payload_def WithContentHash_def NewPayload_def)
  then have "p_files p = []" by (metis list.map_disc_iff mset_sort mset_zero_iff)
  moreover have "Some [CHR '' ''] \<in> set (runes (p_lab_id p))"
    unfolding SigningBytes_unique(3) [OF eq] using api_payload_space [of e i] ascii_rune [of "CHR '' ''"] by (simp add: is_ascii_def)
  then have "CHR '' '' \<in> set (p_lab_id p)" using ascii_rune [of "CHR '' ''"] by (simp add: is_ascii_def)
  ultimately show False using assms urlSafeID_no_space by (auto simp: submission_payload_def)
qed

text \<open>
  C0. An authenticated request was signed by a registered, unrevoked key of the user it returns, over the
  method and path, the time, the nonce and the hash of the body; it is fresh, its nonce was new and is used
  up; and what was signed is never what a submission signs, whichever files (at least one), lab, nonce and content
  hash it has and whatever bytes they hold, so neither signature can stand in for the other.
\<close>

theorem api_request_authentic:
  assumes "Authenticate fails e now i d = (Inr u, d')"
  shows "(\<exists>k \<in> set (db_keys d). k_revoked k = None \<and> k_id k = au_key u \<and> k_user k = au_user u \<and>
       (\<exists>pub. parseAuthorizedKey e (k_public k) = Some pub \<and> length pub = 32 \<and>
          env_ed_verify e pub (SigningBytes (api_payload e i)) (ai_signature i))) \<and>
    freshWithin now (ai_timestamp i) defaultSkew \<and>
    ai_nonce i \<notin> set (db_nonces d) \<and> db_nonces d' = db_nonces d @ [ai_nonce i] \<and>
    (\<forall>p. p_files p \<noteq> [] \<or> urlSafeID (p_lab_id p) \<longrightarrow> SigningBytes p \<noteq> SigningBytes (api_payload e i))"
proof -
  from Authenticate_Inr [OF assms] obtain k pub d1 where
    look: "repo_GetUserKeyByFingerprint e (ai_fingerprint i) d = (Inr k, d1)"
    and u: "u = \<lparr>au_user = k_user k, au_key = k_id k\<rparr>" and pub: "parseAuthorizedKey e (k_public k) = Some pub"
    and sig: "VerifySignature (env_ed_verify e) now 0 pub (api_payload e i) (ai_signature i) = Inr ()"
    and nonce: "ReserveNonce (ai_nonce i) d1 = (True, d')" by blast
  have "db_nonces d1 = db_nonces d" by (rule same_but_fingerprints_D(4) [OF repo_key_frame [OF look]])
  with nonce have "ai_nonce i \<notin> set (db_nonces d) \<and> db_nonces d' = db_nonces d @ [ai_nonce i]"
    by (auto simp: ReserveNonce_def split: if_splits)
  moreover from repo_key_active [OF look] have "k \<in> set (db_keys d)" "k_revoked k = None" by (auto simp: active_key_def)
  moreover have "p_timestamp (api_payload e i) = ai_timestamp i"
    by (simp add: api_payload_def WithContentHash_def NewPayload_def)
  moreover have "SigningBytes p \<noteq> SigningBytes (api_payload e i)" if "p_files p \<noteq> [] \<or> urlSafeID (p_lab_id p)" for p
    by (rule submission_not_api) (use that in \<open>simp add: submission_payload_def\<close>)
  ultimately show ?thesis using u pub sig by (auto simp: VerifySignature_Inr)
qed

section \<open>Revoked keys\<close>

text \<open>
  What may happen to the keys: every operation on accounts, requests and submissions included. The queries on keys
  (\<^verbatim>\<open>db/queries/auth.sql\<close>) are called from these alone, so that every operation of
  another service (labs, grades, boards, evaluations, tickets) is an \<open>other\<close> step: it may do
  anything but write the table of keys.
\<close>

inductive account_step :: "env \<Rightarrow> db \<Rightarrow> db \<Rightarrow> bool" for e where
  auth: "auth_step e d d' \<Longrightarrow> account_step e d d'"
| request: "Authenticate fails e now i d = (res, d') \<Longrightarrow> account_step e d d'"
| submit: "Intake e flt t l inp w = (res', w') \<Longrightarrow> account_step e (w_db w) (w_db w')"
| revoke: "RevokeKey fails' dbnow user key d = (res'', d') \<Longrightarrow> account_step e d d'"
| nickname: "UpdateUserProfile fails' user nick d = (res3, d') \<Longrightarrow> account_step e d d'"
| other: "db_keys d' = db_keys d \<Longrightarrow> db_key_seq d' = db_key_seq d \<Longrightarrow> account_step e d d'"

text \<open>A key id that was given out and has no active row.\<close>

definition dead_key :: "int \<Rightarrow> db \<Rightarrow> bool" where
  "dead_key i d \<longleftrightarrow> i \<le> db_key_seq d \<and> (\<forall>k \<in> set (db_keys d). k_id k = i \<longrightarrow> \<not> active_key k)"

lemma dead_key_frame:
  "dead_key i d \<Longrightarrow> db_key_seq d' = db_key_seq d \<Longrightarrow>
   map (\<lambda>k. (k_id k, active_key k)) (db_keys d') = map (\<lambda>k. (k_id k, active_key k)) (db_keys d) \<Longrightarrow> dead_key i d'"
proof -
  assume dead: "dead_key i d" and seq: "db_key_seq d' = db_key_seq d"
    and eq: "map (\<lambda>k. (k_id k, active_key k)) (db_keys d') = map (\<lambda>k. (k_id k, active_key k)) (db_keys d)"
  have img: "(\<lambda>k. (k_id k, active_key k)) ` set (db_keys d') = (\<lambda>k. (k_id k, active_key k)) ` set (db_keys d)"
    using arg_cong [OF eq, of set] by (simp only: list.set_map)
  have "\<not> active_key k" if "k \<in> set (db_keys d')" "k_id k = i" for k
  proof -
    have "(k_id k, active_key k) \<in> (\<lambda>k. (k_id k, active_key k)) ` set (db_keys d)"
      unfolding img [symmetric] using that(1) by (rule imageI)
    then obtain q where "q \<in> set (db_keys d)" "k_id q = k_id k" "active_key q = active_key k" by force
    with dead that(2) show ?thesis unfolding dead_key_def by blast
  qed
  with dead seq show "dead_key i d'" unfolding dead_key_def by simp
qed

lemma same_but_fingerprints_dead:
  assumes "same_but_fingerprints d d'" and "dead_key i d"
  shows "dead_key i d'"
proof -
  from assms(1) obtain ks where d': "d' = d\<lparr>db_keys := ks\<rparr>"
    and eq: "map (\<lambda>k. k\<lparr>k_fingerprint := None\<rparr>) ks = map (\<lambda>k. k\<lparr>k_fingerprint := None\<rparr>) (db_keys d)"
    by (auto simp: same_but_fingerprints_def)
  from arg_cong [OF eq, of "map (\<lambda>k. (k_id k, active_key k))"]
  have "map (\<lambda>k. (k_id k, active_key k)) ks = map (\<lambda>k. (k_id k, active_key k)) (db_keys d)"
    by (simp add: active_key_def comp_def)
  then show ?thesis using assms(2) by (intro dead_key_frame [OF assms(2)]) (simp_all add: d')
qed

lemma CompleteDeviceAuthRequest_dead:
  assumes "CompleteDeviceAuthRequest now code st s fp device d = (res, d')" and dead: "dead_key i d"
  shows "dead_key i d'"
  using assms(1)
proof (cases rule: CompleteDeviceAuthRequest_cases)
  case failed
  with dead show ?thesis by simp
next
  case (foreign r u d2 k)
  with dead UpsertUser_frame [OF foreign(2)] show ?thesis by (auto simp: dead_key_def)
next
  case (renamed r u d2 k)
  with dead UpsertUser_frame [OF renamed(2)] show ?thesis
    by (auto simp: dead_key_def set_update_where active_key_def)
next
  case (bound r u d2)
  with dead UpsertUser_frame [OF bound(2)] show ?thesis
    by (auto simp: dead_key_def bound_key_def)
qed

lemma auth_step_dead:
  assumes "auth_step e d d'" and dead: "dead_key i d"
  shows "dead_key i d'"
  using assms(1)
proof (cases rule: auth_step.cases)
  case create
  with dead show ?thesis
    by (elim CreateDeviceAuthRequest_cases) (auto simp: dead_key_def CreateDeviceAuthRequest_def split: if_splits)
next
  case bind
  with dead show ?thesis by (elim DevBind_cases) (auto dest: CompleteDeviceAuthRequest_dead)
next
  case callback
  with dead show ?thesis by (elim HandleOAuthCallback_cases) (auto dest: CompleteDeviceAuthRequest_dead)
next
  case login
  with dead show ?thesis by (elim HandleWebLoginCallback_cases) (auto simp: dead_key_def UpsertUser_frame)
next
  case expire
  with dead show ?thesis by (simp add: dead_key_def ExpireDeviceAuthRequests_def)
next
  case revoke
  with dead show ?thesis by (auto simp: dead_key_def DeleteUserKey_def set_update_where active_key_def)
next
  case backfill
  with dead same_but_fingerprints_dead [OF UpdateUserKeyFingerprint_frame] show ?thesis by blast
qed

lemma Verify_frame:
  assumes "Verify ver now 0 (Some (repo_ReserveNonce fails)) pub p sig d = (res, d')"
  shows "\<exists>ns. d' = d\<lparr>db_nonces := ns\<rparr>"
proof -
  have "d' = d \<or> (\<exists>ns. d' = d\<lparr>db_nonces := ns\<rparr>)"
    using assms
    by (auto simp: Verify_def verifier_ReserveNonce_def repo_ReserveNonce_def ReserveNonce_def
        split: if_splits prod.splits sum.splits)
  moreover have "d = d\<lparr>db_nonces := db_nonces d\<rparr>" by simp
  ultimately show ?thesis by blast
qed

lemma Authenticate_frame:
  assumes "Authenticate fails e now i d = (res, d')"
  shows "\<exists>d1 ns. same_but_fingerprints d d1 \<and> d' = d1\<lparr>db_nonces := ns\<rparr>"
proof -
  obtain kr d1 where look: "repo_GetUserKeyByFingerprint e (ai_fingerprint i) d = (kr, d1)" by fastforce
  have same: "d1 = d1\<lparr>db_nonces := db_nonces d1\<rparr>" "d = d\<lparr>db_nonces := db_nonces d\<rparr>" by simp_all
  consider "d' = d" | "d' = d1" | pub r where
    "Verify (env_ed_verify e) now 0 (Some (repo_ReserveNonce (snd fails))) pub (api_payload e i) (ai_signature i) d1 = (r, d')"
    using assms look
    by (cases kr) (auto simp: Authenticate_def split: if_splits option.splits prod.splits sum.splits)
  then show ?thesis
    by cases (use repo_key_frame [OF look] same same_but_fingerprints_refl Verify_frame in blast)+
qed

lemma Intake_keys_frame:
  assumes "Intake e flt t l inp w = (res, w')"
  shows "\<exists>d1. same_but_fingerprints (w_db w) d1 \<and> db_keys (w_db w') = db_keys d1 \<and> db_key_seq (w_db w') = db_key_seq d1"
proof (cases res)
  case (Inl err)
  obtain r d1 where chk: "intake_checks e flt t inp (w_db w) = (r, d1)" by fastforce
  from assms Inl chk have "w_db w' = d1"
    by (auto simp: Intake_def split: sum.splits prod.splits if_splits)
  then show ?thesis using intake_checks_frame [OF chk] by blast
next
  case (Inr s)
  from Intake_Inr [OF assms [unfolded Inr]] obtain p d1 start stop used bonus rem d2 row d3 where
    chk: "intake_checks e flt t inp (w_db w) = (Inr p, d1)"
    and tq: "take_quota flt (it_db t) (pr_manifest p) (k_user (pr_key p)) (in_lab inp) start stop d1 = Inr (used, bonus, rem, d2)"
    and rc: "record_submission flt (it_db t) inp p bonus d2 = Inr (row, d3)" and w': "w_db w' = d3"
    by (metis world.select_convs(1))
  have "db_keys d2 = db_keys d1 \<and> db_key_seq d2 = db_key_seq d1"
    using take_quota_Inr [OF tq] by (auto simp: ConsumeBonusQuota_def split: option.splits)
  with record_submission_Inr [OF rc] w' have "db_keys (w_db w') = db_keys d1 \<and> db_key_seq (w_db w') = db_key_seq d1"
    by auto
  then show ?thesis using intake_checks_frame [OF chk] by blast
qed

lemma account_step_dead:
  assumes "account_step e d d'" and dead: "dead_key i d"
  shows "dead_key i d'"
  using assms(1)
proof (cases rule: account_step.cases)
  case auth
  then show ?thesis using dead by (rule auth_step_dead)
next
  case request
  then obtain d1 ns where "same_but_fingerprints d d1" "d' = d1\<lparr>db_nonces := ns\<rparr>"
    using Authenticate_frame by blast
  with same_but_fingerprints_dead [OF _ dead] show ?thesis by (simp add: dead_key_def)
next
  case submit
  then obtain d1 where "same_but_fingerprints d d1" "db_keys d' = db_keys d1" "db_key_seq d' = db_key_seq d1"
    using Intake_keys_frame by blast
  with same_but_fingerprints_dead [OF _ dead] show ?thesis by (simp add: dead_key_def)
next
  case (revoke fails' dbnow user key)
  with dead auth_step_dead [OF auth_step.revoke dead] show ?thesis by (auto simp: RevokeKey_def split: if_splits)
next
  case nickname
  with dead show ?thesis
    by (auto simp: UpdateUserProfile_def Let_def UpdateUserNickname_def dead_key_def bindR_def
        split: if_splits sum.splits prod.splits)
next
  case other
  with dead show ?thesis by (simp add: dead_key_def)
qed


section \<open>Examples\<close>

definition sample_request :: auth_input where
  "sample_request =
     (let i = \<lparr>ai_fingerprint = sample_fp, ai_method = ''get '', ai_path = ''/api/keys'', ai_timestamp = 719162 * day, ai_nonce = ''n1'',
               ai_signature = [], ai_body = ''body''\<rparr>
      in i\<lparr>ai_signature := SigningBytes (api_payload demo_env i)\<rparr>)"

text \<open>The key is revoked and its public key bound again by another student.\<close>

definition sample_revoked_db :: db where
  "sample_revoked_db = snd (RevokeKey (\<lambda>_. False) 1 1 7 (sample_accounts [sample_key]))"

definition sample_rebound_db :: db where
  "sample_rebound_db = snd (HandleOAuthCallback (False, False) demo_env (Some sample_provider) 3 3 ''st'' ''code'' sample_revoked_db)"

lemma sample_requests:
  "fst (Authenticate (False, False) demo_env (719162 * day) sample_request (sample_accounts [sample_key])) = Inr \<lparr>au_user = 1, au_key = 7\<rparr>"
  "fst (Authenticate (False, False) demo_env (719162 * day) sample_request sample_rebound_db) = Inr \<lparr>au_user = 2, au_key = 8\<rparr>"
  by code_simp+

lemma api_request_authentic_witness:
  "\<exists>d'. Authenticate (False, False) demo_env (719162 * day) sample_request (sample_accounts [sample_key]) = (Inr \<lparr>au_user = 1, au_key = 7\<rparr>, d') \<and>
     db_nonces d' = [''n1'']"
proof -
  obtain d' where run: "Authenticate (False, False) demo_env (719162 * day) sample_request (sample_accounts [sample_key]) = (Inr \<lparr>au_user = 1, au_key = 7\<rparr>, d')"
    using sample_requests(1) by (metis prod.collapse)
  from api_request_authentic [OF run] run show ?thesis
    by (auto simp: sample_accounts_def empty_db_def sample_request_def Let_def)
qed

lemma sample_revocation:
  "(account_step demo_env)\<^sup>*\<^sup>* sample_revoked_db sample_rebound_db"
  "RevokeKey (\<lambda>_. False) 1 1 7 (sample_accounts [sample_key]) = (Inr (), sample_revoked_db)"
proof -
  have "account_step demo_env sample_revoked_db sample_rebound_db"
    unfolding sample_rebound_db_def by (rule account_step.auth, rule auth_step.callback, rule prod.collapse [symmetric])
  then show "(account_step demo_env)\<^sup>*\<^sup>* sample_revoked_db sample_rebound_db" by (rule r_into_rtranclp)
  show "RevokeKey (\<lambda>_. False) 1 1 7 (sample_accounts [sample_key]) = (Inr (), sample_revoked_db)"
    by (simp add: sample_revoked_db_def RevokeKey_def)
qed


end
