(* ===== verification/Http_Session.thy ===== *)
theory Http_Session
  imports Web_Session Personal Go_Path
begin

text \<open>
  \<^verbatim>\<open>api/internal/http\<close>, the part that decides on whose behalf a request acts: \<^verbatim>\<open>browser_session.go\<close>,
  \<^verbatim>\<open>personal_auth.go\<close>, \<^verbatim>\<open>web_login_handler.go\<close>, \<^verbatim>\<open>web_session_handler.go\<close>, \<^verbatim>\<open>oauth_callback_handler.go\<close> and
  \<^verbatim>\<open>device_verify_handler.go\<close>. A request is what \<^verbatim>\<open>net/http\<close> hands to a handler: its method, escaped
  path, query, headers, the name and raw value of each cookie, and its body (\<open>None\<close> where reading it fails).
  Decoding a JSON body and parsing an RFC 3339 time are arguments, as are the clock, the random bytes
  and the calls that fail.
\<close>

section \<open>Requests and responses\<close>

text \<open>Percent escapes of a path; a broken one stays, as in \<^verbatim>\<open>pathUnescape\<close> of the router.\<close>

definition hex_value :: "char \<Rightarrow> nat" where
  "hex_value c = (let v = of_char c :: nat in if v \<le> 57 then v - 48 else if v \<le> 70 then v - 55 else v - 87)"

fun unescape_bytes :: "string \<Rightarrow> string" where
  "unescape_bytes (CHR 0x25 # a # b # s) = char_of (16 * hex_value a + hex_value b) # unescape_bytes s"
| "unescape_bytes (c # s) = c # unescape_bytes s"
| "unescape_bytes [] = []"

definition path_unescape :: "string \<Rightarrow> string" where
  "path_unescape s = (if percents_ok s then unescape_bytes s else s)"

record request =
  rq_method :: string
  rq_escaped :: string
  rq_raw_query :: string
  rq_query :: "string \<Rightarrow> string"
  rq_header :: "string \<Rightarrow> string"
  rq_cookies :: "(string \<times> string) list"
  rq_form :: "(string \<Rightarrow> string) option"
  rq_body :: "string option"

record set_cookie =
  ck_name :: string
  ck_value :: string
  ck_secure :: bool
  ck_max_age :: int

text \<open>\<^verbatim>\<open>r.URL.Path\<close>.\<close>

definition rq_path :: "request \<Rightarrow> string" where
  "rq_path r = path_unescape (rq_escaped r)"

text \<open>
  What a handler answers: a JSON body, an error envelope with its code, a plain error, a redirect with the
  cookies it sets, the router's redirect to the cleaned path, a file, a page or no content.
\<close>

datatype 'a response =
    Json nat 'a
  | Failure nat string
  | PlainError nat
  | RedirectTo string "set_cookie list"
  | Moved string
  | CsvFile string string
  | Page
  | NoContent

definition internal_error :: "'a response" where
  "internal_error = Failure 500 ''internal_server_error''"

definition unauthorized :: "'a response" where
  "unauthorized = Failure 401 ''unauthorized''"

text \<open>Cookie values: the bytes \<^verbatim>\<open>net/http\<close> lets through in both directions, and the optional quotes.\<close>

definition cookie_byte :: "char \<Rightarrow> bool" where
  "cookie_byte c \<longleftrightarrow> (32::nat) \<le> of_char c \<and> of_char c < (127::nat) \<and> c \<noteq> CHR 0x22 \<and> c \<noteq> CHR '';'' \<and> c \<noteq> CHR 0x5C"

definition sanitizeCookieValue :: "string \<Rightarrow> string" where
  "sanitizeCookieValue v =
     (let w = filter cookie_byte v
      in if CHR '' '' \<in> set w \<or> CHR '','' \<in> set w then CHR 0x22 # w @ [CHR 0x22] else w)"

definition parseCookieValue :: "string \<Rightarrow> string option" where
  "parseCookieValue raw =
     (let w = (if 1 < length raw \<and> hd raw = CHR 0x22 \<and> last raw = CHR 0x22 then butlast (tl raw) else raw)
      in if list_all cookie_byte w then Some w else None)"

definition cookie :: "string \<Rightarrow> request \<Rightarrow> string option" where
  "cookie n r = map_of (List.map_filter (\<lambda>(k, v). map_option (Pair k) (parseCookieValue v)) (rq_cookies r)) n"

definition site_cookie :: "bool \<Rightarrow> string \<Rightarrow> string \<Rightarrow> int \<Rightarrow> set_cookie" where
  "site_cookie secure n v age = \<lparr>ck_name = n, ck_value = sanitizeCookieValue v, ck_secure = secure, ck_max_age = age\<rparr>"

text \<open>
  \<^verbatim>\<open>http.Redirect\<close> to a path of the site: the path is cleaned unless the reference does not parse, and
  bytes outside ASCII are escaped.
\<close>

definition escape_byte :: "char \<Rightarrow> string" where
  "escape_byte c =
     (if (of_char c :: nat) < 128 then [c]
      else [CHR ''%'', hex_digit (of_char c div 16), hex_digit (of_char c mod 16)])"

definition clean_reference :: "string \<Rightarrow> string" where
  "clean_reference u =
     (let p = takeWhile (\<lambda>c. c \<noteq> CHR ''?'') u; q = drop (length p) u; c = path_clean p
      in (if has_suffix p ''/'' \<and> \<not> has_suffix c ''/'' then c @ ''/'' else c) @ q)"

definition site_location :: "string \<Rightarrow> string" where
  "site_location u = concat (map escape_byte (if url_parses u then clean_reference u else u))"

section \<open>Browser sessions\<close>

datatype session_source = FromDevice | FromWeb

record browser_session =
  bs_user :: int
  bs_key :: int
  bs_student :: string
  bs_source :: session_source
  bs_expires :: time

type_synonym sessions = "string \<rightharpoonup> browser_session"

definition browserSessionCookieName :: string where "browserSessionCookieName = ''labkit_browser_session''"
definition browserSessionTTL :: duration where "browserSessionTTL = 8 * hour"

definition randomBrowserSessionToken :: "nat list option \<Rightarrow> string option" where
  "randomBrowserSessionToken rand =
     (case rand of
        None \<Rightarrow> None
      | Some bs \<Rightarrow> (let t = map url_char (base64_raw bs) in if t = [] then None else Some t))"

definition issueBrowserSessionWithSource ::
  "nat list option \<Rightarrow> time \<Rightarrow> int \<Rightarrow> int \<Rightarrow> string \<Rightarrow> session_source \<Rightarrow> sessions \<Rightarrow> (string \<times> sessions) option" where
  "issueBrowserSessionWithSource rand now user key student src m =
     (case randomBrowserSessionToken rand of
        None \<Rightarrow> None
      | Some t \<Rightarrow> Some (t, m(t \<mapsto> \<lparr>bs_user = user, bs_key = key, bs_student = student, bs_source = src,
                                   bs_expires = now + browserSessionTTL\<rparr>)))"

definition issueBrowserSession ::
  "nat list option \<Rightarrow> time \<Rightarrow> int \<Rightarrow> int \<Rightarrow> string \<Rightarrow> sessions \<Rightarrow> (string \<times> sessions) option" where
  "issueBrowserSession rand now user key student m = issueBrowserSessionWithSource rand now user key student FromDevice m"

definition issueWebBrowserSession ::
  "nat list option \<Rightarrow> time \<Rightarrow> int \<Rightarrow> string \<Rightarrow> sessions \<Rightarrow> (string \<times> sessions) option" where
  "issueWebBrowserSession rand now user student m = issueBrowserSessionWithSource rand now user 0 student FromWeb m"

definition lookupBrowserSession :: "time \<Rightarrow> string \<Rightarrow> sessions \<Rightarrow> browser_session option \<times> sessions" where
  "lookupBrowserSession now token m =
     (case m token of
        None \<Rightarrow> (None, m)
      | Some s \<Rightarrow> (if bs_expires s < now then (None, m(token := None)) else (Some s, m)))"

definition browserSessionFromRequest :: "time \<Rightarrow> request \<Rightarrow> sessions \<Rightarrow> browser_session option \<times> sessions" where
  "browserSessionFromRequest now r m =
     (case cookie browserSessionCookieName r of
        None \<Rightarrow> (None, m)
      | Some v \<Rightarrow> lookupBrowserSession now (trim_space v) m)"

section \<open>The state of the API\<close>

record api =
  ap_world :: world
  ap_sessions :: sessions

definition api_db :: "api \<Rightarrow> db" where "api_db s = w_db (ap_world s)"

definition set_db :: "db \<Rightarrow> api \<Rightarrow> api" where
  "set_db d s = s\<lparr>ap_world := (ap_world s)\<lparr>w_db := d\<rparr>\<rparr>"

definition set_sessions :: "sessions \<Rightarrow> api \<Rightarrow> api" where
  "set_sessions m s = s\<lparr>ap_sessions := m\<rparr>"

lemma api_lens [simp]:
  "api_db (set_db d s) = d" "ap_sessions (set_db d s) = ap_sessions s"
  "api_db (set_sessions m s) = api_db s" "ap_sessions (set_sessions m s) = m"
  "w_art (ap_world (set_db d s)) = w_art (ap_world s)" "ap_world (set_sessions m s) = ap_world s"
  by (simp_all add: api_db_def set_db_def set_sessions_def)

lemma set_db_same [simp]: "set_db (api_db s) s = s"
  by (simp add: api_db_def set_db_def)

section \<open>Authentication of a request\<close>

text \<open>\<^verbatim>\<open>base64.StdEncoding.DecodeString\<close>: line breaks are skipped, groups of four, padding at the end only.\<close>

definition b64_value :: "char \<Rightarrow> nat option" where
  "b64_value c =
     (let v = of_char c :: nat
      in if 65 \<le> v \<and> v \<le> 90 then Some (v - 65)
         else if 97 \<le> v \<and> v \<le> 122 then Some (v - 71)
         else if 48 \<le> v \<and> v \<le> 57 then Some (v + 4)
         else if v = 43 then Some 62 else if v = 47 then Some 63 else None)"

definition b64_two :: "char \<Rightarrow> char \<Rightarrow> string option" where
  "b64_two a b =
     (case (b64_value a, b64_value b) of
        (Some x, Some y) \<Rightarrow> Some [char_of (x * 4 + y div 16)] | _ \<Rightarrow> None)"

definition b64_three :: "char \<Rightarrow> char \<Rightarrow> char \<Rightarrow> string option" where
  "b64_three a b c =
     (case (b64_two a b, b64_value b, b64_value c) of
        (Some s, Some y, Some z) \<Rightarrow> Some (s @ [char_of (y mod 16 * 16 + z div 4)]) | _ \<Rightarrow> None)"

definition b64_four :: "char \<Rightarrow> char \<Rightarrow> char \<Rightarrow> char \<Rightarrow> string option" where
  "b64_four a b c d =
     (case (b64_three a b c, b64_value c, b64_value d) of
        (Some s, Some z, Some w) \<Rightarrow> Some (s @ [char_of (z mod 4 * 64 + w)]) | _ \<Rightarrow> None)"

fun b64_groups :: "string \<Rightarrow> string option" where
  "b64_groups [] = Some []"
| "b64_groups (a # b # c # d # s) =
     (if d = CHR ''='' then
        (if s \<noteq> [] then None else if c = CHR ''='' then b64_two a b else b64_three a b c)
      else (case (b64_four a b c d, b64_groups s) of (Some x, Some y) \<Rightarrow> Some (x @ y) | _ \<Rightarrow> None))"
| "b64_groups _ = None"

definition base64_decode :: "string \<Rightarrow> string option" where
  "base64_decode s = b64_groups (filter (\<lambda>c. c \<noteq> CHR 0x0D \<and> c \<noteq> CHR 0x0A) s)"

definition signedRequestPath :: "request \<Rightarrow> string" where
  "signedRequestPath r =
     (let path = trim_space (rq_path r); raw = trim_space (rq_raw_query r)
      in if raw = [] then path else path @ ''?'' @ raw)"

definition h_fingerprint :: string where "h_fingerprint = ''X-LabKit-Key-Fingerprint''"
definition h_timestamp :: string where "h_timestamp = ''X-LabKit-Timestamp''"
definition h_nonce :: string where "h_nonce = ''X-LabKit-Nonce''"
definition h_signature :: string where "h_signature = ''X-LabKit-Signature''"

text \<open>The headers of a signed request: fingerprint, time, nonce and signature, or what is wrong with them.\<close>

datatype header_error = BadFingerprint | BadTimestamp | BadSignatureEncoding

definition signed_headers ::
  "(string \<Rightarrow> time option) \<Rightarrow> request \<Rightarrow> header_error + (string \<times> time \<times> string \<times> string)" where
  "signed_headers parse_time r =
     (let fp = trim_space (rq_header r h_fingerprint)
      in if fp = [] then Inl BadFingerprint
         else (case parse_time (trim_space (rq_header r h_timestamp)) of
           None \<Rightarrow> Inl BadTimestamp
         | Some t \<Rightarrow> (case base64_decode (trim_space (rq_header r h_signature)) of
             None \<Rightarrow> Inl BadSignatureEncoding
           | Some sig \<Rightarrow> Inr (fp, t, trim_space (rq_header r h_nonce), sig))))"

text \<open>Every refusal answers 401; \<open>fails\<close> as in \<open>Authenticate\<close>.\<close>

definition authenticatePersonalRequest ::
  "bool \<times> bool \<Rightarrow> env \<Rightarrow> (string \<Rightarrow> time option) \<Rightarrow> time \<Rightarrow> request \<Rightarrow> string \<Rightarrow> api \<Rightarrow> authenticated_user option \<times> api" where
  "authenticatePersonalRequest fails e parse_time now r body s =
     (case signed_headers parse_time r of
        Inl _ \<Rightarrow> (None, s)
      | Inr (fp, t, nonce, sig) \<Rightarrow>
          (case Authenticate fails e now
                  \<lparr>ai_fingerprint = fp, ai_method = rq_method r, ai_path = signedRequestPath r, ai_timestamp = t,
                   ai_nonce = nonce, ai_signature = sig, ai_body = body\<rparr> (api_db s) of
             (Inl _, d) \<Rightarrow> (None, set_db d s)
           | (Inr u, d) \<Rightarrow> (Some u, set_db d s)))"

definition session_user :: "browser_session \<Rightarrow> authenticated_user" where
  "session_user b = \<lparr>au_user = bs_user b, au_key = bs_key b\<rparr>"

definition authenticateBrowserSessionRequest :: "time \<Rightarrow> request \<Rightarrow> api \<Rightarrow> authenticated_user option \<times> api" where
  "authenticateBrowserSessionRequest now r s =
     (let (b, m) = browserSessionFromRequest now r (ap_sessions s) in (map_option session_user b, set_sessions m s))"

definition authenticateBrowserSessionOrPersonalRequest ::
  "bool \<times> bool \<Rightarrow> env \<Rightarrow> (string \<Rightarrow> time option) \<Rightarrow> time \<Rightarrow> request \<Rightarrow> string \<Rightarrow> api \<Rightarrow> authenticated_user option \<times> api" where
  "authenticateBrowserSessionOrPersonalRequest fails e parse_time now r body s =
     (case authenticateBrowserSessionRequest now r s of
        (Some u, s') \<Rightarrow> (Some u, s')
      | (None, s') \<Rightarrow> authenticatePersonalRequest fails e parse_time now r body s')"

text \<open>A session of the web login answers 403; \<open>Inl\<close> is the response.\<close>

definition authenticateWritableRequest ::
  "bool \<times> bool \<Rightarrow> env \<Rightarrow> (string \<Rightarrow> time option) \<Rightarrow> time \<Rightarrow> request \<Rightarrow> string \<Rightarrow> api \<Rightarrow>
   ('a response + authenticated_user) \<times> api" where
  "authenticateWritableRequest fails e parse_time now r body s =
     (case browserSessionFromRequest now r (ap_sessions s) of
        (Some b, m) \<Rightarrow>
          (if bs_source b = FromWeb then (Inl (Failure 403 ''read_only_session''), set_sessions m s)
           else (Inr (session_user b), set_sessions m s))
      | (None, m) \<Rightarrow>
          (case authenticatePersonalRequest fails e parse_time now r body (set_sessions m s) of
             (None, s') \<Rightarrow> (Inl unauthorized, s')
           | (Some u, s') \<Rightarrow> (Inr u, s')))"

section \<open>The configuration and what decides a run\<close>

text \<open>
  The configuration of \<^verbatim>\<open>NewRouter\<close> and the code outside the repository: the time parser, the JSON decoders
  (the named text fields of an object; the delta and dry-run flag; the dry-run flag whatever the error), the
  UUID parser, the multipart parser (the files in the order in which the form is ranged over, \<open>None\<close> for one
  that cannot be read) and the CSV upload.
\<close>

record api_env =
  ae_env :: env
  ae_time :: "string \<Rightarrow> time option"
  ae_text :: "string list \<Rightarrow> string \<Rightarrow> string list option"
  ae_delta :: "string \<Rightarrow> (int \<times> bool) option"
  ae_dry_run :: "string \<Rightarrow> bool"
  ae_uuid :: "string \<Rightarrow> uuid option"
  ae_upload :: "request \<Rightarrow> (string \<times> string) option list option"
  ae_csv :: "request \<Rightarrow> string option"
  ae_float_text :: "f32 \<Rightarrow> string"
  ae_codec :: lab_codec
  ae_loc :: location
  ae_provider :: "provider option"
  ae_ttl :: duration
  ae_admin_token :: string
  ae_dev :: bool

text \<open>The readings of the clocks, the random bytes and the calls that fail while a request is served.\<close>

record api_run =
  ar_now :: "nat \<Rightarrow> time"
  ar_dbnow :: "nat \<Rightarrow> time"
  ar_session :: "nat list option"
  ar_ticket :: "nat list option"
  ar_state :: "string option"
  ar_codes :: device_codes
  ar_intake :: intake_times
  ar_auth_fails :: "bool \<times> bool"
  ar_flow_fails :: "bool \<times> bool"
  ar_ticket_fails :: "ticket_call \<Rightarrow> bool"
  ar_personal_fails :: "personal_call \<Rightarrow> bool"
  ar_intake_fails :: intake_faults
  ar_precheck_fails :: "precheck_call \<Rightarrow> bool"
  ar_board_fails :: "board_call \<Rightarrow> bool"
  ar_labs_fails :: "labs_call \<Rightarrow> bool"
  ar_admin_fails :: "admin_call \<Rightarrow> bool"
  ar_grade_fails :: bool
  ar_import_fails :: "nat \<Rightarrow> bool"

abbreviation signed_user :: "api_env \<Rightarrow> api_run \<Rightarrow> request \<Rightarrow> string \<Rightarrow> api \<Rightarrow> authenticated_user option \<times> api" where
  "signed_user c u r body s \<equiv> authenticatePersonalRequest (ar_auth_fails u) (ae_env c) (ae_time c) (ar_now u 1) r body s"

abbreviation reading_user :: "api_env \<Rightarrow> api_run \<Rightarrow> request \<Rightarrow> api \<Rightarrow> authenticated_user option \<times> api" where
  "reading_user c u r s \<equiv>
     (case authenticateBrowserSessionRequest (ar_now u 0) r s of
        (Some a, s') \<Rightarrow> (Some a, s') | (None, s') \<Rightarrow> signed_user c u r [] s')"

section \<open>The login through the identity provider\<close>

definition oauthStateCookieName :: string where "oauthStateCookieName = ''labkit_oauth_state''"
definition oauthNextCookieName :: string where "oauthNextCookieName = ''labkit_oauth_next''"

definition hasMatchingOAuthStateCookie :: "request \<Rightarrow> string \<Rightarrow> bool" where
  "hasMatchingOAuthStateCookie r state \<longleftrightarrow>
     \<not> blank state \<and> (case cookie oauthStateCookieName r of
        None \<Rightarrow> False | Some v \<Rightarrow> \<not> blank v \<and> trim_space v = trim_space state)"

definition sanitizeWebLoginNext :: "string \<Rightarrow> string" where
  "sanitizeWebLoginNext next =
     (let n = trim_space next
      in if n = [] then ''/''
         else if \<not> has_prefix n ''/'' \<or> has_prefix n ''//'' then ''/''
         else if CHR 0x5C \<in> set n then ''/'' else n)"

text \<open>\<^verbatim>\<open>WebLoginHandler.Start\<close>; the provider's URL is absolute, so \<^verbatim>\<open>http.Redirect\<close> passes it on.\<close>

definition web_login_Start :: "api_env \<Rightarrow> api_run \<Rightarrow> request \<Rightarrow> 'a response" where
  "web_login_Start c u r =
     (case BuildWebLoginAuthorizeURL (ae_provider c) (ar_state u) of
        Inl err \<Rightarrow> PlainError (if err = AuthNoProvider then 503 else 500)
      | Inr (url, state) \<Rightarrow>
          RedirectTo url
            [site_cookie (\<not> ae_dev c) oauthStateCookieName state 600,
             site_cookie (\<not> ae_dev c) oauthNextCookieName (sanitizeWebLoginNext (rq_query r ''next'')) 600])"

definition session_cookie :: "api_env \<Rightarrow> string \<Rightarrow> set_cookie" where
  "session_cookie c token = site_cookie (\<not> ae_dev c) browserSessionCookieName token 28800"

definition web_login_handleCallback ::
  "api_env \<Rightarrow> api_run \<Rightarrow> request \<Rightarrow> string \<Rightarrow> string \<Rightarrow> api \<Rightarrow> 'a response \<times> api" where
  "web_login_handleCallback c u r state code s =
     (if \<not> hasMatchingOAuthStateCookie r state then (PlainError 400, s)
      else (case HandleWebLoginCallback (snd (ar_flow_fails u)) (ae_provider c) code (api_db s) of
        (Inl err, d) \<Rightarrow>
          (PlainError (if err = AuthInvalidCode then 400 else if err = AuthNoProvider then 503 else 502), set_db d s)
      | (Inr (user, student), d) \<Rightarrow>
          (case issueWebBrowserSession (ar_session u) (ar_now u 0) user student (ap_sessions s) of
             None \<Rightarrow> (PlainError 500, set_db d s)
           | Some (token, m) \<Rightarrow>
               (RedirectTo
                  (site_location (case cookie oauthNextCookieName r of None \<Rightarrow> ''/'' | Some v \<Rightarrow> sanitizeWebLoginNext v))
                  [session_cookie c token,
                   site_cookie (\<not> ae_dev c) oauthStateCookieName [] (- 1),
                   site_cookie (\<not> ae_dev c) oauthNextCookieName [] (- 1)],
                set_sessions m (set_db d s)))))"

definition oauth_callback :: "api_env \<Rightarrow> api_run \<Rightarrow> request \<Rightarrow> api \<Rightarrow> 'a response \<times> api" where
  "oauth_callback c u r s =
     (case HandleOAuthCallback (ar_flow_fails u) (ae_env c) (ae_provider c) (ar_now u 0) (ar_dbnow u 0)
             (rq_query r ''state'') (rq_query r ''code'') (api_db s) of
        (Inl err, d) \<Rightarrow> (PlainError (if err = AuthInvalidState then 400 else 502), set_db d s)
      | (Inr b, d) \<Rightarrow>
          (case issueBrowserSession (ar_session u) (ar_now u 1) (bi_user b) (bi_key b) (bi_student b) (ap_sessions s) of
             None \<Rightarrow> (PlainError 500, set_db d s)
           | Some (token, m) \<Rightarrow>
               (RedirectTo
                  (site_location (''/auth/confirm?student_id='' @ bi_student b @ ''&user_key_id='' @ int_text (bi_key b)))
                  [session_cookie c token],
                set_sessions m (set_db d s))))"

definition flow_status :: "flow_error \<Rightarrow> nat" where
  "flow_status err = (if err = AuthInvalidRequest \<or> err = AuthInvalidState then 400 else 500)"

text \<open>\<^verbatim>\<open>DeviceVerifyHandler.ServeHTTP\<close>: the callback of both flows, told apart by the state cookie.\<close>

definition device_verify :: "api_env \<Rightarrow> api_run \<Rightarrow> request \<Rightarrow> api \<Rightarrow> 'a response \<times> api" where
  "device_verify c u r s =
     (let state = trim_space (rq_query r ''state''); code = trim_space (rq_query r ''code'')
      in if code \<noteq> [] \<or> state \<noteq> [] then
           (if hasMatchingOAuthStateCookie r state then web_login_handleCallback c u r state code s
            else oauth_callback c u r s)
         else (let userCode = trim_space (rq_query r ''user_code'')
           in if userCode \<noteq> [] then
                (case BeginDeviceVerification (fst (ar_flow_fails u)) (ae_provider c) (ar_now u 0) userCode (api_db s) of
                   Inl err \<Rightarrow> (PlainError (flow_status err), s)
                 | Inr url \<Rightarrow> (RedirectTo url [], s))
              else (PlainError 400, s)))"

section \<open>Tickets\<close>

definition ticket_failure :: "ticket_error \<Rightarrow> 'a response" where
  "ticket_failure err =
     (case err of
        InvalidTicket \<Rightarrow> Failure 400 ''invalid_session_ticket''
      | InvalidRedirectPath \<Rightarrow> Failure 400 ''invalid_request''
      | SessionTicketLimitReached \<Rightarrow> Failure 429 ''session_ticket_limit_reached''
      | _ \<Rightarrow> internal_error)"

text \<open>\<^verbatim>\<open>CreateSessionTicket\<close>: the body is decoded before the request is authenticated.\<close>

definition CreateSessionTicket ::
  "api_env \<Rightarrow> api_run \<Rightarrow> (ticket_result \<Rightarrow> 'a) \<Rightarrow> request \<Rightarrow> api \<Rightarrow> 'a response \<times> api" where
  "CreateSessionTicket c u render r s =
     (case rq_body r of
        None \<Rightarrow> (Failure 400 ''invalid_request'', s)
      | Some body \<Rightarrow>
          (case (if body = [] then Some [[]] else ae_text c [''redirect_path''] body) of
             None \<Rightarrow> (Failure 400 ''invalid_request'', s)
           | Some fs \<Rightarrow>
               (case signed_user c u r body s of
                  (None, s') \<Rightarrow> (unauthorized, s')
                | (Some a, s') \<Rightarrow>
                    (case CreateTicket (ar_ticket_fails u) (ae_env c) defaultMaxOutstandingTickets (ar_now u 2) (ar_dbnow u 0)
                            (randomTicketToken (ar_ticket u))
                            \<lparr>ti_user = au_user a, ti_key = au_key a, ti_path = trim_space (concat (take 1 fs))\<rparr> (api_db s') of
                       (Inl err, d) \<Rightarrow> (ticket_failure err, set_db d s')
                     | (Inr res, d) \<Rightarrow> (Json 201 (render res), set_db d s')))))"

definition ticket_location :: "string \<Rightarrow> string" where
  "ticket_location path =
     (let l = (if blank path then ''/auth/confirm'' else path)
      in if l = ''/auth/confirm'' then ''/auth/confirm?mode=web-session'' else l)"

definition ExchangeSessionTicket :: "api_env \<Rightarrow> api_run \<Rightarrow> request \<Rightarrow> api \<Rightarrow> 'a response \<times> api" where
  "ExchangeSessionTicket c u r s =
     (case rq_form r of
        None \<Rightarrow> (Failure 400 ''invalid_request'', s)
      | Some form \<Rightarrow>
          (let ticket = trim_space (form ''ticket'')
           in if ticket = [] then (Failure 400 ''invalid_request'', s)
              else (case ConsumeTicket (ar_ticket_fails u) (ae_env c) (ar_dbnow u 0) ticket (api_db s) of
                (Inl err, d) \<Rightarrow> (ticket_failure err, set_db d s)
              | (Inr k, d) \<Rightarrow>
                  (case issueBrowserSession (ar_session u) (ar_now u 0) (co_user k) (co_key k) [] (ap_sessions s) of
                     None \<Rightarrow> (internal_error, set_db d s)
                   | Some (token, m) \<Rightarrow>
                       (RedirectTo (site_location (ticket_location (co_path k))) [session_cookie c token],
                        set_sessions m (set_db d s))))))"

section \<open>Redirects stay on the site\<close>

text \<open>
  Where a browser goes for a Location on this site: it drops tabs and line breaks, and a second slash or
  backslash would name another host.
\<close>

definition same_origin :: "string \<Rightarrow> bool" where
  "same_origin l =
     (case filter (\<lambda>c. c \<notin> {CHR 0x09, CHR 0x0A, CHR 0x0D}) l of
        a # b # _ \<Rightarrow> a = CHR ''/'' \<and> b \<noteq> CHR ''/'' \<and> b \<noteq> CHR 0x5C
      | [a] \<Rightarrow> a = CHR ''/''
      | [] \<Rightarrow> False)"

lemma cookie_bytes: "cookie n r = Some v \<Longrightarrow> list_all cookie_byte v"
  by (auto simp: cookie_def List.map_filter_def parseCookieValue_def Let_def dest!: map_of_SomeD split: if_splits)

lemma cookie_byte_D:
  "cookie_byte c \<Longrightarrow> c \<notin> {CHR 0x09, CHR 0x0A, CHR 0x0D, CHR 0x5C} \<and> escape_byte c = [c]"
  by (auto simp: cookie_byte_def escape_byte_def)

lemma sanitized_next:
  assumes "list_all cookie_byte v"
  obtains r where "sanitizeWebLoginNext v = CHR ''/'' # r" "r = [] \<or> hd r \<noteq> CHR ''/''" "list_all cookie_byte r"
proof (cases "trim_space v = [] \<or> \<not> has_prefix (trim_space v) ''/'' \<or> has_prefix (trim_space v) ''//'' \<or> CHR 0x5C \<in> set (trim_space v)")
  case True
  then have "sanitizeWebLoginNext v = ''/''" by (auto simp: sanitizeWebLoginNext_def Let_def)
  then show ?thesis by (intro that [of "[]"]) simp_all
next
  case False
  then obtain r where r: "trim_space v = CHR ''/'' # r" by (auto simp: has_prefix_append)
  with False have "sanitizeWebLoginNext v = CHR ''/'' # r" by (simp add: sanitizeWebLoginNext_def Let_def has_prefix_def)
  moreover have "r = [] \<or> hd r \<noteq> CHR ''/''" using False r by (cases r) (auto simp: has_prefix_append)
  moreover have "list_all cookie_byte r" using assms trim_space_set [of v] r by (auto simp: list_all_iff)
  ultimately show ?thesis by (rule that)
qed

lemma same_origin_plain:
  "list_all cookie_byte r \<Longrightarrow> r = [] \<or> hd r \<noteq> CHR ''/'' \<Longrightarrow> same_origin (CHR ''/'' # r)"
proof -
  assume r: "list_all cookie_byte r" "r = [] \<or> hd r \<noteq> CHR ''/''"
  then have "filter (\<lambda>c. c \<notin> {CHR 0x09, CHR 0x0A, CHR 0x0D}) r = r"
    using cookie_byte_D by (fastforce simp: list_all_iff filter_id_conv)
  with r cookie_byte_D show ?thesis by (cases r) (auto simp: same_origin_def)
qed

lemma escape_plain: "list_all cookie_byte r \<Longrightarrow> concat (map escape_byte r) = r"
  by (induction r) (auto dest: cookie_byte_D)

lemma clean_reference_rooted:
  assumes "list_all cookie_byte r"
  obtains t where "clean_reference (CHR ''/'' # r) = CHR ''/'' # t" "t = [] \<or> hd t \<noteq> CHR ''/''" "list_all cookie_byte t"
proof -
  define p where "p = CHR ''/'' # takeWhile (\<lambda>c. c \<noteq> CHR ''?'') r"
  define q where "q = dropWhile (\<lambda>c. c \<noteq> CHR ''?'') r"
  have u: "CHR ''/'' # r = p @ q" by (simp add: p_def q_def)
  have tw: "takeWhile (\<lambda>c. c \<noteq> CHR ''?'') (CHR ''/'' # r) = p" by (simp add: p_def)
  obtain t where t: "path_clean p = CHR ''/'' # t" "t = [] \<or> hd t \<noteq> CHR ''/''" "set t \<subseteq> set p \<union> {CHR ''.'', CHR ''/''}"
    using path_clean_rooted [of p] by (auto simp: p_def has_prefix_append)
  have q: "q = [] \<or> hd q = CHR ''?''" using hd_dropWhile [of "\<lambda>c. c \<noteq> CHR ''?''" r] by (auto simp: q_def)
  have rp: "set q \<subseteq> set r" "set p \<subseteq> insert (CHR ''/'') (set r)"
    by (auto simp: p_def q_def dest: set_takeWhileD set_dropWhileD)
  have cb: "cookie_byte (CHR ''.'')" "cookie_byte (CHR ''/'')" by (simp_all add: cookie_byte_def)
  have okq: "list_all cookie_byte q" using assms rp(1) by (auto simp: list_all_iff)
  have "set t \<subseteq> insert (CHR ''.'') (insert (CHR ''/'') (set r))" using t(3) rp(2) by blast
  then have okt: "list_all cookie_byte t" using assms cb unfolding list_all_iff by blast
  define t' where "t' = (if has_suffix p ''/'' \<and> \<not> has_suffix (CHR ''/'' # t) ''/'' then t @ ''/'' else t)"
  have "clean_reference (CHR ''/'' # r) = CHR ''/'' # t' @ q"
    unfolding clean_reference_def Let_def tw t(1) t'_def using u by (simp add: u)
  moreover have "t' @ q = [] \<or> hd (t' @ q) \<noteq> CHR ''/''"
  proof (cases t)
    case Nil
    then have "t' = []" by (simp add: t'_def has_suffix_def has_prefix_def)
    with q show ?thesis by auto
  next
    case (Cons a as)
    with t(2) show ?thesis by (simp add: t'_def)
  qed
  moreover have "list_all cookie_byte (t' @ q)" using okq okt cb by (simp add: t'_def)
  ultimately show thesis by (rule that)
qed

lemma next_same_origin: "list_all cookie_byte v \<Longrightarrow> same_origin (site_location (sanitizeWebLoginNext v))"
proof -
  assume "list_all cookie_byte v"
  then obtain r where r: "sanitizeWebLoginNext v = CHR ''/'' # r" "r = [] \<or> hd r \<noteq> CHR ''/''" "list_all cookie_byte r"
    by (rule sanitized_next)
  obtain t where t: "clean_reference (CHR ''/'' # r) = CHR ''/'' # t" "t = [] \<or> hd t \<noteq> CHR ''/''" "list_all cookie_byte t"
    using clean_reference_rooted [OF r(3)] by blast
  have sl: "escape_byte (CHR ''/'') = ''/''" by (simp add: escape_byte_def)
  have "site_location (sanitizeWebLoginNext v) = CHR ''/'' # (if url_parses (CHR ''/'' # r) then t else r)"
    unfolding site_location_def r(1) using t(1) by (simp add: escape_plain [OF t(3)] escape_plain [OF r(3)] sl)
  then show ?thesis using same_origin_plain r t by simp
qed

lemma sanitized_root [simp]: "sanitizeWebLoginNext [] = ''/''"
  by (simp add: sanitizeWebLoginNext_def)

text \<open>
  C0. The web login cannot be forged or misdirected: a session of the web login that serving the shared
  OAuth callback leaves behind was there before, or the state in the query, which is not blank, is the value of the
  state cookie that the browser holds, the session is bound to no key and belongs to the user of the student whom the provider
  named for the code, it ends eight hours after the clock, and the browser is sent to a page of this site.
\<close>

theorem web_login_safe:
  assumes "device_verify c u r s = (resp, s')" and "ap_sessions s' t = Some b" and "bs_source b = FromWeb"
  shows "ap_sessions s t = Some b \<or>
    (\<exists>v. cookie ''labkit_oauth_state'' r = Some v \<and> trim_space v = trim_space (rq_query r ''state'') \<and> trim_space v \<noteq> []) \<and>
    bs_key b = 0 \<and> bs_expires b = ar_now u 0 + 8 * hour \<and>
    (\<exists>prov student. ae_provider c = Some prov \<and> identify prov (trim_space (rq_query r ''code'')) = Inr student \<and>
       bs_student b = student \<and> (\<exists>x \<in> set (db_users (api_db s')). u_id x = bs_user b \<and> u_student x = student)) \<and>
    (\<exists>loc cks. resp = RedirectTo loc cks \<and> same_origin loc)"
proof (cases "ap_sessions s t = Some b")
  case False
  let ?state = "trim_space (rq_query r ''state'')" and ?code = "trim_space (rq_query r ''code'')"
  have no: "oauth_callback c u r s \<noteq> (resp, s')"
    using assms(2,3) False by (auto simp: oauth_callback_def issueBrowserSession_def issueBrowserSessionWithSource_def
        split: prod.splits sum.splits option.splits if_splits)
  then have m: "hasMatchingOAuthStateCookie r ?state" and cb: "web_login_handleCallback c u r ?state ?code s = (resp, s')"
    using assms False no by (auto simp: device_verify_def Let_def split: if_splits sum.splits)
  from cb m False assms(2) obtain user student d token mp where
    h: "HandleWebLoginCallback (snd (ar_flow_fails u)) (ae_provider c) ?code (api_db s) = (Inr (user, student), d)"
    and i: "issueWebBrowserSession (ar_session u) (ar_now u 0) user student (ap_sessions s) = Some (token, mp)"
    by (auto simp: web_login_handleCallback_def split: prod.splits sum.splits option.splits)
  from cb m h i have resp: "resp = RedirectTo
      (site_location (case cookie oauthNextCookieName r of None \<Rightarrow> ''/'' | Some v \<Rightarrow> sanitizeWebLoginNext v))
      [session_cookie c token, site_cookie (\<not> ae_dev c) oauthStateCookieName [] (- 1), site_cookie (\<not> ae_dev c) oauthNextCookieName [] (- 1)]"
    and s': "s' = set_sessions mp (set_db d s)"
    by (simp_all add: web_login_handleCallback_def)
  have b: "b = \<lparr>bs_user = user, bs_key = 0, bs_student = student, bs_source = FromWeb, bs_expires = ar_now u 0 + browserSessionTTL\<rparr>"
    using i False assms(2) s' by (auto simp: issueWebBrowserSession_def issueBrowserSessionWithSource_def split: option.splits if_splits)
  from h obtain prov st x where prov: "ae_provider c = Some prov" and st: "identify prov ?code = Inr st"
    and x: "UpsertUser st (api_db s) = Inr (x, d)" and xs: "user = u_id x" "student = u_student x"
    by (auto simp: HandleWebLoginCallback_def faulty_def split: if_splits option.splits sum.splits prod.splits)
  have "x \<in> set (db_users d) \<and> u_student x = st" using x by (cases rule: UpsertUser_cases) auto
  moreover have "same_origin (site_location (case cookie oauthNextCookieName r of None \<Rightarrow> ''/'' | Some v \<Rightarrow> sanitizeWebLoginNext v))"
    using next_same_origin [of "[]"]
    by (cases "cookie oauthNextCookieName r") (simp_all add: next_same_origin cookie_bytes)
  moreover have "\<exists>v. cookie ''labkit_oauth_state'' r = Some v \<and> trim_space v = trim_space (rq_query r ''state'') \<and> trim_space v \<noteq> []"
    using m by (auto simp: hasMatchingOAuthStateCookie_def oauthStateCookieName_def blank_def split: option.splits)
  ultimately show ?thesis using prov st xs b resp s' by (auto simp: browserSessionTTL_def)
qed simp

end
