(* ===== verification/Http_Api.thy ===== *)
theory Http_Api
  imports Http_Session Grades
begin

text \<open>
  \<^verbatim>\<open>api/internal/http\<close>: the router, the guard of the administrator's routes, and one definition per handler
  around the services. \<open>api_serve\<close> is the server: a request, what decides its run, and the state give the
  response and the state after it. The messages of the error envelopes are left out; their status and code
  are kept.
\<close>

section \<open>Bodies\<close>

record v2_metric =
  v2_metric_id :: string
  v2_metric_name :: string
  v2_metric_sort :: string
  v2_metric_unit :: string

record v2_manifest =
  v2_lab :: lab_section
  v2_submit :: submit_section
  v2_timeout :: int
  v2_quota :: quota_section
  v2_metrics :: "v2_metric list"
  v2_rank_by :: string
  v2_pick :: bool
  v2_schedule :: schedule_section

record v2_lab_response =
  v2l_id :: string
  v2l_name :: string
  v2l_manifest :: v2_manifest
  v2l_updated :: time

definition toV2Manifest :: "manifest \<Rightarrow> v2_manifest" where
  "toV2Manifest m =
     \<lparr>v2_lab = (m_lab m)\<lparr>lab_tags := (case lab_tags (m_lab m) of None \<Rightarrow> None | Some ts \<Rightarrow> copy_slice ts)\<rparr>,
      v2_submit = (m_submit m)\<lparr>submit_files := copy_slice (slice_list (submit_files (m_submit m)))\<rparr>,
      v2_timeout = eval_timeout (m_eval m),
      v2_quota = (m_quota m)\<lparr>quota_free := copy_slice (slice_list (quota_free (m_quota m)))\<rparr>,
      v2_metrics = map (\<lambda>mt. \<lparr>v2_metric_id = metric_id mt, v2_metric_name = metric_name mt,
         v2_metric_sort = sort_text (metric_sort mt), v2_metric_unit = metric_unit mt\<rparr>) (m_metrics m),
      v2_rank_by = rank_by (m_board m), v2_pick = board_pick (m_board m), v2_schedule = m_schedule m\<rparr>"

definition toV2LabResponse :: "public_lab \<Rightarrow> v2_lab_response" where
  "toV2LabResponse l =
     \<lparr>v2l_id = pl_id l, v2l_name = pl_name l, v2l_manifest = toV2Manifest (pl_manifest l), v2l_updated = pl_updated l\<rparr>"

datatype body =
    BStatus
  | BDevice device_result
  | BPoll poll_result
  | BBind bind_result
  | BTicket ticket_result
  | BLab public_lab
  | BLabs "public_lab list"
  | BLabV2 v2_lab_response
  | BLabsV2 "v2_lab_response list"
  | BBoard board
  | BGrade grade_view
  | BGrades "grade_view list"
  | BPrecheck "quota_summary option" "(string \<times> time) option"
  | BSubmission submission
  | BHistory "history_item list" "quota_summary option"
  | BDetail submission_detail
  | BProfile user_profile
  | BLabProfile lab_profile
  | BKeys "key_view list"
  | BLabDetail string string manifest
  | BGradeStatus grade_status
  | BCounted string nat
  | BQueue string "job_view list"
  | BQuotaReset nat
  | BBonus bonus_result

section \<open>Errors of the services\<close>

fun submission_failure :: "intake_error \<Rightarrow> body response" where
  "submission_failure LabNotFound = Failure 404 ''lab_not_found''"
| "submission_failure MissingFiles = Failure 400 ''invalid_submission''"
| "submission_failure InvalidSubmission = Failure 400 ''invalid_submission''"
| "submission_failure SubmissionTooLarge = Failure 400 ''invalid_submission''"
| "submission_failure SigInvalid = Failure 401 ''invalid_signature''"
| "submission_failure ReplayedNonce = Failure 401 ''invalid_signature''"
| "submission_failure LabClosed = Failure 409 ''lab_closed''"
| "submission_failure (DailyQuotaExceeded daily used) = Failure 429 ''daily_quota_exceeded''"
| "submission_failure (WithDeleteError err) = submission_failure err"
| "submission_failure StaleTimestamp = internal_error"
| "submission_failure ManifestUndecodable = internal_error"
| "submission_failure ArchiveFailed = internal_error"
| "submission_failure PersistArtifactFailed = internal_error"
| "submission_failure (DbFailed err) = internal_error"

definition personal_failure :: "personal_error \<Rightarrow> body response" where
  "personal_failure err =
     (case err of
        PeLabNotFound \<Rightarrow> Failure 404 ''lab_not_found''
      | PeInvalidNickname \<Rightarrow> Failure 400 ''invalid_nickname''
      | PeInvalidTrack \<Rightarrow> Failure 400 ''invalid_track''
      | PeTrackSelectionDisabled \<Rightarrow> Failure 400 ''track_not_allowed''
      | _ \<Rightarrow> internal_error)"

definition history_failure :: "personal_error \<Rightarrow> body response" where
  "history_failure err =
     (if err = PeSubmissionNotFound then Failure 404 ''submission_not_found'' else personal_failure err)"

definition keys_failure :: "personal_error \<Rightarrow> body response" where
  "keys_failure err = (if err = PeLabNotFound then Failure 404 ''lab_not_found'' else internal_error)"

definition labs_failure :: "labs_error \<Rightarrow> body response" where
  "labs_failure err =
     (case err of
        LabsNotFound \<Rightarrow> Failure 404 ''lab_not_found''
      | LabsAlreadyExists \<Rightarrow> Failure 409 ''lab_already_exists''
      | LabsInvalidManifest p \<Rightarrow> Failure 400 ''invalid_manifest''
      | LabsStructuralUpdate \<Rightarrow> Failure 409 ''structural_update_rejected''
      | _ \<Rightarrow> internal_error)"

definition lab_v2_failure :: "labs_error \<Rightarrow> body response" where
  "lab_v2_failure err = (if err = LabsNotFound then Failure 404 ''lab_not_found'' else internal_error)"

definition board_failure :: "board_error \<Rightarrow> body response" where
  "board_failure err =
     (case err of
        BoardLabNotFound \<Rightarrow> Failure 404 ''lab_not_found''
      | BoardLabHidden \<Rightarrow> Failure 404 ''lab_hidden''
      | BoardMetricNotFound \<Rightarrow> Failure 400 ''invalid_metric''
      | BoardInvalidManifest \<Rightarrow> Failure 400 ''invalid_manifest''
      | _ \<Rightarrow> internal_error)"

definition admin_failure :: "admin_error \<Rightarrow> body response" where
  "admin_failure err =
     (case err of
        AdminLabNotFound \<Rightarrow> Failure 404 ''lab_not_found''
      | AdminInvalidManifest \<Rightarrow> Failure 400 ''invalid_manifest''
      | _ \<Rightarrow> internal_error)"

definition grade_failure :: "grade_error \<Rightarrow> body response" where
  "grade_failure err = (if err = GradeInvalidLab then Failure 400 ''invalid_request'' else internal_error)"

definition import_failure :: "grade_error \<Rightarrow> body response" where
  "import_failure err = (if err = GradeInvalidCSV then Failure 400 ''invalid_csv'' else grade_failure err)"

text \<open>Answers of a service: the value rendered, or the failure.\<close>

definition answer :: "nat \<Rightarrow> ('e \<Rightarrow> body response) \<Rightarrow> ('a \<Rightarrow> body) \<Rightarrow> 'e + 'a \<Rightarrow> body response" where
  "answer status failure render res = (case res of Inl err \<Rightarrow> failure err | Inr v \<Rightarrow> Json status (render v))"

definition answer_db ::
  "nat \<Rightarrow> ('e \<Rightarrow> body response) \<Rightarrow> ('a \<Rightarrow> body) \<Rightarrow> ('e + 'a) \<times> db \<Rightarrow> api \<Rightarrow> body response \<times> api" where
  "answer_db status failure render rd s = (answer status failure render (fst rd), set_db (snd rd) s)"

section \<open>Requests of students\<close>

definition plain_answer :: "nat \<Rightarrow> (flow_error \<Rightarrow> nat) \<Rightarrow> ('a \<Rightarrow> body) \<Rightarrow> flow_error + 'a \<Rightarrow> body response" where
  "plain_answer status code render res = answer status (\<lambda>err. PlainError (code err)) render res"

definition http_DeviceAuthorize :: "api_env \<Rightarrow> api_run \<Rightarrow> request \<Rightarrow> api \<Rightarrow> body response \<times> api" where
  "http_DeviceAuthorize c u r s =
     (case bindR (case rq_body r of None \<Rightarrow> Inl () | Some b \<Rightarrow> Inr b)
             (\<lambda>b. case ae_text c [''public_key'', ''device_name''] b of Some [pk, dn] \<Rightarrow> Inr (pk, dn) | _ \<Rightarrow> Inl ()) of
        Inl _ \<Rightarrow> (PlainError 400, s)
      | Inr (pk, dn) \<Rightarrow>
          (let (res, d) = CreateDeviceAuthorizationRequest (fst (ar_flow_fails u)) (ar_codes u) (ae_ttl c) (ar_now u 0) pk dn (api_db s)
           in (plain_answer 201 flow_status BDevice res, set_db d s)))"

definition http_DevicePoll :: "api_env \<Rightarrow> api_run \<Rightarrow> request \<Rightarrow> api \<Rightarrow> body response \<times> api" where
  "http_DevicePoll c u r s =
     (plain_answer 200 flow_status BPoll
        (PollDeviceAuthorizationRequest (ar_flow_fails u) (ar_now u 0) (rq_query r ''device_code'') (api_db s)), s)"

definition http_BindDevice :: "api_env \<Rightarrow> api_run \<Rightarrow> request \<Rightarrow> api \<Rightarrow> body response \<times> api" where
  "http_BindDevice c u r s =
     (case bindR (case rq_body r of None \<Rightarrow> Inl () | Some b \<Rightarrow> Inr b)
             (\<lambda>b. case ae_text c [''device_code'', ''student_id'', ''device_name''] b of
                Some [dc, sid, dn] \<Rightarrow> Inr (dc, sid, dn) | _ \<Rightarrow> Inl ()) of
        Inl _ \<Rightarrow> (PlainError 400, s)
      | Inr (dc, sid, dn) \<Rightarrow>
          (let (res, d) = DevBindDeviceAuthorizationRequest (ar_flow_fails u) (ae_env c) (ar_now u 0) (ar_dbnow u 0) dc sid dn (api_db s)
           in (plain_answer 200 flow_status BBind res, set_db d s)))"

text \<open>A body that cannot be decoded, at the place of the handler where it is decoded.\<close>

definition field_of :: "api_env \<Rightarrow> string \<Rightarrow> string \<Rightarrow> string option" where
  "field_of c k body = (case ae_text c [k] body of Some [v] \<Rightarrow> Some v | _ \<Rightarrow> None)"

definition invalid_body :: "body response" where "invalid_body = Failure 400 ''invalid_request''"

text \<open>\<open>UpdateProfile\<close>, \<open>UpdateNickname\<close> and \<open>UpdateTrack\<close>: read, authenticate, decode, update.\<close>

definition http_update ::
  "string \<Rightarrow> (int \<Rightarrow> string \<Rightarrow> db \<Rightarrow> (personal_error + 'a) \<times> db) \<Rightarrow> ('a \<Rightarrow> body) \<Rightarrow>
   api_env \<Rightarrow> api_run \<Rightarrow> request \<Rightarrow> api \<Rightarrow> body response \<times> api" where
  "http_update k update render c u r s =
     (case rq_body r of
        None \<Rightarrow> (invalid_body, s)
      | Some body \<Rightarrow>
          (case authenticateWritableRequest (ar_auth_fails u) (ae_env c) (ae_time c) (ar_now u 0) r body s of
             (Inl resp, s') \<Rightarrow> (resp, s')
           | (Inr a, s') \<Rightarrow>
               (case field_of c k body of
                  None \<Rightarrow> (invalid_body, s')
                | Some v \<Rightarrow> answer_db 200 personal_failure render (update (au_user a) (trim_space v) (api_db s')) s')))"

definition http_UpdateProfile :: "api_env \<Rightarrow> api_run \<Rightarrow> request \<Rightarrow> api \<Rightarrow> body response \<times> api" where
  "http_UpdateProfile c u r s = http_update ''nickname'' (UpdateUserProfile (ar_personal_fails u)) BProfile c u r s"

definition http_UpdateNickname :: "api_env \<Rightarrow> api_run \<Rightarrow> string \<Rightarrow> request \<Rightarrow> api \<Rightarrow> body response \<times> api" where
  "http_UpdateNickname c u lab r s =
     http_update ''nickname'' (\<lambda>user v. UpdateNickname (ar_personal_fails u) user lab v) BLabProfile c u r s"

definition http_UpdateTrack :: "api_env \<Rightarrow> api_run \<Rightarrow> string \<Rightarrow> request \<Rightarrow> api \<Rightarrow> body response \<times> api" where
  "http_UpdateTrack c u lab r s =
     http_update ''track'' (\<lambda>user v. UpdateTrack (ar_personal_fails u) user lab v) BLabProfile c u r s"

text \<open>Handlers that read on behalf of a browser session or of a signature.\<close>

definition http_read :: "api_env \<Rightarrow> api_run \<Rightarrow> (int \<Rightarrow> db \<Rightarrow> body response) \<Rightarrow> request \<Rightarrow> api \<Rightarrow> body response \<times> api" where
  "http_read c u f r s =
     (case authenticateBrowserSessionOrPersonalRequest (ar_auth_fails u) (ae_env c) (ae_time c) (ar_now u 0) r [] s of
        (None, s') \<Rightarrow> (unauthorized, s')
      | (Some a, s') \<Rightarrow> (f (au_user a) (api_db s'), s'))"

definition http_GetProfile :: "api_env \<Rightarrow> api_run \<Rightarrow> request \<Rightarrow> api \<Rightarrow> body response \<times> api" where
  "http_GetProfile c u r s =
     http_read c u (\<lambda>user d. answer 200 personal_failure BProfile (GetProfile (ar_personal_fails u) user d)) r s"

definition http_ListHistory :: "api_env \<Rightarrow> api_run \<Rightarrow> string \<Rightarrow> request \<Rightarrow> api \<Rightarrow> body response \<times> api" where
  "http_ListHistory c u lab r s =
     http_read c u (\<lambda>user d. answer 200 history_failure (\<lambda>(items, q). BHistory items q)
        (ListSubmissionHistory (ar_personal_fails u) (ar_now u 2) (ae_loc c) user lab d)) r s"

definition http_GetSubmissionDetail :: "api_env \<Rightarrow> api_run \<Rightarrow> string \<Rightarrow> string \<Rightarrow> request \<Rightarrow> api \<Rightarrow> body response \<times> api" where
  "http_GetSubmissionDetail c u lab subID r s =
     http_read c u (\<lambda>user d.
        case ae_uuid c (trim_space subID) of
          None \<Rightarrow> invalid_body
        | Some i \<Rightarrow> answer 200 history_failure BDetail
            (GetSubmissionDetail (ar_personal_fails u) (ar_now u 2) (ae_loc c) user lab i d)) r s"

definition http_ListKeys :: "api_env \<Rightarrow> api_run \<Rightarrow> request \<Rightarrow> api \<Rightarrow> body response \<times> api" where
  "http_ListKeys c u r s =
     http_read c u (\<lambda>user d. answer 200 keys_failure BKeys (ListKeys (ar_personal_fails u) user d)) r s"

definition http_RevokeKey :: "api_env \<Rightarrow> api_run \<Rightarrow> string \<Rightarrow> request \<Rightarrow> api \<Rightarrow> body response \<times> api" where
  "http_RevokeKey c u keyID r s =
     (case signed_user c u r [] s of
        (None, s') \<Rightarrow> (unauthorized, s')
      | (Some a, s') \<Rightarrow>
          (case go_atoi (trim_space keyID) of
             None \<Rightarrow> (invalid_body, s')
           | Some k \<Rightarrow>
               (case RevokeKey (ar_personal_fails u) (ar_dbnow u 0) (au_user a) k (api_db s') of
                  (Inl err, d) \<Rightarrow> (keys_failure err, set_db d s')
                | (Inr _, d) \<Rightarrow> (NoContent, set_db d s'))))"

text \<open>The board takes a session, or a signature if there is a fingerprint, or nobody.\<close>

definition http_GetBoard :: "api_env \<Rightarrow> api_run \<Rightarrow> string \<Rightarrow> request \<Rightarrow> api \<Rightarrow> body response \<times> api" where
  "http_GetBoard c u lab r s =
     (let board = (\<lambda>viewer d. answer 200 board_failure BBoard
            (GetBoard (ar_board_fails u) (ar_now u 2) (ar_now u 3) (ae_loc c) lab (rq_query r ''by'') viewer d))
      in case authenticateBrowserSessionRequest (ar_now u 0) r s of
           (Some a, s') \<Rightarrow> (board (au_user a) (api_db s'), s')
         | (None, s') \<Rightarrow>
             (if blank (rq_header r h_fingerprint) then (board 0 (api_db s'), s')
              else (case signed_user c u r [] s' of
                      (None, s2) \<Rightarrow> (unauthorized, s2)
                    | (Some a, s2) \<Rightarrow> (board (au_user a) (api_db s2), s2))))"

section \<open>Submissions\<close>

definition http_CreateSubmission :: "api_env \<Rightarrow> api_run \<Rightarrow> string \<Rightarrow> request \<Rightarrow> api \<Rightarrow> body response \<times> api" where
  "http_CreateSubmission c u lab r s =
     (case ae_upload c r of
        None \<Rightarrow> (Failure 400 ''invalid_submission'', s)
      | Some entries \<Rightarrow>
     (case signed_headers (ae_time c) r of
        Inl _ \<Rightarrow> (Failure 400 ''invalid_submission'', s)
      | Inr (fp, t, nonce, sig) \<Rightarrow>
     (case those entries of
        None \<Rightarrow> (Failure 400 ''invalid_submission'', s)
      | Some files \<Rightarrow>
          (let (res, w) = Intake (ae_env c) (ar_intake_fails u) (ar_intake u) (ae_loc c)
                 \<lparr>in_lab = lab, in_fingerprint = fp, in_timestamp = t, in_nonce = nonce, in_signature = sig, in_files = files\<rparr>
                 (ap_world s)
           in (answer 201 submission_failure BSubmission res, s\<lparr>ap_world := w\<rparr>)))))"

definition http_GetSubmitPrecheck :: "api_env \<Rightarrow> api_run \<Rightarrow> string \<Rightarrow> request \<Rightarrow> api \<Rightarrow> body response \<times> api" where
  "http_GetSubmitPrecheck c u lab r s =
     (case signed_user c u r [] s of
        (None, s') \<Rightarrow> (unauthorized, s')
      | (Some a, s') \<Rightarrow>
          (answer 200 submission_failure (\<lambda>(q, l). BPrecheck q l)
             (GetSubmitPrecheck (ar_precheck_fails u) (ar_now u 2) (ae_loc c) (au_user a) lab (api_db s')), s'))"

section \<open>Labs and grades\<close>

definition http_ListLabs :: "api_env \<Rightarrow> api_run \<Rightarrow> request \<Rightarrow> api \<Rightarrow> body response \<times> api" where
  "http_ListLabs c u r s =
     (answer 200 labs_failure BLabs (ListPublicLabs (ar_labs_fails u) (ar_now u 0) (api_db s)), s)"

definition http_GetLab :: "api_env \<Rightarrow> api_run \<Rightarrow> string \<Rightarrow> request \<Rightarrow> api \<Rightarrow> body response \<times> api" where
  "http_GetLab c u lab r s =
     (answer 200 labs_failure BLab (GetPublicLab (ar_labs_fails u) (ar_now u 0) lab (api_db s)), s)"

definition http_v2_ListLabs :: "api_env \<Rightarrow> api_run \<Rightarrow> request \<Rightarrow> api \<Rightarrow> body response \<times> api" where
  "http_v2_ListLabs c u r s =
     (answer 200 (\<lambda>_. internal_error) (\<lambda>ls. BLabsV2 (map toV2LabResponse ls))
        (ListPublicLabs (ar_labs_fails u) (ar_now u 0) (api_db s)), s)"

definition http_v2_GetLab :: "api_env \<Rightarrow> api_run \<Rightarrow> string \<Rightarrow> request \<Rightarrow> api \<Rightarrow> body response \<times> api" where
  "http_v2_GetLab c u lab r s =
     (answer 200 lab_v2_failure (\<lambda>l. BLabV2 (toV2LabResponse l)) (GetPublicLab (ar_labs_fails u) (ar_now u 0) lab (api_db s)), s)"

text \<open>\<^verbatim>\<open>resolveStudentID\<close>: a live session decides alone, even where it leads to no student id.\<close>

definition student_of :: "api_run \<Rightarrow> int \<Rightarrow> api \<Rightarrow> personal_error + string" where
  "student_of u user s =
     bindR (GetProfile (ar_personal_fails u) user (api_db s)) (\<lambda>p. Inr (trim_space (up_student p)))"

definition resolveStudentID :: "api_env \<Rightarrow> api_run \<Rightarrow> request \<Rightarrow> api \<Rightarrow> (body response + string) \<times> api" where
  "resolveStudentID c u r s =
     (case browserSessionFromRequest (ar_now u 0) r (ap_sessions s) of
        (Some b, m) \<Rightarrow>
          (let s' = set_sessions m s; sid = trim_space (bs_student b)
           in (if sid \<noteq> [] then Inr sid
               else (case student_of u (bs_user b) s' of
                       Inr x \<Rightarrow> if x \<noteq> [] then Inr x else Inl unauthorized
                     | Inl _ \<Rightarrow> Inl unauthorized), s'))
      | (None, m) \<Rightarrow>
          (let s' = set_sessions m s
           in case rq_body r of
                None \<Rightarrow> (Inl invalid_body, s')
              | Some body \<Rightarrow>
                  (case signed_user c u r body s' of
                     (None, s2) \<Rightarrow> (Inl unauthorized, s2)
                   | (Some a, s2) \<Rightarrow>
                       (case student_of u (au_user a) s2 of
                          Inl _ \<Rightarrow> Inl internal_error
                        | Inr sid \<Rightarrow> if sid = [] then Inl unauthorized else Inr sid, s2))))"

definition http_GetMyGrade :: "api_env \<Rightarrow> api_run \<Rightarrow> string \<Rightarrow> request \<Rightarrow> api \<Rightarrow> body response \<times> api" where
  "http_GetMyGrade c u lab r s =
     (case resolveStudentID c u r s of
        (Inl resp, s') \<Rightarrow> (resp, s')
      | (Inr sid, s') \<Rightarrow>
          (answer 200 (\<lambda>err. if err = GradeNotFound then Failure 404 ''grade_not_found'' else internal_error) BGrade
             (GetGrade (ar_grade_fails u) (ar_dbnow u 0) lab sid (api_db s')), s'))"

definition http_ListMyGrades :: "api_env \<Rightarrow> api_run \<Rightarrow> request \<Rightarrow> api \<Rightarrow> body response \<times> api" where
  "http_ListMyGrades c u r s =
     (case resolveStudentID c u r s of
        (Inl resp, s') \<Rightarrow> (resp, s')
      | (Inr sid, s') \<Rightarrow>
          (answer 200 (\<lambda>_. internal_error) BGrades (ListGrades (ar_grade_fails u) (ar_dbnow u 0) sid (api_db s')), s'))"

section \<open>Requests of the administrator\<close>

definition maxGradeCSVBytes :: nat where "maxGradeCSVBytes = 8388608"

definition http_RegisterLab :: "api_env \<Rightarrow> api_run \<Rightarrow> request \<Rightarrow> api \<Rightarrow> body response \<times> api" where
  "http_RegisterLab c u r s =
     (case rq_body r of
        None \<Rightarrow> (Failure 400 ''invalid_manifest'', s)
      | Some raw \<Rightarrow> answer_db 201 labs_failure BLab (RegisterLab (ar_labs_fails u) (ae_codec c) (ar_dbnow u 0) raw (api_db s)) s)"

definition http_UpdateLab :: "api_env \<Rightarrow> api_run \<Rightarrow> string \<Rightarrow> request \<Rightarrow> api \<Rightarrow> body response \<times> api" where
  "http_UpdateLab c u lab r s =
     (case rq_body r of
        None \<Rightarrow> (Failure 400 ''invalid_manifest'', s)
      | Some raw \<Rightarrow> answer_db 200 labs_failure BLab (UpdateLab (ar_labs_fails u) (ae_codec c) (ar_dbnow u 0) lab raw (api_db s)) s)"

definition http_GetLabDetail :: "api_env \<Rightarrow> api_run \<Rightarrow> string \<Rightarrow> request \<Rightarrow> api \<Rightarrow> body response \<times> api" where
  "http_GetLabDetail c u lab r s =
     (answer 200 admin_failure (\<lambda>(i, n, m). BLabDetail i n m) (admin_GetLab (ar_admin_fails u) lab (api_db s)), s)"

definition http_ExportGrades :: "api_env \<Rightarrow> api_run \<Rightarrow> string \<Rightarrow> request \<Rightarrow> api \<Rightarrow> body response \<times> api" where
  "http_ExportGrades c u lab r s =
     (case ExportGrades (ar_admin_fails u) (ae_float_text c) lab (api_db s) of
        Inl err \<Rightarrow> admin_failure err
      | Inr x \<Rightarrow> CsvFile (trim_space (ex_filename x)) (export_csv x), s)"

definition http_GradeStatus :: "api_env \<Rightarrow> api_run \<Rightarrow> string \<Rightarrow> request \<Rightarrow> api \<Rightarrow> body response \<times> api" where
  "http_GradeStatus c u lab r s =
     (answer 200 grade_failure BGradeStatus (GradeStatus (ar_grade_fails u) lab (api_db s)), s)"

definition http_DeleteGrades :: "api_env \<Rightarrow> api_run \<Rightarrow> string \<Rightarrow> request \<Rightarrow> api \<Rightarrow> body response \<times> api" where
  "http_DeleteGrades c u lab r s =
     answer_db 200 grade_failure (\<lambda>(l, n). BCounted l n) (DeleteGrades (ar_grade_fails u) lab (api_db s)) s"

text \<open>The CSV is cut off after 8 MiB.\<close>

definition http_ImportGrades :: "api_env \<Rightarrow> api_run \<Rightarrow> string \<Rightarrow> request \<Rightarrow> api \<Rightarrow> body response \<times> api" where
  "http_ImportGrades c u lab r s =
     (case ae_csv c r of
        None \<Rightarrow> (invalid_body, s)
      | Some text \<Rightarrow>
          answer_db 200 import_failure (\<lambda>(l, n). BCounted l n)
            (ImportGrades (ar_import_fails u) (ar_dbnow u) lab (take maxGradeCSVBytes text) (api_db s)) s)"

definition http_PublishGrades :: "api_env \<Rightarrow> api_run \<Rightarrow> string \<Rightarrow> request \<Rightarrow> api \<Rightarrow> body response \<times> api" where
  "http_PublishGrades c u lab r s =
     answer_db 200 grade_failure (\<lambda>(l, n). BCounted l n) (PublishGrades (ar_grade_fails u) (ar_dbnow u 0) lab (api_db s)) s"

definition http_Reevaluate :: "api_env \<Rightarrow> api_run \<Rightarrow> string \<Rightarrow> request \<Rightarrow> api \<Rightarrow> body response \<times> api" where
  "http_Reevaluate c u lab r s =
     answer_db 202 admin_failure (\<lambda>(l, n). BCounted l n) (Reevaluate (ar_admin_fails u) (ar_dbnow u 0) lab (api_db s)) s"

definition http_GetQueueStatus :: "api_env \<Rightarrow> api_run \<Rightarrow> string \<Rightarrow> request \<Rightarrow> api \<Rightarrow> body response \<times> api" where
  "http_GetQueueStatus c u lab r s =
     (answer 200 admin_failure (\<lambda>(l, js). BQueue l js) (QueueStatus (ar_admin_fails u) lab (api_db s)), s)"

definition http_ResetLabQuota :: "api_env \<Rightarrow> api_run \<Rightarrow> string \<Rightarrow> request \<Rightarrow> api \<Rightarrow> body response \<times> api" where
  "http_ResetLabQuota c u lab r s =
     answer_db 200 admin_failure BQuotaReset (ResetLabQuota (ar_admin_fails u) (ar_now u 0) (ae_loc c) lab (api_db s)) s"

definition http_AdjustBonusQuota :: "api_env \<Rightarrow> api_run \<Rightarrow> string \<Rightarrow> request \<Rightarrow> api \<Rightarrow> body response \<times> api" where
  "http_AdjustBonusQuota c u lab r s =
     (case bindR (case rq_body r of None \<Rightarrow> Inl () | Some b \<Rightarrow> Inr b)
             (\<lambda>b. case ae_delta c b of None \<Rightarrow> Inl () | Some v \<Rightarrow> Inr v) of
        Inl _ \<Rightarrow> (Failure 400 ''invalid_request_body'', s)
      | Inr (delta, dry) \<Rightarrow>
          (if delta = 0 then (Failure 400 ''invalid_delta'', s)
           else answer_db 200 admin_failure BBonus
                  (AdjustBonusQuota (ar_admin_fails u) (ar_dbnow u 0) lab delta dry (api_db s)) s))"

text \<open>A body that does not decode counts as one without the flag.\<close>

definition http_ResetBonusQuota :: "api_env \<Rightarrow> api_run \<Rightarrow> string \<Rightarrow> request \<Rightarrow> api \<Rightarrow> body response \<times> api" where
  "http_ResetBonusQuota c u lab r s =
     answer_db 200 admin_failure BBonus
       (ResetBonusQuota (ar_admin_fails u) (ar_dbnow u 0) lab
          (case rq_body r of None \<Rightarrow> False | Some b \<Rightarrow> ae_dry_run c b) (api_db s)) s"

section \<open>The guard of the administrator's routes\<close>

definition bearer_token :: "request \<Rightarrow> string option" where
  "bearer_token r =
     (let h = trim_space (rq_header r ''Authorization''); scheme = takeWhile (\<lambda>c. c \<noteq> CHR '' '') h
      in if CHR '' '' \<in> set h \<and> equal_fold scheme ''Bearer'' then Some (drop (length scheme + 1) h) else None)"

definition adminAuthMiddleware ::
  "string \<Rightarrow> (request \<Rightarrow> api \<Rightarrow> body response \<times> api) \<Rightarrow> request \<Rightarrow> api \<Rightarrow> body response \<times> api" where
  "adminAuthMiddleware token handler r s =
     (if blank token then (unauthorized, s)
      else if bearer_token r \<noteq> Some token then (unauthorized, s)
      else handler r s)"

section \<open>Routing\<close>

datatype admin_action =
    AoRegister | AoUpdate | AoDetail | AoExport | AoStatus | AoDelete | AoImport | AoPublish
  | AoReeval | AoQueue | AoResetQuota | AoBonus | AoBonusReset

datatype endpoint =
    EpHealth | EpAuthorize | EpPoll | EpVerify | EpLogin | EpTicket | EpShell | EpExchange | EpDevBind
  | EpLabs | EpLab | EpBoard | EpGrades | EpGrade | EpPrecheck | EpSubmit | EpHistory | EpDetail
  | EpProfile | EpUpdateProfile | EpNickname | EpTrack | EpKeys | EpRevoke | EpAdmin admin_action
  | EpLabsV2 | EpLabV2

definition auth_routes :: "(string \<times> string \<times> endpoint) list" where
  "auth_routes =
     [(''POST'', ''/api/device/authorize'', EpAuthorize), (''POST'', ''/api/device/poll'', EpPoll),
      (''GET'', ''/api/device/verify'', EpVerify), (''GET'', ''/api/auth/login'', EpLogin),
      (''POST'', ''/api/web/session-ticket'', EpTicket), (''GET'', ''/auth/session'', EpShell),
      (''POST'', ''/auth/session/exchange'', EpExchange)]"

definition v1_routes :: "string \<Rightarrow> (string \<times> string \<times> endpoint) list" where
  "v1_routes p =
     [(''GET'', p @ ''/labs'', EpLabs), (''GET'', p @ ''/labs/{labID}'', EpLab),
      (''GET'', p @ ''/labs/{labID}/board'', EpBoard), (''GET'', p @ ''/grades'', EpGrades),
      (''GET'', p @ ''/labs/{labID}/grade'', EpGrade), (''GET'', p @ ''/labs/{labID}/submit/precheck'', EpPrecheck),
      (''POST'', p @ ''/labs/{labID}/submit'', EpSubmit), (''POST'', p @ ''/labs/{labID}/submissions'', EpSubmit),
      (''GET'', p @ ''/labs/{labID}/history'', EpHistory),
      (''GET'', p @ ''/labs/{labID}/submissions/{submissionID}'', EpDetail),
      (''GET'', p @ ''/profile'', EpProfile), (''PUT'', p @ ''/profile'', EpUpdateProfile),
      (''PUT'', p @ ''/labs/{labID}/nickname'', EpNickname), (''PUT'', p @ ''/labs/{labID}/track'', EpTrack),
      (''GET'', p @ ''/keys'', EpKeys), (''DELETE'', p @ ''/keys/{keyID}'', EpRevoke),
      (''POST'', p @ ''/admin/labs'', EpAdmin AoRegister), (''PUT'', p @ ''/admin/labs/{labID}'', EpAdmin AoUpdate),
      (''GET'', p @ ''/admin/labs/{labID}'', EpAdmin AoDetail),
      (''GET'', p @ ''/admin/labs/{labID}/grades'', EpAdmin AoExport),
      (''GET'', p @ ''/admin/labs/{labID}/grades/status'', EpAdmin AoStatus),
      (''DELETE'', p @ ''/admin/labs/{labID}/grades'', EpAdmin AoDelete),
      (''POST'', p @ ''/admin/labs/{labID}/grades/import'', EpAdmin AoImport),
      (''POST'', p @ ''/admin/labs/{labID}/grades/publish'', EpAdmin AoPublish),
      (''POST'', p @ ''/admin/labs/{labID}/reeval'', EpAdmin AoReeval),
      (''GET'', p @ ''/admin/labs/{labID}/queue'', EpAdmin AoQueue),
      (''POST'', p @ ''/admin/labs/{labID}/quota/reset'', EpAdmin AoResetQuota),
      (''POST'', p @ ''/admin/labs/{labID}/quota/bonus'', EpAdmin AoBonus),
      (''POST'', p @ ''/admin/labs/{labID}/quota/bonus/reset'', EpAdmin AoBonusReset)]"

definition routes :: "bool \<Rightarrow> (string \<times> string \<times> endpoint) list" where
  "routes dev =
     (''GET'', ''/healthz'', EpHealth) # auth_routes
     @ (if dev then [(''POST'', ''/api/dev/device/bind'', EpDevBind)] else [])
     @ v1_routes ''/api'' @ v1_routes ''/api/v1''
     @ [(''GET'', ''/api/v2/labs'', EpLabsV2), (''GET'', ''/api/v2/labs/{labID}'', EpLabV2)]"

text \<open>\<^verbatim>\<open>http.ServeMux\<close>: a wildcard takes one segment that is not empty; a GET pattern serves HEAD too.\<close>

fun match_segments :: "string list \<Rightarrow> string list \<Rightarrow> string list option" where
  "match_segments [] [] = Some []"
| "match_segments (p # ps) (w # ws) =
     (if has_prefix p ''{'' then (if w = [] then None else map_option (Cons w) (match_segments ps ws))
      else if p = w then match_segments ps ws else None)"
| "match_segments _ _ = None"

definition match_path :: "string \<Rightarrow> string \<Rightarrow> string list option" where
  "match_path pattern path =
     match_segments (split_on (CHR ''/'') pattern) (map path_unescape (split_on (CHR ''/'') path))"

definition method_matches :: "string \<Rightarrow> string \<Rightarrow> bool" where
  "method_matches pm m \<longleftrightarrow> pm = m \<or> pm = ''GET'' \<and> m = ''HEAD''"

fun find_route :: "(string \<times> string \<times> endpoint) list \<Rightarrow> string \<Rightarrow> string \<Rightarrow> (endpoint \<times> string list) option" where
  "find_route [] m path = None"
| "find_route ((pm, p, ep) # rs) m path =
     (case (if method_matches pm m then match_path p path else None) of
        None \<Rightarrow> find_route rs m path
      | Some vs \<Rightarrow> Some (ep, vs))"

definition mux_clean :: "string \<Rightarrow> string" where
  "mux_clean p =
     (if p = [] then ''/''
      else (let q = (if has_prefix p ''/'' then p else ''/'' @ p); c = path_clean q
            in if has_suffix q ''/'' \<and> c \<noteq> ''/'' then c @ ''/'' else c))"

definition path_value :: "nat \<Rightarrow> string list \<Rightarrow> string" where
  "path_value i vs = (if i < length vs then vs ! i else [])"

section \<open>The server\<close>

fun serve_admin :: "admin_action \<Rightarrow> api_env \<Rightarrow> api_run \<Rightarrow> string \<Rightarrow> request \<Rightarrow> api \<Rightarrow> body response \<times> api" where
  "serve_admin AoRegister c u lab = http_RegisterLab c u"
| "serve_admin AoUpdate c u lab = http_UpdateLab c u lab"
| "serve_admin AoDetail c u lab = http_GetLabDetail c u lab"
| "serve_admin AoExport c u lab = http_ExportGrades c u lab"
| "serve_admin AoStatus c u lab = http_GradeStatus c u lab"
| "serve_admin AoDelete c u lab = http_DeleteGrades c u lab"
| "serve_admin AoImport c u lab = http_ImportGrades c u lab"
| "serve_admin AoPublish c u lab = http_PublishGrades c u lab"
| "serve_admin AoReeval c u lab = http_Reevaluate c u lab"
| "serve_admin AoQueue c u lab = http_GetQueueStatus c u lab"
| "serve_admin AoResetQuota c u lab = http_ResetLabQuota c u lab"
| "serve_admin AoBonus c u lab = http_AdjustBonusQuota c u lab"
| "serve_admin AoBonusReset c u lab = http_ResetBonusQuota c u lab"

fun serve_endpoint :: "endpoint \<Rightarrow> api_env \<Rightarrow> api_run \<Rightarrow> string list \<Rightarrow> request \<Rightarrow> api \<Rightarrow> body response \<times> api" where
  "serve_endpoint EpHealth c u vs r s = (Json 200 BStatus, s)"
| "serve_endpoint EpAuthorize c u vs r s = http_DeviceAuthorize c u r s"
| "serve_endpoint EpPoll c u vs r s = http_DevicePoll c u r s"
| "serve_endpoint EpVerify c u vs r s = device_verify c u r s"
| "serve_endpoint EpLogin c u vs r s = (web_login_Start c u r, s)"
| "serve_endpoint EpTicket c u vs r s = CreateSessionTicket c u BTicket r s"
| "serve_endpoint EpShell c u vs r s = (Page, s)"
| "serve_endpoint EpExchange c u vs r s = ExchangeSessionTicket c u r s"
| "serve_endpoint EpDevBind c u vs r s = http_BindDevice c u r s"
| "serve_endpoint EpLabs c u vs r s = http_ListLabs c u r s"
| "serve_endpoint EpLab c u vs r s = http_GetLab c u (path_value 0 vs) r s"
| "serve_endpoint EpBoard c u vs r s = http_GetBoard c u (path_value 0 vs) r s"
| "serve_endpoint EpGrades c u vs r s = http_ListMyGrades c u r s"
| "serve_endpoint EpGrade c u vs r s = http_GetMyGrade c u (path_value 0 vs) r s"
| "serve_endpoint EpPrecheck c u vs r s = http_GetSubmitPrecheck c u (path_value 0 vs) r s"
| "serve_endpoint EpSubmit c u vs r s = http_CreateSubmission c u (path_value 0 vs) r s"
| "serve_endpoint EpHistory c u vs r s = http_ListHistory c u (path_value 0 vs) r s"
| "serve_endpoint EpDetail c u vs r s = http_GetSubmissionDetail c u (path_value 0 vs) (path_value 1 vs) r s"
| "serve_endpoint EpProfile c u vs r s = http_GetProfile c u r s"
| "serve_endpoint EpUpdateProfile c u vs r s = http_UpdateProfile c u r s"
| "serve_endpoint EpNickname c u vs r s = http_UpdateNickname c u (path_value 0 vs) r s"
| "serve_endpoint EpTrack c u vs r s = http_UpdateTrack c u (path_value 0 vs) r s"
| "serve_endpoint EpKeys c u vs r s = http_ListKeys c u r s"
| "serve_endpoint EpRevoke c u vs r s = http_RevokeKey c u (path_value 0 vs) r s"
| "serve_endpoint (EpAdmin a) c u vs r s =
     adminAuthMiddleware (ae_admin_token c) (serve_admin a c u (path_value 0 vs)) r s"
| "serve_endpoint EpLabsV2 c u vs r s = http_v2_ListLabs c u r s"
| "serve_endpoint EpLabV2 c u vs r s = http_v2_GetLab c u (path_value 0 vs) r s"

definition known_path :: "(string \<times> string \<times> endpoint) list \<Rightarrow> string \<Rightarrow> bool" where
  "known_path rs path \<longleftrightarrow> list_ex (\<lambda>(pm, p, ep). match_path p path \<noteq> None) rs"

text \<open>The router: unclean paths are redirected, then the pattern decides; 405 where only the method is wrong.\<close>

definition api_serve :: "api_env \<Rightarrow> api_run \<Rightarrow> request \<Rightarrow> api \<Rightarrow> body response \<times> api" where
  "api_serve c u r s =
     (let path = rq_escaped r; rs = routes (ae_dev c)
      in if mux_clean path \<noteq> path then (Moved (mux_clean path), s)
         else (case find_route rs (rq_method r) path of
                 Some (ep, vs) \<Rightarrow> serve_endpoint ep c u vs r s
               | None \<Rightarrow> (if known_path rs path then Failure 405 ''method_not_allowed'' else Failure 404 ''not_found'', s)))"

section \<open>Errors that answer 500\<close>

text \<open>
  The intake passes the lookup's error on as it is, so the case of the handler for a missing key is never
  taken; and there is no case for an expired timestamp.
\<close>

lemma unknown_key_is_server_error:
  assumes "ae_upload c r = Some entries" and "those entries = Some files"
    and "signed_headers (ae_time c) r = Inr (fp, t, nonce, sig)"
    and "GetLab lab (api_db s) = Inr row" and "l_manifest row = Some m" and "labOpen (m_schedule m) (it_open (ar_intake u))"
    and "validateFiles (ae_env c) (slice_list (submit_files (m_submit m))) (max_size (m_submit m)) files = Inr ()"
    and "repo_GetUserKeyByFingerprint (ae_env c) fp (api_db s) = (Inl NoRows, d1)"
    and "ar_intake_fails u = \<lparr>if_call = (\<lambda>_. False), if_left = None\<rparr>"
  shows "fst (http_CreateSubmission c u lab r s) = Failure 500 ''internal_server_error''"
  using assms
  by (simp add: http_CreateSubmission_def Intake_def intake_checks_def api_db_def answer_def internal_error_def Let_def
      split: prod.split)

lemma stale_timestamp_is_server_error:
  assumes "Intake (ae_env c) (ar_intake_fails u) (ar_intake u) (ae_loc c)
      \<lparr>in_lab = lab, in_fingerprint = fp, in_timestamp = t, in_nonce = nonce, in_signature = sig, in_files = files\<rparr>
      (ap_world s) = (Inl StaleTimestamp, w)"
    and "ae_upload c r = Some entries" and "those entries = Some files"
    and "signed_headers (ae_time c) r = Inr (fp, t, nonce, sig)"
  shows "fst (http_CreateSubmission c u lab r s) = Failure 500 ''internal_server_error''"
  using assms by (simp add: http_CreateSubmission_def answer_def internal_error_def)

section \<open>A concrete server\<close>

definition demo_server :: api_env where
  "demo_server =
     \<lparr>ae_env = demo_env, ae_time = (\<lambda>s. if s = ''1970-01-01T00:00:00Z'' then Some (719162 * day) else None),
      ae_text = (\<lambda>ks b. if length ks = 1 then Some [b] else None), ae_delta = (\<lambda>b. Some (1, False)),
      ae_dry_run = (\<lambda>b. False), ae_uuid = (\<lambda>s. None), ae_upload = (\<lambda>r. Some [Some (''a.c'', ''int x;'')]),
      ae_csv = rq_body, ae_float_text = (\<lambda>_. ''1''),
      ae_codec = \<lparr>lc_toml = (\<lambda>_. None), lc_json = (\<lambda>_. None), lc_marshals = (\<lambda>_. True), lc_stored = (\<lambda>m. Inr (Some m))\<rparr>,
      ae_loc = fixed_zone ''UTC'' 0, ae_provider = None, ae_ttl = 0, ae_admin_token = ''secret'', ae_dev = False\<rparr>"

definition demo_run :: "time \<Rightarrow> api_run" where
  "demo_run t =
     \<lparr>ar_now = (\<lambda>_. t), ar_dbnow = (\<lambda>_. t), ar_session = Some [1, 2, 3], ar_ticket = Some [4, 5, 6], ar_state = Some ''st'',
      ar_codes = \<lparr>dc_device = Some ''dc'', dc_user = Some ''uc'', dc_state = Some ''st''\<rparr>,
      ar_intake = \<lparr>it_open = t, it_verify = t, it_window = t, it_db = t\<rparr>, ar_auth_fails = (False, False),
      ar_flow_fails = (False, False), ar_ticket_fails = (\<lambda>_. False), ar_personal_fails = (\<lambda>_. False),
      ar_intake_fails = no_faults, ar_precheck_fails = (\<lambda>_. False), ar_board_fails = (\<lambda>_. False),
      ar_labs_fails = (\<lambda>_. False), ar_admin_fails = (\<lambda>_. False), ar_grade_fails = False, ar_import_fails = (\<lambda>_. False)\<rparr>"

definition demo_session :: browser_session where
  "demo_session = \<lparr>bs_user = 2, bs_key = 2, bs_student = [], bs_source = FromDevice, bs_expires = 719163 * day\<rparr>"

definition demo_state :: api where
  "demo_state =
     (let w = sample_world 2 0
      in \<lparr>ap_world = w\<lparr>w_db := (w_db w)\<lparr>db_users := db_users (w_db w) @ [\<lparr>u_id = 2, u_student = ''s2'', u_nickname = ''m''\<rparr>]\<rparr>\<rparr>,
          ap_sessions = [''tok'' \<mapsto> demo_session]\<rparr>)"

definition demo_request :: "string \<Rightarrow> string \<Rightarrow> (string \<times> string) list \<Rightarrow> string \<Rightarrow> request" where
  "demo_request m path cookies body =
     \<lparr>rq_method = m, rq_escaped = path, rq_raw_query = [], rq_query = (\<lambda>_. []), rq_header = (\<lambda>_. []),
      rq_cookies = cookies, rq_form = None, rq_body = Some body\<rparr>"

text \<open>
  The same server with an identity provider, and a browser that comes back from it with the state it was given.
\<close>

definition demo_login_server :: api_env where
  "demo_login_server = demo_server\<lparr>ae_provider := Some sample_provider\<rparr>"

definition demo_callback :: request where
  "demo_callback = (demo_request ''GET'' ''/api/device/verify''
       [(''labkit_oauth_state'', ''st''), (''labkit_oauth_next'', ''/labs'')] [])
     \<lparr>rq_query := (\<lambda>q. if q = ''state'' then ''st'' else if q = ''code'' then ''code'' else [])\<rparr>"

definition demo_login :: "unit response \<times> api" where
  "demo_login = device_verify demo_login_server (demo_run (719162 * day)) demo_callback demo_state"

lemma web_login_safe_witness:
  "\<exists>b loc cks. ap_sessions (snd demo_login) ''AQID'' = Some b \<and> bs_key b = 0 \<and> bs_expires b = 719162 * day + 8 * hour \<and>
     bs_student b = ''bob'' \<and> fst demo_login = RedirectTo loc cks \<and> same_origin loc"
proof -
  let ?b = "the (ap_sessions (snd demo_login) ''AQID'')"
  have new: "ap_sessions (snd demo_login) ''AQID'' = Some ?b" "bs_source ?b = FromWeb" "bs_student ?b = ''bob''"
    by code_simp+
  moreover have "ap_sessions demo_state ''AQID'' = None" by code_simp
  moreover have "device_verify demo_login_server (demo_run (719162 * day)) demo_callback demo_state
      = (fst demo_login, snd demo_login)"
    by (simp add: demo_login_def)
  moreover have "ar_now (demo_run (719162 * day)) 0 = 719162 * day" by code_simp
  ultimately show ?thesis using web_login_safe [OF _ new(1,2)] by fastforce
qed

end
