(* ===== verification/Http_Security.thy ===== *)
theory Http_Security
  imports Http_Api
begin

text \<open>
  What a request may change, over every route of the server: without the administrator's token nothing of
  the course (labs, grades, scores, boards, submissions and jobs that exist, bonus balances upwards), and
  of a student's own data nothing unless the request acts for that student, through a browser session
  bound to a device or through a signature by an active key.
\<close>

section \<open>Footprints\<close>

definition course_kept :: "db \<Rightarrow> db \<Rightarrow> bool" where
  "course_kept d d' \<longleftrightarrow>
     db_labs d' = db_labs d \<and> db_grades d' = db_grades d \<and> db_scores d' = db_scores d \<and> db_board d' = db_board d \<and>
     prefix (db_subs d) (db_subs d') \<and> prefix (db_jobs d) (db_jobs d') \<and>
     (\<forall>user lab. balance user lab d' \<le> balance user lab d)"

text \<open>
  The data of a user: profiles, nickname, submissions and bonus balances stay as they are, and keys that are
  active stay active with the public key they have.
\<close>

definition user_kept :: "int \<Rightarrow> db \<Rightarrow> db \<Rightarrow> bool" where
  "user_kept user d d' \<longleftrightarrow>
     filter (\<lambda>p. pf_user p = user) (db_profiles d') = filter (\<lambda>p. pf_user p = user) (db_profiles d) \<and>
     prefix (filter (\<lambda>x. u_id x = user) (db_users d)) (filter (\<lambda>x. u_id x = user) (db_users d')) \<and>
     filter (\<lambda>r. sub_user r = user) (db_subs d') = filter (\<lambda>r. sub_user r = user) (db_subs d) \<and>
     (\<forall>lab. balance user lab d' = balance user lab d) \<and>
     (\<forall>k \<in> set (db_keys d). k_user k = user \<and> active_key k \<longrightarrow>
        (\<exists>k' \<in> set (db_keys d'). k_id k' = k_id k \<and> k_user k' = user \<and> k_public k' = k_public k \<and> active_key k'))"

text \<open>The keys of a user stay as they are, none added, removed or renamed, but for fingerprints that are filled in.\<close>

definition keys_kept :: "int \<Rightarrow> db \<Rightarrow> db \<Rightarrow> bool" where
  "keys_kept user d d' \<longleftrightarrow>
     filter (\<lambda>k. k_user k = user) (map (\<lambda>k. k\<lparr>k_fingerprint := None\<rparr>) (db_keys d')) =
     filter (\<lambda>k. k_user k = user) (map (\<lambda>k. k\<lparr>k_fingerprint := None\<rparr>) (db_keys d))"

text \<open>Data of users in \<open>A\<close> may change, and keys of users in \<open>A\<close> and \<open>B\<close>.\<close>

definition touches :: "int set \<Rightarrow> int set \<Rightarrow> db \<Rightarrow> db \<Rightarrow> bool" where
  "touches A B d d' \<longleftrightarrow> course_kept d d' \<and> (\<forall>user. user \<notin> A \<longrightarrow> user_kept user d d') \<and>
     (\<forall>user. user \<notin> A \<union> B \<longrightarrow> keys_kept user d d')"

lemma touches_refl [simp]: "touches A B d d"
  by (auto simp: touches_def course_kept_def user_kept_def keys_kept_def)

lemma user_kept_trans: "user_kept u d d1 \<Longrightarrow> user_kept u d1 d2 \<Longrightarrow> user_kept u d d2"
proof -
  assume a: "user_kept u d d1" and b: "user_kept u d1 d2"
  have "\<exists>k' \<in> set (db_keys d2). k_id k' = k_id k \<and> k_user k' = u \<and> k_public k' = k_public k \<and> active_key k'"
    if k: "k \<in> set (db_keys d)" "k_user k = u" "active_key k" for k
  proof -
    obtain k1 where "k1 \<in> set (db_keys d1)" "k_id k1 = k_id k" "k_user k1 = u" "k_public k1 = k_public k" "active_key k1"
      using a k unfolding user_kept_def by blast
    with b show ?thesis unfolding user_kept_def by metis
  qed
  with a b show ?thesis unfolding user_kept_def by (auto intro: prefix_order.trans)
qed

lemma course_kept_trans: "course_kept d d1 \<Longrightarrow> course_kept d1 d2 \<Longrightarrow> course_kept d d2"
  unfolding course_kept_def by (auto intro: prefix_order.trans) (meson order_trans)

lemma touches_trans: "touches A B d d1 \<Longrightarrow> touches A' B' d1 d2 \<Longrightarrow> touches (A \<union> A') (B \<union> B') d d2"
  unfolding touches_def keys_kept_def by (auto intro: user_kept_trans course_kept_trans)

lemma touches_mono: "touches A B d d' \<Longrightarrow> A \<subseteq> A' \<Longrightarrow> B \<subseteq> B' \<Longrightarrow> touches A' B' d d'"
  unfolding touches_def by blast

lemma touches_then: "touches {} {} d d1 \<Longrightarrow> touches A B d1 d2 \<Longrightarrow> touches A B d d2"
  using touches_trans [of "{}" "{}" d d1 A B d2] by simp

lemmas touch_defs = touches_def course_kept_def user_kept_def keys_kept_def balance_def GetBonusQuota_def

text \<open>The tables that nobody but the administrator, and no one but their owner, is affected by.\<close>

lemma touches_other_tables:
  "touches {} {} d (d\<lparr>db_nonces := ns\<rparr>)" "touches {} {} d (d\<lparr>db_tickets := ts\<rparr>)" "touches {} {} d (d\<lparr>db_devices := ds\<rparr>)"
  "touches {} {} d (d\<lparr>db_user_seq := i\<rparr>)" "touches {} {} d (d\<lparr>db_key_seq := i\<rparr>)"
  by (auto simp: touch_defs)

lemma touches_keys:
  assumes "\<And>user. user \<notin> A \<Longrightarrow> keys_kept user d (d\<lparr>db_keys := ks\<rparr>)"
    and "\<forall>k \<in> set (db_keys d). k_user k \<notin> A' \<and> active_key k \<longrightarrow>
    (\<exists>k' \<in> set ks. k_id k' = k_id k \<and> k_user k' = k_user k \<and> k_public k' = k_public k \<and> active_key k')" and "A' \<subseteq> A"
  shows "touches A' A d (d\<lparr>db_keys := ks\<rparr>)"
  using assms(2,3) assms(1) by (fastforce simp: touches_def course_kept_def user_kept_def balance_def GetBonusQuota_def)

lemma filter_update_where_other:
  "(\<And>r. r \<in> set rs \<Longrightarrow> P r \<Longrightarrow> \<not> Q r \<and> \<not> Q (f r)) \<Longrightarrow> filter Q (update_where P f rs) = filter Q rs"
  by (induction rs) auto

lemma keys_kept_update:
  assumes "\<And>k. k \<in> set (db_keys d) \<Longrightarrow> P k \<Longrightarrow> k_user k \<noteq> user" and "\<And>k. k_user (f k) = k_user k"
  shows "keys_kept user d (d\<lparr>db_keys := update_where P f (db_keys d)\<rparr>)"
proof -
  have "filter (\<lambda>k. k_user k = user) (update_where P f (db_keys d)) = filter (\<lambda>k. k_user k = user) (db_keys d)"
    by (rule filter_update_where_other) (use assms in auto)
  then show ?thesis by (simp add: keys_kept_def filter_map comp_def)
qed

lemma touches_users:
  "(\<And>u. prefix (filter (\<lambda>x. u_id x = u) (db_users d)) (filter (\<lambda>x. u_id x = u) us)) \<Longrightarrow> touches {} {} d (d\<lparr>db_users := us\<rparr>)"
  by (auto simp: touch_defs)

lemma same_but_fingerprints_touches: "same_but_fingerprints d d' \<Longrightarrow> touches {} {} d d'"
proof -
  assume "same_but_fingerprints d d'"
  then obtain ks where d': "d' = d\<lparr>db_keys := ks\<rparr>"
    and eq: "map (\<lambda>k. k\<lparr>k_fingerprint := None\<rparr>) ks = map (\<lambda>k. k\<lparr>k_fingerprint := None\<rparr>) (db_keys d)"
    by (auto simp: same_but_fingerprints_def)
  have "\<exists>k' \<in> set ks. k_id k' = k_id k \<and> k_user k' = k_user k \<and> k_public k' = k_public k \<and> active_key k'"
    if "k \<in> set (db_keys d)" "active_key k" for k
  proof -
    have "k\<lparr>k_fingerprint := None\<rparr> \<in> (\<lambda>k. k\<lparr>k_fingerprint := None\<rparr>) ` set ks"
      using arg_cong [OF eq, of set] that(1) by auto
    then obtain q where q: "q \<in> set ks" "k\<lparr>k_fingerprint := None\<rparr> = q\<lparr>k_fingerprint := None\<rparr>" by auto
    from arg_cong [OF q(2), of k_id] arg_cong [OF q(2), of k_user] arg_cong [OF q(2), of k_revoked] arg_cong [OF q(2), of k_public]
    show ?thesis using q(1) that(2) by (auto simp: active_key_def)
  qed
  then show ?thesis unfolding d' by (intro touches_keys) (auto simp: keys_kept_def eq)
qed

lemma Authenticate_touches:
  assumes "Authenticate fails e now i d = (res, d')"
  shows "touches {} {} d d'"
proof -
  from Authenticate_frame [OF assms] obtain d1 ns where "same_but_fingerprints d d1" "d' = d1\<lparr>db_nonces := ns\<rparr>" by blast
  then show ?thesis using touches_then same_but_fingerprints_touches touches_other_tables(1) by blast
qed

lemma UpsertUser_touches: "UpsertUser st d = Inr (x, d') \<Longrightarrow> touches {} {} d d'"
proof (elim UpsertUser_cases)
  assume "d' = d\<lparr>db_users := db_users d @ [x], db_user_seq := db_user_seq d + 1\<rparr>"
  with touches_then [OF touches_users [of d "db_users d @ [x]"] touches_other_tables(4)] show "touches {} {} d d'" by auto
qed (simp add: touches_other_tables)

text \<open>The users who have a student id.\<close>

definition users_of :: "string \<Rightarrow> db \<Rightarrow> int set" where
  "users_of st d = {u_id x |x. x \<in> set (db_users d) \<and> u_student x = st}"

lemma CompleteDeviceAuthRequest_touches:
  assumes "CompleteDeviceAuthRequest now code st sd fp device d = (res, d')" and ids: "distinct (map k_id (db_keys d))"
  shows "touches {} (users_of sd d') d d'"
  using assms(1)
proof (cases rule: CompleteDeviceAuthRequest_cases)
  case failed
  then show ?thesis by simp
next
  case (foreign r x d2 k)
  have "touches {} {} d d2"
    using touches_then [OF touches_other_tables(3) UpsertUser_touches [OF foreign(2) [unfolded approved_db_def]]] .
  from touches_then [OF this touches_other_tables(5)] show ?thesis unfolding foreign by (rule touches_mono) simp_all
next
  case (renamed r x d2 k)
  note up = UpsertUser_frame [OF renamed(2), simplified]
  have x: "k_user k \<in> users_of sd d2" using up(4,5) renamed(6) by (auto simp: users_of_def)
  have "touches {} {} d d2"
    using touches_then [OF touches_other_tables(3) UpsertUser_touches [OF renamed(2) [unfolded approved_db_def]]] .
  moreover have "touches {} (users_of sd d2) d2
      (d2\<lparr>db_keys := update_where (\<lambda>q. k_id q = k_id k) (\<lambda>q. q\<lparr>k_device := device\<rparr>) (db_keys d2)\<rparr>)"
  proof (rule touches_keys)
    fix user assume user: "user \<notin> users_of sd d2"
    show "keys_kept user d2 (d2\<lparr>db_keys := update_where (\<lambda>q. k_id q = k_id k) (\<lambda>q. q\<lparr>k_device := device\<rparr>) (db_keys d2)\<rparr>)"
    proof (rule keys_kept_update)
      fix q assume "q \<in> set (db_keys d2)" "k_id q = k_id k"
      with renamed(3) ids up(2) have "q = k" by (intro distinct_key_eq [of k_id "db_keys d"]) auto
      with x user show "k_user q \<noteq> user" by auto
    qed simp
  next
    have "\<exists>k' \<in> (\<lambda>q. if k_id q = k_id k then q\<lparr>k_device := device\<rparr> else q) ` set (db_keys d2).
        k_id k' = k_id q \<and> k_user k' = k_user q \<and> k_public k' = k_public q \<and> active_key k'"
      if "q \<in> set (db_keys d2)" "active_key q" for q
      using that by (intro bexI [OF _ imageI [OF that(1)]]) (simp add: active_key_def)
    then show "\<forall>q \<in> set (db_keys d2). k_user q \<notin> {} \<and> active_key q \<longrightarrow>
        (\<exists>k' \<in> set (update_where (\<lambda>q. k_id q = k_id k) (\<lambda>q. q\<lparr>k_device := device\<rparr>) (db_keys d2)).
          k_id k' = k_id q \<and> k_user k' = k_user q \<and> k_public k' = k_public q \<and> active_key k')"
      by (simp add: set_update_where)
  qed simp
  ultimately have "touches {} (users_of sd d2) d (d2\<lparr>db_keys := update_where (\<lambda>q. k_id q = k_id k) (\<lambda>q. q\<lparr>k_device := device\<rparr>) (db_keys d2)\<rparr>)"
    by (rule touches_then)
  from touches_trans [OF this touches_other_tables(5)] show ?thesis unfolding renamed by (simp add: users_of_def)
next
  case (bound r x d2)
  note up = UpsertUser_frame [OF bound(2), simplified]
  have x: "u_id x \<in> users_of sd d2" using up(4,5) by (auto simp: users_of_def)
  have "touches {} {} d d2"
    using touches_then [OF touches_other_tables(3) UpsertUser_touches [OF bound(2) [unfolded approved_db_def]]] .
  moreover have "touches {} (users_of sd d2) d2 (d2\<lparr>db_keys := db_keys d2 @ [bound_key now r x fp device d2]\<rparr>)"
    by (rule touches_keys) (use x in \<open>auto simp: keys_kept_def bound_key_def\<close>)
  ultimately have "touches {} (users_of sd d2) d (d2\<lparr>db_keys := db_keys d2 @ [bound_key now r x fp device d2]\<rparr>)"
    by (rule touches_then)
  from touches_trans [OF this touches_other_tables(5)] show ?thesis unfolding bound by (simp add: users_of_def)
qed

lemma CreateDeviceAuthorizationRequest_touches:
  "CreateDeviceAuthorizationRequest fails codes ttl now pub dev d = (res, d') \<Longrightarrow> touches {} {} d d'"
  by (elim CreateDeviceAuthRequest_cases)
    (auto simp: CreateDeviceAuthRequest_def touches_other_tables split: if_splits)

lemma DevBind_touches:
  "DevBindDeviceAuthorizationRequest fs e now dbnow code student dev d = (res, d') \<Longrightarrow> distinct (map k_id (db_keys d)) \<Longrightarrow>
   touches {} (users_of (trim_space student) d') d d'"
  by (elim DevBind_cases) (auto dest: CompleteDeviceAuthRequest_touches)

lemma HandleOAuthCallback_touches:
  assumes "HandleOAuthCallback fs e prov now dbnow st code d = (res, d')" and "distinct (map k_id (db_keys d))"
  shows "touches {} {user. \<exists>p student q. prov = Some p \<and> identify p code = Inr student \<and> q \<in> set (db_devices d) \<and>
      da_state q = Some st \<and> pending q \<and> user \<in> users_of student d'} d d'"
  using assms(1)
proof (cases rule: HandleOAuthCallback_cases)
  case failed
  then show ?thesis by simp
next
  case (completed r p student fp res')
  show ?thesis
    by (rule touches_mono [OF CompleteDeviceAuthRequest_touches [OF completed(8) assms(2)]]) (use completed(1-3,5,6) in auto)
qed

lemma HandleWebLoginCallback_touches: "HandleWebLoginCallback fails prov code d = (res, d') \<Longrightarrow> touches {} {} d d'"
  by (elim HandleWebLoginCallback_cases) (auto dest: UpsertUser_touches)

lemma CreateTicket_touches: "CreateTicket fails e limit now dbnow tok i d = (res, d') \<Longrightarrow> touches {} {} d d'"
  by (elim CreateTicket_cases) (simp_all add: touches_other_tables)

lemma ConsumeTicket_touches: "ConsumeTicket fails e dbnow tk d = (res, d') \<Longrightarrow> touches {} {} d d'"
  by (elim ConsumeTicket_cases) (simp_all add: touches_other_tables)

section \<open>Updates of a student\<close>

lemma touches_profiles:
  "(\<And>U. U \<noteq> user \<Longrightarrow> filter (\<lambda>p. pf_user p = U) ps = filter (\<lambda>p. pf_user p = U) (db_profiles d)) \<Longrightarrow>
   touches {user} {} d (d\<lparr>db_profiles := ps\<rparr>)"
  by (auto simp: touch_defs)

lemma upsert_profile_touches:
  assumes "upsert_profile user lab f d = Inr (p, d')" and "\<And>p. pf_user (f p) = pf_user p"
  shows "touches {user} {} d d'"
proof (cases "find (\<lambda>p. pf_user p = user \<and> pf_lab p = lab) (db_profiles d)")
  case None
  with assms show ?thesis
    by (auto simp: upsert_profile_def Let_def split: if_splits intro!: touches_profiles)
next
  case (Some q)
  with assms show ?thesis
    by (auto simp: upsert_profile_def intro!: touches_profiles filter_update_where_other)
qed

lemma UpdateNickname_touches: "UpdateNickname fails user lab v d = (res, d') \<Longrightarrow> touches {user} {} d d'"
  by (auto simp: UpdateNickname_def Let_def UpsertLabProfileNickname_def faulty_def
      split: sum.splits if_splits prod.splits dest: upsert_profile_touches)

lemma UpdateTrack_touches: "UpdateTrack fails user lab v d = (res, d') \<Longrightarrow> touches {user} {} d d'"
  by (auto simp: UpdateTrack_def Let_def UpsertLabProfileTrack_def faulty_def
      split: sum.splits if_splits prod.splits dest: upsert_profile_touches)

lemma UpdateUserProfile_touches:
  assumes "UpdateUserProfile fails user v d = (res, d')"
  shows "touches {user} {} d d'"
proof -
  from assms consider "d' = d" | n where
    "d' = d\<lparr>db_users := update_where (\<lambda>u. u_id u = user) (\<lambda>u. u\<lparr>u_nickname := n\<rparr>) (db_users d)\<rparr>"
    by (auto simp: UpdateUserProfile_def Let_def UpdateUserNickname_def bindR_def faulty_def
        split: if_splits sum.splits prod.splits)
  then show ?thesis
  proof cases
    case 2
    have "filter (\<lambda>x. u_id x = v) (update_where (\<lambda>u. u_id u = user) (\<lambda>u. u\<lparr>u_nickname := n\<rparr>) (db_users d)) =
        filter (\<lambda>x. u_id x = v) (db_users d)" if "v \<noteq> user" for v
      by (rule filter_update_where_other) (use that in auto)
    with 2 show ?thesis by (auto simp: touch_defs)
  qed simp
qed

lemma DeleteUserKey_touches: "touches {user} {} d (DeleteUserKey dbnow k user d)"
proof -
  have "touches {user} {user} d (DeleteUserKey dbnow k user d)"
    unfolding DeleteUserKey_def
  proof (rule touches_keys)
    fix v assume "v \<notin> {user}"
    then show "keys_kept v d (d\<lparr>db_keys := update_where (\<lambda>k'. k_id k' = k \<and> k_user k' = user \<and> active_key k')
        (\<lambda>k. k\<lparr>k_revoked := Some dbnow\<rparr>) (db_keys d)\<rparr>)"
      by (intro keys_kept_update) auto
  next
    have "\<exists>k' \<in> (\<lambda>q. if k_id q = k \<and> k_user q = user \<and> active_key q then q\<lparr>k_revoked := Some dbnow\<rparr> else q) ` set (db_keys d).
        k_id k' = k_id q \<and> k_user k' = k_user q \<and> k_public k' = k_public q \<and> active_key k'"
      if "q \<in> set (db_keys d)" "k_user q \<noteq> user" "active_key q" for q
      using that(2,3) by (intro bexI [OF _ imageI [OF that(1)]]) simp
    then show "\<forall>q \<in> set (db_keys d). k_user q \<notin> {user} \<and> active_key q \<longrightarrow>
        (\<exists>k' \<in> set (update_where (\<lambda>k'. k_id k' = k \<and> k_user k' = user \<and> active_key k')
           (\<lambda>k. k\<lparr>k_revoked := Some dbnow\<rparr>) (db_keys d)).
          k_id k' = k_id q \<and> k_user k' = k_user q \<and> k_public k' = k_public q \<and> active_key k')"
      by (simp add: set_update_where)
  qed simp
  then show ?thesis unfolding touches_def by blast
qed

lemma RevokeKey_touches: "RevokeKey fails dbnow user k d = (res, d') \<Longrightarrow> touches {user} {} d d'"
  by (auto simp: RevokeKey_def DeleteUserKey_touches split: if_splits)

lemma ConsumeBonusQuota_touches:
  assumes "ConsumeBonusQuota now user lab d = Inr (rem, d')"
  shows "touches {user} {} d d'"
proof -
  let ?P = "\<lambda>b. is_bonus user lab b \<and> 0 < bq_remaining b"
  let ?f = "\<lambda>b. b\<lparr>bq_remaining := bq_remaining b - 1, bq_updated := now\<rparr>"
  have d': "d' = d\<lparr>db_bonus := update_where ?P ?f (db_bonus d)\<rparr>"
    using assms by (auto simp: ConsumeBonusQuota_def split: option.splits)
  have "find (is_bonus v l) (update_where ?P ?f (db_bonus d)) =
      map_option (\<lambda>b. if ?P b then ?f b else b) (find (is_bonus v l) (db_bonus d))" for v l
    by (rule find_update_where) (simp add: is_bonus_def)
  note f = this
  then have "balance v l d' \<le> balance v l d" for v l
    by (cases "find (is_bonus v l) (db_bonus d)") (simp_all add: d' balance_def GetBonusQuota_def)
  moreover have "balance v l d' = balance v l d" if "v \<noteq> user" for v l
    using f [of v l] that
    by (cases "find (is_bonus v l) (db_bonus d)") (auto simp: d' balance_def GetBonusQuota_def is_bonus_def dest!: find_SomeD)
  ultimately show ?thesis by (auto simp: touches_def course_kept_def user_kept_def keys_kept_def d')
qed

lemma Intake_touches:
  assumes "Intake e flt t l inp w = (res, w')"
  shows "touches {user. \<exists>k \<in> set (db_keys (w_db w)). active_key k \<and> k_user k = user \<and> in_nonce inp \<notin> set (db_nonces (w_db w)) \<and>
     freshWithin (it_verify t) (in_timestamp inp) defaultSkew \<and>
     (\<exists>pub p. parseAuthorizedKey e (k_public k) = Some pub \<and> length pub = 32 \<and> p_lab_id p = in_lab inp \<and>
        p_nonce p = in_nonce inp \<and> p_timestamp p = in_timestamp inp \<and>
        env_ed_verify e pub (SigningBytes p) (in_signature inp))} {} (w_db w) (w_db w')"
    (is "touches ?A _ _ _")
proof (cases res)
  case (Inl err)
  obtain r d1 where chk: "intake_checks e flt t inp (w_db w) = (r, d1)" by fastforce
  from assms Inl chk have "w_db w' = d1"
    by (auto simp: Intake_def split: sum.splits prod.splits if_splits)
  then show ?thesis
    using touches_mono [OF same_but_fingerprints_touches [OF intake_checks_frame [OF chk]]] by auto
next
  case (Inr sb)
  from Intake_Inr [OF assms [unfolded Inr]] obtain p d1 start stop used bonus rem d2 row d3 where
    chk: "intake_checks e flt t inp (w_db w) = (Inr p, d1)"
    and tq: "take_quota flt (it_db t) (pr_manifest p) (k_user (pr_key p)) (in_lab inp) start stop d1 = Inr (used, bonus, rem, d2)"
    and rc: "record_submission flt (it_db t) inp p bonus d2 = Inr (row, d3)" and w': "w_db w' = d3"
    by (metis world.select_convs(1))
  note fr = intake_checks_frame [OF chk]
  have "touches {k_user (pr_key p)} {} d1 d2" using take_quota_Inr [OF tq] ConsumeBonusQuota_touches by auto
  then have t2: "touches {k_user (pr_key p)} {} (w_db w) d2" using touches_then [OF same_but_fingerprints_touches [OF fr]] by blast
  note row = record_submission_Inr [OF rc]
  have "touches {k_user (pr_key p)} {} d2 d3"
    using row by (auto simp: touch_defs)
  from touches_trans [OF t2 this] have "touches {k_user (pr_key p)} {} (w_db w) d3" by simp
  moreover have "k_user (pr_key p) \<in> ?A"
  proof -
    from intake_checks_Inr [OF chk] obtain pub where
      look: "repo_GetUserKeyByFingerprint e (in_fingerprint inp) (w_db w) = (Inr (pr_key p), d1)"
      and pub: "parseAuthorizedKey e (k_public (pr_key p)) = Some pub"
      and sig: "VerifySignature (env_ed_verify e) (it_verify t) 0 pub
         (WithContentHash (NewPayload (in_lab inp) (in_timestamp inp) (in_nonce inp) (map fst (in_files inp))) (pr_hash p))
         (in_signature inp) = Inr ()" by blast
    have "db_nonces d2 = db_nonces (w_db w)"
      using same_but_fingerprints_D(4) [OF fr] take_quota_frame [OF tq] by auto
    with row have "in_nonce inp \<notin> set (db_nonces (w_db w))" by simp
    moreover have "p_lab_id (WithContentHash (NewPayload (in_lab inp) (in_timestamp inp) (in_nonce inp) (map fst (in_files inp))) (pr_hash p)) = in_lab inp"
      "p_nonce (WithContentHash (NewPayload (in_lab inp) (in_timestamp inp) (in_nonce inp) (map fst (in_files inp))) (pr_hash p)) = in_nonce inp"
      "p_timestamp (WithContentHash (NewPayload (in_lab inp) (in_timestamp inp) (in_nonce inp) (map fst (in_files inp))) (pr_hash p)) = in_timestamp inp"
      by (simp_all add: WithContentHash_def NewPayload_def)
    ultimately show ?thesis
      using repo_key_active [OF look] pub sig by (auto simp: VerifySignature_Inr intro!: bexI [of _ "pr_key p"])
  qed
  ultimately show ?thesis unfolding w' by (elim touches_mono) auto
qed

section \<open>Acting for a student\<close>

definition signed_as :: "env \<Rightarrow> time set \<Rightarrow> string set \<Rightarrow> time \<Rightarrow> string \<Rightarrow> string \<Rightarrow> int \<Rightarrow> db \<Rightarrow> bool" where
  "signed_as e clock subjects t nonce sig user d \<longleftrightarrow>
     (\<exists>k \<in> set (db_keys d). active_key k \<and> k_user k = user \<and> nonce \<notin> set (db_nonces d) \<and>
       (\<exists>now \<in> clock. freshWithin now t defaultSkew) \<and>
       (\<exists>pub p. parseAuthorizedKey e (k_public k) = Some pub \<and> length pub = 32 \<and> p_lab_id p \<in> subjects \<and>
          p_nonce p = nonce \<and> p_timestamp p = t \<and> env_ed_verify e pub (SigningBytes p) sig))"

text \<open>What the signature has to name: the method and path, or the lab where the route takes a submission.\<close>

definition signed_subjects :: "api_env \<Rightarrow> request \<Rightarrow> string set" where
  "signed_subjects c r =
     insert (to_upper (trim_space (rq_method r)) @ '' '' @ trim_space (signedRequestPath r))
       {path_value 0 vs |vs. find_route (routes (ae_dev c)) (rq_method r) (rq_escaped r) = Some (EpSubmit, vs)}"

definition acts_for :: "api_env \<Rightarrow> api_run \<Rightarrow> request \<Rightarrow> api \<Rightarrow> int \<Rightarrow> bool" where
  "acts_for c u r s user \<longleftrightarrow>
     (\<exists>b. fst (browserSessionFromRequest (ar_now u 0) r (ap_sessions s)) = Some b \<and> bs_source b = FromDevice \<and> bs_user b = user) \<or>
     (\<exists>fp t nonce sig. signed_headers (ae_time c) r = Inr (fp, t, nonce, sig) \<and>
        signed_as (ae_env c) (insert (it_verify (ar_intake u)) (range (ar_now u))) (signed_subjects c r) t nonce sig user (api_db s))"

abbreviation acting :: "api_env \<Rightarrow> api_run \<Rightarrow> request \<Rightarrow> api \<Rightarrow> int set" where
  "acting c u r s \<equiv> {user. acts_for c u r s user}"

lemma signed_request:
  assumes "authenticatePersonalRequest fails (ae_env c) (ae_time c) (ar_now u i) r body s1 = (res, s2)"
    and "api_db s1 = api_db s"
  shows "touches {} {} (api_db s) (api_db s2)" and "res = Some a \<Longrightarrow> acts_for c u r s (au_user a)"
proof -
  show "touches {} {} (api_db s) (api_db s2)"
    using assms by (auto simp: authenticatePersonalRequest_def split: sum.splits prod.splits dest: Authenticate_touches)
  assume "res = Some a"
  with assms obtain fp t nonce sig d where h: "signed_headers (ae_time c) r = Inr (fp, t, nonce, sig)"
    and au: "Authenticate fails (ae_env c) (ar_now u i)
        \<lparr>ai_fingerprint = fp, ai_method = rq_method r, ai_path = signedRequestPath r, ai_timestamp = t,
         ai_nonce = nonce, ai_signature = sig, ai_body = body\<rparr> (api_db s) = (Inr a, d)"
    by (auto simp: authenticatePersonalRequest_def split: sum.splits prod.splits)
  let ?i = "\<lparr>ai_fingerprint = fp, ai_method = rq_method r, ai_path = signedRequestPath r, ai_timestamp = t,
         ai_nonce = nonce, ai_signature = sig, ai_body = body\<rparr>"
  obtain k pub d1 where
    look: "repo_GetUserKeyByFingerprint (ae_env c) fp (api_db s) = (Inr k, d1)" and a: "a = \<lparr>au_user = k_user k, au_key = k_id k\<rparr>"
    and pub: "parseAuthorizedKey (ae_env c) (k_public k) = Some pub"
    and sig: "VerifySignature (env_ed_verify (ae_env c)) (ar_now u i) 0 pub (api_payload (ae_env c) ?i) sig = Inr ()"
    and nonce: "ReserveNonce nonce d1 = (True, d)"
    using Authenticate_Inr [OF au, unfolded auth_input.select_convs] by metis
  have "nonce \<notin> set (db_nonces (api_db s))"
    using nonce same_but_fingerprints_D(4) [OF repo_key_frame [OF look]] by (auto simp: ReserveNonce_def split: if_splits)
  moreover have "p_lab_id (api_payload (ae_env c) ?i) \<in> signed_subjects c r" "p_nonce (api_payload (ae_env c) ?i) = nonce"
    "p_timestamp (api_payload (ae_env c) ?i) = t"
    by (simp_all add: signed_subjects_def api_payload_def WithContentHash_def NewPayload_def)
  ultimately have "signed_as (ae_env c) (insert (it_verify (ar_intake u)) (range (ar_now u))) (signed_subjects c r) t nonce sig
      (k_user k) (api_db s)"
    unfolding signed_as_def using repo_key_active [OF look] pub sig
    by (intro bexI [of _ k]) (auto simp: VerifySignature_Inr intro!: exI [of _ "api_payload (ae_env c) ?i"])
  with h a show "acts_for c u r s (au_user a)" by (auto simp: acts_for_def)
qed

lemma writable_request:
  assumes "authenticateWritableRequest fails (ae_env c) (ae_time c) (ar_now u 0) r body s = (res, s2)"
  shows "touches {} {} (api_db s) (api_db s2)" and "res = Inr a \<Longrightarrow> acts_for c u r s (au_user a)"
proof -
  obtain b m where b: "browserSessionFromRequest (ar_now u 0) r (ap_sessions s) = (b, m)" by fastforce
  have sg: "\<exists>res'. authenticatePersonalRequest fails (ae_env c) (ae_time c) (ar_now u 0) r body (set_sessions m s) = (res', s2) \<and>
      (\<forall>a. res = Inr a \<longrightarrow> res' = Some a)" if "b = None"
    using assms b that by (auto simp: authenticateWritableRequest_def split: option.splits prod.splits)
  show "touches {} {} (api_db s) (api_db s2)"
  proof (cases b)
    case None
    with sg signed_request(1) [of fails c u 0 r body "set_sessions m s" _ s2 s] show ?thesis by auto
  next
    case (Some x)
    with assms b show ?thesis by (auto simp: authenticateWritableRequest_def split: if_splits)
  qed
  assume r: "res = Inr a"
  show "acts_for c u r s (au_user a)"
  proof (cases b)
    case None
    with sg r signed_request(2) [of fails c u 0 r body "set_sessions m s" _ s2 s a] show ?thesis by auto
  next
    case (Some x)
    with assms b r show ?thesis
      by (cases "bs_source x") (auto simp: authenticateWritableRequest_def acts_for_def session_user_def split: if_splits)
  qed
qed

section \<open>Binding a key\<close>

text \<open>
  The student a request binds a key to: the one the identity provider names for the code of a sign-in that
  was started, or, on a server with the development routes, the one the request names.
\<close>

definition named_student :: "api_env \<Rightarrow> request \<Rightarrow> api \<Rightarrow> string \<Rightarrow> bool" where
  "named_student c r s st \<longleftrightarrow>
     (case find_route (routes (ae_dev c)) (rq_method r) (rq_escaped r) of
        Some (EpVerify, vs) \<Rightarrow>
          (\<exists>p q. ae_provider c = Some p \<and> identify p (rq_query r ''code'') = Inr st \<and>
             q \<in> set (db_devices (api_db s)) \<and> pending q \<and> da_state q = Some (rq_query r ''state''))
      | Some (EpDevBind, vs) \<Rightarrow>
          ae_dev c \<and> (\<exists>body dc sid dn. rq_body r = Some body \<and>
             ae_text c [''device_code'', ''student_id'', ''device_name''] body = Some [dc, sid, dn] \<and> st = trim_space sid)
      | _ \<Rightarrow> False)"

definition binding :: "api_env \<Rightarrow> request \<Rightarrow> api \<Rightarrow> db \<Rightarrow> int set" where
  "binding c r s d = {user. \<exists>st. named_student c r s st \<and> user \<in> users_of st d}"

lemma find_route_in: "find_route rs m path = Some (ep, vs) \<Longrightarrow> ep \<in> (\<lambda>(m, p, e). e) ` set rs"
  by (induction rs m path rule: find_route.induct) (auto split: option.splits if_splits)

lemma dev_route: "find_route (routes dev) m path = Some (EpDevBind, vs) \<Longrightarrow> dev"
  by (drule find_route_in) (auto simp: routes_def auth_routes_def v1_routes_def split: if_splits)

section \<open>The handlers\<close>

definition permitted :: "api_env \<Rightarrow> api_run \<Rightarrow> request \<Rightarrow> api \<Rightarrow> body response \<times> api \<Rightarrow> bool" where
  "permitted c u r s res \<longleftrightarrow>
     touches (acting c u r s) (binding c r s (api_db (snd res))) (api_db s) (api_db (snd res))"

lemma permitted_refl [simp]: "permitted c u r s (resp, s)"
  by (simp add: permitted_def)

lemma permitted_anyone: "touches {} {} (api_db s) (api_db s') \<Longrightarrow> permitted c u r s (resp, s')"
  using touches_mono [of "{}" "{}"] by (simp add: permitted_def)

lemma permitted_user:
  "touches {} {} (api_db s) (api_db s1) \<Longrightarrow> acts_for c u r s user \<Longrightarrow> touches {user} {} (api_db s1) d \<Longrightarrow> api_db s2 = d \<Longrightarrow>
   permitted c u r s (resp, s2)"
  unfolding permitted_def by (drule (1) touches_then) (auto elim: touches_mono)

lemma signed_user_permitted:
  fixes c :: api_env and u :: api_run
  assumes "authenticatePersonalRequest fails (ae_env c) (ae_time c) (ar_now u i) r body s = (res, s1)"
  shows "touches {} {} (api_db s) (api_db s1)" and "res = Some a \<Longrightarrow> acts_for c u r s (au_user a)"
  using signed_request [OF assms refl] by auto

lemma session_user_db:
  "authenticateBrowserSessionRequest now r s = (res, s1) \<Longrightarrow> api_db s1 = api_db s"
  by (auto simp: authenticateBrowserSessionRequest_def split: prod.splits)

lemma reading_user_touches:
  fixes c :: api_env and u :: api_run
  assumes "authenticateBrowserSessionOrPersonalRequest fails (ae_env c) (ae_time c) (ar_now u 0) r body s = (res, s1)"
  shows "touches {} {} (api_db s) (api_db s1)"
proof -
  obtain b s0 where b: "authenticateBrowserSessionRequest (ar_now u 0) r s = (b, s0)" by fastforce
  note db = session_user_db [OF b]
  show ?thesis
  proof (cases b)
    case None
    with assms b have "authenticatePersonalRequest fails (ae_env c) (ae_time c) (ar_now u 0) r body s0 = (res, s1)"
      by (simp add: authenticateBrowserSessionOrPersonalRequest_def)
    from signed_request(1) [OF this db] show ?thesis .
  next
    case (Some a)
    with assms b db show ?thesis by (auto simp: authenticateBrowserSessionOrPersonalRequest_def)
  qed
qed

lemma http_read_permitted: "permitted c u r s (http_read c u f r s)"
  by (auto simp: http_read_def intro!: permitted_anyone dest: reading_user_touches split: prod.splits option.splits)

lemma http_update_permitted:
  assumes "\<And>user v d res d'. update user v d = (res, d') \<Longrightarrow> touches {user} {} d d'"
  shows "permitted c u r s (http_update k update render c u r s)"
proof (cases "rq_body r")
  case (Some body)
  obtain res s1 where w: "authenticateWritableRequest (ar_auth_fails u) (ae_env c) (ae_time c) (ar_now u 0) r body s = (res :: body response + authenticated_user, s1)"
    by fastforce
  note wr = writable_request [OF w]
  show ?thesis
  proof (cases res)
    case (Inl resp)
    with Some w wr(1) show ?thesis by (simp add: http_update_def permitted_anyone)
  next
    case (Inr a)
    show ?thesis
    proof (cases "field_of c k body")
      case None
      with Some w Inr wr(1) show ?thesis by (simp add: http_update_def permitted_anyone)
    next
      case (Some v)
      obtain x d where up: "update (au_user a) (trim_space v) (api_db s1) = (x, d)" by fastforce
      show ?thesis
        using \<open>rq_body r = Some body\<close> w Inr Some up
        by (simp add: http_update_def answer_db_def)
          (rule permitted_user [OF wr(1) wr(2) [OF Inr] assms [OF up]], simp)
    qed
  qed
qed (simp add: http_update_def)

lemma http_RevokeKey_permitted: "permitted c u r s (http_RevokeKey c u k r s)"
proof -
  obtain res s1 where w: "authenticatePersonalRequest (ar_auth_fails u) (ae_env c) (ae_time c) (ar_now u 1) r [] s = (res, s1)" by fastforce
  note wr = signed_user_permitted [OF w]
  show ?thesis
  proof (cases res)
    case None
    with w wr(1) show ?thesis by (simp add: http_RevokeKey_def permitted_anyone)
  next
    case (Some a)
    show ?thesis
    proof (cases "go_atoi (trim_space k)")
      case None
      with Some w wr(1) show ?thesis by (simp add: http_RevokeKey_def permitted_anyone)
    next
      case (Some i)
      obtain x d where up: "RevokeKey (ar_personal_fails u) (ar_dbnow u 0) (au_user a) i (api_db s1) = (x, d)" by fastforce
      have "permitted c u r s (resp, set_db d s1)" for resp
        by (rule permitted_user [OF wr(1) wr(2) [OF \<open>res = Some a\<close>] RevokeKey_touches [OF up]]) simp
      with w Some up \<open>res = Some a\<close> show ?thesis by (cases x) (simp_all add: http_RevokeKey_def)
    qed
  qed
qed

lemma http_GetBoard_permitted: "permitted c u r s (http_GetBoard c u lab r s)"
proof -
  obtain b s0 where b: "authenticateBrowserSessionRequest (ar_now u 0) r s = (b, s0)" by fastforce
  obtain res s1 where w: "authenticatePersonalRequest (ar_auth_fails u) (ae_env c) (ae_time c) (ar_now u 1) r [] s0 = (res, s1)" by fastforce
  from session_user_db [OF b] signed_request(1) [OF w session_user_db [OF b]]
  have "touches {} {} (api_db s) (api_db s0)" "touches {} {} (api_db s) (api_db s1)" by simp_all
  with b w show ?thesis
    by (cases b; cases res) (simp_all add: http_GetBoard_def Let_def permitted_anyone)
qed

lemma resolveStudentID_touches: "resolveStudentID c u r s = (res, s1) \<Longrightarrow> touches {} {} (api_db s) (api_db s1)"
  by (auto simp: resolveStudentID_def Let_def split: prod.splits option.splits dest: signed_request(1) [where s = s])

lemma grade_permitted:
  "permitted c u r s (http_GetMyGrade c u lab r s)" "permitted c u r s (http_ListMyGrades c u r s)"
  by (auto simp: http_GetMyGrade_def http_ListMyGrades_def split: prod.splits sum.splits
      intro!: permitted_anyone dest: resolveStudentID_touches)

lemma http_GetSubmitPrecheck_permitted: "permitted c u r s (http_GetSubmitPrecheck c u lab r s)"
  by (auto simp: http_GetSubmitPrecheck_def split: prod.splits option.splits
      intro!: permitted_anyone dest: signed_user_permitted(1))

lemma http_CreateSubmission_permitted:
  assumes "find_route (routes (ae_dev c)) (rq_method r) (rq_escaped r) = Some (EpSubmit, vs)"
  shows "permitted c u r s (http_CreateSubmission c u (path_value 0 vs) r s)"
proof (cases "ae_upload c r")
  case (Some entries)
  show ?thesis
  proof (cases "signed_headers (ae_time c) r")
    case (Inr h)
    obtain fp t nonce sig where h: "h = (fp, t, nonce, sig)" by (cases h) auto
    show ?thesis
    proof (cases "those entries")
      case (Some files)
      let ?inp = "\<lparr>in_lab = path_value 0 vs, in_fingerprint = fp, in_timestamp = t, in_nonce = nonce, in_signature = sig, in_files = files\<rparr>"
      obtain res w where i: "Intake (ae_env c) (ar_intake_fails u) (ar_intake u) (ae_loc c) ?inp (ap_world s) = (res, w)" by fastforce
      have sub: "path_value 0 vs \<in> signed_subjects c r" using assms by (auto simp: signed_subjects_def)
      have "touches (acting c u r s) B (w_db (ap_world s)) (w_db w)" for B
        by (rule touches_mono [OF Intake_touches [OF i]])
          (use sub Inr h in \<open>fastforce simp: acts_for_def signed_as_def api_db_def\<close>, simp)
      with i \<open>ae_upload c r = Some entries\<close> Inr h Some show ?thesis
        by (simp add: http_CreateSubmission_def permitted_def api_db_def)
    qed (use \<open>ae_upload c r = Some entries\<close> Inr h in \<open>simp add: http_CreateSubmission_def\<close>)
  qed (use Some in \<open>simp add: http_CreateSubmission_def\<close>)
qed (simp add: http_CreateSubmission_def)

lemma session_ticket_permitted:
  "permitted c u r s (CreateSessionTicket c u render r s)" "permitted c u r s (ExchangeSessionTicket c u r s)"
proof -
  show "permitted c u r s (ExchangeSessionTicket c u r s)"
    by (auto simp: ExchangeSessionTicket_def Let_def split: option.splits prod.splits sum.splits
        intro!: permitted_anyone dest: ConsumeTicket_touches)
  have "touches {} {} (api_db s) (api_db (snd (CreateSessionTicket c u render r s)))"
    by (auto simp: CreateSessionTicket_def split: option.splits prod.splits sum.splits
        dest: signed_user_permitted(1) CreateTicket_touches
        intro: touches_then [OF signed_user_permitted(1) CreateTicket_touches])
  then show "permitted c u r s (CreateSessionTicket c u render r s)"
    unfolding permitted_def by (rule touches_mono) simp_all
qed

lemma device_permitted:
  "permitted c u r s (http_DeviceAuthorize c u r s)" "permitted c u r s (http_DevicePoll c u r s)"
  by (auto simp: http_DeviceAuthorize_def http_DevicePoll_def Let_def split: sum.splits prod.splits
      intro!: permitted_anyone dest: CreateDeviceAuthorizationRequest_touches)

lemma permitted_binding:
  "touches {} B (api_db s) d \<Longrightarrow> B \<subseteq> binding c r s d \<Longrightarrow> api_db s' = d \<Longrightarrow> permitted c u r s (resp, s')"
  unfolding permitted_def by (auto elim: touches_mono)

lemma http_BindDevice_permitted:
  assumes "find_route (routes (ae_dev c)) (rq_method r) (rq_escaped r) = Some (EpDevBind, vs)"
    and "distinct (map k_id (db_keys (api_db s)))"
  shows "permitted c u r s (http_BindDevice c u r s)"
proof (cases "\<exists>b dc sid dn. rq_body r = Some b \<and> ae_text c [''device_code'', ''student_id'', ''device_name''] b = Some [dc, sid, dn]")
  case True
  then obtain b dc sid dn where b: "rq_body r = Some b" "ae_text c [''device_code'', ''student_id'', ''device_name''] b = Some [dc, sid, dn]"
    by blast
  obtain res d where bd: "DevBindDeviceAuthorizationRequest (ar_flow_fails u) (ae_env c) (ar_now u 0) (ar_dbnow u 0) dc sid dn (api_db s) = (res, d)"
    by fastforce
  have "users_of (trim_space sid) d \<subseteq> binding c r s d"
    using assms(1) dev_route [OF assms(1)] b by (auto simp: binding_def named_student_def)
  from permitted_binding [OF DevBind_touches [OF bd assms(2)] this] b bd show ?thesis by (simp add: http_BindDevice_def)
next
  case False
  then show ?thesis by (auto simp: http_BindDevice_def bindR_def split: option.splits list.splits)
qed

lemma oauth_callback_permitted:
  assumes "find_route (routes (ae_dev c)) (rq_method r) (rq_escaped r) = Some (EpVerify, vs)"
    and "distinct (map k_id (db_keys (api_db s)))"
  shows "permitted c u r s (oauth_callback c u r s)"
proof -
  obtain res d where cb: "HandleOAuthCallback (ar_flow_fails u) (ae_env c) (ae_provider c) (ar_now u 0) (ar_dbnow u 0)
      (rq_query r ''state'') (rq_query r ''code'') (api_db s) = (res, d)" by fastforce
  have "permitted c u r s (resp, s')" if "api_db s' = d" for resp s'
    by (rule permitted_binding [OF HandleOAuthCallback_touches [OF cb assms(2)] _ that])
      (use assms(1) in \<open>auto simp: binding_def named_student_def\<close>)
  with cb show ?thesis by (auto simp: oauth_callback_def split: sum.split option.split)
qed

lemma device_verify_permitted:
  assumes "find_route (routes (ae_dev c)) (rq_method r) (rq_escaped r) = Some (EpVerify, vs)"
    and "distinct (map k_id (db_keys (api_db s)))"
  shows "permitted c u r s (device_verify c u r s)"
proof -
  have "permitted c u r s (web_login_handleCallback c u r state code s)" for state code
    by (auto simp: web_login_handleCallback_def split: sum.splits prod.splits option.splits
        intro!: permitted_anyone dest: HandleWebLoginCallback_touches)
  with oauth_callback_permitted [OF assms] show ?thesis by (simp add: device_verify_def Let_def split: sum.split)
qed


section \<open>Revocation and browser sessions\<close>

text \<open>
  A browser session that was handed out under a key is not bound to the key's life: after its revocation the
  session is still accepted, for reading and for changes, until it expires.
\<close>

lemma session_survives_revocation:
  assumes "http_RevokeKey c u keyID r s = (NoContent, s1)"
    and "ap_sessions s t = Some b" and "bs_source b = FromDevice" and "now \<le> bs_expires b"
    and "cookie browserSessionCookieName r2 = Some t" and "trim_space t = t"
  shows "fst (authenticateWritableRequest fails e parse_time now r2 body s1) = Inr (session_user b)"
proof -
  have "ap_sessions s1 = ap_sessions s"
    using assms(1)
    by (auto simp: http_RevokeKey_def authenticatePersonalRequest_def unauthorized_def invalid_body_def keys_failure_def
        internal_error_def split: prod.splits option.splits sum.splits if_splits)
  with assms show ?thesis
    by (simp add: authenticateWritableRequest_def browserSessionFromRequest_def lookupBrowserSession_def)
qed

section \<open>An example\<close>

lemma demo_update:
  "map u_nickname (db_users (api_db (snd (api_serve demo_server (demo_run (719162 * day))
     (demo_request ''PUT'' ''/api/profile'' [(''labkit_browser_session'', ''tok'')] '' new '') demo_state)))) = [''n'', ''new'']"
  by code_simp

lemma demo_not_acting:
  "\<not> acts_for demo_server (demo_run (719162 * day)) (demo_request ''PUT'' ''/api/profile'' [(''labkit_browser_session'', ''tok'')] v) demo_state 1"
proof -
  have "fst (browserSessionFromRequest (ar_now (demo_run (719162 * day)) 0)
      (demo_request ''PUT'' ''/api/profile'' [(''labkit_browser_session'', ''tok'')] v) (ap_sessions demo_state))
      = Some demo_session"
    by code_simp
  moreover have "signed_headers (ae_time demo_server) (demo_request ''PUT'' ''/api/profile'' [(''labkit_browser_session'', ''tok'')] v)
      = Inl BadFingerprint"
    by code_simp
  ultimately show ?thesis by (simp add: acts_for_def demo_session_def)
qed

lemma demo_not_binding:
  "user \<notin> binding demo_server (demo_request ''PUT'' ''/api/profile'' [(''labkit_browser_session'', ''tok'')] v) demo_state d"
proof -
  have "find_route (routes False) ''PUT'' ''/api/profile'' = Some (EpUpdateProfile, [])" by code_simp
  then show ?thesis by (simp add: binding_def named_student_def demo_request_def demo_server_def)
qed


end
