(* ===== verification/Go_Url.thy ===== *)
theory Go_Url
  imports Http_Session
begin

text \<open>
  Go's \<^verbatim>\<open>net/url\<close>, as far as the command-line client uses it: \<^verbatim>\<open>url.Parse\<close> with its authority, paths and
  escapes, \<^verbatim>\<open>URL.Hostname\<close>, \<^verbatim>\<open>URL.Port\<close> and \<^verbatim>\<open>URL.ResolveReference\<close>, and the query functions. What
  \<^verbatim>\<open>netip.ParseAddr\<close> takes for an IPv6 literal is an argument.
\<close>

record url =
  u_scheme :: string
  u_opaque :: string
  u_user :: "string option"
  u_host :: string
  u_escaped :: string
  u_force_query :: bool
  u_query :: string
  u_fragment :: string

section \<open>Bytes and escapes\<close>

definition alpha_byte :: "char \<Rightarrow> bool" where
  "alpha_byte c \<longleftrightarrow> (let v = of_char c :: nat in 65 \<le> v \<and> v \<le> 90 \<or> 97 \<le> v \<and> v \<le> 122)"

definition alnum_byte :: "char \<Rightarrow> bool" where
  "alnum_byte c \<longleftrightarrow> alpha_byte c \<or> is_digit c"

definition unreserved_byte :: "char \<Rightarrow> bool" where
  "unreserved_byte c \<longleftrightarrow> alnum_byte c \<or> c \<in> set ''-_.~''"

definition percent_byte :: "char \<Rightarrow> string" where
  "percent_byte c =
     [CHR ''%'', ascii_upper (hex_digit (of_char c div 16)), ascii_upper (hex_digit (of_char c mod 16))]"

text \<open>\<^verbatim>\<open>EscapedPath\<close>: the spelling of the input where every byte may stand in a path, else a fresh encoding.\<close>

definition path_plain :: "char \<Rightarrow> bool" where
  "path_plain c \<longleftrightarrow> unreserved_byte c \<or> c \<in> set ''$&+,/:;=@''"

definition path_valid :: "char \<Rightarrow> bool" where
  "path_valid c \<longleftrightarrow> path_plain c \<or> c \<in> {CHR ''!'', CHR 0x27, CHR ''('', CHR '')'', CHR ''*'', CHR ''['', CHR '']'', CHR ''%''}"

definition escaped_path :: "string \<Rightarrow> string" where
  "escaped_path p =
     (if list_all path_valid p then p
      else concat (map (\<lambda>c. if path_plain c then [c] else percent_byte c) (unescape_bytes p)))"

text \<open>Hosts: escapes only of bytes outside ASCII and of the percent sign, as \<^verbatim>\<open>unescape\<close> has it.\<close>

definition host_byte :: "char \<Rightarrow> bool" where
  "host_byte c \<longleftrightarrow> (128::nat) \<le> of_char c \<or> unreserved_byte c
     \<or> c \<in> set ''!$&()*+,;=:[]<>'' \<or> c = CHR 0x27 \<or> c = CHR 0x22"

fun unescape_host :: "bool \<Rightarrow> string \<Rightarrow> string option" where
  "unescape_host zone [] = Some []"
| "unescape_host zone (c # s) =
     (if c \<noteq> CHR ''%'' then (if host_byte c then map_option (Cons c) (unescape_host zone s) else None)
      else (case s of
              a # b # t \<Rightarrow>
                (let v = char_of (16 * hex_value a + hex_value b)
                 in if \<not> (hex_byte a \<and> hex_byte b) then None
                    else if \<not> (a = CHR ''2'' \<and> b = CHR ''5'')
                        \<and> (if zone then v \<noteq> CHR '' '' \<and> \<not> host_byte v else hex_value a < 8) then None
                    else map_option (Cons v) (unescape_host zone t))
            | _ \<Rightarrow> None))"

definition validOptionalPort :: "string \<Rightarrow> bool" where
  "validOptionalPort p \<longleftrightarrow> p = [] \<or> hd p = CHR '':'' \<and> list_all is_digit (tl p)"

text \<open>The part before, and from, the last occurrence of a byte.\<close>

definition before_last :: "char \<Rightarrow> string \<Rightarrow> string" where
  "before_last c s = rev (drop 1 (dropWhile (\<lambda>d. d \<noteq> c) (rev s)))"

definition after_last :: "char \<Rightarrow> string \<Rightarrow> string" where
  "after_last c s = rev (takeWhile (\<lambda>d. d \<noteq> c) (rev s))"

text \<open>Cut before the first \<^verbatim>\<open>%25\<close>, which begins the zone.\<close>

fun zone_split :: "string \<Rightarrow> string \<times> string" where
  "zone_split [] = ([], [])"
| "zone_split (c # s) =
     (if has_prefix (c # s) ''%25'' then ([], c # s) else (let (a, b) = zone_split s in (c # a, b)))"

section \<open>Parsing\<close>

definition parse_host :: "(string \<Rightarrow> bool) \<Rightarrow> string \<Rightarrow> string option" where
  "parse_host ip6 host =
     (if CHR ''['' \<in> set host then
        (if \<not> has_prefix host ''['' \<or> CHR ''['' \<in> set (tl host) \<or> CHR '']'' \<notin> set host then None
         else (let port = after_last (CHR '']'') host; (n, z) = zone_split (before_last (CHR '']'') (tl host))
           in if \<not> validOptionalPort port then None
              else (case (unescape_host False n, unescape_host True z) of
                      (Some n', Some z') \<Rightarrow>
                        (if ip6 (n' @ z') then Some (''['' @ n' @ z' @ '']'' @ port) else None)
                    | _ \<Rightarrow> None)))
      else if \<not> validOptionalPort (dropWhile (\<lambda>c. c \<noteq> CHR '':'') host) then None
      else unescape_host False host)"

definition valid_userinfo :: "string \<Rightarrow> bool" where
  "valid_userinfo s \<longleftrightarrow>
     list_all (\<lambda>c. alnum_byte c \<or> c \<in> set ''-._:~!$&()*+,;=%@'' \<or> c = CHR 0x27) s \<and> percents_ok s"

definition parse_authority :: "(string \<Rightarrow> bool) \<Rightarrow> string \<Rightarrow> (string option \<times> string) option" where
  "parse_authority ip6 a =
     (if CHR ''@'' \<in> set a then
        (case parse_host ip6 (after_last (CHR ''@'') a) of
           None \<Rightarrow> None
         | Some h \<Rightarrow> (let ui = before_last (CHR ''@'') a in if valid_userinfo ui then Some (Some ui, h) else None))
      else map_option (Pair None) (parse_host ip6 a))"

text \<open>\<^verbatim>\<open>getScheme\<close>: \<open>None\<close> is an error; no scheme is the empty one.\<close>

definition get_scheme :: "string \<Rightarrow> (string \<times> string) option" where
  "get_scheme s =
     (let n = takeWhile (\<lambda>c. alnum_byte c \<or> c \<in> set ''+-.'') s; rest = drop (length n) s
      in if rest = [] \<or> hd rest \<noteq> CHR '':'' then Some ([], s)
         else if n = [] then None
         else if \<not> alpha_byte (hd n) then Some ([], s)
         else Some (n, tl rest))"

definition parse_rest :: "(string \<Rightarrow> bool) \<Rightarrow> string \<Rightarrow> bool \<Rightarrow> string \<Rightarrow> string \<Rightarrow> string \<Rightarrow> url option" where
  "parse_rest ip6 scheme force query frag rest =
     (let u = \<lparr>u_scheme = scheme, u_opaque = [], u_user = None, u_host = [], u_escaped = [],
               u_force_query = force, u_query = query, u_fragment = unescape_bytes frag\<rparr>
      in if \<not> has_prefix rest ''/'' \<and> scheme \<noteq> [] then Some (u\<lparr>u_opaque := rest\<rparr>)
         else if \<not> has_prefix rest ''/'' \<and> CHR '':'' \<in> set (takeWhile (\<lambda>c. c \<noteq> CHR ''/'') rest) then None
         else if has_prefix rest ''//'' \<and> (scheme \<noteq> [] \<or> \<not> has_prefix rest ''///'') then
           (let a = takeWhile (\<lambda>c. c \<noteq> CHR ''/'') (drop 2 rest); p = drop (2 + length a) rest
            in case parse_authority ip6 a of
                 None \<Rightarrow> None
               | Some (ui, h) \<Rightarrow>
                   (if percents_ok p then Some (u\<lparr>u_user := ui, u_host := h, u_escaped := escaped_path p\<rparr>) else None))
         else if percents_ok rest then Some (u\<lparr>u_escaped := escaped_path rest\<rparr>) else None)"

definition parse_url :: "(string \<Rightarrow> bool) \<Rightarrow> string \<Rightarrow> url option" where
  "parse_url ip6 raw =
     (let u = takeWhile (\<lambda>c. c \<noteq> CHR ''#'') raw; frag = drop (length u + 1) raw
      in if list_ex ctl_byte u \<or> \<not> percents_ok frag then None
         else (case get_scheme u of
           None \<Rightarrow> None
         | Some (scheme, rest) \<Rightarrow>
             (let p = takeWhile (\<lambda>c. c \<noteq> CHR ''?'') rest; q = drop (length p + 1) rest
              in parse_rest ip6 (to_lower scheme) (has_suffix rest ''?'' \<and> q = []) q frag p)))"

definition u_path :: "url \<Rightarrow> string" where
  "u_path u = unescape_bytes (u_escaped u)"

section \<open>Host name and port\<close>

definition split_port :: "string \<Rightarrow> string \<times> string" where
  "split_port host =
     (let p = after_last (CHR '':'') host
      in if CHR '':'' \<in> set host \<and> list_all is_digit p then (before_last (CHR '':'') host, p) else (host, []))"

definition hostname :: "url \<Rightarrow> string" where
  "hostname u =
     (let h = fst (split_port (u_host u))
      in if has_prefix h ''['' \<and> has_suffix h '']'' then butlast (tl h) else h)"

definition port :: "url \<Rightarrow> string" where
  "port u = snd (split_port (u_host u))"

section \<open>Resolving a reference\<close>

text \<open>\<^verbatim>\<open>resolvePath\<close>: the loop over the elements; \<open>dst\<close> is the builder behind its leading slash.\<close>

fun resolve_elems :: "string \<Rightarrow> bool \<Rightarrow> string list \<Rightarrow> string" where
  "resolve_elems dst first [] = dst"
| "resolve_elems dst first (e # es) =
     (if e = ''.'' then (if es = [] then dst @ ''/'' else resolve_elems dst False es)
      else if e = ''..'' then
        (let d = (if CHR ''/'' \<in> set dst then before_last (CHR ''/'') dst else [])
         in if es = [] then d @ ''/'' else resolve_elems d (CHR ''/'' \<in> set dst \<longrightarrow> first) es)
      else resolve_elems (dst @ (if first then [] else ''/'') @ e) False es)"

definition resolve_path :: "string \<Rightarrow> string \<Rightarrow> string" where
  "resolve_path base ref =
     (let full = (if ref = [] then base
                  else if has_prefix ref ''/'' then ref
                  else if CHR ''/'' \<in> set base then before_last (CHR ''/'') base @ ''/'' @ ref else ref)
      in if full = [] then []
         else (let r = resolve_elems [] True (split_on (CHR ''/'') full)
               in if has_prefix r ''/'' then r else CHR ''/'' # r))"

definition resolve_reference :: "url \<Rightarrow> url \<Rightarrow> url" where
  "resolve_reference base ref =
     (let u = (if u_scheme ref = [] then ref\<lparr>u_scheme := u_scheme base\<rparr> else ref)
      in if u_scheme ref \<noteq> [] \<or> u_host ref \<noteq> [] \<or> u_user ref \<noteq> None then
           u\<lparr>u_escaped := resolve_path (u_escaped ref) []\<rparr>
         else if u_opaque ref \<noteq> [] then u\<lparr>u_user := None, u_host := [], u_escaped := []\<rparr>
         else
           (let v = (if u_escaped ref = [] \<and> \<not> u_force_query ref \<and> u_query ref = [] then
                       (if u_fragment ref = [] then u\<lparr>u_query := u_query base, u_fragment := u_fragment base\<rparr>
                        else u\<lparr>u_query := u_query base\<rparr>)
                     else u)
            in if u_escaped ref = [] \<and> u_opaque base \<noteq> [] then
                 v\<lparr>u_opaque := u_opaque base, u_user := None, u_host := [], u_escaped := []\<rparr>
               else v\<lparr>u_host := u_host base, u_user := u_user base,
                      u_escaped := resolve_path (u_escaped base) (u_escaped ref)\<rparr>))"

section \<open>Queries\<close>

definition query_escape :: "string \<Rightarrow> string" where
  "query_escape s =
     concat (map (\<lambda>c. if unreserved_byte c then [c] else if c = CHR '' '' then ''+'' else percent_byte c) s)"

definition query_unescape :: "string \<Rightarrow> string option" where
  "query_unescape s =
     (if percents_ok s then Some (unescape_bytes (map (\<lambda>c. if c = CHR ''+'' then CHR '' '' else c) s)) else None)"

text \<open>\<^verbatim>\<open>URL.Query().Get\<close>: pairs with a semicolon or a broken escape are dropped.\<close>

definition query_pair :: "string \<Rightarrow> (string \<times> string) option" where
  "query_pair s =
     (if CHR '';'' \<in> set s \<or> s = [] then None
      else (let k = takeWhile (\<lambda>c. c \<noteq> CHR ''='') s
            in case (query_unescape k, query_unescape (drop (length k + 1) s)) of
                 (Some a, Some b) \<Rightarrow> Some (a, b) | _ \<Rightarrow> None))"

definition query_value :: "string \<Rightarrow> string \<Rightarrow> string" where
  "query_value raw k =
     (case map_of (List.map_filter query_pair (split_on (CHR ''&'') raw)) k of None \<Rightarrow> [] | Some v \<Rightarrow> v)"

end
