(* ===== verification/Cli_Config.thy ===== *)
theory Cli_Config
  imports Go_Url "HOL-Library.AList"
begin

text \<open>
  The configuration of the command-line client: \<^verbatim>\<open>apps/cli/internal/config/config.go\<close> and the part of
  \<^verbatim>\<open>apps/cli/internal/commands/auth.go\<close> that finds the server, the lab and the key of a command. The disk maps
  paths to contents; \<open>io_faults\<close> says which calls of the operating system fail for another reason than a
  missing file. The TOML decoder and encoder are arguments. A range over a Go map takes the order of the list.
\<close>

section \<open>Data\<close>

datatype cli_error =
    IoError string
  | TomlError
  | UnexpectedKey string
  | KeyringKey string
  | UrlRequired
  | UrlInvalid
  | UrlNotAbsolute
  | UrlHasPath
  | UrlNotOrigin
  | NoDefaultEntry string
  | KeyAbsent
  | KeyFileInvalid
  | KeyEncrypted
  | KeyUndecryptable
  | KeyNotEd25519
  | KeyEncoding
  | KeyNeedsTerminal
  | PassphraseEmpty
  | PassphraseMismatch
  | PassphraseUnread
  | EncryptionUndecided
  | FlagsExclusive
  | NoRandomBytes
  | LabRequired
  | KeyIdRequired
  | RequestInvalid
  | Unreachable
  | ApiError nat string string
  | Undecodable
  | RevokeFailed string
  | AuthorizationExpired
  | UnexpectedStatus string
  | FilesMissing "string list"
  | FilesUndeclared
  | FilePathInvalid
  | FileDuplicate string
  | FilesUnexpected "string list"
  | ArchiveUnwritable
  | TrackDisabled
  | TrackInvalid
  | PathNotRelative
  | RedirectMissing
  | ServerSchemeInvalid
  | RedirectSchemeInvalid
  | RedirectOtherOrigin
  | KeyIdInvalid
  | NoRelease
  | NoAsset
  | ChecksumMismatch

record config =
  cf_server :: string
  cf_lab :: string
  cf_key_path :: string
  cf_key_id :: int

record project_config =
  pj_server :: string
  pj_lab :: string

record server_entry =
  se_key_path :: string
  se_fingerprint :: string
  se_encrypted :: bool

record global_config =
  gc_default :: string
  gc_servers :: "(string \<times> server_entry) list"

type_synonym disk = "string \<rightharpoonup> string"

record io_faults =
  io_stat :: "string \<Rightarrow> bool"
  io_read :: "string \<Rightarrow> bool"
  io_write :: "string \<Rightarrow> bool"

datatype toml_error = TomlBroken | TomlExtra string

record toml =
  tm_global :: "string \<Rightarrow> toml_error + (string \<times> (string \<times> server_entry) list)"
  tm_config :: "string \<Rightarrow> toml_error + config"
  tm_project :: "string \<Rightarrow> toml_error + project_config"
  tm_put_global :: "global_config \<Rightarrow> string option"
  tm_put_config :: "config \<Rightarrow> string option"

definition no_config :: config where
  "no_config = \<lparr>cf_server = [], cf_lab = [], cf_key_path = [], cf_key_id = 0\<rparr>"

definition no_project :: project_config where "no_project = \<lparr>pj_server = [], pj_lab = []\<rparr>"

definition no_entry :: server_entry where
  "no_entry = \<lparr>se_key_path = [], se_fingerprint = [], se_encrypted = False\<rparr>"

definition no_global :: global_config where "no_global = \<lparr>gc_default = [], gc_servers = []\<rparr>"

section \<open>Paths\<close>

definition ResolveDir :: "string \<Rightarrow> string \<Rightarrow> string option \<Rightarrow> string" where
  "ResolveDir config_dir xdg home =
     (if \<not> blank config_dir then path_clean (trim_space config_dir)
      else if \<not> blank xdg then path_join (trim_space xdg) ''labkit''
      else (case home of
              None \<Rightarrow> path_join ''.'' ''.labkit''
            | Some h \<Rightarrow> if blank h then path_join ''.'' ''.labkit'' else path_join h ''.config/labkit''))"

definition ConfigPath :: "string \<Rightarrow> string" where "ConfigPath dir = path_join dir ''config.toml''"
definition ProjectConfigPath :: "string \<Rightarrow> string" where "ProjectConfigPath dir = path_join dir ''.labkit/config.toml''"
definition ResolveKeyPath :: "string \<Rightarrow> string" where "ResolveKeyPath dir = path_join dir ''id_ed25519''"

definition defaultServerURL :: string where "defaultServerURL = ''http://localhost:8080''"

definition ResolveServerURL :: "string \<Rightarrow> string" where
  "ResolveServerURL env = (if blank env then defaultServerURL else trim_space env)"

section \<open>Origins\<close>

definition defaultPortForScheme :: "string \<Rightarrow> string" where
  "defaultPortForScheme scheme =
     (let s = to_lower (trim_space scheme)
      in if s = ''http'' then ''80'' else if s = ''https'' then ''443'' else [])"

definition JoinHostPort :: "string \<Rightarrow> string \<Rightarrow> string" where
  "JoinHostPort host p =
     (if CHR '':'' \<in> set host then ''['' @ host @ '']:'' @ p else host @ CHR '':'' # p)"

definition NormalizeServerOrigin :: "(string \<Rightarrow> bool) \<Rightarrow> string \<Rightarrow> cli_error + string" where
  "NormalizeServerOrigin ip6 raw =
     (let t = trim_space raw
      in if t = [] then Inl UrlRequired
         else (case parse_url ip6 t of
           None \<Rightarrow> Inl UrlInvalid
         | Some u \<Rightarrow>
             (if u_scheme u = [] \<or> blank (u_host u) then Inl UrlNotAbsolute
              else if \<not> blank (u_path u) \<and> trim_space (u_path u) \<noteq> ''/'' then Inl UrlHasPath
              else if \<not> blank (u_query u) \<or> \<not> blank (u_fragment u) \<or> u_user u \<noteq> None then Inl UrlNotOrigin
              else (let scheme = to_lower (u_scheme u); host = to_lower (hostname u);
                        p = (if port u = defaultPortForScheme scheme then [] else port u)
                    in Inr (scheme @ ''://'' @
                         (if p \<noteq> [] then JoinHostPort host p
                          else if CHR '':'' \<in> set host then ''['' @ host @ '']'' else host))))))"

section \<open>The global configuration\<close>

fun normalize_servers ::
  "(string \<Rightarrow> bool) \<Rightarrow> (string \<times> server_entry) list \<Rightarrow> (string \<times> server_entry) list \<Rightarrow>
   cli_error + (string \<times> server_entry) list" where
  "normalize_servers ip6 out [] = Inr out"
| "normalize_servers ip6 out ((origin, entry) # es) =
     bindR (NormalizeServerOrigin ip6 origin) (\<lambda>o'. normalize_servers ip6 (AList.update o' entry out) es)"

definition normalizeGlobalConfig :: "(string \<Rightarrow> bool) \<Rightarrow> global_config \<Rightarrow> cli_error + global_config" where
  "normalizeGlobalConfig ip6 g =
     bindR (normalize_servers ip6 [] (gc_servers g)) (\<lambda>servers.
       let d = trim_space (gc_default g)
       in bindR (if d = [] then Inr [] else NormalizeServerOrigin ip6 d) (\<lambda>d'.
            if d' \<noteq> [] \<and> map_of servers d' = None then Inl (NoDefaultEntry d')
            else Inr \<lparr>gc_default = d', gc_servers = servers\<rparr>))"

definition LookupServerEntry ::
  "(string \<Rightarrow> bool) \<Rightarrow> string \<Rightarrow> global_config \<Rightarrow> cli_error + server_entry option" where
  "LookupServerEntry ip6 raw g =
     bindR (NormalizeServerOrigin ip6 raw) (\<lambda>o'. Inr (map_of (gc_servers g) o'))"

definition SetServerEntry ::
  "(string \<Rightarrow> bool) \<Rightarrow> string \<Rightarrow> server_entry \<Rightarrow> global_config \<Rightarrow> cli_error + global_config" where
  "SetServerEntry ip6 raw entry g =
     bindR (NormalizeServerOrigin ip6 raw) (\<lambda>o'. Inr (g\<lparr>gc_servers := AList.update o' entry (gc_servers g)\<rparr>))"

section \<open>Reading and writing\<close>

definition read_file :: "io_faults \<Rightarrow> disk \<Rightarrow> string \<Rightarrow> cli_error + string" where
  "read_file f d p =
     (if io_read f p then Inl (IoError p) else case d p of None \<Rightarrow> Inl (IoError p) | Some data \<Rightarrow> Inr data)"

definition decoded :: "(string \<Rightarrow> cli_error) \<Rightarrow> toml_error + 'a \<Rightarrow> cli_error + 'a" where
  "decoded extra res = (case res of Inl TomlBroken \<Rightarrow> Inl TomlError | Inl (TomlExtra k) \<Rightarrow> Inl (extra k) | Inr v \<Rightarrow> Inr v)"

definition isGlobalKeyringOnlyKey :: "string \<Rightarrow> bool" where
  "isGlobalKeyringOnlyKey k \<longleftrightarrow> k \<in> {''default_server_url'', ''servers'', ''key_fingerprint'', ''encrypted''}"

definition readFile :: "toml \<Rightarrow> io_faults \<Rightarrow> disk \<Rightarrow> string \<Rightarrow> string \<Rightarrow> cli_error + config" where
  "readFile tm f d path defaultKeyPath =
     bindR (read_file f d path) (\<lambda>data.
     bindR (decoded (\<lambda>k. if isGlobalKeyringOnlyKey k then KeyringKey k else UnexpectedKey k) (tm_config tm data)) (\<lambda>c.
       Inr (if cf_key_path c = [] \<and> \<not> blank defaultKeyPath then c\<lparr>cf_key_path := defaultKeyPath\<rparr> else c)))"

definition Read :: "toml \<Rightarrow> io_faults \<Rightarrow> disk \<Rightarrow> string \<Rightarrow> cli_error + config" where
  "Read tm f d dir =
     (let path = ConfigPath dir
      in if io_stat f path then Inl (IoError path)
         else if d path = None then Inr (no_config\<lparr>cf_key_path := ResolveKeyPath dir\<rparr>)
         else readFile tm f d path (ResolveKeyPath dir))"

definition readGlobalFile :: "toml \<Rightarrow> (string \<Rightarrow> bool) \<Rightarrow> io_faults \<Rightarrow> disk \<Rightarrow> string \<Rightarrow> cli_error + global_config" where
  "readGlobalFile tm ip6 f d path =
     bindR (read_file f d path) (\<lambda>data.
     bindR (decoded UnexpectedKey (tm_global tm data)) (\<lambda>(url, servers).
       normalizeGlobalConfig ip6 \<lparr>gc_default = trim_space url, gc_servers = servers\<rparr>))"

definition ReadGlobal :: "toml \<Rightarrow> (string \<Rightarrow> bool) \<Rightarrow> io_faults \<Rightarrow> disk \<Rightarrow> string \<Rightarrow> cli_error + global_config" where
  "ReadGlobal tm ip6 f d dir =
     (let path = ConfigPath dir
      in if io_stat f path then Inl (IoError path)
         else if d path = None then Inr no_global
         else readGlobalFile tm ip6 f d path)"

definition write_file :: "io_faults \<Rightarrow> string \<Rightarrow> string \<Rightarrow> disk \<Rightarrow> (cli_error + unit) \<times> disk" where
  "write_file f p data d = (if io_write f p then (Inl (IoError p), d) else (Inr (), d(p \<mapsto> data)))"

definition Write :: "toml \<Rightarrow> io_faults \<Rightarrow> string \<Rightarrow> config \<Rightarrow> disk \<Rightarrow> (cli_error + unit) \<times> disk" where
  "Write tm f dir c d =
     (let c' = (if cf_key_path c = [] then c\<lparr>cf_key_path := ResolveKeyPath dir\<rparr> else c)
      in case tm_put_config tm c' of
           None \<Rightarrow> (Inl TomlError, d)
         | Some data \<Rightarrow> write_file f (ConfigPath dir) (data @ [CHR 0x0A]) d)"

definition WriteGlobal ::
  "toml \<Rightarrow> (string \<Rightarrow> bool) \<Rightarrow> io_faults \<Rightarrow> string \<Rightarrow> global_config \<Rightarrow> disk \<Rightarrow> (cli_error + unit) \<times> disk" where
  "WriteGlobal tm ip6 f dir g d =
     (case normalizeGlobalConfig ip6 g of
        Inl err \<Rightarrow> (Inl err, d)
      | Inr n \<Rightarrow>
          (case tm_put_global tm n of
             None \<Rightarrow> (Inl TomlError, d)
           | Some data \<Rightarrow> write_file f (ConfigPath dir) (data @ [CHR 0x0A]) d))"

definition readProjectFile :: "toml \<Rightarrow> io_faults \<Rightarrow> disk \<Rightarrow> string \<Rightarrow> cli_error + project_config" where
  "readProjectFile tm f d path =
     bindR (read_file f d path) (\<lambda>data. decoded UnexpectedKey (tm_project tm data))"

section \<open>The search for a project's configuration\<close>

text \<open>The loop of \<^verbatim>\<open>FindLocalConfig\<close>: the directory, its parent and so on, until a parent is its own parent.\<close>

function find_local :: "toml \<Rightarrow> io_faults \<Rightarrow> disk \<Rightarrow> string \<Rightarrow> cli_error + (project_config \<times> string)" where
  "find_local tm f d current =
     (let path = ProjectConfigPath current
      in if io_stat f path then Inl (IoError path)
         else if d path \<noteq> None then bindR (readProjectFile tm f d path) (\<lambda>c. Inr (c, path))
         else if path_dir current = current then Inr (no_project, [])
         else find_local tm f d (path_dir current))"
  by pat_completeness auto
termination
  by (relation "measure (\<lambda>(tm, f, d, current). path_rank current)") (auto simp: path_dir_rank)

declare find_local.simps [simp del]

definition FindLocalConfig ::
  "toml \<Rightarrow> io_faults \<Rightarrow> disk \<Rightarrow> string option \<Rightarrow> string \<Rightarrow> cli_error + (project_config \<times> string)" where
  "FindLocalConfig tm f d wd start =
     (if blank start then
        (case wd of None \<Rightarrow> Inl (IoError ''.'') | Some w \<Rightarrow> find_local tm f d (path_clean w))
      else find_local tm f d (path_clean (trim_space start)))"

subsection \<open>The nearest configuration\<close>

lemma find_local_nearest:
  "\<exists>k < path_rank p. let path = (\<lambda>j. ProjectConfigPath ((path_dir ^^ j) p)) in
     (\<forall>j < k. \<not> io_stat f (path j) \<and> d (path j) = None) \<and>
     (io_stat f (path k) \<or> d (path k) \<noteq> None \<or> path_dir ((path_dir ^^ k) p) = (path_dir ^^ k) p) \<and>
     find_local tm f d p =
       (if io_stat f (path k) then Inl (IoError (path k))
        else if d (path k) \<noteq> None then bindR (readProjectFile tm f d (path k)) (\<lambda>c. Inr (c, path k))
        else Inr (no_project, []))"
proof (induction tm f d p rule: find_local.induct)
  case (1 tm f d p)
  let ?path = "\<lambda>p j. ProjectConfigPath ((path_dir ^^ j) p)"
  show ?case
  proof (cases "io_stat f (?path p 0) \<or> d (?path p 0) \<noteq> None \<or> path_dir p = p")
    case True
    then show ?thesis
      by (intro exI [of _ 0]) (auto simp: find_local.simps [of tm f d p] Let_def path_rank_def)
  next
    case False
    with 1 obtain k where k: "k < path_rank (path_dir p)"
      "\<forall>j < k. \<not> io_stat f (?path (path_dir p) j) \<and> d (?path (path_dir p) j) = None"
      "io_stat f (?path (path_dir p) k) \<or> d (?path (path_dir p) k) \<noteq> None
       \<or> path_dir ((path_dir ^^ k) (path_dir p)) = (path_dir ^^ k) (path_dir p)"
      "find_local tm f d (path_dir p) =
         (if io_stat f (?path (path_dir p) k) then Inl (IoError (?path (path_dir p) k))
          else if d (?path (path_dir p) k) \<noteq> None
            then bindR (readProjectFile tm f d (?path (path_dir p) k)) (\<lambda>c. Inr (c, ?path (path_dir p) k))
          else Inr (no_project, []))"
      by (auto simp: Let_def)
    have shift: "(path_dir ^^ j) (path_dir p) = (path_dir ^^ Suc j) p" for j
      by (simp only: funpow_Suc_right comp_apply)
    have "Suc k < path_rank p" using k(1) False path_dir_rank [of p] by simp
    moreover have "\<not> io_stat f (?path p j) \<and> d (?path p j) = None" if "j < Suc k" for j
      using that k(2) False by (cases j) (auto simp: shift)
    moreover have "find_local tm f d p = find_local tm f d (path_dir p)"
      using False by (simp add: find_local.simps [of tm f d p] Let_def)
    ultimately show ?thesis using k(3,4) by (intro exI [of _ "Suc k"]) (simp add: Let_def shift del: funpow.simps)
  qed
qed

text \<open>
  C0. The search for a project's configuration ends: it looks at the working directory and its ancestors, at
  most as many as the path has bytes, stops at the first of them that has a configuration file, or cannot
  be inspected, or is the root, and returns what that file holds; without a file it returns nothing.
\<close>

theorem FindLocalConfig_nearest:
  "\<exists>k \<le> length (path_clean w). let path = (\<lambda>j. ProjectConfigPath ((path_dir ^^ j) (path_clean w))) in
     (\<forall>j < k. \<not> io_stat f (path j) \<and> d (path j) = None) \<and>
     (io_stat f (path k) \<or> d (path k) \<noteq> None \<or>
      path_dir ((path_dir ^^ k) (path_clean w)) = (path_dir ^^ k) (path_clean w)) \<and>
     FindLocalConfig tm f d (Some w) [] =
       (if io_stat f (path k) then Inl (IoError (path k))
        else if d (path k) \<noteq> None then bindR (readProjectFile tm f d (path k)) (\<lambda>c. Inr (c, path k))
        else Inr (no_project, []))"
proof -
  have "path_rank (path_clean w) \<le> length (path_clean w) + 1"
    using path_clean_nonempty [of w] by (simp add: path_rank_def)
  moreover obtain k where "k < path_rank (path_clean w)" and k: "let path = (\<lambda>j. ProjectConfigPath ((path_dir ^^ j) (path_clean w))) in
     (\<forall>j < k. \<not> io_stat f (path j) \<and> d (path j) = None) \<and>
     (io_stat f (path k) \<or> d (path k) \<noteq> None \<or> path_dir ((path_dir ^^ k) (path_clean w)) = (path_dir ^^ k) (path_clean w)) \<and>
     find_local tm f d (path_clean w) =
       (if io_stat f (path k) then Inl (IoError (path k))
        else if d (path k) \<noteq> None then bindR (readProjectFile tm f d (path k)) (\<lambda>c. Inr (c, path k))
        else Inr (no_project, []))"
    using find_local_nearest by blast
  moreover have "FindLocalConfig tm f d (Some w) [] = find_local tm f d (path_clean w)"
    by (simp add: FindLocalConfig_def)
  ultimately show ?thesis by (intro exI [of _ k]) simp
qed

definition no_io_faults :: io_faults where
  "no_io_faults = \<lparr>io_stat = (\<lambda>_. False), io_read = (\<lambda>_. False), io_write = (\<lambda>_. False)\<rparr>"

text \<open>A decoder for examples: the server is the first line of a file, the lab the second.\<close>

definition sample_toml :: toml where
  "sample_toml =
     (let line = (\<lambda>i s. let ls = split_on (CHR 0x0A) s in if i < length ls then ls ! i else [])
      in \<lparr>tm_global = (\<lambda>s. Inr (line 0 s, if line 1 s = [] then []
             else [(line 0 s, \<lparr>se_key_path = line 1 s, se_fingerprint = line 2 s, se_encrypted = False\<rparr>)])),
          tm_config = (\<lambda>s. Inr \<lparr>cf_server = line 0 s, cf_lab = line 1 s, cf_key_path = [], cf_key_id = 0\<rparr>),
          tm_project = (\<lambda>s. Inr \<lparr>pj_server = line 0 s, pj_lab = line 1 s\<rparr>),
          tm_put_global = (\<lambda>g. Some (join_with [CHR 0x0A] (gc_default g # concat (map (\<lambda>(k, e). [se_key_path e, se_fingerprint e]) (gc_servers g))))),
          tm_put_config = (\<lambda>c. Some (cf_server c @ [CHR 0x0A] @ cf_lab c))\<rparr>)"

lemma FindLocalConfig_nearest_witness:
  "FindLocalConfig sample_toml no_io_faults [''/home/.labkit/config.toml'' \<mapsto> ''http://h''] (Some ''/home/ann/src'') [] =
     Inr (\<lparr>pj_server = ''http://h'', pj_lab = []\<rparr>, ''/home/.labkit/config.toml'') \<and>
   (\<exists>k \<le> length ''/home/ann/src''. let path = (\<lambda>j. ProjectConfigPath ((path_dir ^^ j) ''/home/ann/src'')) in
     (\<forall>j < k. path j \<noteq> ''/home/.labkit/config.toml'') \<and> path k = ''/home/.labkit/config.toml'')"
proof -
  let ?d = "[''/home/.labkit/config.toml'' \<mapsto> ''http://h'']"
  have run: "FindLocalConfig sample_toml no_io_faults ?d (Some ''/home/ann/src'') [] =
     Inr (\<lparr>pj_server = ''http://h'', pj_lab = []\<rparr>, ''/home/.labkit/config.toml'')" by code_simp
  have w: "path_clean ''/home/ann/src'' = ''/home/ann/src''" by code_simp
  have "\<exists>k \<le> length ''/home/ann/src''. let path = (\<lambda>j. ProjectConfigPath ((path_dir ^^ j) ''/home/ann/src'')) in
     (\<forall>j < k. path j \<noteq> ''/home/.labkit/config.toml'') \<and> path k = ''/home/.labkit/config.toml''"
    using FindLocalConfig_nearest [of "''/home/ann/src''" no_io_faults ?d sample_toml] unfolding w run
    by (auto simp: Let_def no_io_faults_def split: if_splits)
  with run show ?thesis by (auto simp: Let_def)
qed

end
