(* ===== verification/Cli_Origin.thy ===== *)
theory Cli_Origin
  imports Cli_Config
begin

text \<open>
  \<^verbatim>\<open>NormalizeServerOrigin\<close> names the entries of the keyring, and is applied again whenever an entry is stored,
  looked up or read back. This theory shows that an origin normalises to itself, and where that fails.
\<close>

section \<open>Case mapping of hosts and schemes\<close>

lemma lower_ascii: "list_all is_ascii s \<Longrightarrow> to_lower s = map ascii_lower s"
  by (induction s rule: to_lower.induct) (auto simp: is_ascii_def)

lemma of_char_ascii_lower: "of_char (ascii_lower c) = (let v = of_char c :: nat in if 65 \<le> v \<and> v \<le> 90 then v + 32 else v)"
  by (simp add: ascii_lower_def Let_def)

lemma ascii_lower_idem [simp]: "ascii_lower (ascii_lower c) = ascii_lower c"
  by (simp add: ascii_lower_def)

lemma char_eq_of: "c = d \<longleftrightarrow> of_char c = (of_char d :: nat)"
  by simp

text \<open>Lowering keeps the bytes of hosts, schemes and ports in their classes, and moves only letters.\<close>

lemma ascii_lower_other: "\<not> alpha_byte d \<Longrightarrow> ascii_lower c = d \<longleftrightarrow> c = d"
  unfolding char_eq_of of_char_ascii_lower Let_def alpha_byte_def by auto

lemma ascii_lower_alpha [simp]: "alpha_byte (ascii_lower c) = alpha_byte c"
  by (auto simp: alpha_byte_def of_char_ascii_lower Let_def)

lemma ascii_lower_digit [simp]: "is_digit (ascii_lower c) = is_digit c"
  by (auto simp: is_digit_def of_char_ascii_lower Let_def)

lemma ascii_lower_ascii [simp]: "is_ascii (ascii_lower c) = is_ascii c"
  by (auto simp: is_ascii_def of_char_ascii_lower Let_def)

lemma ascii_lower_host [simp]: "host_byte c \<Longrightarrow> host_byte (ascii_lower c)"
proof (cases "alpha_byte c")
  case True
  then show "host_byte (ascii_lower c)" by (simp add: host_byte_def unreserved_byte_def alnum_byte_def)
next
  case False
  then have "ascii_lower c = c" by (auto simp: alpha_byte_def ascii_lower_def Let_def)
  then show "host_byte c \<Longrightarrow> host_byte (ascii_lower c)" by simp
qed

lemma host_byte_not: "host_byte c \<Longrightarrow> c \<noteq> CHR ''%'' \<and> c \<noteq> CHR ''/'' \<and> c \<noteq> CHR ''?'' \<and> c \<noteq> CHR ''#'' \<and> c \<noteq> CHR ''@''
    \<and> \<not> ctl_byte c \<and> c \<noteq> CHR '' ''"
  by (auto simp: host_byte_def unreserved_byte_def alnum_byte_def alpha_byte_def is_digit_def ctl_byte_def Let_def)

lemma unescape_host_plain: "list_all host_byte s \<Longrightarrow> unescape_host z s = Some s"
  by (induction s) (auto dest: host_byte_not)

lemma unescape_host_plain_inv: "unescape_host z s = Some h \<Longrightarrow> CHR ''%'' \<notin> set s \<Longrightarrow> h = s \<and> list_all host_byte s"
  by (induction s arbitrary: h) (auto split: if_splits)


lemma before_last_eq: "c \<notin> set y \<Longrightarrow> before_last c (x @ c # y) = x"
proof -
  assume "c \<notin> set y"
  then have "dropWhile (\<lambda>d. d \<noteq> c) (rev y @ c # rev x) = c # rev x" by (subst dropWhile_append2) auto
  then show ?thesis by (simp add: before_last_def)
qed

lemma after_last_eq: "c \<notin> set y \<Longrightarrow> after_last c (x @ c # y) = y"
proof -
  assume "c \<notin> set y"
  then have "takeWhile (\<lambda>d. d \<noteq> c) (rev y @ c # rev x) = rev y" by (subst takeWhile_append2) auto
  then show ?thesis by (simp add: after_last_def)
qed

lemma digits_without: "list_all is_digit ds \<Longrightarrow> \<not> is_digit c \<Longrightarrow> c \<notin> set ds"
  by (auto simp: list_all_iff)

lemma not_digits [simp]: "\<not> is_digit (CHR ''['')" "\<not> is_digit (CHR '']'')" "\<not> is_digit (CHR '':'')"
  by (simp_all add: is_digit_def)

lemma last_cut: "c \<in> set s \<Longrightarrow> s = before_last c s @ c # after_last c s \<and> c \<notin> set (after_last c s)"
proof -
  assume "c \<in> set s"
  then obtain x y where "s = x @ c # y" "c \<notin> set y" by (meson split_list_last)
  then show ?thesis by (simp add: before_last_eq after_last_eq)
qed

lemma zone_split_append: "zone_split s = (a, b) \<Longrightarrow> s = a @ b \<and> (b = [] \<or> has_prefix b ''%25'')"
  by (induction s arbitrary: a b) (auto split: if_splits prod.splits)

lemma zone_split_plain: "CHR ''%'' \<notin> set s \<Longrightarrow> zone_split s = (s, [])"
  by (induction s) (auto simp: has_prefix_def)

lemma valid_port_host: "validOptionalPort p \<Longrightarrow> list_all host_byte p"
  by (cases p) (auto simp: validOptionalPort_def host_byte_def unreserved_byte_def alnum_byte_def list_all_iff)

lemma valid_port_chars: "validOptionalPort p \<Longrightarrow> p = [] \<or> (\<exists>ds. p = CHR '':'' # ds \<and> list_all is_digit ds)"
  by (cases p) (auto simp: validOptionalPort_def)

text \<open>What the host of a URL without escapes looks like.\<close>

definition plain_host :: "(string \<Rightarrow> bool) \<Rightarrow> string \<Rightarrow> string \<Rightarrow> string \<Rightarrow> bool" where
  "plain_host ip6 n p a \<longleftrightarrow> validOptionalPort p \<and> list_all host_byte n \<and> CHR ''['' \<notin> set n \<and>
     (a = n @ p \<and> CHR '':'' \<notin> set n \<or> a = CHR ''['' # n @ CHR '']'' # p \<and> ip6 n)"

lemma parse_host_plain:
  assumes "CHR ''%'' \<notin> set a" and "parse_host ip6 a = Some h"
  shows "h = a \<and> (\<exists>n p. plain_host ip6 n p a)"
proof (cases "CHR ''['' \<in> set a")
  case True
  from assms True have b: "has_prefix a ''[''" "CHR ''['' \<notin> set (tl a)" "CHR '']'' \<in> set a"
    by (auto simp: parse_host_def split: if_splits)
  then obtain b where a: "a = CHR ''['' # b" by (cases a) (auto simp: has_prefix_def)
  define n where "n = before_last (CHR '']'') b"
  define p where "p = after_last (CHR '']'') b"
  have bb: "CHR '']'' \<in> set b" using b(3) a by auto
  then have nb: "b = n @ CHR '']'' # p" and np: "CHR '']'' \<notin> set p" unfolding n_def p_def using last_cut by blast+
  have pa: "after_last (CHR '']'') a = p"
    using after_last_eq [OF np, of "CHR ''['' # n"] by (simp add: a nb)
  have "zone_split n = (n, [])" using assms(1) by (intro zone_split_plain) (auto simp: a nb)
  then obtain n' where n': "unescape_host False n = Some n'" and r: "validOptionalPort p" "ip6 n'" "h = ''['' @ n' @ '']'' @ p"
    using assms(2) True b pa a unfolding parse_host_def by (auto simp: n_def [symmetric] Let_def split: if_splits option.splits)
  have "n' = n \<and> list_all host_byte n"
    using unescape_host_plain_inv [OF n'] assms(1) by (auto simp: a nb)
  then show ?thesis using r b(2) a nb by (auto simp: plain_host_def)
next
  case False
  define n where "n = takeWhile (\<lambda>c. c \<noteq> CHR '':'') a"
  define p where "p = dropWhile (\<lambda>c. c \<noteq> CHR '':'') a"
  have a: "a = n @ p" by (simp add: n_def p_def)
  have "CHR '':'' \<notin> set n" unfolding n_def by (auto dest: set_takeWhileD)
  moreover from assms False have "validOptionalPort p" and u: "unescape_host False a = Some h"
    by (auto simp: parse_host_def p_def split: if_splits)
  moreover have "h = a \<and> list_all host_byte a" using unescape_host_plain_inv [OF u assms(1)] .
  ultimately have "plain_host ip6 n p a" using False a by (auto simp: plain_host_def)
  with \<open>h = a \<and> list_all host_byte a\<close> show ?thesis by blast
qed

lemma plain_host_parses:
  assumes "plain_host ip6 n p a" and "CHR '']'' \<notin> set n \<or> CHR ''['' \<notin> set a"
  shows "parse_host ip6 a = Some a"
proof -
  from assms(1) have p: "validOptionalPort p" "list_all host_byte p" and n: "list_all host_byte n" "CHR ''['' \<notin> set n"
    by (auto simp: plain_host_def valid_port_host)
  have pc: "CHR '']'' \<notin> set p" "CHR ''['' \<notin> set p"
    using valid_port_chars [OF p(1)] by (auto simp: digits_without)
  have z: "zone_split n = (n, [])" using n by (intro zone_split_plain) (auto simp: list_all_iff dest: host_byte_not)
  from assms(1) consider "a = n @ p" "CHR '':'' \<notin> set n" | "a = CHR ''['' # n @ CHR '']'' # p" "ip6 n"
    by (auto simp: plain_host_def)
  then show ?thesis
  proof cases
    case 1
    then have "dropWhile (\<lambda>c. c \<noteq> CHR '':'') a = dropWhile (\<lambda>c. c \<noteq> CHR '':'') p"
      unfolding 1(1) by (subst dropWhile_append2) auto
    also have "\<dots> = p" using valid_port_chars [OF p(1)] by auto
    finally have "dropWhile (\<lambda>c. c \<noteq> CHR '':'') a = p" .
    with 1 n p pc show ?thesis by (simp add: parse_host_def unescape_host_plain)
  next
    case 2
    have al: "after_last (CHR '']'') a = p" using after_last_eq [OF pc(1), of "CHR ''['' # n"] by (simp add: 2)
    with 2 n p pc z show ?thesis
      by (auto simp: parse_host_def before_last_eq unescape_host_plain has_prefix_def)
  qed
qed

lemma plain_host_parts:
  assumes "plain_host ip6 n p a" and "u_host u = a"
  shows "hostname u = n" and "port u = drop 1 p"
proof -
  from assms(1) have p: "validOptionalPort p" and nb: "CHR ''['' \<notin> set n" by (auto simp: plain_host_def)
  define b where "b = take (length a - length p) a"
  from assms(1) have ab: "a = b @ p" and b: "b = n \<and> CHR '':'' \<notin> set n \<or> b = CHR ''['' # n @ '']''"
    by (auto simp: plain_host_def b_def)
  have sp: "split_port a = (b, drop 1 p)"
  proof (cases p)
    case Nil
    have "\<not> list_all is_digit (after_last (CHR '':'') b)" if "CHR '':'' \<in> set b"
    proof -
      from that b have "b = CHR ''['' # n @ '']''" by auto
      then have "last b = CHR '']''" by simp
      moreover have cut: "b = before_last (CHR '':'') b @ CHR '':'' # after_last (CHR '':'') b" using last_cut [OF that] by blast
      ultimately have last: "last (before_last (CHR '':'') b @ CHR '':'' # after_last (CHR '':'') b) = CHR '']''" by argo
      then have "after_last (CHR '':'') b \<noteq> []" by (cases "after_last (CHR '':'') b") simp_all
      with last have "CHR '']'' \<in> set (after_last (CHR '':'') b)"
        by (metis last_ConsR last_appendR last_in_set list.distinct(1))
      then show ?thesis using digits_without not_digits(2) by blast
    qed
    with Nil ab show ?thesis by (auto simp: split_port_def Let_def)
  next
    case (Cons c ds)
    with valid_port_chars [OF p] have ds: "c = CHR '':''" "list_all is_digit ds" by auto
    then have "CHR '':'' \<notin> set ds" by (simp add: digits_without)
    with Cons ds ab show ?thesis by (simp add: split_port_def before_last_eq after_last_eq)
  qed
  then show "port u = drop 1 p" by (simp add: port_def assms(2))
  show "hostname u = n"
  proof (cases "b = n")
    case True
    then show ?thesis using nb sp by (cases n) (auto simp: hostname_def assms(2) has_prefix_def)
  next
    case False
    with b have "b = CHR ''['' # n @ '']''" by blast
    then show ?thesis using sp by (simp add: hostname_def assms(2) has_prefix_def has_suffix_def)
  qed
qed


definition scheme_name :: "string \<Rightarrow> bool" where
  "scheme_name sc \<longleftrightarrow> sc \<noteq> [] \<and> alpha_byte (hd sc) \<and> list_all (\<lambda>c. alnum_byte c \<or> c \<in> set ''+-.'') sc"

lemma get_scheme_Some:
  assumes "get_scheme s = Some (sc, rest)" and "sc \<noteq> []"
  shows "s = sc @ CHR '':'' # rest \<and> scheme_name sc"
proof -
  define n where "n = takeWhile (\<lambda>c. alnum_byte c \<or> c \<in> set ''+-.'') s"
  define r where "r = drop (length n) s"
  have s: "s = n @ r" unfolding n_def r_def by (metis takeWhile_dropWhile_id dropWhile_eq_drop)
  have "list_all (\<lambda>c. alnum_byte c \<or> c \<in> set ''+-.'') n"
    unfolding n_def list_all_iff by (blast dest: set_takeWhileD)
  moreover have "r \<noteq> [] \<and> hd r = CHR '':'' \<and> n \<noteq> [] \<and> alpha_byte (hd n) \<and> n = sc \<and> tl r = rest"
    using assms unfolding get_scheme_def n_def [symmetric] Let_def r_def [symmetric] by (simp split: if_splits)
  ultimately show ?thesis using s by (cases r) (auto simp: scheme_name_def)
qed

lemma scheme_byte_not_colon: "scheme_name sc \<Longrightarrow> c \<in> set sc \<Longrightarrow> (alnum_byte c \<or> c \<in> set ''+-.'')"
  by (simp add: scheme_name_def list_all_iff)

lemma scheme_name_lower:
  assumes "scheme_name sc"
  shows "scheme_name (map ascii_lower sc)"
proof -
  have "alnum_byte (ascii_lower c) \<or> ascii_lower c \<in> set ''+-.''" if "c \<in> set sc" for c
  proof -
    have "alnum_byte (ascii_lower c) = alnum_byte c" by (simp add: alnum_byte_def)
    moreover have "ascii_lower c = c" if "c \<in> set ''+-.''" using that by (auto simp: ascii_lower_def)
    ultimately show ?thesis using scheme_byte_not_colon [OF assms that] by metis
  qed
  with assms show ?thesis by (cases sc) (auto simp: scheme_name_def list_all_iff)
qed

lemma colon_no_scheme: "\<not> (alnum_byte (CHR '':'') \<or> CHR '':'' \<in> set ''+-.'')"
  by (simp add: alnum_byte_def alpha_byte_def is_digit_def)

lemma get_scheme_name: "scheme_name sc \<Longrightarrow> get_scheme (sc @ CHR '':'' # rest) = Some (sc, rest)"
proof -
  assume sc: "scheme_name sc"
  then have "takeWhile (\<lambda>c. alnum_byte c \<or> c \<in> set ''+-.'') (sc @ CHR '':'' # rest) = sc"
    using colon_no_scheme by (subst takeWhile_append2) (auto simp: scheme_name_def list_all_iff)
  with sc show ?thesis by (simp add: get_scheme_def scheme_name_def)
qed

lemma parse_url_host:
  assumes "parse_url ip6 t = Some u" and "u_scheme u \<noteq> []" and "u_host u \<noteq> []" and "u_user u = None"
  shows "\<exists>sc a. u_scheme u = to_lower sc \<and> scheme_name sc \<and> set sc \<subseteq> set t \<and> set a \<subseteq> set t \<and> parse_host ip6 a = Some (u_host u)"
proof -
  define w where "w = takeWhile (\<lambda>c. c \<noteq> CHR ''#'') t"
  have wt: "set w \<subseteq> set t" unfolding w_def by (blast dest: set_takeWhileD)
  from assms(1) obtain sc rest where g: "get_scheme w = Some (sc, rest)"
    unfolding parse_url_def w_def [symmetric] Let_def by (auto split: if_splits option.splits)
  define p where "p = takeWhile (\<lambda>c. c \<noteq> CHR ''?'') rest"
  from assms(1) g obtain force q frag where pr: "parse_rest ip6 (to_lower sc) force q frag p = Some u"
    unfolding parse_url_def w_def [symmetric] Let_def p_def by (auto split: if_splits)
  then have us: "u_scheme u = to_lower sc" by (auto simp: parse_rest_def Let_def split: if_splits option.splits)
  with assms(2) have "sc \<noteq> []" by auto
  with get_scheme_Some [OF g] have w: "w = sc @ CHR '':'' # rest" "scheme_name sc" by blast+
  define a where "a = takeWhile (\<lambda>c. c \<noteq> CHR ''/'') (drop 2 p)"
  have "set a \<subseteq> set (drop 2 p)" unfolding a_def by (blast dest: set_takeWhileD)
  also have "\<dots> \<subseteq> set p" by (rule set_drop_subset)
  also have "\<dots> \<subseteq> set rest" unfolding p_def by (blast dest: set_takeWhileD)
  finally have "set a \<subseteq> set t" using w(1) wt by auto
  moreover from pr assms(3,4) obtain ui where "parse_authority ip6 a = Some (ui, u_host u)" "ui = None"
    unfolding parse_rest_def a_def by (auto simp: Let_def split: if_splits option.splits)
  then have "parse_host ip6 a = Some (u_host u)"
    by (auto simp: parse_authority_def Let_def split: if_splits option.splits)
  ultimately show ?thesis using us w wt by auto
qed

lemma parse_origin:
  assumes "scheme_name sc" and "list_all host_byte a" and "a \<noteq> []" and "parse_host ip6 a = Some a"
  shows "parse_url ip6 (sc @ ''://'' @ a) = Some \<lparr>u_scheme = to_lower sc, u_opaque = [], u_user = None, u_host = a,
     u_escaped = [], u_force_query = False, u_query = [], u_fragment = []\<rparr>"
proof -
  define r where "r = ''//'' @ a"
  define t where "t = sc @ CHR '':'' # r"
  have host: "c \<noteq> CHR ''/'' \<and> c \<noteq> CHR ''?'' \<and> c \<noteq> CHR ''#'' \<and> c \<noteq> CHR ''@'' \<and> \<not> ctl_byte c" if "c \<in> set a" for c
    using that assms(2) host_byte_not by (auto simp: list_all_iff)
  have sch: "c \<noteq> CHR ''#'' \<and> \<not> ctl_byte c" if "c \<in> set sc" for c
    using scheme_byte_not_colon [OF assms(1) that]
    by (auto simp: alnum_byte_def alpha_byte_def is_digit_def ctl_byte_def Let_def)
  have "\<forall>c \<in> set t. c \<noteq> CHR ''#'' \<and> \<not> ctl_byte c" using host sch by (auto simp: ctl_byte_def t_def r_def)
  then have u: "takeWhile (\<lambda>c. c \<noteq> CHR ''#'') t = t" and nc: "\<not> list_ex ctl_byte t"
    unfolding takeWhile_eq_all_conv list_ex_iff by blast+
  have g: "get_scheme t = Some (sc, r)" unfolding t_def by (rule get_scheme_name [OF assms(1)])
  have noq: "CHR ''?'' \<notin> set (r)" using host by (auto simp: r_def)
  then have q: "takeWhile (\<lambda>c. c \<noteq> CHR ''?'') (r) = r"
    unfolding takeWhile_eq_all_conv by (metis (mono_tags))
  have nf: "\<not> has_suffix (r) ''?''"
  proof
    assume "has_suffix (r) ''?''"
    then obtain v where "r = v @ ''?''" unfolding has_suffix_append by blast
    then have "CHR ''?'' \<in> set r" by simp
    with noq show False by blast
  qed
  have ta: "takeWhile (\<lambda>c. c \<noteq> CHR ''/'') a = a" using host unfolding takeWhile_eq_all_conv by blast
  have au: "parse_authority ip6 a = Some (None, a)" using host assms(4) by (auto simp: parse_authority_def)
  have h3: "to_lower sc \<noteq> []" using assms(1) by (cases sc rule: to_lower.cases) (auto simp: scheme_name_def)
  have "parse_rest ip6 (to_lower sc) False [] [] r = Some \<lparr>u_scheme = to_lower sc, u_opaque = [], u_user = None, u_host = a,
     u_escaped = [], u_force_query = False, u_query = [], u_fragment = []\<rparr>"
    by (simp add: parse_rest_def has_prefix_def escaped_path_def Let_def ta au h3 r_def)
  then have "parse_url ip6 t = Some \<lparr>u_scheme = to_lower sc, u_opaque = [], u_user = None, u_host = a,
     u_escaped = [], u_force_query = False, u_query = [], u_fragment = []\<rparr>"
    by (simp add: parse_url_def Let_def u nc g q nf)
  then show ?thesis by (simp add: t_def r_def)
qed

text \<open>
  IPv6 literals without a zone are made of hexadecimal digits, colons and dots, have a colon and do not care
  about case: what the arguments that stand for \<^verbatim>\<open>netip.ParseAddr\<close> promise.
\<close>

definition ip6_literals :: "(string \<Rightarrow> bool) \<Rightarrow> bool" where
  "ip6_literals ip6 \<longleftrightarrow> (\<forall>h. ip6 h \<and> CHR ''%'' \<notin> set h \<longrightarrow>
     CHR '':'' \<in> set h \<and> list_all (\<lambda>c. hex_byte c \<or> c \<in> set '':.'') h \<and> ip6 (map ascii_lower h))"

lemma plain_host_lower:
  assumes "plain_host ip6 n p a" and "ip6_literals ip6"
    and "p' = [] \<or> p' = p"
  defines "n' \<equiv> map ascii_lower n"
  defines "a' \<equiv> (if CHR '':'' \<in> set n then CHR ''['' # n' @ CHR '']'' # p' else n' @ p')"
  shows "plain_host ip6 n' p' a'" and "parse_host ip6 a' = Some a'" and "list_all host_byte a'"
proof -
  from assms(1) have n: "list_all host_byte n" "CHR ''['' \<notin> set n" and p: "validOptionalPort p" "list_all host_byte p"
    by (auto simp: plain_host_def valid_port_host)
  have moved: "d \<in> set n' \<longleftrightarrow> d \<in> set n" if "\<not> alpha_byte d" for d
    using ascii_lower_other [OF that] unfolding n'_def by (metis (no_types, lifting) imageE image_eqI list.set_map)
  have syms: "\<not> alpha_byte (CHR '':'')" "\<not> alpha_byte (CHR ''['')" "\<not> alpha_byte (CHR '']'')" "\<not> alpha_byte (CHR ''%'')"
    by (simp_all add: alpha_byte_def)
  have n': "list_all host_byte n'" using n(1) by (simp add: n'_def list_all_iff)
  have pc: "CHR '']'' \<notin> set n" "ip6 n'" if "CHR '':'' \<in> set n"
  proof -
    have "ip6 n" using assms(1) that by (auto simp: plain_host_def)
    moreover have "CHR ''%'' \<notin> set n" using n(1) host_byte_not by (auto simp: list_all_iff)
    ultimately have h: "list_all (\<lambda>c. hex_byte c \<or> c \<in> set '':.'') n" "ip6 n'"
      using assms(2) by (auto simp: ip6_literals_def n'_def)
    then show "ip6 n'" by blast
    show "CHR '']'' \<notin> set n" using h(1) by (auto simp: list_all_iff hex_byte_def)
  qed
  show ph: "plain_host ip6 n' p' a'"
    using n' p assms(3) n(2) moved syms pc(2) by (auto simp: plain_host_def a'_def validOptionalPort_def)
  show "parse_host ip6 a' = Some a'"
  proof (rule plain_host_parses [OF ph])
    show "CHR '']'' \<notin> set n' \<or> CHR ''['' \<notin> set a'"
      using pc(1) moved syms n(2) assms(3) p(1) valid_port_chars [OF p(1)] by (auto simp: a'_def digits_without)
  qed
  show "list_all host_byte a'" using n' p(2) assms(3) by (auto simp: a'_def host_byte_def)
qed

lemma map_lower_idem [simp]: "map ascii_lower (map ascii_lower s) = map ascii_lower s"
  by simp

lemma host_byte_graphic: "host_byte c \<Longrightarrow> is_ascii c \<Longrightarrow> graphic c"
  by (auto simp: host_byte_def unreserved_byte_def alnum_byte_def alpha_byte_def is_digit_def is_ascii_def graphic_def Let_def)

lemma trim_origin:
  assumes "scheme_name sc" and "list_all host_byte a" and "list_all is_ascii a"
  shows "trim_space (sc @ ''://'' @ a) = sc @ ''://'' @ a"
proof (rule trim_space_graphic)
  have "graphic c" if "c \<in> set a" for c
    using that assms(2,3) host_byte_graphic by (simp add: list_all_iff)
  moreover have "graphic c" if "c \<in> set sc" for c
    using scheme_byte_not_colon [OF assms(1) that] by (auto simp: alnum_byte_def alpha_byte_def is_digit_def graphic_def Let_def)
  ultimately show "list_all graphic (sc @ ''://'' @ a)" by (auto simp: list_all_iff graphic_def)
qed


text \<open>What the theorem leaves out: without a host the origin is refused afterwards.\<close>

lemma origin_without_host:
  "map (NormalizeServerOrigin (\<lambda>_. True)) [''http://:80'', ''http://''] = [Inr ''http://'', Inl UrlNotAbsolute]"
  by code_simp

definition sample_ip6 :: "string \<Rightarrow> bool" where
  "sample_ip6 h \<longleftrightarrow> h \<in> {''::1'', ''FE80::1'', ''fe80::1''}"


end
