(* ===== verification/Cli_Client.thy ===== *)
theory Cli_Client
  imports Cli_Config
begin

text \<open>
  What the commands of the client share: the key files of \<^verbatim>\<open>apps/cli/internal/crypto/ed25519.go\<close>, the
  requests of \<^verbatim>\<open>apps/cli/internal/http/client.go\<close>, their signatures and the errors of the API
  (\<^verbatim>\<open>apiClient\<close> in \<^verbatim>\<open>auth.go\<close> and \<^verbatim>\<open>lab_commands.go\<close>). Ed25519, x509, PEM, SSH formats and JSON are arguments.
\<close>

section \<open>The code outside the client\<close>

text \<open>
  A private key is its bytes. \<open>ck_parse\<close> answers \<open>None\<close> where PKCS8 does not parse and \<open>Some None\<close> for a key
  that is not Ed25519; a PEM block is encrypted or not, with its bytes.
\<close>

record cli_crypto =
  ck_public :: "string \<Rightarrow> string"
  ck_sign :: "string \<Rightarrow> string \<Rightarrow> string"
  ck_marshal :: "string \<Rightarrow> string option"
  ck_parse :: "string \<Rightarrow> string option option"
  ck_encrypt :: "string \<Rightarrow> string \<Rightarrow> string option"
  ck_decrypt :: "string \<Rightarrow> string \<Rightarrow> string option"
  ck_pem :: "bool \<Rightarrow> string \<Rightarrow> string"
  ck_unpem :: "string \<Rightarrow> (bool \<times> string) option"
  ck_authorized :: "string \<Rightarrow> string option"

section \<open>Key files\<close>

definition writePrivateKey ::
  "cli_crypto \<Rightarrow> io_faults \<Rightarrow> string \<Rightarrow> string \<Rightarrow> string \<Rightarrow> disk \<Rightarrow> (cli_error + unit) \<times> disk" where
  "writePrivateKey k f path private passphrase d =
     (case ck_marshal k private of
        None \<Rightarrow> (Inl KeyEncoding, d)
      | Some der \<Rightarrow>
          (if passphrase = [] then write_file f path (ck_pem k False der) d
           else (case ck_encrypt k passphrase der of
                   None \<Rightarrow> (Inl KeyEncoding, d)
                 | Some block \<Rightarrow> write_file f path (ck_pem k True block) d)))"

definition WriteEncryptedPrivateKey ::
  "cli_crypto \<Rightarrow> io_faults \<Rightarrow> string \<Rightarrow> string \<Rightarrow> string \<Rightarrow> disk \<Rightarrow> (cli_error + unit) \<times> disk" where
  "WriteEncryptedPrivateKey k f path private passphrase d =
     (if passphrase = [] then (Inl PassphraseEmpty, d) else writePrivateKey k f path private passphrase d)"

definition parsePrivateKeyDER :: "cli_crypto \<Rightarrow> string \<Rightarrow> cli_error + string" where
  "parsePrivateKeyDER k der =
     (case ck_parse k der of
        None \<Rightarrow> Inl KeyFileInvalid | Some None \<Rightarrow> Inl KeyNotEd25519 | Some (Some private) \<Rightarrow> Inr private)"

text \<open>A missing file is told apart from one that cannot be read, since \<^verbatim>\<open>auth\<close> creates a key only then.\<close>

definition readPrivateKey :: "cli_crypto \<Rightarrow> io_faults \<Rightarrow> disk \<Rightarrow> string \<Rightarrow> string \<Rightarrow> cli_error + string" where
  "readPrivateKey k f d path passphrase =
     (if io_read f path then Inl (IoError path)
      else (case d path of
        None \<Rightarrow> Inl KeyAbsent
      | Some data \<Rightarrow>
          (case ck_unpem k data of
             None \<Rightarrow> Inl KeyFileInvalid
           | Some (True, block) \<Rightarrow>
               (if passphrase = [] then Inl KeyEncrypted
                else (case ck_decrypt k passphrase block of
                        None \<Rightarrow> Inl KeyUndecryptable | Some der \<Rightarrow> parsePrivateKeyDER k der))
           | Some (False, der) \<Rightarrow> parsePrivateKeyDER k der)))"

text \<open>What a person at the terminal does: whether there is one, the passphrases typed, the answer to a question.\<close>

record terminal =
  te_tty :: bool
  te_password :: "nat \<Rightarrow> string option"
  te_line :: "string option"

definition readPrivateKeyWithDeps ::
  "cli_crypto \<Rightarrow> io_faults \<Rightarrow> terminal \<Rightarrow> disk \<Rightarrow> string \<Rightarrow> cli_error + string" where
  "readPrivateKeyWithDeps k f te d path =
     (case readPrivateKey k f d path [] of
        Inr private \<Rightarrow> Inr private
      | Inl err \<Rightarrow>
          (if err \<noteq> KeyEncrypted then Inl err
           else if \<not> te_tty te then Inl KeyNeedsTerminal
           else (case te_password te 0 of
                   None \<Rightarrow> Inl PassphraseUnread
                 | Some p \<Rightarrow> if p = [] then Inl PassphraseEmpty else readPrivateKey k f d path p)))"

section \<open>Requests\<close>

text \<open>A request as the client sends it: \<open>or_target\<close> is the path and query of the URL, after resolution.\<close>

record out_request =
  or_method :: string
  or_url :: url
  or_headers :: "(string \<times> string) list"
  or_body :: string

definition sent_header :: "out_request \<Rightarrow> string \<Rightarrow> string" where
  "sent_header r k = (case map_of (or_headers r) k of None \<Rightarrow> [] | Some v \<Rightarrow> v)"

text \<open>
  \<^verbatim>\<open>NewRequest\<close> and \<^verbatim>\<open>NewRequestWithBytes\<close>: the path resolved against the base URL, with the content type if
  there is a body. The headers about the client's version are left out, since no handler reads them.
\<close>

definition NewRequestWithBytes ::
  "(string \<Rightarrow> bool) \<Rightarrow> url \<Rightarrow> string \<Rightarrow> string \<Rightarrow> string \<Rightarrow> string \<Rightarrow> cli_error + out_request" where
  "NewRequestWithBytes ip6 base method path body contentType =
     (case parse_url ip6 path of
        None \<Rightarrow> Inl RequestInvalid
      | Some ref \<Rightarrow>
          Inr \<lparr>or_method = method, or_url = resolve_reference base ref,
               or_headers = (if contentType = [] then [] else [(''Content-Type'', contentType)]), or_body = body\<rparr>)"

definition NewRequest ::
  "(string \<Rightarrow> bool) \<Rightarrow> url \<Rightarrow> string \<Rightarrow> string \<Rightarrow> string option \<Rightarrow> cli_error + out_request" where
  "NewRequest ip6 base method path body =
     NewRequestWithBytes ip6 base method path (case body of None \<Rightarrow> [] | Some b \<Rightarrow> b)
       (if body = None then [] else ''application/json'')"

definition new_client :: "(string \<Rightarrow> bool) \<Rightarrow> string \<Rightarrow> cli_error + url" where
  "new_client ip6 baseURL =
     (case parse_url ip6 (trim_space baseURL) of
        None \<Rightarrow> Inl UrlInvalid
      | Some u \<Rightarrow> if u_scheme u = [] \<or> u_host u = [] then Inl UrlNotAbsolute else Inr u)"

definition apiPath :: "string \<Rightarrow> string" where
  "apiPath path =
     (let p = trim_space path
      in if p = [] then ''/api/v1''
         else ''/api/v1'' @ (if has_prefix p ''/'' then p else CHR ''/'' # p))"

section \<open>Signed requests\<close>

text \<open>
  What signing draws on: the environment shared with the server, the keys, the text of a time in
  \<^verbatim>\<open>RFC3339Nano\<close>. \<open>KeyID\<close> is only checked for zero.
\<close>

record signer =
  sg_env :: env
  sg_keys :: cli_crypto
  sg_time_text :: "time \<Rightarrow> string"
  sg_ip6 :: "string \<Rightarrow> bool"

definition newNonce :: "string option \<Rightarrow> cli_error + string" where
  "newNonce rand = (case rand of None \<Rightarrow> Inl NoRandomBytes | Some bs \<Rightarrow> Inr (hex_text bs))"

definition keyFingerprintFromPrivateKey :: "signer \<Rightarrow> string \<Rightarrow> string" where
  "keyFingerprintFromPrivateKey sg private = PublicKeyFingerprint (sg_env sg) (ck_public (sg_keys sg) private)"

definition with_signature :: "signer \<Rightarrow> string \<Rightarrow> payload \<Rightarrow> out_request \<Rightarrow> out_request" where
  "with_signature sg private p r =
     r\<lparr>or_headers :=
         [(h_fingerprint, keyFingerprintFromPrivateKey sg private),
          (h_timestamp, sg_time_text sg (p_timestamp p)),
          (h_nonce, p_nonce p),
          (h_signature, base64_encode (ck_sign (sg_keys sg) private (SigningBytes p)))] @ or_headers r\<rparr>"

definition signedRequestWithPayload ::
  "signer \<Rightarrow> url \<Rightarrow> string \<Rightarrow> string \<Rightarrow> string \<Rightarrow> string \<Rightarrow> int \<Rightarrow> string \<Rightarrow> payload \<Rightarrow> cli_error + out_request" where
  "signedRequestWithPayload sg base method path body contentType keyID private p =
     (if keyID = 0 then Inl KeyIdRequired
      else bindR (NewRequestWithBytes (sg_ip6 sg) base method path body contentType) (\<lambda>r.
             Inr (with_signature sg private p r)))"

definition signedRequest ::
  "signer \<Rightarrow> url \<Rightarrow> string \<Rightarrow> string \<Rightarrow> string option \<Rightarrow> int \<Rightarrow> string \<Rightarrow> time \<Rightarrow> string option \<Rightarrow> cli_error + out_request" where
  "signedRequest sg base method path body keyID private now rand =
     (if keyID = 0 then Inl KeyIdRequired
      else bindR (NewRequest (sg_ip6 sg) base method path body) (\<lambda>r.
           bindR (newNonce rand) (\<lambda>nonce.
             Inr (with_signature sg private
               (WithContentHash (NewPayload (to_upper (trim_space method) @ '' '' @ path) now nonce [])
                  (bodyHash (sg_env sg) (case body of None \<Rightarrow> [] | Some b \<Rightarrow> b))) r))))"

section \<open>Answers\<close>

text \<open>What comes back: nothing, or a status with a body; \<open>send\<close> runs a request against the world of the server.\<close>

datatype reply = NoReply | Reply nat string

type_synonym 's transport = "out_request \<Rightarrow> 's \<Rightarrow> reply \<times> 's"

text \<open>The error object of a body: the decoder gives code and message, \<open>None\<close> for a body that is no JSON object.\<close>

definition decodeAPIError :: "(string \<Rightarrow> (string \<times> string) option) \<Rightarrow> string \<Rightarrow> (string \<times> string) option" where
  "decodeAPIError dec body =
     (if blank body then None
      else (case dec body of
        None \<Rightarrow> None
      | Some (code, message) \<Rightarrow>
          (let c = trim_space code; m = trim_space message in if c = [] \<and> m = [] then None else Some (c, m))))"

definition decodeAPIErrorMessage :: "(string \<Rightarrow> (string \<times> string) option) \<Rightarrow> string \<Rightarrow> string" where
  "decodeAPIErrorMessage dec body =
     (let trimmed = trim_space body; fallback = (if trimmed = [] then ''unknown error'' else trimmed)
      in case decodeAPIError dec body of
           None \<Rightarrow> fallback | Some (c, m) \<Rightarrow> if \<not> blank m then trim_space m else fallback)"

definition newAPIError :: "(string \<Rightarrow> (string \<times> string) option) \<Rightarrow> nat \<Rightarrow> string \<Rightarrow> cli_error" where
  "newAPIError dec status body =
     (case decodeAPIError dec body of
        Some (c, m) \<Rightarrow> ApiError status c m
      | None \<Rightarrow> (let trimmed = trim_space body in ApiError status [] (if trimmed = [] then ''unknown error'' else trimmed)))"

definition apiError_text :: "string \<Rightarrow> string" where
  "apiError_text message =
     ''request failed: '' @ (let m = trim_space message in if m = [] then ''unknown error'' else m)"

definition doJSON ::
  "(string \<Rightarrow> (string \<times> string) option) \<Rightarrow> (string \<Rightarrow> 'a option) \<Rightarrow> 's transport \<Rightarrow> out_request \<Rightarrow> 's \<Rightarrow> (cli_error + 'a) \<times> 's" where
  "doJSON dec_error dec send r s =
     (case send r s of
        (NoReply, s') \<Rightarrow> (Inl Unreachable, s')
      | (Reply status body, s') \<Rightarrow>
          (if status < 200 \<or> 300 \<le> status then (Inl (newAPIError dec_error status body), s')
           else (case dec body of None \<Rightarrow> (Inl Undecodable, s') | Some v \<Rightarrow> (Inr v, s'))))"

end
