(* ===== verification/Cli_Auth.thy ===== *)
theory Cli_Auth
  imports Cli_Client Cli_Origin
begin

text \<open>
  \<^verbatim>\<open>apps/cli/internal/commands/auth.go\<close>: how a command finds its server, lab and key, and the \<^verbatim>\<open>auth\<close> command,
  which picks or makes a key, has it bound to an account by the device flow and records it in the keyring.
  Banners, spinners and the other output are left out.
\<close>

section \<open>Dependencies\<close>

record cli_deps =
  dp_dir :: string
  dp_server_url :: string
  dp_override :: string
  dp_lab :: string
  dp_device :: string
  dp_env_url :: string
  dp_env_dir :: string
  dp_env_xdg :: string
  dp_home :: "string option"
  dp_hostname :: "string option"
  dp_wd :: "string option"

definition cli_defaultDeviceName :: "string option \<Rightarrow> string" where
  "cli_defaultDeviceName h =
     (case h of None \<Rightarrow> ''unknown'' | Some n \<Rightarrow> if blank n then ''unknown'' else trim_space n)"

definition normalizeDependencies :: "cli_deps \<Rightarrow> cli_deps" where
  "normalizeDependencies dp =
     dp\<lparr>dp_device := (if blank (dp_device dp) then cli_defaultDeviceName (dp_hostname dp) else dp_device dp),
        dp_dir := (if dp_dir dp = [] then ResolveDir (dp_env_dir dp) (dp_env_xdg dp) (dp_home dp) else dp_dir dp),
        dp_server_url := (if blank (dp_server_url dp) then ResolveServerURL (dp_env_url dp) else dp_server_url dp)\<rparr>"

section \<open>Finding the configuration\<close>

definition readAuthConfigs ::
  "toml \<Rightarrow> (string \<Rightarrow> bool) \<Rightarrow> io_faults \<Rightarrow> disk \<Rightarrow> string \<Rightarrow> cli_error + (global_config \<times> config option)" where
  "readAuthConfigs tm ip6 f d dir =
     (case ReadGlobal tm ip6 f d dir of
        Inr g \<Rightarrow> Inr (g, None)
      | Inl err \<Rightarrow> (case Read tm f d dir of Inr c \<Rightarrow> Inr (no_global, Some c) | Inl _ \<Rightarrow> Inl err))"

definition or_else :: "string \<Rightarrow> string \<Rightarrow> string" where
  "or_else new old = (if blank new then old else trim_space new)"

text \<open>The override wins over the environment, that over the project, the keyring, a legacy file and the default.\<close>

definition resolveAuthServerURL ::
  "cli_deps \<Rightarrow> project_config \<Rightarrow> global_config \<Rightarrow> config option \<Rightarrow> cli_error + string" where
  "resolveAuthServerURL dp loc g legacy =
     (let u0 = (case legacy of None \<Rightarrow> [] | Some c \<Rightarrow> trim_space (cf_server c));
          u = or_else (dp_override dp) (or_else (dp_env_url dp) (or_else (pj_server loc) (or_else (gc_default g) u0)));
          v = (if u = [] then trim_space (dp_server_url dp) else u)
      in if v = [] then Inl UrlRequired else Inr v)"

text \<open>\<^verbatim>\<open>sanitizeKeyFileComponent\<close> ranges over runes: one underscore for each rune that is not kept.\<close>

function sanitize_runes :: "string \<Rightarrow> string" where
  "sanitize_runes [] = []"
| "sanitize_runes (c # s) =
     (if is_ascii c then
        (if alnum_byte c then ascii_lower c else if c \<in> set ''.-_'' then c else CHR ''_'') # sanitize_runes s
      else CHR ''_'' # (case utf8_len (c # s) of None \<Rightarrow> sanitize_runes s | Some n \<Rightarrow> sanitize_runes (drop (n - 1) s)))"
  by pat_completeness auto
termination
  by (relation "measure length") auto

definition trim_set :: "char set \<Rightarrow> string \<Rightarrow> string" where
  "trim_set cs s = rev (dropWhile (\<lambda>c. c \<in> cs) (rev (dropWhile (\<lambda>c. c \<in> cs) s)))"

definition sanitizeKeyFileComponent :: "string \<Rightarrow> string" where
  "sanitizeKeyFileComponent raw = trim_set (set ''._-'') (sanitize_runes raw)"

definition serverKeyPath :: "env \<Rightarrow> (string \<Rightarrow> bool) \<Rightarrow> string \<Rightarrow> string \<Rightarrow> string" where
  "serverKeyPath e ip6 dir origin =
     (let hashed = hex_text (take 8 (env_sha256 e origin))
      in case parse_url ip6 origin of
           None \<Rightarrow> path_join dir (''keys/'' @ hashed @ ''_ed25519'')
         | Some u \<Rightarrow>
             (let p = sanitizeKeyFileComponent (port u);
                  name = sanitizeKeyFileComponent (hostname u) @ (if p = [] then [] else CHR ''_'' # p)
              in path_join dir (''keys/'' @ (if name = [] then hashed else name) @ ''_ed25519'')))"

definition resolveConfig ::
  "toml \<Rightarrow> env \<Rightarrow> (string \<Rightarrow> bool) \<Rightarrow> io_faults \<Rightarrow> cli_deps \<Rightarrow> disk \<Rightarrow> cli_error + config" where
  "resolveConfig tm e ip6 f dp d =
     bindR (readAuthConfigs tm ip6 f d (dp_dir dp)) (\<lambda>(g, legacy).
     bindR (FindLocalConfig tm f d (dp_wd dp) []) (\<lambda>(loc, _).
     bindR (resolveAuthServerURL dp loc g legacy) (\<lambda>url.
       let c0 = (case legacy of None \<Rightarrow> no_config | Some c \<Rightarrow> c);
           c1 = c0\<lparr>cf_lab := or_else (pj_lab loc) (cf_lab c0), cf_server := url\<rparr>
       in bindR (if legacy \<noteq> None then Inr c1
                 else bindR (LookupServerEntry ip6 url g) (\<lambda>entry.
                   case entry of
                     None \<Rightarrow> Inr c1
                   | Some en \<Rightarrow>
                       bindR (if blank (se_key_path en)
                              then bindR (NormalizeServerOrigin ip6 url) (\<lambda>o'. Inr (serverKeyPath e ip6 (dp_dir dp) o'))
                              else Inr (trim_space (se_key_path en))) (\<lambda>kp.
                         Inr (c1\<lparr>cf_key_path := kp, cf_key_id := (if kp = [] then cf_key_id c1 else 1)\<rparr>)))) (\<lambda>c2.
            Inr (let c3 = (if cf_key_path c2 = [] then c2\<lparr>cf_key_path := ResolveKeyPath (dp_dir dp)\<rparr> else c2)
                 in c3\<lparr>cf_lab := or_else (dp_lab dp) (cf_lab c3)\<rparr>)))))"

definition activeLabID ::
  "toml \<Rightarrow> env \<Rightarrow> (string \<Rightarrow> bool) \<Rightarrow> io_faults \<Rightarrow> cli_deps \<Rightarrow> disk \<Rightarrow> cli_error + string" where
  "activeLabID tm e ip6 f dp d =
     bindR (resolveConfig tm e ip6 f dp d) (\<lambda>c. if blank (cf_lab c) then Inl LabRequired else Inr (trim_space (cf_lab c)))"

definition resolveServerURL ::
  "toml \<Rightarrow> env \<Rightarrow> (string \<Rightarrow> bool) \<Rightarrow> io_faults \<Rightarrow> cli_deps \<Rightarrow> disk \<Rightarrow> cli_error + string" where
  "resolveServerURL tm e ip6 f dp d =
     bindR (resolveConfig tm e ip6 f dp d) (\<lambda>c. if blank (cf_server c) then Inl UrlRequired else Inr (trim_space (cf_server c)))"

section \<open>Choosing the key\<close>

datatype key_action = Reusing | Creating | Rotating

record key_selection =
  ks_private :: string
  ks_public :: string
  ks_fingerprint :: string
  ks_path :: string
  ks_action :: key_action
  ks_encrypted :: bool

definition authKeySelectionFromPrivate ::
  "signer \<Rightarrow> string \<Rightarrow> string \<Rightarrow> key_action \<Rightarrow> cli_error + key_selection" where
  "authKeySelectionFromPrivate sg private path action =
     (case ck_authorized (sg_keys sg) (ck_public (sg_keys sg) private) of
        None \<Rightarrow> Inl KeyEncoding
      | Some line \<Rightarrow>
          Inr \<lparr>ks_private = private, ks_public = line, ks_fingerprint = keyFingerprintFromPrivateKey sg private,
               ks_path = path, ks_action = action, ks_encrypted = False\<rparr>)"

definition resolveEncryptionChoice :: "terminal \<Rightarrow> bool \<Rightarrow> bool \<Rightarrow> cli_error + bool" where
  "resolveEncryptionChoice te encrypt noEncrypt =
     (if encrypt then Inr True
      else if noEncrypt then Inr False
      else if \<not> te_tty te then Inl EncryptionUndecided
      else (case te_line te of
              None \<Rightarrow> Inl (IoError ''stdin'')
            | Some l \<Rightarrow> (let a = to_lower (trim_space l) in Inr (a = ''y'' \<or> a = ''yes''))))"

definition promptPassphraseTwice :: "terminal \<Rightarrow> cli_error + string" where
  "promptPassphraseTwice te =
     (case te_password te 0 of
        None \<Rightarrow> Inl PassphraseUnread
      | Some p \<Rightarrow>
          (if p = [] then Inl PassphraseEmpty
           else (case te_password te 1 of
                   None \<Rightarrow> Inl PassphraseUnread
                 | Some q \<Rightarrow> if p \<noteq> q then Inl PassphraseMismatch else Inr p)))"

text \<open>The flags of the command, and the key pair that would be generated.\<close>

record auth_flags =
  af_rotate :: bool
  af_encrypt :: bool
  af_no_encrypt :: bool

definition make_key ::
  "signer \<Rightarrow> io_faults \<Rightarrow> terminal \<Rightarrow> auth_flags \<Rightarrow> string option \<Rightarrow> string \<Rightarrow> disk \<Rightarrow> (cli_error + key_selection) \<times> disk" where
  "make_key sg f te fl rand path d =
     (case rand of
        None \<Rightarrow> (Inl NoRandomBytes, d)
      | Some private \<Rightarrow>
     (case authKeySelectionFromPrivate sg private path (if af_rotate fl then Rotating else Creating) of
        Inl err \<Rightarrow> (Inl err, d)
      | Inr sel \<Rightarrow>
     (case resolveEncryptionChoice te (af_encrypt fl) (af_no_encrypt fl) of
        Inl err \<Rightarrow> (Inl err, d)
      | Inr False \<Rightarrow>
          (case writePrivateKey (sg_keys sg) f path private [] d of
             (Inl err, d') \<Rightarrow> (Inl err, d') | (Inr _, d') \<Rightarrow> (Inr sel, d'))
      | Inr True \<Rightarrow>
          (case promptPassphraseTwice te of
             Inl err \<Rightarrow> (Inl err, d)
           | Inr p \<Rightarrow>
               (case WriteEncryptedPrivateKey (sg_keys sg) f path private p d of
                  (Inl err, d') \<Rightarrow> (Inl err, d') | (Inr _, d') \<Rightarrow> (Inr (sel\<lparr>ks_encrypted := True\<rparr>), d'))))))"

definition selectAuthKey ::
  "signer \<Rightarrow> io_faults \<Rightarrow> terminal \<Rightarrow> string \<Rightarrow> auth_flags \<Rightarrow> string option \<Rightarrow> string \<Rightarrow> global_config \<Rightarrow> disk \<Rightarrow>
   (cli_error + key_selection) \<times> disk" where
  "selectAuthKey sg f te dir fl rand origin g d =
     (case LookupServerEntry (sg_ip6 sg) origin g of
        Inl err \<Rightarrow> (Inl err, d)
      | Inr found \<Rightarrow>
          (let entry = (case found of None \<Rightarrow> no_entry | Some en \<Rightarrow> en);
               path = (if blank (se_key_path entry) then serverKeyPath (sg_env sg) (sg_ip6 sg) dir origin
                       else trim_space (se_key_path entry))
           in if af_rotate fl then make_key sg f te fl rand path d
              else (case readPrivateKeyWithDeps (sg_keys sg) f te d path of
                      Inr private \<Rightarrow>
                        (case authKeySelectionFromPrivate sg private path Reusing of
                           Inl err \<Rightarrow> (Inl err, d)
                         | Inr sel \<Rightarrow> (Inr (sel\<lparr>ks_encrypted := se_encrypted entry\<rparr>), d))
                    | Inl err \<Rightarrow> if err = KeyAbsent then make_key sg f te fl rand path d else (Inl err, d))))"

section \<open>The command\<close>

record authorize_reply =
  dr_device :: string
  dr_user :: string
  dr_url :: string

text \<open>The JSON coders of the client: an object of text members, the error object, and one decoder for each body.\<close>

record auth_json =
  aj_object :: "(string \<times> string) list \<Rightarrow> string"
  aj_error :: "string \<Rightarrow> (string \<times> string) option"
  aj_authorize :: "string \<Rightarrow> authorize_reply option"
  aj_poll :: "string \<Rightarrow> string option"

definition url_empty :: "url \<Rightarrow> bool" where
  "url_empty u \<longleftrightarrow> u = \<lparr>u_scheme = [], u_opaque = [], u_user = None, u_host = [], u_escaped = [],
     u_force_query = False, u_query = [], u_fragment = []\<rparr>"

definition resolveVerificationURL :: "(string \<Rightarrow> bool) \<Rightarrow> string \<Rightarrow> string \<Rightarrow> cli_error + url" where
  "resolveVerificationURL ip6 baseURL verificationURL =
     (case parse_url ip6 (trim_space verificationURL) of
        None \<Rightarrow> Inl UrlInvalid
      | Some ref \<Rightarrow>
          (if url_empty ref then Inl UrlRequired
           else (case parse_url ip6 (trim_space baseURL) of
                   None \<Rightarrow> Inl UrlInvalid | Some base \<Rightarrow> Inr (resolve_reference base ref))))"

definition deviceAuthorize ::
  "(string \<Rightarrow> bool) \<Rightarrow> auth_json \<Rightarrow> 's transport \<Rightarrow> url \<Rightarrow> string \<Rightarrow> string \<Rightarrow> 's \<Rightarrow> (cli_error + authorize_reply) \<times> 's" where
  "deviceAuthorize ip6 js send base publicKey deviceName s =
     (case NewRequest ip6 base ''POST'' ''/api/device/authorize''
             (Some (aj_object js [(''device_name'', trim_space deviceName), (''public_key'', publicKey)])) of
        Inl err \<Rightarrow> (Inl err, s) | Inr r \<Rightarrow> doJSON (aj_error js) (aj_authorize js) send r s)"

definition devicePoll ::
  "(string \<Rightarrow> bool) \<Rightarrow> auth_json \<Rightarrow> 's transport \<Rightarrow> url \<Rightarrow> string \<Rightarrow> 's \<Rightarrow> (cli_error + string) \<times> 's" where
  "devicePoll ip6 js send base deviceCode s =
     (case NewRequest ip6 base ''POST'' (''/api/device/poll?device_code='' @ query_escape deviceCode) None of
        Inl err \<Rightarrow> (Inl err, s) | Inr r \<Rightarrow> doJSON (aj_error js) (aj_poll js) send r s)"

text \<open>The loop that waits for the approval; \<open>None\<close> is a loop that still waits when the fuel is used up.\<close>

fun await_approval :: "nat \<Rightarrow> ('s \<Rightarrow> (cli_error + string) \<times> 's) \<Rightarrow> 's \<Rightarrow> (cli_error + unit) option \<times> 's" where
  "await_approval 0 poll s = (None, s)"
| "await_approval (Suc n) poll s =
     (case poll s of
        (Inl err, s') \<Rightarrow> (Some (Inl err), s')
      | (Inr status, s') \<Rightarrow>
          (if status = ''pending'' then await_approval n poll s'
           else if status = ''approved'' then (Some (Inr ()), s')
           else if status = ''expired'' then (Some (Inl AuthorizationExpired), s')
           else (Some (Inl (UnexpectedStatus status)), s')))"

definition persistAuthKeyringEntry ::
  "toml \<Rightarrow> (string \<Rightarrow> bool) \<Rightarrow> io_faults \<Rightarrow> string \<Rightarrow> global_config \<Rightarrow> string \<Rightarrow> key_selection \<Rightarrow> disk \<Rightarrow>
   (cli_error + unit) \<times> disk" where
  "persistAuthKeyringEntry tm ip6 f dir g origin sel d =
     (case SetServerEntry ip6 origin
             \<lparr>se_key_path = ks_path sel, se_fingerprint = ks_fingerprint sel, se_encrypted = ks_encrypted sel\<rparr>
             (g\<lparr>gc_default := origin\<rparr>) of
        Inl err \<Rightarrow> (Inl err, d) | Inr g' \<Rightarrow> WriteGlobal tm ip6 f dir g' d)"

text \<open>Where the command reads and writes: server and origin, the keyring, and the key chosen for it.\<close>

definition prepare_auth ::
  "toml \<Rightarrow> signer \<Rightarrow> io_faults \<Rightarrow> terminal \<Rightarrow> cli_deps \<Rightarrow> auth_flags \<Rightarrow> string option \<Rightarrow> disk \<Rightarrow>
   (cli_error + (string \<times> string \<times> global_config \<times> key_selection)) \<times> disk" where
  "prepare_auth tm sg f te dp fl rand d =
     (if af_encrypt fl \<and> af_no_encrypt fl then (Inl FlagsExclusive, d)
      else (case bindR (FindLocalConfig tm f d (dp_wd dp) []) (\<lambda>(loc, _).
             bindR (readAuthConfigs tm (sg_ip6 sg) f d (dp_dir dp)) (\<lambda>(g, legacy).
             bindR (resolveAuthServerURL dp loc g legacy) (\<lambda>url.
             bindR (NormalizeServerOrigin (sg_ip6 sg) url) (\<lambda>origin. Inr (url, origin, g))))) of
        Inl err \<Rightarrow> (Inl err, d)
      | Inr (url, origin, g) \<Rightarrow>
          (case selectAuthKey sg f te (dp_dir dp) fl rand origin g d of
             (Inl err, d') \<Rightarrow> (Inl err, d')
           | (Inr sel, d') \<Rightarrow> (Inr (url, origin, g, sel), d'))))"

definition run_auth ::
  "nat \<Rightarrow> toml \<Rightarrow> signer \<Rightarrow> auth_json \<Rightarrow> io_faults \<Rightarrow> terminal \<Rightarrow> cli_deps \<Rightarrow> auth_flags \<Rightarrow> string option \<Rightarrow>
   's transport \<Rightarrow> disk \<times> 's \<Rightarrow> (cli_error + key_selection) option \<times> (disk \<times> 's)" where
  "run_auth fuel tm sg js f te dp fl rand send ds =
     (let (d, s) = ds
      in case prepare_auth tm sg f te dp fl rand d of
        (Inl err, d1) \<Rightarrow> (Some (Inl err), (d1, s))
      | (Inr (url, origin, g, sel), d1) \<Rightarrow>
     (case new_client (sg_ip6 sg) url of
        Inl err \<Rightarrow> (Some (Inl err), (d1, s))
      | Inr base \<Rightarrow>
     (case deviceAuthorize (sg_ip6 sg) js send base (ks_public sel) (dp_device dp) s of
        (Inl err, s1) \<Rightarrow> (Some (Inl err), (d1, s1))
      | (Inr a, s1) \<Rightarrow>
     (case resolveVerificationURL (sg_ip6 sg) url (dr_url a) of
        Inl err \<Rightarrow> (Some (Inl err), (d1, s1))
      | Inr _ \<Rightarrow>
     (case await_approval fuel (devicePoll (sg_ip6 sg) js send base (dr_device a)) s1 of
        (None, s2) \<Rightarrow> (None, (d1, s2))
      | (Some (Inl err), s2) \<Rightarrow> (Some (Inl err), (d1, s2))
      | (Some (Inr _), s2) \<Rightarrow>
          (case persistAuthKeyringEntry tm (sg_ip6 sg) f (dp_dir dp) g origin sel d1 of
             (Inl err, d2) \<Rightarrow> (Some (Inl err), (d2, s2))
           | (Inr _, d2) \<Rightarrow> (Some (Inr sel), (d2, s2))))))))"

end
