(* ===== verification/Cli_Keyring.thy ===== *)
theory Cli_Keyring
  imports Cli_Auth
begin

text \<open>
  The keyring after \<^verbatim>\<open>auth\<close>: a later command finds the server that was authorised and the key that was bound;
  and what an authorisation that fails leaves behind.
\<close>

section \<open>Normalised keyrings\<close>

definition origins_stable :: "(string \<Rightarrow> bool) \<Rightarrow> (string \<times> server_entry) list \<Rightarrow> bool" where
  "origins_stable ip6 es \<longleftrightarrow> distinct (map fst es) \<and> (\<forall>k \<in> fst ` set es. NormalizeServerOrigin ip6 k = Inr k)"

lemma update_fresh: "k \<notin> fst ` set al \<Longrightarrow> AList.update k v al = al @ [(k, v)]"
  by (induction al) auto

lemma normalize_servers_stable:
  "origins_stable ip6 (out @ es) \<Longrightarrow> normalize_servers ip6 out es = Inr (out @ es)"
proof (induction es arbitrary: out)
  case (Cons x es)
  obtain k en where x: "x = (k, en)" by (cases x)
  with Cons.prems have k: "NormalizeServerOrigin ip6 k = Inr k" "k \<notin> fst ` set out"
    by (auto simp: origins_stable_def)
  moreover have "normalize_servers ip6 (out @ [(k, en)]) es = Inr ((out @ [(k, en)]) @ es)"
    using Cons.prems x by (intro Cons.IH) simp
  ultimately show ?case by (simp add: x update_fresh)
qed simp

lemma origins_stable_update:
  "origins_stable ip6 es \<Longrightarrow> NormalizeServerOrigin ip6 k = Inr k \<Longrightarrow> origins_stable ip6 (AList.update k v es)"
  unfolding origins_stable_def using distinct_update [of es k v] by (auto simp: dom_update)

lemma NormalizeServerOrigin_trim: "NormalizeServerOrigin ip6 (trim_space k) = NormalizeServerOrigin ip6 k"
  by (simp add: NormalizeServerOrigin_def)

lemma stable_origin_nonempty: "NormalizeServerOrigin ip6 k = Inr k \<Longrightarrow> trim_space k \<noteq> []"
  by (auto simp: NormalizeServerOrigin_def)

lemma normalize_global_stable:
  assumes "origins_stable ip6 (gc_servers g)" and "NormalizeServerOrigin ip6 (gc_default g) = Inr (gc_default g)"
    and "map_of (gc_servers g) (gc_default g) \<noteq> None"
  shows "normalizeGlobalConfig ip6 g = Inr g"
  using assms normalize_servers_stable [of ip6 "[]" "gc_servers g"] stable_origin_nonempty [OF assms(2)]
  by (auto simp: normalizeGlobalConfig_def NormalizeServerOrigin_trim)

section \<open>The key\<close>

definition key_file_laws :: "cli_crypto \<Rightarrow> bool" where
  "key_file_laws k \<longleftrightarrow>
     (\<forall>p der. ck_marshal k p = Some der \<longrightarrow> ck_parse k der = Some (Some p)) \<and>
     (\<forall>b x. ck_unpem k (ck_pem k b x) = Some (b, x)) \<and>
     (\<forall>w der block. ck_encrypt k w der = Some block \<longrightarrow> ck_decrypt k w block = Some der)"

lemma write_then_read:
  assumes "key_file_laws k" and "writePrivateKey k f path priv w d = (Inr u, d')" and "\<not> io_read f path"
  shows "readPrivateKey k f d' path w = Inr priv"
  using assms
  by (auto simp: writePrivateKey_def write_file_def readPrivateKey_def parsePrivateKeyDER_def key_file_laws_def
      split: option.splits if_splits)

lemma make_key_cases:
  assumes "make_key sg f te fl rand path d = (Inr sel, d')"
  shows "rand = Some (ks_private sel) \<and> ks_path sel = path \<and>
    (\<exists>w. writePrivateKey (sg_keys sg) f path (ks_private sel) w d = (Inr (), d'))"
  using assms
  by (auto simp: make_key_def authKeySelectionFromPrivate_def WriteEncryptedPrivateKey_def
      split: option.splits sum.splits bool.splits prod.splits if_splits)

lemma readPrivateKeyWithDeps_key:
  "readPrivateKeyWithDeps k f te d path = Inr priv \<Longrightarrow> \<exists>w. readPrivateKey k f d path w = Inr priv"
  by (auto simp: readPrivateKeyWithDeps_def split: sum.splits if_splits option.splits)

lemma selectAuthKey_cases:
  assumes "selectAuthKey sg f te dir fl rand origin g d = (Inr sel, d')"
  obtains (reused) priv where "readPrivateKeyWithDeps (sg_keys sg) f te d (ks_path sel) = Inr priv"
      "ks_private sel = priv" "d' = d"
    | (made) "make_key sg f te fl rand (ks_path sel) d = (Inr sel, d')"
proof -
  from assms obtain found where look: "LookupServerEntry (sg_ip6 sg) origin g = Inr found"
    by (auto simp: selectAuthKey_def split: sum.splits)
  define entry where "entry = (case found of None \<Rightarrow> no_entry | Some en \<Rightarrow> en)"
  define path where "path = (if blank (se_key_path entry) then serverKeyPath (sg_env sg) (sg_ip6 sg) dir origin
      else trim_space (se_key_path entry))"
  have sel: "(if af_rotate fl then make_key sg f te fl rand path d
      else (case readPrivateKeyWithDeps (sg_keys sg) f te d path of
              Inr priv \<Rightarrow>
                (case authKeySelectionFromPrivate sg priv path Reusing of
                   Inl err \<Rightarrow> (Inl err, d) | Inr sel \<Rightarrow> (Inr (sel\<lparr>ks_encrypted := se_encrypted entry\<rparr>), d))
            | Inl err \<Rightarrow> if err = KeyAbsent then make_key sg f te fl rand path d else (Inl err, d))) = (Inr sel, d')"
    using assms unfolding entry_def path_def by (simp add: selectAuthKey_def look Let_def)
  show thesis
  proof (cases "make_key sg f te fl rand path d = (Inr sel, d')")
    case True
    with make_key_cases [OF True] made show thesis by simp
  next
    case False
    with sel obtain priv sel0 where "readPrivateKeyWithDeps (sg_keys sg) f te d path = Inr priv"
      "authKeySelectionFromPrivate sg priv path Reusing = Inr sel0"
      "sel = sel0\<lparr>ks_encrypted := se_encrypted entry\<rparr>" "d' = d"
      by (auto split: if_splits sum.splits)
    moreover then have "ks_path sel0 = path" "ks_private sel0 = priv"
      by (auto simp: authKeySelectionFromPrivate_def split: option.splits)
    ultimately show thesis using reused by simp
  qed
qed

lemma selectAuthKey_readable:
  assumes "key_file_laws (sg_keys sg)" and "selectAuthKey sg f te dir fl rand origin g d = (Inr sel, d')"
    and "\<not> io_read f (ks_path sel)"
  shows "\<exists>w. readPrivateKey (sg_keys sg) f d' (ks_path sel) w = Inr (ks_private sel)"
  using assms(2)
proof (cases rule: selectAuthKey_cases)
  case (reused priv)
  then show ?thesis by (auto dest: readPrivateKeyWithDeps_key)
next
  case made
  then show ?thesis using make_key_cases [OF made] write_then_read [OF assms(1)] assms(3) by blast
qed

section \<open>The keyring after an authorisation\<close>

definition toml_laws :: "toml \<Rightarrow> bool" where
  "toml_laws tm \<longleftrightarrow> (\<forall>g data. distinct (map fst (gc_servers g)) \<and> tm_put_global tm g = Some data \<longrightarrow>
     tm_global tm (data @ [CHR 0x0A]) = Inr (gc_default g, gc_servers g))"

lemma persist_then_read:
  assumes "persistAuthKeyringEntry tm ip6 no_io_faults dir g origin sel d = (Inr u, d')"
    and "toml_laws tm" and "origins_stable ip6 (gc_servers g)" and "NormalizeServerOrigin ip6 origin = Inr origin"
  shows "\<exists>data. d' = d(ConfigPath dir \<mapsto> data)"
    and "readAuthConfigs tm ip6 no_io_faults d' dir = Inr (\<lparr>gc_default = origin, gc_servers = AList.update origin
       \<lparr>se_key_path = ks_path sel, se_fingerprint = ks_fingerprint sel, se_encrypted = ks_encrypted sel\<rparr> (gc_servers g)\<rparr>, None)"
proof -
  let ?en = "\<lparr>se_key_path = ks_path sel, se_fingerprint = ks_fingerprint sel, se_encrypted = ks_encrypted sel\<rparr>"
  let ?g = "\<lparr>gc_default = origin, gc_servers = AList.update origin ?en (gc_servers g)\<rparr>"
  have st: "origins_stable ip6 (gc_servers ?g)" using origins_stable_update [OF assms(3,4)] by simp
  have norm: "normalizeGlobalConfig ip6 ?g = Inr ?g"
    by (rule normalize_global_stable) (use st assms(4) in \<open>simp_all add: update_conv'\<close>)
  have ud: "g\<lparr>gc_default := origin, gc_servers := AList.update origin ?en (gc_servers g)\<rparr> = ?g" by (cases g) simp
  from assms(1) norm obtain data where put: "tm_put_global tm ?g = Some data"
    and d': "d' = d(ConfigPath dir \<mapsto> data @ [CHR 0x0A])"
    by (auto simp: persistAuthKeyringEntry_def SetServerEntry_def assms(4) ud WriteGlobal_def write_file_def no_io_faults_def
        split: option.splits)
  then show "\<exists>data. d' = d(ConfigPath dir \<mapsto> data)" by blast
  have "tm_global tm (data @ [CHR 0x0A]) = Inr (origin, gc_servers ?g)"
    using assms(2) [unfolded toml_laws_def, rule_format, of ?g] put st by (simp add: origins_stable_def)
  moreover have "normalizeGlobalConfig ip6 (?g\<lparr>gc_default := trim_space origin\<rparr>) = Inr ?g"
    using norm by (simp add: normalizeGlobalConfig_def)
  ultimately show "readAuthConfigs tm ip6 no_io_faults d' dir = Inr (?g, None)"
    by (simp add: readAuthConfigs_def ReadGlobal_def readGlobalFile_def read_file_def decoded_def d' no_io_faults_def)
qed

section \<open>The command after \<^verbatim>\<open>auth\<close>\<close>

lemma find_local_agrees:
  "(\<forall>j. d' (ProjectConfigPath ((path_dir ^^ j) p)) = d (ProjectConfigPath ((path_dir ^^ j) p))) \<Longrightarrow>
   find_local tm f d' p = find_local tm f d p"
proof (induction tm f d p rule: find_local.induct)
  case (1 tm f d p)
  have here: "d' (ProjectConfigPath p) = d (ProjectConfigPath p)" using 1(2) [rule_format, of 0] by simp
  then have content: "readProjectFile tm f d' (ProjectConfigPath p) = readProjectFile tm f d (ProjectConfigPath p)"
    by (simp add: readProjectFile_def read_file_def)
  have above: "\<forall>j. d' (ProjectConfigPath ((path_dir ^^ j) (path_dir p))) = d (ProjectConfigPath ((path_dir ^^ j) (path_dir p)))"
    using 1(2) by (metis comp_apply funpow_Suc_right)
  show ?case
    using 1(1) [OF refl _ _ _ above] here content
    by (simp add: find_local.simps [of tm f d p] find_local.simps [of tm f d' p] Let_def)
qed

lemma FindLocalConfig_agrees:
  assumes "\<forall>w j. wd = Some w \<longrightarrow> d' (ProjectConfigPath ((path_dir ^^ j) (path_clean w))) = d (ProjectConfigPath ((path_dir ^^ j) (path_clean w)))"
  shows "FindLocalConfig tm f d' wd [] = FindLocalConfig tm f d wd []"
  using assms find_local_agrees [of d' _ d tm f] by (auto simp: FindLocalConfig_def split: option.split)

lemma writePrivateKey_disk: "writePrivateKey k f path p w d = (Inr u, d') \<Longrightarrow> \<exists>data. d' = d(path \<mapsto> data)"
  by (auto simp: writePrivateKey_def write_file_def split: option.splits if_splits)

lemma selectAuthKey_disk:
  assumes "selectAuthKey sg no_io_faults te dir fl rand origin g d = (Inr sel, d')" and "q \<noteq> ks_path sel"
  shows "d' q = d q"
  using assms(1)
proof (cases rule: selectAuthKey_cases)
  case made
  then show ?thesis
    using make_key_cases [OF made] assms(2) writePrivateKey_disk by fastforce
qed simp

lemma url_after_auth:
  assumes "resolveAuthServerURL dp loc g legacy = Inr url" and "NormalizeServerOrigin ip6 url = Inr origin"
    and "NormalizeServerOrigin ip6 origin = Inr origin"
  shows "\<exists>url'. resolveAuthServerURL dp loc \<lparr>gc_default = origin, gc_servers = es\<rparr> None = Inr url' \<and>
    NormalizeServerOrigin ip6 url' = Inr origin"
proof (cases "blank (dp_override dp) \<and> blank (dp_env_url dp) \<and> blank (pj_server loc)")
  case True
  then show ?thesis using stable_origin_nonempty [OF assms(3)] assms(3)
    by (simp add: resolveAuthServerURL_def or_else_def blank_def NormalizeServerOrigin_trim)
next
  case False
  then show ?thesis using assms by (auto simp: resolveAuthServerURL_def or_else_def blank_def)
qed


section \<open>Keys that are lost or shared\<close>

text \<open>
  \<^verbatim>\<open>auth --rotate-key\<close> writes the new key over the old one before it asks the server: when the authorisation fails,
  the key that the account knows is gone.
\<close>

lemma rotation_overwrites_first:
  assumes "prepare_auth tm sg f te dp fl rand d = (Inr (url, origin, g, sel), d1)" and "af_rotate fl"
    and "run_auth fuel tm sg js f te dp fl rand send (d, s) = (Some (Inl err), (d', s'))"
  shows "rand = Some (ks_private sel) \<and> (\<exists>w. writePrivateKey (sg_keys sg) f (ks_path sel) (ks_private sel) w d = (Inr (), d'))"
proof -
  have "make_key sg f te fl rand (ks_path sel) d = (Inr sel, d1)"
  proof -
    from assms(1) have "selectAuthKey sg f te (dp_dir dp) fl rand origin g d = (Inr sel, d1)"
      by (auto simp: prepare_auth_def bindR_def split: prod.splits sum.splits if_splits)
    then obtain path where "make_key sg f te fl rand path d = (Inr sel, d1)"
      using assms(2) by (auto simp: selectAuthKey_def Let_def split: sum.splits)
    then show ?thesis using make_key_cases by metis
  qed
  moreover have "d' = d1"
    using assms(1,3)
    by (auto simp: run_auth_def persistAuthKeyringEntry_def WriteGlobal_def write_file_def
        split: prod.splits sum.splits option.splits if_splits)
  ultimately show ?thesis using make_key_cases by blast
qed

text \<open>The file name keeps host and port only, so two servers that differ in the scheme alone share one file.\<close>

lemma key_file_without_scheme:
  "serverKeyPath e (\<lambda>_. True) ''/c'' ''http://h:8080'' = serverKeyPath e (\<lambda>_. True) ''/c'' ''https://h:8080''"
proof -
  have "map_option (\<lambda>u. (hostname u, port u)) (parse_url (\<lambda>_. True) ''http://h:8080'') = Some (''h'', ''8080'')"
       "map_option (\<lambda>u. (hostname u, port u)) (parse_url (\<lambda>_. True) ''https://h:8080'') = Some (''h'', ''8080'')"
       "sanitizeKeyFileComponent ''h'' = ''h''"
    by code_simp+
  then show ?thesis by (auto simp: serverKeyPath_def Let_def)
qed

section \<open>A concrete keyring\<close>

text \<open>A lossless coder of keyrings, keys that are their own encodings, and a server that approves at once.\<close>

fun put_text :: "string \<Rightarrow> string" where
  "put_text [] = ''.''"
| "put_text (c # s) = CHR '':'' # c # put_text s"

fun get_text :: "string \<Rightarrow> (string \<times> string) option" where
  "get_text [] = None"
| "get_text [a] = (if a = CHR ''.'' then Some ([], []) else None)"
| "get_text (a # c # r) = (if a = CHR ''.'' then Some ([], c # r) else map_option (apfst (Cons c)) (get_text r))"

fun put_entries :: "(string \<times> server_entry) list \<Rightarrow> string" where
  "put_entries [] = ''.''"
| "put_entries ((k, e) # es) =
     CHR ''+'' # put_text k @ put_text (se_key_path e) @ put_text (se_fingerprint e)
       @ put_text (if se_encrypted e then ''1'' else []) @ put_entries es"

fun get_entries :: "nat \<Rightarrow> string \<Rightarrow> (string \<times> server_entry) list option" where
  "get_entries (Suc n) (c # s) =
     (if c = CHR ''.'' then Some []
      else (case get_text s of None \<Rightarrow> None | Some (k, s1) \<Rightarrow>
           (case get_text s1 of None \<Rightarrow> None | Some (p, s2) \<Rightarrow>
           (case get_text s2 of None \<Rightarrow> None | Some (f, s3) \<Rightarrow>
           (case get_text s3 of None \<Rightarrow> None | Some (x, s4) \<Rightarrow>
              map_option (Cons (k, \<lparr>se_key_path = p, se_fingerprint = f, se_encrypted = x \<noteq> []\<rparr>)) (get_entries n s4))))))"
| "get_entries _ _ = None"

lemma get_put_text [simp]: "get_text (put_text s @ r) = Some (s, r)"
  by (induction s) (cases r, simp_all)

lemma get_put_entries: "length es < n \<Longrightarrow> get_entries n (put_entries es @ r) = Some es"
proof (induction es arbitrary: n)
  case Nil
  then show ?case by (cases n) auto
next
  case (Cons x es)
  then obtain m where "n = Suc m" "length es < m" by (cases n) auto
  with Cons.IH show ?case by (cases x) simp
qed

lemma length_put_entries: "length es < Suc (length (put_entries es))"
  by (induction es rule: put_entries.induct) auto

definition demo_toml :: toml where
  "demo_toml = sample_toml
     \<lparr>tm_global := (\<lambda>s. case get_text s of None \<Rightarrow> Inl TomlBroken
        | Some (d, r) \<Rightarrow> (case get_entries (length r) r of None \<Rightarrow> Inl TomlBroken | Some es \<Rightarrow> Inr (d, es))),
      tm_put_global := (\<lambda>g. Some (put_text (gc_default g) @ put_entries (gc_servers g)))\<rparr>"

lemma demo_toml_laws: "toml_laws demo_toml"
  by (simp add: toml_laws_def demo_toml_def get_put_entries [OF length_put_entries])

definition demo_keys :: cli_crypto where
  "demo_keys =
     \<lparr>ck_public = id, ck_sign = (\<lambda>_ msg. msg), ck_marshal = Some, ck_parse = (\<lambda>der. Some (Some der)),
      ck_encrypt = (\<lambda>w der. Some der), ck_decrypt = (\<lambda>w block. Some block),
      ck_pem = (\<lambda>b x. (if b then CHR ''E'' else CHR ''P'') # x),
      ck_unpem = (\<lambda>s. case s of [] \<Rightarrow> None | c # x \<Rightarrow> Some (c = CHR ''E'', x)), ck_authorized = Some\<rparr>"

lemma demo_key_laws: "key_file_laws demo_keys"
  by (simp add: key_file_laws_def demo_keys_def)

definition demo_signer :: signer where
  "demo_signer = \<lparr>sg_env = demo_env, sg_keys = demo_keys, sg_time_text = (\<lambda>_. ''1970-01-01T00:00:00Z''), sg_ip6 = (\<lambda>_. False)\<rparr>"

definition demo_deps :: cli_deps where
  "demo_deps =
     \<lparr>dp_dir = ''/c'', dp_server_url = ''http://H:80/'', dp_override = [], dp_lab = ''a'', dp_device = ''d'', dp_env_url = [],
      dp_env_dir = [], dp_env_xdg = [], dp_home = None, dp_hostname = None, dp_wd = Some ''/''\<rparr>"

definition demo_terminal :: terminal where
  "demo_terminal = \<lparr>te_tty = False, te_password = (\<lambda>_. None), te_line = None\<rparr>"

definition demo_auth_json :: auth_json where
  "demo_auth_json = \<lparr>aj_object = (\<lambda>_. []), aj_error = (\<lambda>_. None),
     aj_authorize = (\<lambda>_. Some \<lparr>dr_device = ''dc'', dr_user = ''uc'', dr_url = ''/v''\<rparr>), aj_poll = (\<lambda>_. Some ''approved'')\<rparr>"

definition demo_flags :: auth_flags where
  "demo_flags = \<lparr>af_rotate = False, af_encrypt = False, af_no_encrypt = True\<rparr>"

definition demo_auth :: "(cli_error + key_selection) option \<times> (disk \<times> nat)" where
  "demo_auth = run_auth 1 demo_toml demo_signer demo_auth_json no_io_faults demo_terminal demo_deps demo_flags (Some ''seed'')
     (\<lambda>r n. (Reply 200 [], Suc n)) (Map.empty, 0)"

definition demo_selection :: key_selection where
  "demo_selection =
     \<lparr>ks_private = ''seed'', ks_public = ''seed'', ks_fingerprint = ''SHA256:c2VlZA'', ks_path = ''/c/keys/h_ed25519'',
      ks_action = Creating, ks_encrypted = False\<rparr>"


end
