(* ===== verification/Cli_Submit.thy ===== *)
theory Cli_Submit
  imports Cli_Auth Http_Api
begin

text \<open>
  \<^verbatim>\<open>apps/cli/internal/commands/lab_commands.go\<close> and \<^verbatim>\<open>keys.go\<close>: the commands on a lab. The requests and the order in which
  they are sent, the checks of the files of a submission, the wait for its result and what is said about it. The
  styles of the terminal, the spinner and the live block are left out; a write to the terminal does not fail.
\<close>

section \<open>Replies\<close>

record submission_reply =
  sr_id :: string
  sr_status :: string
  sr_artifact :: string
  sr_hash :: string
  sr_quota :: "quota_summary option"

record detail_reply =
  de_id :: string
  de_status :: string
  de_verdict :: string
  de_message :: string
  de_quota_state :: string
  de_detail :: string
  de_scores :: "(string \<times> f64) list"
  de_created :: time
  de_finished :: "time option"
  de_quota :: "quota_summary option"

record history_line =
  hl_id :: string
  hl_status :: string
  hl_verdict :: string
  hl_message :: string
  hl_created :: time
  hl_finished :: "time option"

record precheck_reply =
  pk_quota :: "quota_summary option"
  pk_latest :: "(string \<times> time) option"

record profile_reply =
  pf_lab :: string
  pf_nickname :: string
  pf_track :: string
  pf_pick :: bool

record key_line =
  kl_id :: int
  kl_public :: string
  kl_device :: string
  kl_created :: time

text \<open>The JSON of the client: objects of text members, the error object, one decoder for each body.\<close>

record client_json =
  cj_object :: "(string \<times> string) list \<Rightarrow> string"
  cj_error :: "string \<Rightarrow> (string \<times> string) option"
  cj_lab :: "string \<Rightarrow> v2_lab_response option"
  cj_board :: "string \<Rightarrow> board option"
  cj_precheck :: "string \<Rightarrow> precheck_reply option"
  cj_submission :: "string \<Rightarrow> submission_reply option"
  cj_detail :: "string \<Rightarrow> detail_reply option"
  cj_history :: "string \<Rightarrow> (history_line list \<times> quota_summary option) option"
  cj_profile :: "string \<Rightarrow> profile_reply option"
  cj_keys :: "string \<Rightarrow> key_line list option"

section \<open>The lab\<close>

definition v1_metric :: "v2_metric \<Rightarrow> metric_section" where
  "v1_metric mt =
     \<lparr>metric_id = v2_metric_id mt, metric_name = v2_metric_name mt,
      metric_sort = (if v2_metric_sort mt = ''asc'' then Asc else if v2_metric_sort mt = ''desc'' then Desc
                     else OtherSort (v2_metric_sort mt)),
      metric_unit = v2_metric_unit mt\<rparr>"

definition v2LabResponseToV1 :: "v2_lab_response \<Rightarrow> public_lab" where
  "v2LabResponseToV1 v =
     (let m = v2l_manifest v
      in \<lparr>pl_id = v2l_id v, pl_name = v2l_name v,
          pl_manifest =
            \<lparr>m_lab = (v2_lab m)\<lparr>lab_tags := copy_slice (slice_list (lab_tags (v2_lab m)))\<rparr>,
             m_submit = (v2_submit m)\<lparr>submit_files := copy_slice (slice_list (submit_files (v2_submit m)))\<rparr>,
             m_eval = \<lparr>eval_image = [], eval_timeout = v2_timeout m\<rparr>,
             m_quota = (v2_quota m)\<lparr>quota_free := copy_slice (slice_list (quota_free (v2_quota m)))\<rparr>,
             m_metrics = map v1_metric (v2_metrics m),
             m_board = \<lparr>rank_by = v2_rank_by m, board_pick = v2_pick m, rank_all = None\<rparr>,
             m_schedule = v2_schedule m\<rparr>,
          pl_updated = v2l_updated v\<rparr>)"

section \<open>The files of a submission\<close>

record submission_file =
  sf_name :: string
  sf_path :: string
  sf_content :: string

fun provide :: "(string \<times> string) list \<Rightarrow> string list \<Rightarrow> cli_error + (string \<times> string) list" where
  "provide given [] = Inr given"
| "provide given (path # paths) =
     (let clean = trim_space path; name = path_base clean
      in if clean = [] then Inl FilePathInvalid
         else if map_of given name \<noteq> None then Inl (FileDuplicate name)
         else provide (given @ [(name, clean)]) paths)"

text \<open>The loop over the declared names: what is missing so far, what has been read, what is left of the arguments.\<close>

fun collect ::
  "io_faults \<Rightarrow> disk \<Rightarrow> (string \<times> string) list \<Rightarrow> string list \<Rightarrow>
   cli_error + (string list \<times> submission_file list \<times> (string \<times> string) list)" where
  "collect f d given [] = Inr ([], [], given)"
| "collect f d given (name # names) =
     (case map_of given name of
        None \<Rightarrow> bindR (collect f d given names) (\<lambda>(missing, files, left). Inr (name # missing, files, left))
      | Some path \<Rightarrow>
          bindR (read_file f d path) (\<lambda>content.
          bindR (collect f d (AList.delete name given) names) (\<lambda>(missing, files, left).
            Inr (missing, \<lparr>sf_name = name, sf_path = path, sf_content = content\<rparr> # files, left))))"

definition validateSubmissionFiles ::
  "io_faults \<Rightarrow> disk \<Rightarrow> string list \<Rightarrow> string list \<Rightarrow> cli_error + submission_file list" where
  "validateSubmissionFiles f d expected paths =
     (if paths = [] then Inl (FilesMissing [])
      else if expected = [] then Inl FilesUndeclared
      else bindR (provide [] paths) (\<lambda>given.
           bindR (collect f d given expected) (\<lambda>(missing, files, left).
             if missing \<noteq> [] then Inl (FilesMissing missing)
             else if left \<noteq> [] then Inl (FilesUnexpected (sort (map fst left)))
             else Inr files)))"

definition submissionArchiveHash :: "env \<Rightarrow> submission_file list \<Rightarrow> cli_error + string" where
  "submissionArchiveHash e files =
     (case env_targz e (map (\<lambda>x. (sf_name x, sf_content x)) (sort_stable (\<lambda>a b. sf_name a < sf_name b) files)) of
        None \<Rightarrow> Inl ArchiveUnwritable
      | Some archive \<Rightarrow> Inr (hex_text (env_sha256 e archive)))"

definition submissionFileNames :: "submission_file list \<Rightarrow> string list" where
  "submissionFileNames files = map sf_name files"

definition duplicateLatestSubmission :: "precheck_reply \<Rightarrow> string \<Rightarrow> (string \<times> time) option" where
  "duplicateLatestSubmission p contentHash =
     (case pk_latest p of
        None \<Rightarrow> None
      | Some (h, t) \<Rightarrow> if trim_space h \<noteq> trim_space contentHash then None else Some (h, t))"

section \<open>Requests\<close>

text \<open>
  A run of a command: the settings of the files, the signatures and the JSON, the disk it reads, and the clock
  readings and random bytes of the requests it signs, one after the other.
\<close>

record client_run =
  cr_toml :: toml
  cr_faults :: io_faults
  cr_deps :: cli_deps
  cr_terminal :: terminal
  cr_disk :: disk
  cr_signer :: signer
  cr_json :: client_json
  cr_now :: "nat \<Rightarrow> time"
  cr_rand :: "nat \<Rightarrow> string option"

definition send_for :: "client_run \<Rightarrow> (string \<Rightarrow> 'a option) \<Rightarrow> 's transport \<Rightarrow> cli_error + out_request \<Rightarrow> 's \<Rightarrow> (cli_error + 'a) \<times> 's" where
  "send_for c dec send req s =
     (case req of Inl err \<Rightarrow> (Inl err, s) | Inr r \<Rightarrow> doJSON (cj_error (cr_json c)) dec send r s)"

definition signed ::
  "client_run \<Rightarrow> nat \<Rightarrow> url \<Rightarrow> config \<Rightarrow> string \<Rightarrow> string \<Rightarrow> string \<Rightarrow> string option \<Rightarrow> cli_error + out_request" where
  "signed c i base cfg priv method path body =
     signedRequest (cr_signer c) base method path body (cf_key_id cfg) priv (cr_now c i) (cr_rand c i)"

definition getLab :: "client_run \<Rightarrow> 's transport \<Rightarrow> url \<Rightarrow> string \<Rightarrow> 's \<Rightarrow> (cli_error + public_lab) \<times> 's" where
  "getLab c send base lab s =
     send_for c (\<lambda>b. map_option v2LabResponseToV1 (cj_lab (cr_json c) b)) send
       (NewRequest (sg_ip6 (cr_signer c)) base ''GET'' (''/api/v2/labs/'' @ lab) None) s"

definition board_path :: "string \<Rightarrow> string \<Rightarrow> string" where
  "board_path lab by =
     apiPath ''/labs/'' @ lab @ ''/board'' @ (if blank by then [] else ''?by='' @ query_escape by)"

definition getBoard :: "client_run \<Rightarrow> 's transport \<Rightarrow> url \<Rightarrow> string \<Rightarrow> string \<Rightarrow> 's \<Rightarrow> (cli_error + board) \<times> 's" where
  "getBoard c send base lab by s =
     send_for c (cj_board (cr_json c)) send (NewRequest (sg_ip6 (cr_signer c)) base ''GET'' (board_path lab by) None) s"

definition getSignedBoard ::
  "client_run \<Rightarrow> nat \<Rightarrow> 's transport \<Rightarrow> url \<Rightarrow> config \<Rightarrow> string \<Rightarrow> string \<Rightarrow> string \<Rightarrow> 's \<Rightarrow> (cli_error + board) \<times> 's" where
  "getSignedBoard c i send base cfg priv lab by s =
     send_for c (cj_board (cr_json c)) send (signed c i base cfg priv ''GET'' (board_path lab by) None) s"

definition getSubmitPrecheck ::
  "client_run \<Rightarrow> nat \<Rightarrow> 's transport \<Rightarrow> url \<Rightarrow> config \<Rightarrow> string \<Rightarrow> string \<Rightarrow> 's \<Rightarrow> (cli_error + precheck_reply) \<times> 's" where
  "getSubmitPrecheck c i send base cfg priv lab s =
     send_for c (cj_precheck (cr_json c)) send
       (signed c i base cfg priv ''GET'' (apiPath ''/labs/'' @ lab @ ''/submit/precheck'') None) s"

definition cli_getSubmissionDetail ::
  "client_run \<Rightarrow> nat \<Rightarrow> 's transport \<Rightarrow> url \<Rightarrow> config \<Rightarrow> string \<Rightarrow> string \<Rightarrow> string \<Rightarrow> 's \<Rightarrow> (cli_error + detail_reply) \<times> 's" where
  "cli_getSubmissionDetail c i send base cfg priv lab sid s =
     send_for c (cj_detail (cr_json c)) send
       (signed c i base cfg priv ''GET'' (apiPath ''/labs/'' @ lab @ ''/submissions/'' @ sid) None) s"

definition getHistory ::
  "client_run \<Rightarrow> nat \<Rightarrow> 's transport \<Rightarrow> url \<Rightarrow> config \<Rightarrow> string \<Rightarrow> string \<Rightarrow> 's \<Rightarrow>
   (cli_error + (history_line list \<times> quota_summary option)) \<times> 's" where
  "getHistory c i send base cfg priv lab s =
     send_for c (cj_history (cr_json c)) send (signed c i base cfg priv ''GET'' (apiPath ''/labs/'' @ lab @ ''/history'') None) s"

definition updateProfileNickname ::
  "client_run \<Rightarrow> nat \<Rightarrow> 's transport \<Rightarrow> url \<Rightarrow> config \<Rightarrow> string \<Rightarrow> string \<Rightarrow> 's \<Rightarrow> (cli_error + profile_reply) \<times> 's" where
  "updateProfileNickname c i send base cfg priv nickname s =
     send_for c (cj_profile (cr_json c)) send
       (signed c i base cfg priv ''PUT'' (apiPath ''/profile'') (Some (cj_object (cr_json c) [(''nickname'', nickname)]))) s"

definition cli_updateTrack ::
  "client_run \<Rightarrow> nat \<Rightarrow> 's transport \<Rightarrow> url \<Rightarrow> config \<Rightarrow> string \<Rightarrow> string \<Rightarrow> string \<Rightarrow> 's \<Rightarrow> (cli_error + profile_reply) \<times> 's" where
  "cli_updateTrack c i send base cfg priv lab track s =
     send_for c (cj_profile (cr_json c)) send
       (signed c i base cfg priv ''PUT'' (apiPath ''/labs/'' @ lab @ ''/track'')
          (Some (cj_object (cr_json c) [(''track'', track)]))) s"

definition cli_listKeys ::
  "client_run \<Rightarrow> nat \<Rightarrow> 's transport \<Rightarrow> url \<Rightarrow> config \<Rightarrow> string \<Rightarrow> 's \<Rightarrow> (cli_error + key_line list) \<times> 's" where
  "cli_listKeys c i send base cfg priv s =
     send_for c (cj_keys (cr_json c)) send (signed c i base cfg priv ''GET'' (apiPath ''/keys'') None) s"

definition cli_revokeKey ::
  "client_run \<Rightarrow> nat \<Rightarrow> 's transport \<Rightarrow> url \<Rightarrow> config \<Rightarrow> string \<Rightarrow> int \<Rightarrow> 's \<Rightarrow> (cli_error + unit) \<times> 's" where
  "cli_revokeKey c i send base cfg priv keyID s =
     (case signed c i base cfg priv ''DELETE'' (apiPath ''/keys/'' @ int_text keyID) None of
        Inl err \<Rightarrow> (Inl err, s)
      | Inr r \<Rightarrow>
          (case send r s of
             (NoReply, s') \<Rightarrow> (Inl Unreachable, s')
           | (Reply status body, s') \<Rightarrow>
               (if status \<noteq> 204 then (Inl (RevokeFailed (decodeAPIErrorMessage (cj_error (cr_json c)) body)), s')
                else (Inr (), s'))))"

section \<open>Reading commands and settings\<close>

abbreviation run_config :: "client_run \<Rightarrow> cli_error + config" where
  "run_config c \<equiv>
     resolveConfig (cr_toml c) (sg_env (cr_signer c)) (sg_ip6 (cr_signer c)) (cr_faults c) (cr_deps c) (cr_disk c)"

abbreviation run_lab :: "client_run \<Rightarrow> cli_error + string" where
  "run_lab c \<equiv>
     activeLabID (cr_toml c) (sg_env (cr_signer c)) (sg_ip6 (cr_signer c)) (cr_faults c) (cr_deps c) (cr_disk c)"

abbreviation run_server :: "client_run \<Rightarrow> cli_error + string" where
  "run_server c \<equiv>
     resolveServerURL (cr_toml c) (sg_env (cr_signer c)) (sg_ip6 (cr_signer c)) (cr_faults c) (cr_deps c) (cr_disk c)"

definition run_key :: "client_run \<Rightarrow> config \<Rightarrow> cli_error + string" where
  "run_key c cfg =
     (if cf_key_id cfg = 0 then Inl KeyIdRequired
      else readPrivateKeyWithDeps (sg_keys (cr_signer c)) (cr_faults c) (cr_terminal c) (cr_disk c) (cf_key_path cfg))"

text \<open>How the commands that sign every request begin: configuration, key, server.\<close>

definition signed_in :: "client_run \<Rightarrow> cli_error + (config \<times> string \<times> url)" where
  "signed_in c =
     bindR (run_config c) (\<lambda>cfg. bindR (run_key c cfg) (\<lambda>priv. bindR (run_server c) (\<lambda>server.
     bindR (new_client (sg_ip6 (cr_signer c)) server) (\<lambda>base. Inr (cfg, priv, base)))))"

definition runNick :: "client_run \<Rightarrow> 's transport \<Rightarrow> string \<Rightarrow> 's \<Rightarrow> (cli_error + profile_reply) \<times> 's" where
  "runNick c send nickname s =
     (case signed_in c of
        Inl err \<Rightarrow> (Inl err, s)
      | Inr (cfg, priv, base) \<Rightarrow> updateProfileNickname c 0 send base cfg priv nickname s)"

definition manifestHasMetric :: "metric_section list \<Rightarrow> string \<Rightarrow> bool" where
  "manifestHasMetric ms wanted \<longleftrightarrow> list_ex (\<lambda>mt. metric_id mt = wanted) ms"

definition runTrack :: "client_run \<Rightarrow> 's transport \<Rightarrow> string \<Rightarrow> 's \<Rightarrow> (cli_error + (public_lab \<times> profile_reply)) \<times> 's" where
  "runTrack c send track s =
     (case bindR (run_lab c) (\<lambda>lab. bindR (signed_in c) (\<lambda>x. Inr (lab, x))) of
        Inl err \<Rightarrow> (Inl err, s)
      | Inr (lab, cfg, priv, base) \<Rightarrow>
     (case getLab c send base lab s of
        (Inl err, s1) \<Rightarrow> (Inl err, s1)
      | (Inr l, s1) \<Rightarrow>
          (if \<not> board_pick (m_board (pl_manifest l)) then (Inl TrackDisabled, s1)
           else if \<not> manifestHasMetric (m_metrics (pl_manifest l)) track then (Inl TrackInvalid, s1)
           else (case cli_updateTrack c 0 send base cfg priv lab track s1 of
                   (Inl err, s2) \<Rightarrow> (Inl err, s2) | (Inr p, s2) \<Rightarrow> (Inr (l, p), s2)))))"

definition runHistory ::
  "client_run \<Rightarrow> 's transport \<Rightarrow> string \<Rightarrow> 's \<Rightarrow>
   (cli_error + (public_lab \<times> (detail_reply + (history_line list \<times> quota_summary option)))) \<times> 's" where
  "runHistory c send sid s =
     (case bindR (run_lab c) (\<lambda>lab. bindR (signed_in c) (\<lambda>x. Inr (lab, x))) of
        Inl err \<Rightarrow> (Inl err, s)
      | Inr (lab, cfg, priv, base) \<Rightarrow>
     (case getLab c send base lab s of
        (Inl err, s1) \<Rightarrow> (Inl err, s1)
      | (Inr l, s1) \<Rightarrow>
          (if \<not> blank sid
           then (case cli_getSubmissionDetail c 0 send base cfg priv lab (trim_space sid) s1 of
                   (Inl err, s2) \<Rightarrow> (Inl err, s2) | (Inr de, s2) \<Rightarrow> (Inr (l, Inl de), s2))
           else (case getHistory c 0 send base cfg priv lab s1 of
                   (Inl err, s2) \<Rightarrow> (Inl err, s2) | (Inr h, s2) \<Rightarrow> (Inr (l, Inr h), s2)))))"

definition runListKeys :: "client_run \<Rightarrow> 's transport \<Rightarrow> 's \<Rightarrow> (cli_error + key_line list) \<times> 's" where
  "runListKeys c send s =
     (case signed_in c of Inl err \<Rightarrow> (Inl err, s) | Inr (cfg, priv, base) \<Rightarrow> cli_listKeys c 0 send base cfg priv s)"

definition runRevokeKey :: "client_run \<Rightarrow> 's transport \<Rightarrow> int \<Rightarrow> 's \<Rightarrow> (cli_error + unit) \<times> 's" where
  "runRevokeKey c send keyID s =
     (case signed_in c of Inl err \<Rightarrow> (Inl err, s) | Inr (cfg, priv, base) \<Rightarrow> cli_revokeKey c 0 send base cfg priv keyID s)"

definition revoke_command :: "client_run \<Rightarrow> 's transport \<Rightarrow> string \<Rightarrow> 's \<Rightarrow> (cli_error + unit) \<times> 's" where
  "revoke_command c send arg s =
     (case go_atoi (trim_space arg) of None \<Rightarrow> (Inl KeyIdInvalid, s) | Some k \<Rightarrow> runRevokeKey c send k s)"

text \<open>The board: signed where there is a key, and public again where the signature is refused.\<close>

definition runBoard :: "client_run \<Rightarrow> 's transport \<Rightarrow> string \<Rightarrow> 's \<Rightarrow> (cli_error + (public_lab \<times> board)) \<times> 's" where
  "runBoard c send by s =
     (case bindR (run_lab c) (\<lambda>lab. bindR (run_config c) (\<lambda>cfg. bindR (run_server c) (\<lambda>server.
             bindR (new_client (sg_ip6 (cr_signer c)) server) (\<lambda>base. Inr (lab, cfg, base))))) of
        Inl err \<Rightarrow> (Inl err, s)
      | Inr (lab, cfg, base) \<Rightarrow>
     (case getLab c send base lab s of
        (Inl err, s1) \<Rightarrow> (Inl err, s1)
      | (Inr l, s1) \<Rightarrow>
          (case (if cf_key_id cfg = 0 then getBoard c send base lab by s1
                 else (case run_key c cfg of
                         Inl err \<Rightarrow> (Inl err, s1)
                       | Inr priv \<Rightarrow>
                           (case getSignedBoard c 0 send base cfg priv lab by s1 of
                              (Inl (ApiError status code message), s2) \<Rightarrow>
                                (if status = 401 then getBoard c send base lab by s2
                                 else (Inl (ApiError status code message), s2))
                            | (res, s2) \<Rightarrow> (res, s2)))) of
             (Inl err, s2) \<Rightarrow> (Inl err, s2) | (Inr b, s2) \<Rightarrow> (Inr (l, b), s2))))"

section \<open>Submitting\<close>

text \<open>What the command says before its result.\<close>

datatype notice = PrecheckUnavailable | SameAsLatest time | StatusSummary "string list"

datatype submit_outcome = Cancelled | Detached submission_reply | Interrupted string | Finished public_lab detail_reply

text \<open>
  What a submission draws on beside the run: whether the output is a terminal, the form writer with its boundary, and
  whether the wait, or a request of the wait, is interrupted in the n-th round.
\<close>

record submit_run =
  sb_live :: bool
  sb_multipart :: "(string \<times> string) list \<Rightarrow> (string \<times> string) option"
  sb_stop_wait :: "nat \<Rightarrow> bool"
  sb_stop_call :: "nat \<Rightarrow> bool"

definition confirmDuplicateSubmission ::
  "bool \<Rightarrow> terminal \<Rightarrow> (string \<times> time) option \<Rightarrow> (cli_error + bool) \<times> notice list" where
  "confirmDuplicateSubmission live te latest =
     (case latest of
        None \<Rightarrow> (Inr True, [])
      | Some (h, t) \<Rightarrow>
          (if \<not> live then (Inr True, [SameAsLatest t])
           else (case te_line te of
                   None \<Rightarrow> (Inl (IoError ''stdin''), [SameAsLatest t])
                 | Some l \<Rightarrow> (let a = to_lower (trim_space l) in (Inr (a \<noteq> ''n'' \<and> a \<noteq> ''no''), [SameAsLatest t])))))"

definition appendSubmissionStatus :: "string list \<Rightarrow> string \<Rightarrow> string list" where
  "appendSubmissionStatus history status =
     (let n = trim_space status
      in if n = [] then history
         else if history \<noteq> [] \<and> last history = n then history
         else history @ [n])"

definition submissionIsTerminal :: "string \<Rightarrow> bool" where
  "submissionIsTerminal status \<longleftrightarrow> trim_space (to_lower status) \<notin> {''queued'', ''running'', []}"

definition submitWaitError :: "bool \<Rightarrow> string \<Rightarrow> cli_error \<Rightarrow> cli_error + submit_outcome" where
  "submitWaitError cancelled sid err = (if cancelled \<and> err = Unreachable then Inr (Interrupted sid) else Inl err)"

text \<open>
  The wait: \<open>ask n\<close> is the n-th request for the detail. The status so far, the last one noted, the statuses noted and
  the last detail; \<open>None\<close> is a wait that goes on when the fuel is used up.
\<close>

fun await_result ::
  "nat \<Rightarrow> submit_run \<Rightarrow> (nat \<Rightarrow> 's \<Rightarrow> (cli_error + detail_reply) \<times> 's) \<Rightarrow> string \<Rightarrow> nat \<Rightarrow> string \<Rightarrow> string \<Rightarrow>
   string list \<Rightarrow> detail_reply option \<Rightarrow> 's \<Rightarrow> ((cli_error + submit_outcome) + detail_reply) option \<times> string list \<times> 's" where
  "await_result 0 b ask sid n status noted history detail s = (None, history, s)"
| "await_result (Suc fuel) b ask sid n status noted history detail s =
     (let history' = (if status \<noteq> noted then appendSubmissionStatus history status else history)
      in if submissionIsTerminal status then
           (case detail of
              Some de \<Rightarrow>
                (if de_id de \<noteq> [] \<and> de_id de = sid \<and> equal_fold (de_status de) status then (Some (Inr de), history', s)
                 else (case ask n s of
                         (Inl err, s') \<Rightarrow> (Some (Inl (submitWaitError (sb_stop_call b n) sid err)), history', s')
                       | (Inr de', s') \<Rightarrow> (Some (Inr de'), history', s')))
            | None \<Rightarrow>
                (case ask n s of
                   (Inl err, s') \<Rightarrow> (Some (Inl (submitWaitError (sb_stop_call b n) sid err)), history', s')
                 | (Inr de', s') \<Rightarrow> (Some (Inr de'), history', s')))
         else if sb_stop_wait b n then (Some (Inl (Inr (Interrupted sid))), history', s)
         else (case ask n s of
                 (Inl err, s') \<Rightarrow> (Some (Inl (submitWaitError (sb_stop_call b n) sid err)), history', s')
               | (Inr de, s') \<Rightarrow> await_result fuel b ask sid (Suc n) (de_status de) status history' (Some de) s'))"

text \<open>Everything before a request is sent: lab, configuration and server.\<close>

definition submit_start :: "client_run \<Rightarrow> cli_error + (string \<times> config \<times> url)" where
  "submit_start c =
     bindR (run_lab c) (\<lambda>lab. bindR (run_config c) (\<lambda>cfg. bindR (run_server c) (\<lambda>server.
     bindR (new_client (sg_ip6 (cr_signer c)) server) (\<lambda>base. Inr (lab, cfg, base)))))"

definition submit_files_of :: "client_run \<Rightarrow> config \<Rightarrow> public_lab \<Rightarrow> string list \<Rightarrow> cli_error + (submission_file list \<times> string \<times> string)" where
  "submit_files_of c cfg l args =
     bindR (validateSubmissionFiles (cr_faults c) (cr_disk c) (slice_list (submit_files (m_submit (pl_manifest l)))) args) (\<lambda>files.
     bindR (submissionArchiveHash (sg_env (cr_signer c)) files) (\<lambda>h.
     bindR (run_key c cfg) (\<lambda>priv. Inr (files, h, priv))))"

text \<open>The precheck of the latest submission: whether to go on, and what was said.\<close>

definition precheck_submission ::
  "client_run \<Rightarrow> submit_run \<Rightarrow> 's transport \<Rightarrow> url \<Rightarrow> config \<Rightarrow> string \<Rightarrow> string \<Rightarrow> string \<Rightarrow> 's \<Rightarrow>
   (cli_error + bool) \<times> notice list \<times> 's" where
  "precheck_submission c b send base cfg priv lab h s =
     (case getSubmitPrecheck c 0 send base cfg priv lab s of
        (Inl err, s') \<Rightarrow> (Inr True, [PrecheckUnavailable], s')
      | (Inr p, s') \<Rightarrow>
          (case confirmDuplicateSubmission (sb_live b) (cr_terminal c) (duplicateLatestSubmission p h) of
             (go, ns) \<Rightarrow> (go, ns, s')))"

text \<open>The upload: the form of the files, signed over the lab, the names and the digest of the archive.\<close>

definition upload_request ::
  "client_run \<Rightarrow> submit_run \<Rightarrow> url \<Rightarrow> config \<Rightarrow> string \<Rightarrow> string \<Rightarrow> submission_file list \<Rightarrow> string \<Rightarrow> cli_error + out_request" where
  "upload_request c b base cfg priv lab files h =
     (case sb_multipart b (map (\<lambda>x. (sf_name x, sf_content x)) files) of
        None \<Rightarrow> Inl RequestInvalid
      | Some (body, contentType) \<Rightarrow>
          bindR (newNonce (cr_rand c 1)) (\<lambda>nonce.
            signedRequestWithPayload (cr_signer c) base ''POST'' (apiPath ''/labs/'' @ lab @ ''/submit'') body contentType
              (cf_key_id cfg) priv
              (WithContentHash (NewPayload lab (cr_now c 1) nonce (submissionFileNames files)) h)))"

definition status_summary :: "bool \<Rightarrow> string list \<Rightarrow> notice list" where
  "status_summary live history = (if live \<or> history = [] then [] else [StatusSummary history])"

definition runSubmit ::
  "nat \<Rightarrow> client_run \<Rightarrow> submit_run \<Rightarrow> 's transport \<Rightarrow> string list \<Rightarrow> bool \<Rightarrow> 's \<Rightarrow>
   (cli_error + submit_outcome) option \<times> notice list \<times> 's" where
  "runSubmit fuel c b send args detach s =
     (case submit_start c of
        Inl err \<Rightarrow> (Some (Inl err), [], s)
      | Inr (lab, cfg, base) \<Rightarrow>
     (case getLab c send base lab s of
        (Inl err, s1) \<Rightarrow> (Some (Inl err), [], s1)
      | (Inr l, s1) \<Rightarrow>
     (case submit_files_of c cfg l args of
        Inl err \<Rightarrow> (Some (Inl err), [], s1)
      | Inr (files, h, priv) \<Rightarrow>
     (case precheck_submission c b send base cfg priv lab h s1 of
        (Inl err, ns, s2) \<Rightarrow> (Some (Inl err), ns, s2)
      | (Inr False, ns, s2) \<Rightarrow> (Some (Inr Cancelled), ns, s2)
      | (Inr True, ns, s2) \<Rightarrow>
     (case send_for c (cj_submission (cr_json c)) send (upload_request c b base cfg priv lab files h) s2 of
        (Inl err, s3) \<Rightarrow> (Some (Inl err), ns, s3)
      | (Inr sub, s3) \<Rightarrow>
          (if detach then (Some (Inr (Detached sub)), ns, s3)
           else (case await_result fuel b
                        (\<lambda>n. cli_getSubmissionDetail c (n + 2) send base cfg priv lab (sr_id sub))
                        (sr_id sub) 0 (sr_status sub) [] [] None s3 of
                   (None, history, s4) \<Rightarrow> (None, ns, s4)
                 | (Some (Inl res), history, s4) \<Rightarrow> (Some res, ns @ status_summary (sb_live b) history, s4)
                 | (Some (Inr de), history, s4) \<Rightarrow>
                     (Some (Inr (Finished l de)), ns @ status_summary (sb_live b) history, s4))))))))"

section \<open>The files that are sent\<close>

lemma provide_Inr:
  "provide given paths = Inr out \<Longrightarrow> distinct (map fst given) \<Longrightarrow>
   out = given @ map (\<lambda>p. (path_base (trim_space p), trim_space p)) paths \<and> distinct (map fst out)"
proof (induction paths arbitrary: given)
  case (Cons p paths)
  from Cons.prems have new: "path_base (trim_space p) \<notin> fst ` set given"
    and rest: "provide (given @ [(path_base (trim_space p), trim_space p)]) paths = Inr out"
    by (auto simp: Let_def image_iff split: if_splits)
  with Cons.prems(2) have "distinct (map fst (given @ [(path_base (trim_space p), trim_space p)]))" by simp
  with Cons.IH [OF rest] show ?case unfolding list.map append_assoc append.simps by blast
qed simp

lemma delete_eq_filter: "AList.delete k al = filter (\<lambda>x. fst x \<noteq> k) al"
  by (auto simp: AList.delete_eq case_prod_unfold eq_commute)

lemma collect_Inr:
  "collect f d given names = Inr ([], files, left) \<Longrightarrow> distinct (map fst given) \<Longrightarrow>
   map sf_name files = names \<and> distinct names \<and> set names \<subseteq> fst ` set given \<and>
   (\<forall>x \<in> set files. (sf_name x, sf_path x) \<in> set given \<and> read_file f d (sf_path x) = Inr (sf_content x)) \<and>
   left = filter (\<lambda>x. fst x \<notin> set names) given"
proof (induction names arbitrary: given files)
  case (Cons n names)
  from Cons.prems obtain path cont rest where
    path: "map_of given n = Some path" and cont: "read_file f d path = Inr cont"
    and rest: "collect f d (AList.delete n given) names = Inr ([], rest, left)"
    and files: "files = \<lparr>sf_name = n, sf_path = path, sf_content = cont\<rparr> # rest"
    by (auto split: option.splits)
  have "distinct (map fst (AList.delete n given))" using Cons.prems(2) by (simp add: distinct_delete)
  note IH = Cons.IH [OF rest this]
  let ?rest = "AList.delete n given"
  have n: "n \<notin> set names" using IH delete_notin_dom [of n given] by blast
  have here: "(n, path) \<in> set given" by (rule map_of_SomeD [OF path])
  have "set names \<subseteq> fst ` set ?rest" using IH by simp
  then have "set names \<subseteq> fst ` set given" by (rule subset_trans [OF _ dom_delete_subset])
  moreover have "n \<in> fst ` set given" using imageI [OF here, of fst] by simp
  ultimately have names: "set (n # names) \<subseteq> fst ` set given" by simp
  have "set ?rest \<subseteq> set given" by (simp add: delete_eq_filter)
  then have read: "\<forall>x \<in> set files. (sf_name x, sf_path x) \<in> set given \<and> read_file f d (sf_path x) = Inr (sf_content x)"
    using IH cont here by (auto simp: files)
  have left: "left = filter (\<lambda>x. fst x \<notin> set (n # names)) given"
    using IH by (auto simp: delete_eq_filter intro: filter_cong)
  show ?case using IH n names read left by (simp add: files)
qed simp

lemma validated_files:
  assumes "validateSubmissionFiles f d expected paths = Inr files"
  shows "map sf_name files = expected \<and> distinct expected \<and>
    mset (map (\<lambda>p. path_base (trim_space p)) paths) = mset expected \<and>
    (\<forall>x \<in> set files. \<exists>p \<in> set paths. sf_path x = trim_space p \<and> sf_name x = path_base (sf_path x) \<and>
       d (sf_path x) = Some (sf_content x))"
proof -
  let ?name = "\<lambda>p. path_base (trim_space p)"
  from assms obtain given where "provide [] paths = Inr given" and col: "collect f d given expected = Inr ([], files, [])"
    by (auto simp: validateSubmissionFiles_def split: if_splits)
  then have given: "given = map (\<lambda>p. (?name p, trim_space p)) paths" "distinct (map fst given)"
    using provide_Inr [of "[]"] by auto
  note files = collect_Inr [OF col given(2)]
  then have left: "filter (\<lambda>x. fst x \<notin> set expected) given = []" by simp
  with files have all: "fst ` set given = set expected" by (auto simp: filter_empty_conv)
  have src: "\<exists>p \<in> set paths. sf_path x = trim_space p \<and> sf_name x = path_base (sf_path x) \<and> d (sf_path x) = Some (sf_content x)"
    if "x \<in> set files" for x
  proof -
    from files that have "(sf_name x, sf_path x) \<in> set given" and "read_file f d (sf_path x) = Inr (sf_content x)" by blast+
    then show ?thesis by (auto simp: given(1) read_file_def split: if_splits option.splits)
  qed
  have "mset (map fst given) = mset expected"
    using files given(2) all set_eq_iff_mset_eq_distinct [of "map fst given" expected] by simp
  moreover have "map fst given = map ?name paths" by (simp add: given(1))
  ultimately show ?thesis using files src by simp
qed

text \<open>
  C0. What \<^verbatim>\<open>submit\<close> sends is exactly what the lab declares: the files have the declared names, in their order and
  without repetition, there is one argument for each, whose base name it is, and the content is that of the file.
\<close>

theorem validateSubmissionFiles_exact:
  assumes "validateSubmissionFiles f d expected paths = Inr files"
  shows "map sf_name files = expected \<and> distinct expected \<and>
    mset (map (\<lambda>p. path_base (trim_space p)) paths) = mset expected \<and>
    (\<forall>x \<in> set files. \<exists>p \<in> set paths. sf_path x = trim_space p \<and> sf_name x = path_base (sf_path x) \<and>
       d (sf_path x) = Some (sf_content x))"
  by (rule validated_files [OF assms])

lemma validateSubmissionFiles_exact_witness:
  "\<exists>files. validateSubmissionFiles no_io_faults [''/w/b.c'' \<mapsto> ''x'', ''a.c'' \<mapsto> ''y''] [''a.c'', ''b.c''] ['' /w/b.c'', ''a.c''] = Inr files \<and>
     map sf_name files = [''a.c'', ''b.c''] \<and> map sf_content files = [''y'', ''x'']"
proof -
  have "validateSubmissionFiles no_io_faults [''/w/b.c'' \<mapsto> ''x'', ''a.c'' \<mapsto> ''y''] [''a.c'', ''b.c''] ['' /w/b.c'', ''a.c'']
    = Inr [\<lparr>sf_name = ''a.c'', sf_path = ''a.c'', sf_content = ''y''\<rparr>, \<lparr>sf_name = ''b.c'', sf_path = ''/w/b.c'', sf_content = ''x''\<rparr>]"
    by code_simp
  from validateSubmissionFiles_exact [OF this] this show ?thesis by simp
qed

section \<open>The digest of the precheck\<close>

lemma insert_by_map: "(\<And>a b. lt (f a) (f b) = lt' a b) \<Longrightarrow> map f (insert_by lt' y ys) = insert_by lt (f y) (map f ys)"
  by (induction ys) simp_all

lemma sort_stable_map:
  assumes "\<And>a b. lt (f a) (f b) = lt' a b"
  shows "map f (sort_stable lt' xs) = sort_stable lt (map f xs)"
  by (induction xs) (simp_all add: sort_stable_def insert_by_map [of lt f lt', OF assms])

lemma archive_digest:
  "submissionArchiveHash e files = Inr h \<longleftrightarrow>
   (\<exists>a. Archive e (map (\<lambda>x. (sf_name x, sf_content x)) files) = Some (a, h))"
proof -
  have "map (\<lambda>x. (sf_name x, sf_content x)) (sort_stable (\<lambda>a b. sf_name a < sf_name b) files) =
    sort_stable (\<lambda>a b. fst a < fst b) (map (\<lambda>x. (sf_name x, sf_content x)) files)"
    by (rule sort_stable_map [where lt = "\<lambda>a b. fst a < fst b" and f = "\<lambda>x. (sf_name x, sf_content x)"]) simp
  then show ?thesis by (auto simp: submissionArchiveHash_def Archive_def split: option.splits)
qed

end
