(* ===== verification/Cli_Report.thy ===== *)
theory Cli_Report
  imports Cli_Submit
begin

text \<open>
  What the commands say about a result: the text of \<^verbatim>\<open>lab_commands.go\<close> without styles, padding and relative times,
  and the stage of the live block of \<^verbatim>\<open>submit_live.go\<close>. The format of a number is an argument.
\<close>

section \<open>Names\<close>

definition labDisplayName :: "manifest \<Rightarrow> string \<Rightarrow> string" where
  "labDisplayName m fallback =
     (if \<not> blank (lab_name (m_lab m)) then trim_space (lab_name (m_lab m))
      else if \<not> blank (lab_id (m_lab m)) then trim_space (lab_id (m_lab m))
      else if \<not> blank fallback then trim_space fallback else ''Lab'')"

definition displayCommandName :: "string \<Rightarrow> string" where
  "displayCommandName name = (if blank name then ''labkit'' else trim_space name)"

definition compactSubmissionOutcome :: "string \<Rightarrow> string \<Rightarrow> string" where
  "compactSubmissionOutcome status verdict =
     (let st = trim_space status; v = trim_space verdict
      in if st \<noteq> [] \<and> v \<noteq> [] then st @ ''/'' @ v else if v \<noteq> [] then v else st)"

text \<open>\<^verbatim>\<open>submitStatusToStageIndex\<close>: submitting, queued, running, scoring.\<close>

definition submitStatusToStageIndex :: "string \<Rightarrow> nat" where
  "submitStatusToStageIndex status =
     (let st = to_lower (trim_space status)
      in if st \<in> {''submitting'', [], ''contacting'', ''sending'', ''prepared'', ''uploaded''} then 0
         else if st = ''queued'' then 1 else if st = ''running'' then 2 else 3)"

section \<open>The quota\<close>

definition quotaSummaryFreeVerdict :: "detail_reply \<Rightarrow> string" where
  "quotaSummaryFreeVerdict de = (if trim_space (de_quota_state de) \<noteq> ''free'' then [] else trim_space (de_verdict de))"

definition renderQuotaSummary :: "quota_summary option \<Rightarrow> string \<Rightarrow> string list" where
  "renderQuotaSummary quota freeVerdict =
     (case quota of
        None \<Rightarrow> []
      | Some q \<Rightarrow>
          (let bonus = (case qs_bonus q of None \<Rightarrow> 0 | Some n \<Rightarrow> n);
               detail = (if \<not> blank freeVerdict then trim_space freeVerdict @ '' is free''
                         else if qs_left q \<le> 0 \<and> \<not> blank (qs_hint q) then ''resets at '' @ trim_space (qs_hint q)
                         else int_text (qs_used q) @ ''/'' @ int_text (qs_daily q) @ '' used'');
               line = ''Quota  '' @ int_text (qs_left q) @ '' left today '' @ [CHR 0xC2, CHR 0xB7] @ '' '' @ detail
                 @ (if bonus > 0 then '' '' @ [CHR 0xC2, CHR 0xB7] @ '' '' @ int_text bonus @ '' bonus left'' else []);
               hint = ''Daily quota exhausted '' @ [CHR 0xE2, CHR 0x80, CHR 0x94] @ '' next submission will spend 1 bonus credit (''
                 @ int_text bonus @ '' remaining).''
           in [[], ''  '' @ line] @ (if qs_left q \<le> 0 \<and> bonus > 0 \<and> blank freeVerdict then [''       '' @ hint] else [])))"

section \<open>The result of a submission\<close>

text \<open>\<open>structured\<close> decodes format and content of a detail; the raw text stands for everything else.\<close>

definition renderSubmissionDetailLines :: "(string \<Rightarrow> (string \<times> string) option) \<Rightarrow> string \<Rightarrow> string list" where
  "renderSubmissionDetailLines structured raw =
     (if raw = [] then []
      else (case structured raw of
              Some (form, body) \<Rightarrow>
                (if \<not> blank body
                 then (if \<not> blank form then [''detail ('' @ form @ ''):''] else []) @ [body]
                 else if blank raw then [] else [trim_space raw])
            | None \<Rightarrow> if blank raw then [] else [trim_space raw]))"

definition submissionResultBlock ::
  "(string \<Rightarrow> (string \<times> string) option) \<Rightarrow> detail_reply \<Rightarrow> bool \<Rightarrow> string \<times> string list \<times> bool" where
  "submissionResultBlock structured de includeDetails =
     (let passed = equal_fold (de_verdict de) ''scored'' \<or> equal_fold (de_status de) ''completed'' \<and> de_verdict de = [];
          failed = (\<not> passed \<and> de_verdict de \<noteq> []);
          isFailure = (failed \<or> equal_fold (de_verdict de) ''failed'' \<or> equal_fold (de_status de) ''failed'');
          lines = renderSubmissionDetailLines structured (de_detail de)
      in (if isFailure then ''FAILED'' else ''PASSED'',
          if includeDetails \<and> isFailure
          then (if \<not> blank (de_message de) \<and> lines = [] then [trim_space (de_message de)] else lines) else [],
          isFailure))"

text \<open>The lines below the block of \<^verbatim>\<open>history <id>\<close>: the detail, or the message where there is none.\<close>

definition detail_view_lines :: "(string \<Rightarrow> (string \<times> string) option) \<Rightarrow> detail_reply \<Rightarrow> string list" where
  "detail_view_lines structured de =
     (let lines = renderSubmissionDetailLines structured (de_detail de)
      in if lines = [] \<and> \<not> blank (de_message de) then [de_message de] else lines)"

section \<open>Scores\<close>

definition formatScoreValue :: "(f64 \<Rightarrow> string) \<Rightarrow> f64 \<Rightarrow> string \<Rightarrow> string" where
  "formatScoreValue g v u = (if blank u then g v else g v @ u)"

record rendered_score =
  rs_key :: string
  rs_label :: string
  rs_value :: string

text \<open>\<open>scoreByID\<close> keeps the last score of a metric, as assignments to a Go map do.\<close>

definition score_by_id :: "(string \<times> f64) list \<Rightarrow> string \<Rightarrow> f64 option" where
  "score_by_id scores = map_of (rev scores)"

definition orderedSubmissionScores :: "(f64 \<Rightarrow> string) \<Rightarrow> manifest \<Rightarrow> (string \<times> f64) list \<Rightarrow> rendered_score list" where
  "orderedSubmissionScores g m scores =
     (let known = filter (\<lambda>mt. score_by_id scores (metric_id mt) \<noteq> None) (m_metrics m);
          seen = map metric_id known;
          extra = sort (filter (\<lambda>k. k \<notin> set seen) (map fst scores));
          val = (\<lambda>k. case score_by_id scores k of None \<Rightarrow> 0 | Some v \<Rightarrow> v)
      in map (\<lambda>mt. \<lparr>rs_key = metric_id mt, rs_label = (if blank (metric_name mt) then metric_id mt else metric_name mt),
                 rs_value = formatScoreValue g (val (metric_id mt)) (metric_unit mt)\<rparr>) known
         @ map (\<lambda>k. \<lparr>rs_key = k, rs_label = k, rs_value = formatScoreValue g (val k) []\<rparr>) extra)"

definition submissionScoreSummary :: "(f64 \<Rightarrow> string) \<Rightarrow> manifest \<Rightarrow> (string \<times> f64) list \<Rightarrow> string \<times> string" where
  "submissionScoreSummary g m scores =
     (case orderedSubmissionScores g m scores of
        [] \<Rightarrow> ([], [])
      | [x] \<Rightarrow> (''score'', rs_value x)
      | xs \<Rightarrow> (''metrics'', join_with '', '' (map (\<lambda>x. rs_key x @ ''='' @ rs_value x) xs)))"

section \<open>The board and the history\<close>

definition boardRowParticipatesInSelectedTrack :: "bool \<Rightarrow> string \<Rightarrow> string \<Rightarrow> bool" where
  "boardRowParticipatesInSelectedTrack trackBased selected track \<longleftrightarrow>
     (if \<not> trackBased then True else \<not> blank track \<and> equal_fold track selected)"

definition formatScore :: "(f32 \<Rightarrow> string) \<Rightarrow> f32 \<Rightarrow> string \<Rightarrow> string" where
  "formatScore g v u = (if u = [] then g v else g v @ u)"

text \<open>The colour of a status and of a verdict in the history.\<close>

datatype tone = Success | Danger | Warning | Info | Muted

definition status_tone :: "string \<Rightarrow> tone" where
  "status_tone status =
     (let st = to_lower status
      in if st \<in> {''completed'', ''done''} then Success else if st \<in> {''failed'', ''error''} then Danger
         else if st \<in> {''queued'', ''pending''} then Warning else if st = ''running'' then Info else Muted)"

definition verdict_tone :: "string \<Rightarrow> tone" where
  "verdict_tone verdict =
     (let v = to_lower verdict
      in if blank verdict then Muted else if v \<in> {''scored'', ''passed''} then Success
         else if v \<in> {''failed'', ''error''} then Danger else Muted)"


section \<open>Passed and failed\<close>

lemma fold_literals:
  "equal_fold ''scored'' ''scored''" "\<not> equal_fold [] ''scored''" "\<not> equal_fold [] ''failed''"
  "\<not> equal_fold ''failed'' ''scored''"
  by code_simp+

lemma submissionResultBlock_failed:
  "snd (snd (submissionResultBlock structured de inc)) \<longleftrightarrow>
     equal_fold (de_status de) ''failed'' \<or> de_verdict de \<noteq> [] \<and> \<not> equal_fold (de_verdict de) ''scored''"
proof -
  have "equal_fold (de_verdict de) ''failed'' \<Longrightarrow> de_verdict de \<noteq> [] \<and> \<not> equal_fold (de_verdict de) ''scored''"
    using fold_literals by (auto simp: equal_fold_def)
  then show ?thesis by (auto simp: submissionResultBlock_def Let_def)
qed

lemma submissionResultBlock_title:
  "fst (submissionResultBlock structured de inc) =
     (if equal_fold (de_status de) ''failed'' \<or> de_verdict de \<noteq> [] \<and> \<not> equal_fold (de_verdict de) ''scored''
      then ''FAILED'' else ''PASSED'')"
  using submissionResultBlock_failed [of structured de inc] by (simp add: submissionResultBlock_def Let_def)

text \<open>A submission that is still queued or running, and one whose evaluation ended in an error of the server, reads as passed.\<close>

lemma unfinished_reads_passed:
  "de_verdict de = [] \<Longrightarrow> de_status de \<in> {''queued'', ''running'', ''timeout'', ''error''} \<Longrightarrow>
   submissionResultBlock structured de inc = (''PASSED'', [], False)"
proof -
  have "\<not> equal_fold st ''failed''" if "st \<in> {''queued'', ''running'', ''timeout'', ''error''}" for st
  proof -
    have "list_all (\<lambda>st. \<not> equal_fold st ''failed'') [''queued'', ''running'', ''timeout'', ''error'']" by code_simp
    with that show ?thesis by auto
  qed
  moreover assume "de_verdict de = []" "de_status de \<in> {''queued'', ''running'', ''timeout'', ''error''}"
  ultimately show ?thesis using fold_literals by (auto simp: submissionResultBlock_def Let_def)
qed

section \<open>No score is lost\<close>

lemma score_by_id_iff:
  "distinct (map fst scores) \<Longrightarrow> score_by_id scores k = Some v \<longleftrightarrow> (k, v) \<in> set scores"
  by (simp add: score_by_id_def map_of_eq_Some_iff rev_map [symmetric])

lemma score_by_id_None: "score_by_id scores k = None \<longleftrightarrow> k \<notin> fst ` set scores"
  by (simp add: score_by_id_def map_of_eq_None_iff)

text \<open>
  The scores of a submission are shown completely: the metrics that the manifest knows come first, in its order,
  the others follow sorted, every score of the answer appears exactly once and with its own value, and the
  manifest's unit follows the value where it names one.
\<close>

theorem scores_shown_once:
  assumes "distinct (map fst scores)" and "distinct (map metric_id (m_metrics m))"
  shows "let shown = orderedSubmissionScores g m scores; known = filter (\<lambda>mt. metric_id mt \<in> fst ` set scores) (m_metrics m)
    in mset (map rs_key shown) = mset (map fst scores) \<and>
       take (length known) (map rs_key shown) = map metric_id known \<and> sorted (drop (length known) (map rs_key shown)) \<and>
       (\<forall>x \<in> set shown. \<exists>v. (rs_key x, v) \<in> set scores \<and>
          (rs_value x = g v \<or> (\<exists>mt \<in> set (m_metrics m). metric_id mt = rs_key x \<and> rs_value x = g v @ metric_unit mt)))"
proof -
  let ?known = "filter (\<lambda>mt. metric_id mt \<in> fst ` set scores) (m_metrics m)"
  let ?extra = "filter (\<lambda>k. k \<notin> set (map metric_id ?known)) (map fst scores)"
  let ?shown = "orderedSubmissionScores g m scores"
  have known: "filter (\<lambda>mt. score_by_id scores (metric_id mt) \<noteq> None) (m_metrics m) = ?known"
    by (simp add: score_by_id_None)
  have keys: "map rs_key ?shown = map metric_id ?known @ sort ?extra"
    unfolding orderedSubmissionScores_def known Let_def by (simp add: comp_def)
  have "distinct ?extra" using assms(1) by (rule distinct_filter)
  moreover have "distinct (map metric_id ?known)" using assms(2) by (simp add: distinct_map_filter)
  moreover have "set (map metric_id ?known) \<inter> set ?extra = {}" by auto
  ultimately have "distinct (map metric_id ?known @ sort ?extra)" unfolding distinct_append set_sort by simp
  moreover have "set (map metric_id ?known @ sort ?extra) = set (map fst scores)" by auto
  ultimately have all: "mset (map rs_key ?shown) = mset (map fst scores)"
    unfolding keys using assms(1) set_eq_iff_mset_eq_distinct by blast
  have each: "\<exists>v. (rs_key x, v) \<in> set scores \<and>
      (rs_value x = g v \<or> (\<exists>mt \<in> set (m_metrics m). metric_id mt = rs_key x \<and> rs_value x = g v @ metric_unit mt))"
    if shown: "x \<in> set ?shown" for x
  proof -
    let ?val = "\<lambda>k. case score_by_id scores k of None \<Rightarrow> 0 | Some v \<Rightarrow> v"
    have val: "(k, ?val k) \<in> set scores" if mem: "k \<in> fst ` set scores" for k
    proof -
      obtain v where "score_by_id scores k = Some v" using mem score_by_id_None [of scores k] by (cases "score_by_id scores k") simp_all
      moreover from this have "(k, v) \<in> set scores" using score_by_id_iff [OF assms(1)] by blast
      ultimately show ?thesis by simp
    qed
    obtain u where "rs_key x \<in> fst ` set scores" "rs_value x = formatScoreValue g (?val (rs_key x)) u"
      "u = [] \<or> (\<exists>mt \<in> set (m_metrics m). metric_id mt = rs_key x \<and> metric_unit mt = u)"
    proof -
      have "(\<exists>mt \<in> set ?known. rs_key x = metric_id mt \<and> rs_value x = formatScoreValue g (?val (metric_id mt)) (metric_unit mt)) \<or>
        (\<exists>k \<in> set ?extra. rs_key x = k \<and> rs_value x = formatScoreValue g (?val k) [])"
        using shown unfolding orderedSubmissionScores_def known Let_def set_append set_map set_sort by fastforce
      then show thesis using that by fastforce
    qed
    then show ?thesis using val [of "rs_key x"] by (intro exI [of _ "?val (rs_key x)"]) (auto simp: formatScoreValue_def)
  qed
  have order: "take (length ?known) (map rs_key ?shown) = map metric_id ?known" "sorted (drop (length ?known) (map rs_key ?shown))"
    unfolding keys by simp_all
  show ?thesis unfolding Let_def by (intro conjI ballI all order each)
qed

lemma scores_shown_once_witness:
  "let m = sample_manifest\<lparr>m_metrics := [\<lparr>metric_id = ''t'', metric_name = ''Time'', metric_sort = Asc, metric_unit = ''ms''\<rparr>]\<rparr>;
       shown = orderedSubmissionScores (\<lambda>_. ''1'') m [(''z'', 1), (''t'', 2)]
   in mset (map rs_key shown) = mset [''z'', ''t''] \<and> map rs_value shown = [''1ms'', ''1'']"
proof -
  let ?m = "sample_manifest\<lparr>m_metrics := [\<lparr>metric_id = ''t'', metric_name = ''Time'', metric_sort = Asc, metric_unit = ''ms''\<rparr>]\<rparr>"
  have unit: "\<not> blank ''ms''" "blank []" by code_simp+
  have "map rs_value (orderedSubmissionScores (\<lambda>_. ''1'') ?m [(''z'', 1), (''t'', 2)]) = [''1ms'', ''1'']"
    by (simp add: orderedSubmissionScores_def score_by_id_def formatScoreValue_def unit)
  then show ?thesis
    using scores_shown_once [of "[(''z'', 1), (''t'', 2)]" ?m "\<lambda>_. ''1''"] by (simp add: Let_def)
qed

end
