(* ===== verification/Cli_Web.thy ===== *)
theory Cli_Web
  imports Cli_Submit Cli_Keyring
begin

text \<open>
  \<^verbatim>\<open>apps/cli/internal/commands/web.go\<close>: a browser session is requested with a signature, and the browser is opened at
  the address the server answers with, if it stays on the server's origin.
\<close>

section \<open>The address\<close>

definition normalizeWebRedirectPath :: "(string \<Rightarrow> bool) \<Rightarrow> string \<Rightarrow> cli_error + string" where
  "normalizeWebRedirectPath ip6 raw =
     (let path = (if blank raw then ''/profile'' else trim_space raw)
      in if \<not> has_prefix path ''/'' then Inl PathNotRelative
         else (case parse_url ip6 path of
           None \<Rightarrow> Inl UrlInvalid
         | Some u \<Rightarrow>
             if u_scheme u \<noteq> [] \<or> u_host u \<noteq> [] \<or> has_prefix path ''//'' then Inl PathNotRelative else Inr path))"

definition isAllowedWebScheme :: "string \<Rightarrow> bool" where
  "isAllowedWebScheme scheme \<longleftrightarrow> to_lower (trim_space scheme) \<in> {''http'', ''https''}"

definition sameOrigin :: "url \<Rightarrow> url \<Rightarrow> bool" where
  "sameOrigin a b \<longleftrightarrow>
     equal_fold (trim_space (u_scheme a)) (trim_space (u_scheme b)) \<and>
     equal_fold (trim_space (u_host a)) (trim_space (u_host b))"

definition resolveWebRedirectURL :: "(string \<Rightarrow> bool) \<Rightarrow> string \<Rightarrow> string \<Rightarrow> cli_error + url" where
  "resolveWebRedirectURL ip6 baseURL redirectURL =
     (if blank redirectURL then Inl RedirectMissing
      else (case parse_url ip6 (trim_space baseURL) of
        None \<Rightarrow> Inl UrlInvalid
      | Some base \<Rightarrow>
          (if \<not> isAllowedWebScheme (u_scheme base) \<or> u_host base = [] then Inl ServerSchemeInvalid
           else (case parse_url ip6 (trim_space redirectURL) of
             None \<Rightarrow> Inl UrlInvalid
           | Some ref \<Rightarrow>
               (let target = resolve_reference base ref
                in if \<not> isAllowedWebScheme (u_scheme target) then Inl RedirectSchemeInvalid
                   else if \<not> sameOrigin base target then Inl RedirectOtherOrigin
                   else Inr target)))))"

section \<open>The command\<close>

definition webSessionTicket :: "client_run \<Rightarrow> url \<Rightarrow> config \<Rightarrow> string \<Rightarrow> string \<Rightarrow> cli_error + out_request" where
  "webSessionTicket c base cfg priv redirectPath =
     signed c 0 base cfg priv ''POST'' ''/api/web/session-ticket''
       (Some (cj_object (cr_json c) [(''redirect_path'', redirectPath)]))"

text \<open>\<open>ticket\<close> decodes the redirect URL of the answer; the browser is opened at the result.\<close>

definition runWeb ::
  "client_run \<Rightarrow> (string \<Rightarrow> string option) \<Rightarrow> 's transport \<Rightarrow> string \<Rightarrow> 's \<Rightarrow> (cli_error + url) \<times> 's" where
  "runWeb c ticket send raw s =
     (case normalizeWebRedirectPath (sg_ip6 (cr_signer c)) raw of
        Inl err \<Rightarrow> (Inl err, s)
      | Inr path \<Rightarrow>
     (case bindR (signed_in c) (\<lambda>x. bindR (run_server c) (\<lambda>server. Inr (server, x))) of
        Inl err \<Rightarrow> (Inl err, s)
      | Inr (server, cfg, priv, base) \<Rightarrow>
     (case send_for c ticket send (webSessionTicket c base cfg priv path) s of
        (Inl err, s') \<Rightarrow> (Inl err, s')
      | (Inr redirectURL, s') \<Rightarrow> (resolveWebRedirectURL (sg_ip6 (cr_signer c)) server redirectURL, s'))))"

text \<open>
  The browser is only opened on the server: whatever the server answers, the address has the scheme \<^verbatim>\<open>http\<close> or
  \<^verbatim>\<open>https\<close>, and scheme and host are those of the server's URL up to case.
\<close>

theorem browser_stays_on_server:
  assumes "runWeb c ticket send raw s = (Inr target, s')"
  shows "\<exists>server base. run_server c = Inr server \<and> parse_url (sg_ip6 (cr_signer c)) (trim_space server) = Some base \<and>
    isAllowedWebScheme (u_scheme target) \<and> sameOrigin base target \<and> u_host base \<noteq> []"
  using assms
  by (auto simp: runWeb_def resolveWebRedirectURL_def Let_def split: sum.splits prod.splits if_splits option.splits)


section \<open>A session in the browser\<close>

text \<open>A client with a key for \<^verbatim>\<open>http://h\<close>; the server sends the browser to a page of its own.\<close>

definition web_entry :: server_entry where
  "web_entry = \<lparr>se_key_path = ''/c/keys/h_ed25519'', se_fingerprint = ''SHA256:c2VlZA'', se_encrypted = False\<rparr>"

definition web_toml :: toml where
  "web_toml = sample_toml\<lparr>tm_global := (\<lambda>_. Inr (''http://h'', [(''http://h'', web_entry)]))\<rparr>"

definition web_disk :: disk where
  "web_disk = [''/c/config.toml'' \<mapsto> ''g'', ''/c/keys/h_ed25519'' \<mapsto> ''Pseed'']"

definition web_client :: client_run where
  "web_client =
     \<lparr>cr_toml = web_toml, cr_faults = no_io_faults, cr_deps = demo_deps, cr_terminal = demo_terminal,
      cr_disk = web_disk, cr_signer = demo_signer,
      cr_json = \<lparr>cj_object = (\<lambda>_. []), cj_error = (\<lambda>_. None), cj_lab = (\<lambda>_. None), cj_board = (\<lambda>_. None),
        cj_precheck = (\<lambda>_. None), cj_submission = (\<lambda>_. None), cj_detail = (\<lambda>_. None), cj_history = (\<lambda>_. None),
        cj_profile = (\<lambda>_. None), cj_keys = (\<lambda>_. None)\<rparr>,
      cr_now = (\<lambda>_. 719162 * day), cr_rand = (\<lambda>_. Some ''n1'')\<rparr>"

definition web_page :: url where
  "web_page = \<lparr>u_scheme = ''http'', u_opaque = [], u_user = None, u_host = ''h'', u_escaped = ''/auth'',
     u_force_query = False, u_query = ''ticket=t'', u_fragment = []\<rparr>"

definition web_base :: url where
  "web_base = \<lparr>u_scheme = ''http'', u_opaque = [], u_user = None, u_host = ''h'', u_escaped = [],
     u_force_query = False, u_query = [], u_fragment = []\<rparr>"


definition web_keyring :: global_config where
  "web_keyring = \<lparr>gc_default = ''http://h'', gc_servers = [(''http://h'', web_entry)]\<rparr>"

lemma web_config:
  "resolveConfig web_toml demo_env (\<lambda>_. False) no_io_faults demo_deps web_disk =
   Inr \<lparr>cf_server = ''http://h'', cf_lab = ''a'', cf_key_path = ''/c/keys/h_ed25519'', cf_key_id = 1\<rparr>"
proof -
  have "path_clean ''/'' = ''/''" "path_dir ''/'' = ''/''" "web_disk (ProjectConfigPath ''/'') = None" by code_simp+
  then have nowhere: "FindLocalConfig web_toml no_io_faults web_disk (Some ''/'') [] = Inr (no_project, [])"
    by (simp add: FindLocalConfig_def find_local.simps [of _ _ _ "''/''"] no_io_faults_def blank_def Let_def)
  have "normalizeGlobalConfig (\<lambda>_. False) web_keyring = Inr web_keyring" by (rule by_value) code_simp
  moreover have path: "ConfigPath ''/c'' = ''/c/config.toml''" "trim_space ''http://h'' = ''http://h''" by code_simp+
  ultimately have "ReadGlobal web_toml (\<lambda>_. False) no_io_faults web_disk ''/c'' = Inr web_keyring"
    by (simp add: ReadGlobal_def readGlobalFile_def read_file_def decoded_def no_io_faults_def web_disk_def web_toml_def
        web_keyring_def)
  then have g: "readAuthConfigs web_toml (\<lambda>_. False) no_io_faults web_disk ''/c'' = Inr (web_keyring, None)"
    by (simp add: readAuthConfigs_def)
  have server: "resolveAuthServerURL demo_deps no_project web_keyring None = Inr ''http://h''" by (rule by_value) code_simp
  have entry: "LookupServerEntry (\<lambda>_. False) ''http://h'' web_keyring = Inr (Some web_entry)" by (rule by_value) code_simp
  have deps: "dp_dir demo_deps = ''/c''" "dp_wd demo_deps = Some ''/''" "dp_lab demo_deps = ''a''" by (simp_all add: demo_deps_def)
  have kept: "\<not> blank (se_key_path web_entry)" "trim_space (se_key_path web_entry) = ''/c/keys/h_ed25519''"
    "or_else ''a'' x = ''a''" for x
    by code_simp+
  show ?thesis
    by (simp add: resolveConfig_def deps g nowhere server entry kept no_config_def Let_def)
qed

lemma web_signed_in:
  "signed_in web_client = Inr (\<lparr>cf_server = ''http://h'', cf_lab = ''a'', cf_key_path = ''/c/keys/h_ed25519'', cf_key_id = 1\<rparr>,
     ''seed'', web_base)"
  "run_server web_client = Inr ''http://h''"
proof -
  have "\<not> blank ''http://h''" "trim_space ''http://h'' = ''http://h''" by code_simp+
  then show server: "run_server web_client = Inr ''http://h''"
    using web_config by (simp add: resolveServerURL_def web_client_def demo_signer_def)
  have key: "readPrivateKeyWithDeps demo_keys no_io_faults demo_terminal web_disk ''/c/keys/h_ed25519'' = Inr ''seed''"
    by (rule by_value) code_simp
  have base: "new_client (\<lambda>_. False) ''http://h'' = Inr web_base" by (rule by_value) code_simp
  show "signed_in web_client = Inr (\<lparr>cf_server = ''http://h'', cf_lab = ''a'', cf_key_path = ''/c/keys/h_ed25519'', cf_key_id = 1\<rparr>,
     ''seed'', web_base)"
    using web_config server key base
    by (simp add: signed_in_def run_key_def web_client_def demo_signer_def)
qed

lemma browser_stays_on_server_witness:
  "\<exists>base. runWeb web_client (\<lambda>_. Some ''/auth?ticket=t'') (\<lambda>r n. (Reply 200 [], Suc n)) [] 0 = (Inr web_page, Suc 0) \<and>
     parse_url (\<lambda>_. False) ''http://h'' = Some base \<and> sameOrigin base web_page"
proof -
  have ip: "sg_ip6 (cr_signer web_client) = (\<lambda>_. False)" by (simp add: web_client_def demo_signer_def)
  have path: "normalizeWebRedirectPath (\<lambda>_. False) [] = Inr ''/profile''" by (rule by_value) code_simp
  have target: "resolveWebRedirectURL (\<lambda>_. False) ''http://h'' ''/auth?ticket=t'' = Inr web_page" by (rule by_value) code_simp
  have "parse_url (\<lambda>_. False) ''/api/web/session-ticket'' \<noteq> None" "trim_space ''http://h'' = ''http://h''" by code_simp+
  moreover from this obtain r where "webSessionTicket web_client web_base \<lparr>cf_server = ''http://h'', cf_lab = ''a'',
      cf_key_path = ''/c/keys/h_ed25519'', cf_key_id = 1\<rparr> ''seed'' ''/profile'' = Inr r"
    by (auto simp: webSessionTicket_def signed_def signedRequest_def NewRequest_def NewRequestWithBytes_def newNonce_def
        web_client_def demo_signer_def)
  then have run: "runWeb web_client (\<lambda>_. Some ''/auth?ticket=t'') (\<lambda>r n. (Reply 200 [], Suc n)) [] 0 = (Inr web_page, Suc 0)"
    by (simp add: runWeb_def ip path web_signed_in(1) web_signed_in(2) [unfolded ip] target send_for_def doJSON_def)
  ultimately show ?thesis
    using browser_stays_on_server [OF run] run web_signed_in(2) by (auto simp: ip)
qed

end
