(* ===== verification/Cli_Server.thy ===== *)
theory Cli_Server
  imports Cli_Submit Cli_Keyring
begin

text \<open>
  The client against the server: what arrives of a request that the client sends, and that the server's handlers
  take it for what was meant: the signature is the one checked, the route is the intended one, and an upload
  reaches the intake with exactly the files of the submission.
\<close>

section \<open>Base64\<close>

lemma of_char_b64:
  "v < 64 \<Longrightarrow> of_char (b64_char v) =
     (if v < 26 then 65 + v else if v < 52 then 71 + v else if v < 62 then v - 4 else if v = 62 then 43 else (47::nat))"
  by (simp add: b64_char_def)

lemma b64_value_char: "v < 64 \<Longrightarrow> b64_value (b64_char v) = Some v"
  using of_char_b64 [of v] by (auto simp: b64_value_def Let_def)

lemma b64_char_not:
  assumes "v < 64"
  shows "b64_char v \<noteq> CHR ''='' \<and> CHR ''='' \<noteq> b64_char v \<and> CHR 0x0A \<noteq> b64_char v \<and> CHR 0x0D \<noteq> b64_char v"
proof -
  have "of_char (b64_char v) \<noteq> (of_char c :: nat)" if "c \<in> {CHR ''='', CHR 0x0A, CHR 0x0D}" for c
    using that of_char_b64 [OF assms] by auto
  then show ?thesis by (metis insert_iff)
qed

lemma byte_parts:
  fixes a b c :: nat
  assumes "a < 256" and "b < 256" and "c < 256"
  shows "a div 4 < 64" "a mod 4 * 16 < 64" "a mod 4 * 16 + b div 16 < 64" "b mod 16 * 4 < 64" "b mod 16 * 4 + c div 64 < 64" "c mod 64 < 64"
proof -
  have "b div 16 < 16" "c div 64 < 4" using assms by (simp_all add: less_mult_imp_div_less)
  moreover have "a mod 4 < 4" "b mod 16 < 16" by simp_all
  ultimately show "a mod 4 * 16 + b div 16 < 64" "b mod 16 * 4 + c div 64 < 64" "a mod 4 * 16 < 64" "b mod 16 * 4 < 64" by linarith+
qed (use assms in \<open>simp_all add: less_mult_imp_div_less\<close>)

lemma byte_joins:
  fixes a b c :: nat
  assumes "b < 256" and "c < 256"
  shows "a div 4 * 4 + (a mod 4 * 16 + b div 16) div 16 = a \<and> a div 4 * 4 + a mod 4 * 16 div 16 = a \<and>
    (a mod 4 * 16 + b div 16) mod 16 * 16 + (b mod 16 * 4 + c div 64) div 4 = b \<and>
    (a mod 4 * 16 + b div 16) mod 16 * 16 + b mod 16 * 4 div 4 = b \<and>
    (b mod 16 * 4 + c div 64) mod 4 * 64 + c mod 64 = c"
proof -
  have "b div 16 < 16" "c div 64 < 4" using assms by (simp_all add: less_mult_imp_div_less)
  then show ?thesis by simp
qed

lemma b64_groups_raw:
  "\<forall>n \<in> set ns. n < 256 \<Longrightarrow>
   b64_groups (base64_raw ns @ replicate ((3 - length ns mod 3) mod 3) (CHR ''='')) = Some (map char_of ns)"
proof (induction ns rule: base64_raw.induct)
  case (2 a)
  then show ?case
    using byte_parts [of a 0 0] byte_joins [of 0 0 a]
    by (simp add: b64_two_def b64_value_char b64_char_not numeral_2_eq_2)
next
  case (3 a b)
  then show ?case
    using byte_parts [of a b 0] byte_joins [of b 0 a]
    by (simp add: b64_three_def b64_two_def b64_value_char b64_char_not)
next
  case (4 a b c s)
  have "(3 - length (a # b # c # s) mod 3) mod 3 = (3 - length s mod 3) mod 3" by (simp add: mod_Suc)
  then show ?case
    using 4 byte_parts [of a b c] byte_joins [of b c a]
    by (simp add: b64_four_def b64_three_def b64_two_def b64_value_char b64_char_not)
qed simp

lemma base64_raw_chars: "\<forall>n \<in> set ns. n < 256 \<Longrightarrow> CHR 0x0A \<notin> set (base64_raw ns) \<and> CHR 0x0D \<notin> set (base64_raw ns)"
proof (induction ns rule: base64_raw.induct)
  case (2 a)
  then show ?case using byte_parts [of a 0 0] by (auto simp: b64_char_not)
next
  case (3 a b)
  then show ?case using byte_parts [of a b 0] by (auto simp: b64_char_not)
next
  case (4 a b c s)
  then show ?case using byte_parts [of a b c] by (auto simp: b64_char_not)
qed simp

lemma base64_round_trip: "base64_decode (base64_encode s) = Some s"
proof -
  let ?ns = "map of_char s :: nat list"
  have bytes: "\<forall>n \<in> set ?ns. n < 256" by simp
  then have "filter (\<lambda>c. c \<noteq> CHR 0x0D \<and> c \<noteq> CHR 0x0A) (base64_encode s) = base64_encode s"
    using base64_raw_chars [OF bytes] by (auto simp: base64_encode_def filter_id_conv)
  then show ?thesis
    using b64_groups_raw [OF bytes] by (simp add: base64_decode_def base64_encode_def comp_def)
qed

section \<open>Paths of plain segments\<close>

definition safe_segment :: "string \<Rightarrow> bool" where
  "safe_segment s \<longleftrightarrow> s \<noteq> [] \<and> s \<noteq> ''.'' \<and> s \<noteq> ''..'' \<and> list_all unreserved_byte s"

definition slash_path :: "string list \<Rightarrow> string" where
  "slash_path ss = concat (map (\<lambda>s. CHR ''/'' # s) ss)"

lemma slash_path_simps [simp]: "slash_path [] = []" "slash_path (s # ss) = CHR ''/'' # s @ slash_path ss"
  by (simp_all add: slash_path_def)

lemma unreserved_not:
  "unreserved_byte c \<Longrightarrow> c \<noteq> CHR ''/'' \<and> c \<noteq> CHR ''%'' \<and> c \<noteq> CHR ''?'' \<and> c \<noteq> CHR ''#'' \<and> c \<noteq> CHR '':'' \<and> \<not> ctl_byte c \<and> graphic c"
  by (auto simp: unreserved_byte_def alnum_byte_def alpha_byte_def is_digit_def ctl_byte_def graphic_def Let_def)

lemma safe_segment_no_slash: "safe_segment s \<Longrightarrow> CHR ''/'' \<notin> set s"
  using unreserved_not by (auto simp: safe_segment_def list_all_iff)

lemma split_on_append: "d \<notin> set s \<Longrightarrow> split_on d (s @ d # t) = s # split_on d t"
  by (induction s) auto

lemma split_slash_path:
  "list_all safe_segment ss \<Longrightarrow> split_on (CHR ''/'') (slash_path ss) = [] # ss"
  "safe_segment s \<Longrightarrow> list_all safe_segment ss \<Longrightarrow> split_on (CHR ''/'') (s @ slash_path ss) = s # ss"
proof (induction ss arbitrary: s)
  case (Cons x xs)
  {
    case 1
    then show ?case using Cons.IH(2) [of x] by simp
  next
    case 2
    then have "split_on (CHR ''/'') (s @ CHR ''/'' # x @ slash_path xs) = s # split_on (CHR ''/'') (x @ slash_path xs)"
      by (intro split_on_append safe_segment_no_slash)
    with 2 Cons.IH(2) [of x] show ?case by simp
  }
qed (simp_all add: split_on_no_sep safe_segment_no_slash)

lemma slash_path_bytes:
  "list_all safe_segment ss \<Longrightarrow> c \<in> set (slash_path ss) \<Longrightarrow> c = CHR ''/'' \<or> unreserved_byte c"
  by (induction ss) (auto simp: safe_segment_def list_all_iff)

lemma unescape_cons: "c \<noteq> CHR ''%'' \<Longrightarrow> unescape_bytes (c # s) = c # unescape_bytes s"
  by (cases "c # s" rule: unescape_bytes.cases) auto

lemma no_percent: "CHR ''%'' \<notin> set s \<Longrightarrow> percents_ok s \<and> unescape_bytes s = s"
  by (induction s) (auto simp: unescape_cons)

lemma slash_path_plain:
  assumes "list_all safe_segment ss"
  shows "percents_ok (slash_path ss)" "unescape_bytes (slash_path ss) = slash_path ss" "path_unescape (slash_path ss) = slash_path ss"
    "escaped_path (slash_path ss) = slash_path ss" "trim_space (slash_path ss) = slash_path ss"
    "list_all graphic (slash_path ss)" "\<not> list_ex ctl_byte (slash_path ss)"
proof -
  have "CHR ''%'' \<notin> set (slash_path ss)" using slash_path_bytes [OF assms] unreserved_not by fastforce
  then show un: "percents_ok (slash_path ss)" "unescape_bytes (slash_path ss) = slash_path ss" using no_percent by blast+
  then show "path_unescape (slash_path ss) = slash_path ss" by (simp add: path_unescape_def)
  have "list_all path_valid (slash_path ss)"
    using slash_path_bytes [OF assms] by (fastforce simp: list_all_iff path_valid_def path_plain_def)
  then show "escaped_path (slash_path ss) = slash_path ss" by (simp add: escaped_path_def)
  show g: "list_all graphic (slash_path ss)"
    using slash_path_bytes [OF assms] unreserved_not by (fastforce simp: list_all_iff graphic_def)
  then show "trim_space (slash_path ss) = slash_path ss" by (rule trim_space_graphic)
  show "\<not> list_ex ctl_byte (slash_path ss)"
    using slash_path_bytes [OF assms] unreserved_not by (fastforce simp: list_ex_iff ctl_byte_def)
qed

text \<open>A path with the query behind it; the query is of printable bytes and has no fragment.\<close>

definition with_query :: "string \<Rightarrow> string \<Rightarrow> string" where
  "with_query path raw = (if raw = [] then path else path @ CHR ''?'' # raw)"

definition query_text :: "string \<Rightarrow> bool" where
  "query_text raw \<longleftrightarrow> list_all (\<lambda>c. graphic c \<and> c \<noteq> CHR ''#'') raw"

lemma query_text_Nil [simp]: "query_text []" and with_query_Nil [simp]: "with_query p [] = p"
  by (simp_all add: query_text_def with_query_def)

lemma percent_byte_text: "query_text (percent_byte c)"
proof -
  have hex: "graphic (ascii_upper (hex_digit v)) \<and> ascii_upper (hex_digit v) \<noteq> CHR ''#''" if "v < 16" for v
  proof -
    have "(of_char (ascii_upper (hex_digit v)) :: nat) = (if v < 10 then 48 + v else 55 + v)"
      using that by (simp add: ascii_upper_def hex_digit_def)
    with that have "graphic (ascii_upper (hex_digit v))" "(of_char (ascii_upper (hex_digit v)) :: nat) \<noteq> of_char (CHR ''#'')"
      by (simp_all add: graphic_def split: if_splits)
    then show ?thesis by metis
  qed
  have "(of_char c :: nat) div 16 < 16" by (simp add: less_mult_imp_div_less)
  with hex show ?thesis by (simp add: percent_byte_def query_text_def graphic_def)
qed

text \<open>An escaped value is such a query.\<close>

lemma query_escape_text: "query_text (query_escape v)"
proof (induction v)
  case (Cons c v)
  have "query_text (if unreserved_byte c then [c] else if c = CHR '' '' then ''+'' else percent_byte c)"
    using unreserved_not [of c] percent_byte_text by (simp add: query_text_def graphic_def)
  with Cons show ?case by (simp add: query_escape_def query_text_def)
qed (simp add: query_escape_def)

lemma graphic_no_ctl: "graphic c \<Longrightarrow> \<not> ctl_byte c"
  by (simp add: graphic_def ctl_byte_def Let_def)

lemma parse_target:
  assumes "list_all safe_segment (s # ss)" and "query_text raw"
  shows "parse_url ip6 (with_query (slash_path (s # ss)) raw) = Some \<lparr>u_scheme = [], u_opaque = [], u_user = None, u_host = [],
    u_escaped = slash_path (s # ss), u_force_query = False, u_query = raw, u_fragment = []\<rparr>"
proof -
  let ?p = "slash_path (s # ss)" and ?t = "with_query (slash_path (s # ss)) raw"
  have bytes: "c \<noteq> CHR ''#'' \<and> c \<noteq> CHR ''?''" if "c \<in> set ?p" for c
    using slash_path_bytes [OF assms(1) that] unreserved_not by auto
  have raw: "c \<noteq> CHR ''#'' \<and> graphic c" if "c \<in> set raw" for c
    using assms(2) that by (auto simp: query_text_def list_all_iff)
  have in_t: "c \<in> set ?p \<or> c = CHR ''?'' \<or> c \<in> set raw" if "c \<in> set ?t" for c
    using that by (auto simp: with_query_def simp del: slash_path_simps split: if_splits)
  have "c \<noteq> CHR ''#''" if "c \<in> set ?t" for c
    using in_t [OF that] by (elim disjE) (simp_all add: bytes raw del: slash_path_simps)
  then have frag: "takeWhile (\<lambda>c. c \<noteq> CHR ''#'') ?t = ?t" by (simp only: takeWhile_eq_all_conv) blast
  have "\<forall>c \<in> set ?p. c \<noteq> CHR ''?''" using bytes by blast
  then have cut: "takeWhile (\<lambda>c. c \<noteq> CHR ''?'') ?t = ?p"
    by (simp add: with_query_def takeWhile_append2 del: slash_path_simps)
  have rest: "drop (Suc (length ?p)) ?t = raw" by (simp add: with_query_def del: slash_path_simps)
  have ctl_p: "\<not> ctl_byte c" if "c \<in> set ?p" for c
    using slash_path_plain(7) [OF assms(1)] that by (auto simp: list_ex_iff simp del: slash_path_simps)
  have ctl_q: "\<not> ctl_byte (CHR ''?'')" by (simp add: ctl_byte_def)
  have "\<not> ctl_byte c" if "c \<in> set ?t" for c
  proof -
    show ?thesis using in_t [OF that] raw graphic_no_ctl by (elim disjE) (simp_all add: ctl_p ctl_q del: slash_path_simps)
  qed
  then have ctl: "\<not> list_ex ctl_byte ?t" unfolding list_ex_iff by blast
  have "\<exists>t. ?t = CHR ''/'' # t" by (simp add: with_query_def)
  then have scheme: "get_scheme ?t = Some ([], ?t)"
    by (auto simp: get_scheme_def alnum_byte_def alpha_byte_def is_digit_def Let_def)
  obtain c t where "s = c # t" "unreserved_byte c" using assms(1) by (cases s) (auto simp: safe_segment_def)
  then have "\<not> has_prefix ?p ''//''" using unreserved_not by (auto simp: has_prefix_def)
  moreover have "has_prefix ?p ''/''" by (simp add: has_prefix_def)
  moreover have "\<not> (has_suffix ?t ''?'' \<and> raw = [])"
  proof
    assume "has_suffix ?t ''?'' \<and> raw = []"
    then have "take 1 (rev ?p) = ''?''" by (auto simp: has_suffix_def has_prefix_def simp del: slash_path_simps)
    then have "CHR ''?'' \<in> set (rev ?p)" by (metis in_set_takeD list.set_intros(1))
    with bytes show False unfolding set_rev by blast
  qed
  ultimately show ?thesis
    using slash_path_plain [OF assms(1)] ctl
    by (auto simp: parse_url_def frag cut rest scheme parse_rest_def Let_def no_percent simp del: slash_path_simps)
qed

lemmas parse_slash_path = parse_target [OF _ query_text_Nil, simplified with_query_Nil]

lemma resolve_elems_safe:
  "list_all safe_segment ss \<Longrightarrow> resolve_elems dst False ss = dst @ slash_path ss"
  by (induction ss arbitrary: dst) (auto simp: safe_segment_def)

lemma resolve_slash_path:
  "list_all safe_segment (s # ss) \<Longrightarrow> resolve_path base (slash_path (s # ss)) = slash_path (s # ss)"
  using split_slash_path(1) [of "s # ss"] resolve_elems_safe [of ss "s @ []"]
  by (simp add: resolve_path_def has_prefix_def resolve_elems_safe safe_segment_def Let_def)

lemma clean_parts_safe: "list_all safe_segment ss \<Longrightarrow> clean_parts rooted acc ss = rev acc @ ss"
  by (induction ss arbitrary: acc) (auto simp: safe_segment_def)

lemma join_safe: "join_with ''/'' (s # ss) = s @ slash_path ss"
  by (induction ss arbitrary: s) simp_all

lemma mux_clean_slash_path: "list_all safe_segment (s # ss) \<Longrightarrow> mux_clean (slash_path (s # ss)) = slash_path (s # ss)"
proof -
  assume safe: "list_all safe_segment (s # ss)"
  let ?p = "slash_path (s # ss)"
  have clean: "path_clean ?p = ?p"
    using split_slash_path(1) [OF safe] clean_parts_safe [OF safe, of True "[]"] join_safe [of s ss]
    by (simp add: path_clean_def has_prefix_def safe_segment_def)
  have "\<not> has_suffix ?p ''/''"
  proof
    assume "has_suffix ?p ''/''"
    then have "hd (rev ?p) = CHR ''/''" by (cases "rev ?p") (auto simp: has_suffix_def has_prefix_def simp del: slash_path_simps)
    then have "last ?p = CHR ''/''" by (simp add: hd_rev del: slash_path_simps)
    moreover have "last ?p \<noteq> CHR ''/''"
      using safe
    proof (induction ss arbitrary: s)
      case Nil
      then show ?case using safe_segment_no_slash [of s] by (auto simp: safe_segment_def dest: last_in_set)
    next
      case (Cons x ss)
      then show ?case by simp
    qed
    ultimately show False by simp
  qed
  moreover have "has_prefix ?p ''/''" "?p \<noteq> []" by (simp_all add: has_prefix_def)
  ultimately show ?thesis by (simp add: mux_clean_def clean Let_def del: slash_path_simps)
qed

section \<open>A request on its way\<close>

text \<open>
  What \<^verbatim>\<open>net/http\<close> hands to the server of a request that the client sends: the target is path and query of the
  URL, the headers and the body are those of the request; the client sends no cookie.
\<close>

definition deliver :: "out_request \<Rightarrow> request" where
  "deliver r =
     \<lparr>rq_method = or_method r, rq_escaped = (if u_escaped (or_url r) = [] then ''/'' else u_escaped (or_url r)),
      rq_raw_query = u_query (or_url r), rq_query = query_value (u_query (or_url r)), rq_header = sent_header r,
      rq_cookies = [], rq_form = None, rq_body = Some (or_body r)\<rparr>"

lemma NewRequest_target:
  assumes "list_all safe_segment (s # ss)" and "query_text raw"
    and "NewRequestWithBytes ip6 base m (with_query (slash_path (s # ss)) raw) body ct = Inr r"
  shows "or_method r = m" "or_body r = body" "u_escaped (or_url r) = slash_path (s # ss)" "u_query (or_url r) = raw"
    "rq_escaped (deliver r) = slash_path (s # ss)" "rq_path (deliver r) = slash_path (s # ss)"
    "signedRequestPath (deliver r) = with_query (slash_path (s # ss)) raw"
proof -
  have "r = \<lparr>or_method = m, or_url = resolve_reference base \<lparr>u_scheme = [], u_opaque = [], u_user = None, u_host = [],
      u_escaped = slash_path (s # ss), u_force_query = False, u_query = raw, u_fragment = []\<rparr>,
      or_headers = (if ct = [] then [] else [(''Content-Type'', ct)]), or_body = body\<rparr>"
    using assms(3) by (simp add: NewRequestWithBytes_def parse_target [OF assms(1,2)] del: slash_path_simps)
  moreover have "slash_path (s # ss) \<noteq> []" by simp
  ultimately show r: "or_method r = m" "or_body r = body" "u_escaped (or_url r) = slash_path (s # ss)" "u_query (or_url r) = raw"
    by (simp_all add: resolve_reference_def resolve_slash_path [OF assms(1)] Let_def del: slash_path_simps)
  then show "rq_escaped (deliver r) = slash_path (s # ss)" by (simp add: deliver_def)
  then show "rq_path (deliver r) = slash_path (s # ss)"
    by (simp add: rq_path_def slash_path_plain [OF assms(1)] del: slash_path_simps)
  moreover have "trim_space raw = raw"
    using assms(2) by (intro trim_space_graphic) (auto simp: query_text_def list_all_iff)
  ultimately show "signedRequestPath (deliver r) = with_query (slash_path (s # ss)) raw"
    using slash_path_plain [OF assms(1)] r(4)
    by (simp add: signedRequestPath_def deliver_def with_query_def del: slash_path_simps)
qed

lemmas NewRequest_path = NewRequest_target [OF _ query_text_Nil, simplified with_query_Nil]

section \<open>Signatures\<close>

text \<open>
  What client and server have in common: digests and keys, signatures that verify, public keys of 32 bytes, and the
  text of a time between the years 1 and 9999, which has no white space and parses back.
\<close>

definition signer_agrees :: "signer \<Rightarrow> env \<Rightarrow> (string \<Rightarrow> time option) \<Rightarrow> bool" where
  "signer_agrees sg e parse_time \<longleftrightarrow>
     sg_env sg = e \<and>
     (\<forall>priv msg. env_ed_verify e (ck_public (sg_keys sg) priv) msg (ck_sign (sg_keys sg) priv msg)) \<and>
     (\<forall>priv. length (ck_public (sg_keys sg) priv) = 32) \<and>
     (\<forall>t. 0 \<le> t \<and> t < 3652059 * day \<longrightarrow>
        trim_space (sg_time_text sg t) = sg_time_text sg t \<and> parse_time (sg_time_text sg t) = Some t)"

lemma graphic_of_char: "33 \<le> (of_char c :: nat) \<Longrightarrow> (of_char c :: nat) < 127 \<Longrightarrow> graphic c"
  by (simp add: graphic_def)

lemma graphic_b64: "v < 64 \<Longrightarrow> graphic (b64_char v)"
  using of_char_b64 [of v] by (intro graphic_of_char) auto

lemma graphic_base64_raw: "\<forall>n \<in> set ns. n < 256 \<Longrightarrow> list_all graphic (base64_raw ns)"
proof (induction ns rule: base64_raw.induct)
  case (2 a)
  then show ?case using byte_parts [of a 0 0] by (simp add: graphic_b64)
next
  case (3 a b)
  then show ?case using byte_parts [of a b 0] by (simp add: graphic_b64)
next
  case (4 a b c s)
  then show ?case using byte_parts [of a b c] by (simp add: graphic_b64)
qed simp

lemma graphic_base64_encode: "list_all graphic (base64_encode s)"
  using graphic_base64_raw [of "map of_char s"] by (auto simp: base64_encode_def graphic_def list_all_iff)

lemma graphic_fingerprint: "list_all graphic (PublicKeyFingerprint e pub)"
  by (auto simp: PublicKeyFingerprint_def graphic_base64_raw) (simp_all add: graphic_def)

lemma graphic_hex_text: "list_all graphic (hex_text s)"
proof -
  have "graphic (hex_digit v)" if "v < 16" for v
    using that by (auto simp: hex_digit_def graphic_def)
  then show ?thesis by (induction s) (simp_all add: hex_text_def less_mult_imp_div_less)
qed

lemma fingerprint_nonempty: "PublicKeyFingerprint e pub \<noteq> []"
  by (simp add: PublicKeyFingerprint_def)

lemma signed_headers_delivered:
  assumes "signer_agrees sg e parse_time" and "0 \<le> p_timestamp p" "p_timestamp p < 3652059 * day"
    and "p_nonce p = hex_text bs"
  shows "signed_headers parse_time (deliver (with_signature sg priv p r)) =
    Inr (keyFingerprintFromPrivateKey sg priv, p_timestamp p, p_nonce p, ck_sign (sg_keys sg) priv (SigningBytes p))"
proof -
  have "trim_space (sg_time_text sg (p_timestamp p)) = sg_time_text sg (p_timestamp p)"
    "parse_time (sg_time_text sg (p_timestamp p)) = Some (p_timestamp p)"
    using assms(1-3) by (simp_all add: signer_agrees_def)
  moreover have "trim_space (keyFingerprintFromPrivateKey sg priv) = keyFingerprintFromPrivateKey sg priv"
    "keyFingerprintFromPrivateKey sg priv \<noteq> []"
    by (simp_all add: keyFingerprintFromPrivateKey_def trim_space_graphic graphic_fingerprint fingerprint_nonempty)
  ultimately show ?thesis
    by (simp add: signed_headers_def deliver_def with_signature_def sent_header_def h_fingerprint_def h_timestamp_def
        h_nonce_def h_signature_def assms(4) trim_space_graphic graphic_hex_text graphic_base64_encode base64_round_trip)
qed

lemma with_query_trim:
  assumes "list_all safe_segment ss" and "query_text raw"
  shows "trim_space (with_query (slash_path ss) raw) = with_query (slash_path ss) raw"
proof (rule trim_space_graphic)
  show "list_all graphic (with_query (slash_path ss) raw)"
    using slash_path_plain(6) [OF assms(1)] assms(2)
    by (auto simp: with_query_def query_text_def list_all_iff graphic_def)
qed


section \<open>An upload on its way\<close>

lemma safe_literals:
  "list_all safe_segment [''api'', ''v1'', ''v2'', ''labs'', ''submit'', ''precheck'', ''submissions'', ''history'', ''keys'', ''profile'', ''board'']"
  by code_simp

lemma match_safe:
  "list_all safe_segment ss \<Longrightarrow> match_path pattern (slash_path ss) = match_segments (split_on (CHR ''/'') pattern) ([] # ss)"
proof -
  assume safe: "list_all safe_segment ss"
  then have "map path_unescape ss = ss"
    using unreserved_not no_percent
    by (induction ss) (fastforce simp: safe_segment_def list_all_iff path_unescape_def)+
  then show ?thesis by (simp add: match_path_def split_slash_path(1) [OF safe] path_unescape_def)
qed

lemma submit_route:
  assumes "safe_segment lab"
  shows "find_route (routes dev) ''POST'' (slash_path [''api'', ''v1'', ''labs'', lab, ''submit'']) = Some (EpSubmit, [lab])"
proof -
  have safe: "list_all safe_segment [''api'', ''v1'', ''labs'', lab, ''submit'']"
    using assms safe_literals by simp
  have "lab \<noteq> []" using assms by (simp add: safe_segment_def)
  then show ?thesis
    by (simp add: routes_def auth_routes_def v1_routes_def method_matches_def match_safe [OF safe] has_prefix_def
        del: slash_path_simps)
qed

lemma upload_path: "apiPath ''/labs/'' @ lab @ ''/submit'' = slash_path [''api'', ''v1'', ''labs'', lab, ''submit'']"
proof -
  have "apiPath ''/labs/'' = ''/api/v1/labs/''" by code_simp
  then show ?thesis by simp
qed

text \<open>A client with a key, random bytes and a form sends the upload.\<close>

lemma upload_request_sent:
  assumes "safe_segment lab" and "sb_multipart b (map (\<lambda>x. (sf_name x, sf_content x)) files) = Some form"
    and "cr_rand c 1 = Some bs" and "cf_key_id cfg \<noteq> 0"
  shows "\<exists>r. upload_request c b base cfg priv lab files h = Inr r"
proof -
  have "list_all safe_segment [''api'', ''v1'', ''labs'', lab, ''submit'']" using assms(1) safe_literals by simp
  then show ?thesis
    using assms parse_slash_path
    by (auto simp: upload_request_def upload_path newNonce_def signedRequestWithPayload_def NewRequestWithBytes_def
        simp del: slash_path_simps split: prod.splits)
qed

text \<open>The record of the files as the form carries them.\<close>

abbreviation form_files :: "submission_file list \<Rightarrow> (string \<times> string) list" where
  "form_files files \<equiv> map (\<lambda>x. (sf_name x, sf_content x)) files"

text \<open>The upload reaches the intake as it was meant: lab, key, time, nonce and files are those of the client.\<close>

lemma upload_reaches_intake:
  assumes agree: "signer_agrees (cr_signer c) (ae_env a) (ae_time a)"
    and upload: "upload_request c b base cfg priv lab files h = Inr r"
    and lab: "safe_segment lab" and time: "0 \<le> cr_now c 1" "cr_now c 1 < 3652059 * day"
    and form: "ae_upload a (deliver r) = Some (map Some (form_files files))"
  obtains bs where "cr_rand c 1 = Some bs" and
    "api_serve a u (deliver r) s =
      (let p = WithContentHash (NewPayload lab (cr_now c 1) (hex_text bs) (map sf_name files)) h;
           (res, w) = Intake (ae_env a) (ar_intake_fails u) (ar_intake u) (ae_loc a)
             \<lparr>in_lab = lab, in_fingerprint = keyFingerprintFromPrivateKey (cr_signer c) priv, in_timestamp = cr_now c 1,
              in_nonce = hex_text bs, in_signature = ck_sign (sg_keys (cr_signer c)) priv (SigningBytes p),
              in_files = form_files files\<rparr> (ap_world s)
       in (answer 201 submission_failure BSubmission res, s\<lparr>ap_world := w\<rparr>))"
proof -
  let ?path = "[''api'', ''v1'', ''labs'', lab, ''submit'']"
  have safe: "list_all safe_segment ?path" using lab safe_literals by simp
  from upload obtain bs body ct r0 where bs: "cr_rand c 1 = Some bs"
    and r0: "NewRequestWithBytes (sg_ip6 (cr_signer c)) base ''POST'' (slash_path ?path) body ct = Inr r0"
    and r: "r = with_signature (cr_signer c) priv
      (WithContentHash (NewPayload lab (cr_now c 1) (hex_text bs) (map sf_name files)) h) r0"
    unfolding upload_request_def upload_path
    by (auto simp: signedRequestWithPayload_def newNonce_def submissionFileNames_def simp del: slash_path_simps
        split: option.splits prod.splits if_splits)
  let ?p = "WithContentHash (NewPayload lab (cr_now c 1) (hex_text bs) (map sf_name files)) h"
  note path = NewRequest_path [OF safe r0]
  have pt: "p_timestamp ?p = cr_now c 1" "p_nonce ?p = hex_text bs" by (simp_all add: WithContentHash_def NewPayload_def)
  have headers: "signed_headers (ae_time a) (deliver r) = Inr (keyFingerprintFromPrivateKey (cr_signer c) priv, cr_now c 1,
      hex_text bs, ck_sign (sg_keys (cr_signer c)) priv (SigningBytes ?p))"
    using signed_headers_delivered [OF agree, of ?p bs priv r0] time by (simp add: r pt del: One_nat_def)
  have those: "those (map (Some \<circ> g) xs) = Some (map g xs)" for g :: "submission_file \<Rightarrow> string \<times> string" and xs
    by (induction xs) simp_all
  have same: "rq_method (deliver r) = ''POST''" "rq_escaped (deliver r) = slash_path ?path"
    using path by (simp_all add: r with_signature_def deliver_def)
  have "api_serve a u (deliver r) s = http_CreateSubmission a u lab (deliver r) s"
    using mux_clean_slash_path [OF safe] submit_route [OF lab]
    by (simp add: api_serve_def same path_value_def Let_def del: slash_path_simps)
  then show thesis
    using bs by (intro that [of bs]) (simp_all add: http_CreateSubmission_def form headers those del: One_nat_def)
qed

lemma take_quota_left:
  assumes "\<not> if_call flt IcCount"
    and "quota_daily (m_quota m) \<le> 0 \<or> int (CountSubmissionQuotaUsage user lab start stop d) < quota_daily (m_quota m)"
  shows "\<exists>used. take_quota flt now m user lab start stop d = Inr (used, False, 0, d)"
  using assms by (auto simp: take_quota_def checkDailyQuota_def)

lemma record_submission_new:
  assumes "in_nonce inp \<notin> set (db_nonces d)" and "k_user (pr_key p) \<in> u_id ` set (db_users d)"
    and "in_lab inp \<in> l_id ` set (db_labs d)" and "k_id (pr_key p) \<in> k_id ` set (db_keys d)"
    and "Suc (db_uuid_seq d) \<notin> job_sub ` set (db_jobs d)"
  shows "\<exists>row d'. record_submission \<lparr>if_call = (\<lambda>_. False), if_left = x\<rparr> now inp p False d = Inr (row, d')"
  using assms
  by (simp add: record_submission_def ReserveNonce_def CreateSubmission_def insert_submission_def CreateEvaluationJob_def Let_def)

text \<open>The upload passes every check of the intake before the transaction.\<close>

abbreviation upload_input :: "client_run \<Rightarrow> string \<Rightarrow> string \<Rightarrow> string \<Rightarrow> submission_file list \<Rightarrow> string \<Rightarrow> submit_input" where
  "upload_input c lab priv bs files h \<equiv>
     \<lparr>in_lab = lab, in_fingerprint = keyFingerprintFromPrivateKey (cr_signer c) priv, in_timestamp = cr_now c 1,
      in_nonce = hex_text bs,
      in_signature = ck_sign (sg_keys (cr_signer c)) priv
        (SigningBytes (WithContentHash (NewPayload lab (cr_now c 1) (hex_text bs) (map sf_name files)) h)),
      in_files = form_files files\<rparr>"

lemma upload_passes_checks:
  assumes agree: "signer_agrees (cr_signer c) e parse_time"
    and files: "validateSubmissionFiles f disk (slice_list (submit_files (m_submit m))) args = Inr files"
    and archive: "Archive e (form_files files) = Some (archive, h)"
    and lab: "GetLab lab d = Inr row" "l_manifest row = Some m" "labOpen (m_schedule m) (it_open it)"
    and sizes: "parseMaxSize e (max_size (m_submit m)) = Some limit"
      "\<forall>x \<in> set files. clean_name (sf_name x) \<and> int (length (sf_content x)) \<le> limit"
    and key: "repo_GetUserKeyByFingerprint e (keyFingerprintFromPrivateKey (cr_signer c) priv) d = (Inr key, d1)"
      "parseAuthorizedKey e (k_public key) = Some (ck_public (sg_keys (cr_signer c)) priv)"
    and clock: "freshWithin (it_verify it) (cr_now c 1) defaultSkew"
    and calls: "\<And>i. \<not> if_call flt i"
  shows "intake_checks e flt it (upload_input c lab priv bs files h) d =
    (Inr \<lparr>pr_manifest = m, pr_key = key, pr_archive = archive, pr_hash = h,
        pr_akey = buildArtifactKey e lab (k_user key) (map sf_name files) h\<rparr>, d1)"
proof -
  have names: "map sf_name files = slice_list (submit_files (m_submit m))" "distinct (map sf_name files)"
    using validated_files [OF files] by simp_all
  have "files \<noteq> []" using files names(1) by (auto simp: validateSubmissionFiles_def split: if_splits)
  then have valid: "validateFiles e (slice_list (submit_files (m_submit m))) (max_size (m_submit m)) (form_files files) = Inr ()"
    using sizes names by (auto simp: validateFiles_def check_files_Inr comp_def names(1) [symmetric])
  show ?thesis
    using lab key archive agree clock
    by (simp add: intake_checks_def calls valid VerifySignature_def signer_agrees_def comp_def
        defaultSkew_def WithContentHash_def NewPayload_def Let_def del: One_nat_def)
qed

text \<open>A checked input with quota left is recorded, when no call fails and the nonce is new.\<close>

lemma checked_input_is_recorded:
  assumes checks: "intake_checks e flt it inp (w_db w) = (Inr pr, d1)" and frame: "same_but_fingerprints (w_db w) d1"
    and quota: "quotaWindowForTime (it_window it) loc = (start, stop)"
      "quota_daily (m_quota (pr_manifest pr)) \<le> 0 \<or>
       int (CountSubmissionQuotaUsage (k_user (pr_key pr)) (in_lab inp) start stop (w_db w)) < quota_daily (m_quota (pr_manifest pr))"
    and new: "in_nonce inp \<notin> set (db_nonces (w_db w))" "k_user (pr_key pr) \<in> u_id ` set (db_users (w_db w))"
      "in_lab inp \<in> l_id ` set (db_labs (w_db w))" "k_id (pr_key pr) \<in> k_id ` set (db_keys (w_db w))"
      "Suc (db_uuid_seq (w_db w)) \<notin> job_sub ` set (db_jobs (w_db w))"
    and calls: "flt = \<lparr>if_call = (\<lambda>_. False), if_left = None\<rparr>"
  shows "\<exists>row d2 left. record_submission flt (it_db it) inp pr False d1 = Inr (row, d2) \<and>
    Intake e flt it loc inp w =
      (Inr \<lparr>out_id = sub_id row, out_status = sub_status row, out_artifact = sub_artifact row, out_hash = sub_hash row,
         out_quota = left\<rparr>,
       \<lparr>w_db = d2, w_art = (w_art w)(pr_akey pr := Some (pr_archive pr))\<rparr>)"
proof -
  note same = same_but_fingerprints_D [OF frame]
  obtain used where take: "take_quota flt (it_db it) (pr_manifest pr) (k_user (pr_key pr)) (in_lab inp) start stop d1 =
      Inr (used, False, 0, d1)"
    using take_quota_left [of flt "pr_manifest pr" "k_user (pr_key pr)" "in_lab inp" start stop d1] quota(2)
    by (auto simp: calls CountSubmissionQuotaUsage_def same)
  have "\<exists>row d2. record_submission flt (it_db it) inp pr False d1 = Inr (row, d2)"
    unfolding calls using new same(10) by (intro record_submission_new) (simp_all add: same)
  then obtain row d2 where rec: "record_submission flt (it_db it) inp pr False d1 = Inr (row, d2)" by blast
  show ?thesis
    using checks take rec quota(1) by (intro exI [of _ row] exI [of _ d2]) (simp add: Intake_def intake_tx_def calls Let_def)
qed

text \<open>
  C0. A submission sent by the client is accepted and recorded with exactly its files: when the lab is open and its
  manifest declares the files, the key is active, the clocks agree up to the skew, the nonce is new, quota is left
  and no call fails, the server answers 201, and there is one new row, of the key's user, with the digest the
  client signed, one new job for it, and the archive of the files at its artifact key.
\<close>

theorem submission_is_recorded:
  assumes agree: "signer_agrees (cr_signer c) (ae_env a) (ae_time a)"
    and files: "validateSubmissionFiles f d (slice_list (submit_files (m_submit m))) args = Inr files"
    and digest: "submissionArchiveHash (ae_env a) files = Inr h"
    and upload: "upload_request c b base cfg priv lab files h = Inr r"
    and form: "ae_upload a (deliver r) = Some (map Some (form_files files))"
    and lab: "safe_segment lab" "GetLab lab (api_db s) = Inr row" "l_manifest row = Some m" "labOpen (m_schedule m) (it_open (ar_intake u))"
    and sizes: "parseMaxSize (ae_env a) (max_size (m_submit m)) = Some limit"
      "\<forall>x \<in> set files. clean_name (sf_name x) \<and> int (length (sf_content x)) \<le> limit"
    and key: "repo_GetUserKeyByFingerprint (ae_env a) (keyFingerprintFromPrivateKey (cr_signer c) priv) (api_db s) = (Inr key, d1)"
      "parseAuthorizedKey (ae_env a) (k_public key) = Some (ck_public (sg_keys (cr_signer c)) priv)"
      "k_user key \<in> u_id ` set (db_users (api_db s))"
    and clock: "0 \<le> cr_now c 1" "cr_now c 1 < 3652059 * day" "freshWithin (it_verify (ar_intake u)) (cr_now c 1) defaultSkew"
    and nonce: "\<forall>bs. cr_rand c 1 = Some bs \<longrightarrow> hex_text bs \<notin> set (db_nonces (api_db s))"
    and quota: "quotaWindowForTime (it_window (ar_intake u)) (ae_loc a) = (start, stop)"
      "quota_daily (m_quota m) \<le> 0 \<or> int (CountSubmissionQuotaUsage (k_user key) lab start stop (api_db s)) < quota_daily (m_quota m)"
    and calls: "ar_intake_fails u = \<lparr>if_call = (\<lambda>_. False), if_left = None\<rparr>"
      "Suc (db_uuid_seq (api_db s)) \<notin> job_sub ` set (db_jobs (api_db s))"
  shows "\<exists>out new job archive s'. api_serve a u (deliver r) s = (Json 201 (BSubmission out), s') \<and>
    Archive (ae_env a) (form_files files) = Some (archive, h) \<and> w_art (ap_world s') (out_artifact out) = Some archive \<and>
    db_subs (api_db s') = db_subs (api_db s) @ [new] \<and> sub_id new = out_id out \<and> sub_user new = k_user key \<and>
    sub_lab new = lab \<and> sub_hash new = h \<and> sub_status new = SsQueued \<and> sub_quota new = QPending \<and>
    db_jobs (api_db s') = db_jobs (api_db s) @ [job] \<and> job_sub job = sub_id new"
proof -
  let ?inp = "\<lambda>bs. upload_input c lab priv bs files h"
  from upload_reaches_intake [OF agree upload lab(1) clock(1,2) form, of u s] obtain bs where bs: "cr_rand c 1 = Some bs" and
    serve: "api_serve a u (deliver r) s =
      (case Intake (ae_env a) (ar_intake_fails u) (ar_intake u) (ae_loc a) (?inp bs) (ap_world s) of
         (res, w) \<Rightarrow> (answer 201 submission_failure BSubmission res, s\<lparr>ap_world := w\<rparr>))"
    unfolding Let_def by blast
  from digest obtain archive where archive: "Archive (ae_env a) (form_files files) = Some (archive, h)"
    using archive_digest by blast
  define pr where "pr = \<lparr>pr_manifest = m, pr_key = key, pr_archive = archive, pr_hash = h,
    pr_akey = buildArtifactKey (ae_env a) lab (k_user key) (map sf_name files) h\<rparr>"
  have checks: "intake_checks (ae_env a) (ar_intake_fails u) (ar_intake u) (?inp bs) (w_db (ap_world s)) = (Inr pr, d1)"
    unfolding pr_def
    by (rule upload_passes_checks [OF agree files archive lab(2-4) [unfolded api_db_def] sizes key(1) [unfolded api_db_def] key(2) clock(3)])
      (simp add: calls(1))
  note frame = repo_key_frame [OF key(1), unfolded api_db_def]
  have known: "lab \<in> l_id ` set (db_labs (api_db s))" "k_id key \<in> k_id ` set (db_keys (api_db s))"
    using lab(2) repo_key_active [OF key(1)] by (auto simp: GetLab_def one_def split: option.splits dest!: find_SomeD)
  obtain new d2 left where rec: "record_submission (ar_intake_fails u) (it_db (ar_intake u)) (?inp bs) pr False d1 = Inr (new, d2)"
    and intake: "Intake (ae_env a) (ar_intake_fails u) (ar_intake u) (ae_loc a) (?inp bs) (ap_world s) =
      (Inr \<lparr>out_id = sub_id new, out_status = sub_status new, out_artifact = sub_artifact new, out_hash = sub_hash new,
         out_quota = left\<rparr>, \<lparr>w_db = d2, w_art = (w_art (ap_world s))(pr_akey pr := Some archive)\<rparr>)"
    using checked_input_is_recorded [OF checks frame quota(1) _ _ _ _ _ calls(2) [unfolded api_db_def] calls(1)]
      quota(2) nonce bs key(3) known
    by (auto simp: pr_def api_db_def simp del: One_nat_def)
  show ?thesis
    using record_submission_Inr [OF rec] archive same_but_fingerprints_D [OF frame]
    by (simp add: serve intake answer_def api_db_def pr_def del: One_nat_def)
qed

section \<open>A concrete upload\<close>

definition upload_signer :: signer where
  "upload_signer = demo_signer\<lparr>sg_keys := demo_keys\<lparr>ck_public := (\<lambda>_. Submissions.sample_key)\<rparr>, sg_time_text := (\<lambda>t. nat_text (nat t))\<rparr>"

definition upload_server :: api_env where
  "upload_server = demo_server\<lparr>ae_time := (\<lambda>s. Some (int (undigits s)))\<rparr>"

definition upload_state :: api where
  "upload_state =
     (let w = sample_world 2 0
      in \<lparr>ap_world = w\<lparr>w_db := (w_db w)\<lparr>db_keys := map (k_fingerprint_update (\<lambda>_. Some ''SHA256:YWJjZA'')) (db_keys (w_db w))\<rparr>\<rparr>,
          ap_sessions = Map.empty\<rparr>)"

definition upload_client :: client_run where
  "upload_client =
     \<lparr>cr_toml = demo_toml, cr_faults = no_io_faults, cr_deps = demo_deps, cr_terminal = demo_terminal,
      cr_disk = [''a.c'' \<mapsto> ''int x;''], cr_signer = upload_signer,
      cr_json = \<lparr>cj_object = (\<lambda>_. []), cj_error = (\<lambda>_. None), cj_lab = (\<lambda>_. None), cj_board = (\<lambda>_. None),
        cj_precheck = (\<lambda>_. None), cj_submission = (\<lambda>_. None), cj_detail = (\<lambda>_. None), cj_history = (\<lambda>_. None),
        cj_profile = (\<lambda>_. None), cj_keys = (\<lambda>_. None)\<rparr>,
      cr_now = (\<lambda>_. 719162 * day), cr_rand = (\<lambda>_. Some ''n1'')\<rparr>"

definition upload_form :: submit_run where
  "upload_form = \<lparr>sb_live = False, sb_multipart = (\<lambda>_. Some (''form'', ''multipart/form-data'')),
     sb_stop_wait = (\<lambda>_. False), sb_stop_call = (\<lambda>_. False)\<rparr>"

definition upload_base :: url where
  "upload_base = \<lparr>u_scheme = ''http'', u_opaque = [], u_user = None, u_host = ''h'', u_escaped = [],
     u_force_query = False, u_query = [], u_fragment = []\<rparr>"

definition upload_files :: "submission_file list" where
  "upload_files = [\<lparr>sf_name = ''a.c'', sf_path = ''a.c'', sf_content = ''int x;''\<rparr>]"

lemma upload_agrees: "signer_agrees upload_signer demo_env (ae_time upload_server)"
proof -
  have "trim_space (nat_text n) = nat_text n" for n
  proof (rule trim_space_graphic)
    have "graphic (digit d)" if "d < 10" for d using that by (simp add: digit_def graphic_def)
    then show "list_all graphic (nat_text n)" using nat_text_digits by (fastforce simp: list_all_iff)
  qed
  then show ?thesis
    by (simp add: signer_agrees_def upload_signer_def upload_server_def demo_signer_def demo_keys_def demo_env_def Submissions.sample_key_def)
qed

lemma upload_key:
  "repo_GetUserKeyByFingerprint e ''SHA256:YWJjZA'' (api_db upload_state) = (Inr (hd (db_keys (api_db upload_state))), api_db upload_state)"
  by (simp add: repo_GetUserKeyByFingerprint_def GetUserKeyByFingerprint_query_def upload_state_def
      sample_world_def api_db_def active_key_def blank_def trim_space_graphic graphic_def one_def Let_def)

lemma submission_is_recorded_witness:
  "\<exists>r out new s'. upload_request upload_client upload_form upload_base (no_config\<lparr>cf_key_id := 1\<rparr>) ''seed'' ''lab'' upload_files
       (hex_text ''a.ci'') = Inr r \<and>
     api_serve upload_server (demo_run (719162 * day)) (deliver r) upload_state = (Json 201 (BSubmission out), s') \<and>
     db_subs (api_db s') = [new] \<and> sub_user new = 1 \<and> sub_hash new = hex_text ''a.ci''"
proof -
  let ?m = "the (l_manifest (hd (db_labs (api_db upload_state))))" and ?key = "hd (db_keys (api_db upload_state))"
  have seg: "safe_segment ''lab''" by code_simp
  have "sb_multipart upload_form (map (\<lambda>x. (sf_name x, sf_content x)) upload_files) = Some (''form'', ''multipart/form-data'')"
    "cr_rand upload_client 1 = Some ''n1''" "cf_key_id (no_config\<lparr>cf_key_id := 1\<rparr>) \<noteq> 0"
    by (simp_all add: upload_form_def upload_client_def)
  from upload_request_sent [OF seg this] obtain r where r: "upload_request upload_client upload_form upload_base
      (no_config\<lparr>cf_key_id := 1\<rparr>) ''seed'' ''lab'' upload_files (hex_text ''a.ci'') = Inr r" by blast
  have agree: "signer_agrees (cr_signer upload_client) (ae_env upload_server) (ae_time upload_server)"
    using upload_agrees by (simp add: upload_client_def upload_server_def demo_server_def)
  have files: "validateSubmissionFiles no_io_faults [''a.c'' \<mapsto> ''int x;''] (slice_list (submit_files (m_submit ?m))) [''a.c''] = Inr upload_files"
    "submissionArchiveHash (ae_env upload_server) upload_files = Inr (hex_text ''a.ci'')"
    by code_simp+
  have form: "ae_upload upload_server (deliver r) = Some (map Some (form_files upload_files))"
    by (simp add: upload_server_def demo_server_def upload_files_def)
  have lab: "safe_segment ''lab''" "GetLab ''lab'' (api_db upload_state) = Inr (hd (db_labs (api_db upload_state)))"
    "labOpen (m_schedule ?m) (it_open (ar_intake (demo_run (719162 * day))))"
    by code_simp+
  have man: "l_manifest (hd (db_labs (api_db upload_state))) = Some ?m"
    by (simp add: upload_state_def sample_world_def api_db_def Let_def)
  have sizes: "parseMaxSize (ae_env upload_server) (max_size (m_submit ?m)) = Some 1000000"
    "list_all (\<lambda>x. clean_name (sf_name x) \<and> int (length (sf_content x)) \<le> 1000000) upload_files" by code_simp+
  have fp: "keyFingerprintFromPrivateKey (cr_signer upload_client) ''seed'' = ''SHA256:YWJjZA''" by code_simp
  then have key: "repo_GetUserKeyByFingerprint (ae_env upload_server) (keyFingerprintFromPrivateKey (cr_signer upload_client) ''seed'')
      (api_db upload_state) = (Inr ?key, api_db upload_state)"
    using upload_key by simp
  have owner: "parseAuthorizedKey (ae_env upload_server) (k_public ?key) = Some (ck_public (sg_keys (cr_signer upload_client)) ''seed'')"
    "k_user ?key \<in> u_id ` set (db_users (api_db upload_state))" "k_user ?key = 1"
    by code_simp+
  have clock: "0 \<le> cr_now upload_client 1" "cr_now upload_client 1 < 3652059 * day"
    "freshWithin (it_verify (ar_intake (demo_run (719162 * day)))) (cr_now upload_client 1) defaultSkew"
    by code_simp+
  have rest: "db_nonces (api_db upload_state) = []" "db_subs (api_db upload_state) = []" "db_jobs (api_db upload_state) = []"
    "quota_daily (m_quota ?m) = 2"
    by (simp_all add: upload_state_def sample_world_def api_db_def empty_db_def Let_def)
  obtain start stop where win: "quotaWindowForTime (it_window (ar_intake (demo_run (719162 * day)))) (ae_loc upload_server) = (start, stop)"
    by fastforce
  have quota: "quota_daily (m_quota ?m) \<le> 0 \<or> int (CountSubmissionQuotaUsage (k_user ?key) ''lab'' start stop (api_db upload_state)) < quota_daily (m_quota ?m)"
    by (simp add: CountSubmissionQuotaUsage_def rest)
  have calls: "ar_intake_fails (demo_run (719162 * day)) = \<lparr>if_call = (\<lambda>_. False), if_left = None\<rparr>"
    by (simp add: demo_run_def no_faults_def)
  from submission_is_recorded [OF agree files r form lab(1,2) man lab(3) sizes(1) _ key owner(1,2) clock _ win quota calls]
  show ?thesis using sizes(2) r owner(3) by (auto simp: rest list_all_iff)
qed


end
