(* ===== verification/Oauth.thy ===== *)
theory Oauth
  imports Device_Auth Go_Url
begin

text \<open>
  The identity providers of \<^verbatim>\<open>api/internal/service/auth/providers\<close> and their configuration,
  \<^verbatim>\<open>api/internal/config/oauth.go\<close>: the URL to which a student is sent, the exchange of the code for a token
  and the identity behind the token. \<open>net\<close> is the answer of the other server to a request, \<open>None\<close> where there is
  none; the JSON decoders, \<^verbatim>\<open>time.ParseDuration\<close> and the environment are arguments.
\<close>

section \<open>Configuration\<close>

record cas_config =
  cas_client :: string
  cas_secret :: string
  cas_redirect :: string
  cas_authorize :: string
  cas_token :: string
  cas_profile :: string

record school_config =
  sd_client :: string
  sd_secret :: string
  sd_redirect :: string
  sd_authorize :: string
  sd_token :: string
  sd_user :: string
  sd_profile :: string
  sd_scope :: string

record oauth_config =
  oc_provider :: string
  oc_cas :: cas_config
  oc_school :: school_config
  oc_ttl :: duration

definition no_cas :: cas_config where
  "no_cas = \<lparr>cas_client = [], cas_secret = [], cas_redirect = [], cas_authorize = [], cas_token = [], cas_profile = []\<rparr>"

definition no_school :: school_config where
  "no_school = \<lparr>sd_client = [], sd_secret = [], sd_redirect = [], sd_authorize = [], sd_token = [], sd_user = [],
     sd_profile = [], sd_scope = []\<rparr>"

datatype oauth_error =
    UnsupportedProvider string | MissingSettings "string list" | BadTTL | NoAuthorizeURL | NoTokenURL | NoProfileURL
  | BadURL | NoAnswer | Refused nat | BadJson | TokenError string string | NoAccessToken | NoStudentID | NoLoginName

definition missing_settings :: "(string \<times> string) list \<Rightarrow> string list" where
  "missing_settings xs = map fst (filter (\<lambda>x. snd x = []) xs)"

definition missingCASRUCEnvVars :: "cas_config \<Rightarrow> string list" where
  "missingCASRUCEnvVars c = missing_settings
     [(''LABKIT_OAUTH_CLIENT_ID'', cas_client c), (''LABKIT_OAUTH_CLIENT_SECRET'', cas_secret c),
      (''LABKIT_OAUTH_REDIRECT_URL'', cas_redirect c), (''LABKIT_OAUTH_AUTHORIZE_URL'', cas_authorize c),
      (''LABKIT_OAUTH_TOKEN_URL'', cas_token c), (''LABKIT_OAUTH_PROFILE_URL'', cas_profile c)]"

definition missingSchoolDevcenterEnvVars :: "school_config \<Rightarrow> string list" where
  "missingSchoolDevcenterEnvVars c = missing_settings
     [(''LABKIT_OAUTH_CLIENT_ID'', sd_client c), (''LABKIT_OAUTH_CLIENT_SECRET'', sd_secret c),
      (''LABKIT_OAUTH_REDIRECT_URL'', sd_redirect c), (''LABKIT_OAUTH_AUTHORIZE_URL'', sd_authorize c),
      (''LABKIT_OAUTH_TOKEN_URL'', sd_token c), (''LABKIT_OAUTH_USER_URL'', sd_user c),
      (''LABKIT_OAUTH_PROFILE_URL'', sd_profile c), (''LABKIT_OAUTH_SCOPE'', sd_scope c)]"

definition ResolveOAuthConfigFromEnv ::
  "(string \<Rightarrow> string) \<Rightarrow> (string \<Rightarrow> duration option) \<Rightarrow> oauth_error + oauth_config" where
  "ResolveOAuthConfigFromEnv getenv parse_duration =
     (let get = (\<lambda>k. trim_space (getenv k));
          p0 = to_lower (get ''LABKIT_AUTH_PROVIDER'');
          p = (if p0 = [] then ''cas_ruc'' else p0);
          cas = (if p = ''cas_ruc'' then
                   \<lparr>cas_client = get ''LABKIT_OAUTH_CLIENT_ID'', cas_secret = get ''LABKIT_OAUTH_CLIENT_SECRET'',
                    cas_redirect = get ''LABKIT_OAUTH_REDIRECT_URL'', cas_authorize = get ''LABKIT_OAUTH_AUTHORIZE_URL'',
                    cas_token = get ''LABKIT_OAUTH_TOKEN_URL'', cas_profile = get ''LABKIT_OAUTH_PROFILE_URL''\<rparr>
                 else no_cas);
          school = (if p = ''cas_ruc'' then no_school
                 else
                   \<lparr>sd_client = get ''LABKIT_OAUTH_CLIENT_ID'', sd_secret = get ''LABKIT_OAUTH_CLIENT_SECRET'',
                    sd_redirect = get ''LABKIT_OAUTH_REDIRECT_URL'', sd_authorize = get ''LABKIT_OAUTH_AUTHORIZE_URL'',
                    sd_token = get ''LABKIT_OAUTH_TOKEN_URL'', sd_user = get ''LABKIT_OAUTH_USER_URL'',
                    sd_profile = get ''LABKIT_OAUTH_PROFILE_URL'', sd_scope = get ''LABKIT_OAUTH_SCOPE''\<rparr>);
          ttl = get ''LABKIT_OAUTH_DEVICE_AUTH_TTL'';
          missing = (if p = ''cas_ruc'' then missingCASRUCEnvVars cas else missingSchoolDevcenterEnvVars school)
      in if p \<noteq> ''cas_ruc'' \<and> p \<noteq> ''school_devcenter'' then Inl (UnsupportedProvider p)
         else (case (if ttl = [] then Some 0 else parse_duration ttl) of
           None \<Rightarrow> Inl BadTTL
         | Some t \<Rightarrow>
             if missing \<noteq> [] then Inl (MissingSettings missing)
             else Inr \<lparr>oc_provider = p, oc_cas = cas, oc_school = school, oc_ttl = t\<rparr>))"

section \<open>Form values\<close>

text \<open>\<^verbatim>\<open>url.Values\<close> as its pairs: \<^verbatim>\<open>Set\<close> replaces all values of a name, \<^verbatim>\<open>Encode\<close> sorts by name.\<close>

definition set_value :: "string \<Rightarrow> string \<Rightarrow> (string \<times> string) list \<Rightarrow> (string \<times> string) list" where
  "set_value k v vs = filter (\<lambda>p. fst p \<noteq> k) vs @ [(k, v)]"

definition set_unless_blank :: "string \<Rightarrow> string \<Rightarrow> (string \<times> string) list \<Rightarrow> (string \<times> string) list" where
  "set_unless_blank k v vs = (if blank v then vs else set_value k (trim_space v) vs)"

definition encode_pair :: "string \<times> string \<Rightarrow> string" where
  "encode_pair p = query_escape (fst p) @ CHR ''='' # query_escape (snd p)"

definition encode_values :: "(string \<times> string) list \<Rightarrow> string" where
  "encode_values vs = join_with ''&'' (map encode_pair (sort_key fst vs))"

definition query_values :: "string \<Rightarrow> (string \<times> string) list" where
  "query_values raw = List.map_filter query_pair (split_on (CHR ''&'') raw)"

section \<open>Requests\<close>

record oauth_request =
  oq_method :: string
  oq_url :: url
  oq_headers :: "(string \<times> string) list"
  oq_body :: string

type_synonym net = "oauth_request \<Rightarrow> (nat \<times> string option) option"

text \<open>\<^verbatim>\<open>Do\<close>, the check of the status and the reading of the body.\<close>

definition fetch :: "net \<Rightarrow> oauth_request \<Rightarrow> oauth_error + string" where
  "fetch net r =
     (case net r of
        None \<Rightarrow> Inl NoAnswer
      | Some (status, body) \<Rightarrow>
          (if status < 200 \<or> 300 \<le> status then Inl (Refused status)
           else (case body of None \<Rightarrow> Inl NoAnswer | Some b \<Rightarrow> Inr b)))"

definition parsed :: "(string \<Rightarrow> bool) \<Rightarrow> string \<Rightarrow> oauth_error + url" where
  "parsed ip6 s = (case parse_url ip6 s of None \<Rightarrow> Inl BadURL | Some u \<Rightarrow> Inr u)"

text \<open>The documents of the providers, and their decoders; a failing decoder of a token may leave nothing behind.\<close>

record token_payload =
  tp_access :: string
  tp_token :: string
  tp_type :: string
  tp_scope :: string
  tp_expires :: int
  tp_error :: string
  tp_description :: string

record school_profile =
  sp_id :: string
  sp_alt :: string
  sp_no :: string
  sp_stno :: string
  sp_name :: string
  sp_email :: string
  sp_primary :: bool

record school_document =
  so_uid :: string
  so_id :: string
  so_alt :: string
  so_no :: string
  so_name :: string
  so_email :: string
  so_profiles :: "school_profile list"

record school_user =
  su_name :: string
  su_username :: string

record oauth_json =
  oj_token :: "string \<Rightarrow> token_payload option"
  oj_login :: "string \<Rightarrow> string option"
  oj_document :: "string \<Rightarrow> school_document option"
  oj_user :: "string \<Rightarrow> school_user option"

definition decode :: "('a \<Rightarrow> 'b option) \<Rightarrow> 'a \<Rightarrow> oauth_error + 'b" where
  "decode dec s = (case dec s of None \<Rightarrow> Inl BadJson | Some v \<Rightarrow> Inr v)"

record identity =
  id_provider :: string
  id_subject :: string
  id_student :: string
  id_name :: string
  id_email :: string

section \<open>\<^verbatim>\<open>cas_ruc\<close>\<close>

definition cas_BuildAuthorizeURL :: "(string \<Rightarrow> bool) \<Rightarrow> cas_config \<Rightarrow> string \<Rightarrow> oauth_error + url" where
  "cas_BuildAuthorizeURL ip6 c state =
     (if blank (cas_authorize c) then Inl NoAuthorizeURL
      else let redirect = (if blank (cas_redirect c) then ''/api/device/verify'' else trim_space (cas_redirect c))
           in bindR (parsed ip6 (trim_space (cas_authorize c))) (\<lambda>u.
                Inr (u\<lparr>u_query := encode_values
                  (set_unless_blank ''client_id'' (cas_client c)
                  (set_value ''state'' state
                  (set_value ''redirect_uri'' redirect
                  (set_value ''scope'' ''all''
                  (set_value ''response_type'' ''code'' (query_values (u_query u)))))))\<rparr>)))"

definition isTokenLike :: "string \<Rightarrow> bool" where
  "isTokenLike token \<longleftrightarrow> token \<noteq> [] \<and>
     list_all (\<lambda>c. c \<notin> set '' {}[]=:&'' \<and> c \<notin> {CHR 0x09, CHR 0x0D, CHR 0x0A, CHR 0x22}) token"

text \<open>\<^verbatim>\<open>url.ParseQuery\<close> fails on the first broken pair.\<close>

definition query_ok :: "string \<Rightarrow> bool" where
  "query_ok raw \<longleftrightarrow> list_all (\<lambda>s. s = [] \<or> query_pair s \<noteq> None) (split_on (CHR ''&'') raw)"

definition plain_token :: "string \<Rightarrow> oauth_error + string" where
  "plain_token body =
     (let t = trim_space body; a = trim_space (query_value t ''access_token''); b = trim_space (query_value t ''token'')
      in if query_ok t \<and> a \<noteq> [] then Inr a
         else if query_ok t \<and> b \<noteq> [] then Inr b
         else if isTokenLike t then Inr t else Inl NoAccessToken)"

definition ParseAccessToken :: "oauth_json \<Rightarrow> string \<Rightarrow> oauth_error + string" where
  "ParseAccessToken j body =
     (case oj_token j body of
        None \<Rightarrow> plain_token body
      | Some p \<Rightarrow>
          (if \<not> blank (tp_error p) \<or> \<not> blank (tp_description p) then
             Inl (TokenError (trim_space (tp_error p)) (trim_space (tp_description p)))
           else if \<not> blank (tp_access p) then Inr (tp_access p)
           else if \<not> blank (tp_token p) then Inr (tp_token p)
           else plain_token body))"

definition accept_json :: "(string \<times> string) list" where
  "accept_json = [(''Accept'', ''application/json'')]"

definition form_json :: "(string \<times> string) list" where
  "form_json = (''Content-Type'', ''application/x-www-form-urlencoded'') # accept_json"

definition cas_token_form :: "cas_config \<Rightarrow> string \<Rightarrow> (string \<times> string) list" where
  "cas_token_form c code =
     [(''code'', code), (''client_id'', cas_client c), (''client_secret'', cas_secret c),
      (''grant_type'', ''authorization_code''), (''redirect_uri'', cas_redirect c)]"

definition cas_ExchangeCode ::
  "(string \<Rightarrow> bool) \<Rightarrow> oauth_json \<Rightarrow> net \<Rightarrow> cas_config \<Rightarrow> string \<Rightarrow> oauth_error + token_set" where
  "cas_ExchangeCode ip6 j net c code =
     bindR (parsed ip6 (cas_token c)) (\<lambda>u.
     bindR (fetch net \<lparr>oq_method = ''POST'', oq_url = u, oq_headers = form_json,
        oq_body = encode_values (cas_token_form c code)\<rparr>) (\<lambda>body.
     bindR (ParseAccessToken j body) (\<lambda>t.
       Inr \<lparr>ts_access = t, ts_type = [], ts_scope = [], ts_expiry = None\<rparr>)))"

definition FetchProfile ::
  "(string \<Rightarrow> bool) \<Rightarrow> oauth_json \<Rightarrow> net \<Rightarrow> cas_config \<Rightarrow> string \<Rightarrow> oauth_error + string" where
  "FetchProfile ip6 j net c token =
     bindR (parsed ip6 (cas_profile c)) (\<lambda>u.
     bindR (fetch net \<lparr>oq_method = ''GET'',
        oq_url = u\<lparr>u_query := encode_values (set_value ''access_token'' token (query_values (u_query u)))\<rparr>,
        oq_headers = accept_json, oq_body = []\<rparr>) (\<lambda>body.
     bindR (decode (oj_login j) body) (\<lambda>login. if blank login then Inl NoLoginName else Inr login)))"

definition cas_FetchIdentity ::
  "(string \<Rightarrow> bool) \<Rightarrow> oauth_json \<Rightarrow> net \<Rightarrow> cas_config \<Rightarrow> token_set \<Rightarrow> oauth_error + identity" where
  "cas_FetchIdentity ip6 j net c token =
     bindR (FetchProfile ip6 j net c (ts_access token)) (\<lambda>login.
       let s = trim_space login
       in if s = [] then Inl NoLoginName
          else Inr \<lparr>id_provider = ''cas_ruc'', id_subject = s, id_student = s, id_name = s, id_email = []\<rparr>)"

section \<open>\<^verbatim>\<open>school_devcenter\<close>\<close>

definition school_BuildAuthorizeURL :: "(string \<Rightarrow> bool) \<Rightarrow> school_config \<Rightarrow> string \<Rightarrow> oauth_error + url" where
  "school_BuildAuthorizeURL ip6 c state =
     (if blank (sd_authorize c) then Inl NoAuthorizeURL
      else bindR (parsed ip6 (trim_space (sd_authorize c))) (\<lambda>u.
             Inr (u\<lparr>u_query := encode_values
               (set_value ''state'' state
               (set_unless_blank ''scope'' (sd_scope c)
               (set_unless_blank ''redirect_uri'' (sd_redirect c)
               (set_unless_blank ''client_id'' (sd_client c)
               (set_value ''response_type'' ''code'' (query_values (u_query u)))))))\<rparr>)))"

definition schoolDevcenterBasicAuth :: "string \<Rightarrow> string \<Rightarrow> string" where
  "schoolDevcenterBasicAuth clientID clientSecret =
     (if clientID = [] \<and> clientSecret = [] then []
      else ''Basic '' @ base64_encode (clientID @ CHR '':'' # clientSecret))"

text \<open>The life time is a 64-bit number of nanoseconds.\<close>

definition expiry_of :: "time \<Rightarrow> int \<Rightarrow> time option" where
  "expiry_of now seconds =
     (if seconds > 0 then Some (now + sint (word_of_int (seconds * 1000000000) :: 64 word) div 1000) else None)"

definition parseSchoolDevcenterTokenSet :: "oauth_json \<Rightarrow> time \<Rightarrow> string \<Rightarrow> oauth_error + token_set" where
  "parseSchoolDevcenterTokenSet j now body =
     bindR (decode (oj_token j) body) (\<lambda>p.
       if \<not> blank (tp_error p) \<or> \<not> blank (tp_description p) then
         Inl (TokenError (trim_space (tp_error p)) (trim_space (tp_description p)))
       else if blank (tp_access p) then Inl NoAccessToken
       else Inr \<lparr>ts_access = trim_space (tp_access p), ts_type = trim_space (tp_type p),
              ts_scope = trim_space (tp_scope p), ts_expiry = expiry_of now (tp_expires p)\<rparr>)"

definition school_token_form :: "school_config \<Rightarrow> string \<Rightarrow> (string \<times> string) list" where
  "school_token_form c code =
     set_unless_blank ''redirect_uri'' (sd_redirect c)
       [(''grant_type'', ''authorization_code''), (''code'', trim_space code)]"

definition school_ExchangeCode ::
  "(string \<Rightarrow> bool) \<Rightarrow> oauth_json \<Rightarrow> net \<Rightarrow> time \<Rightarrow> school_config \<Rightarrow> string \<Rightarrow> oauth_error + token_set" where
  "school_ExchangeCode ip6 j net now c code =
     (if blank (sd_token c) then Inl NoTokenURL
      else let basic = schoolDevcenterBasicAuth (trim_space (sd_client c)) (trim_space (sd_secret c))
           in bindR (parsed ip6 (trim_space (sd_token c))) (\<lambda>u.
              bindR (fetch net \<lparr>oq_method = ''POST'', oq_url = u,
                 oq_headers = form_json @ (if basic = [] then [] else [(''Authorization'', basic)]),
                 oq_body = encode_values (school_token_form c code)\<rparr>) (\<lambda>body.
                parseSchoolDevcenterTokenSet j now body)))"

definition setBearerAuth :: "token_set \<Rightarrow> (string \<times> string) list" where
  "setBearerAuth t =
     (let ty = (if blank (ts_type t) then ''Bearer'' else trim_space (ts_type t))
      in [(''Authorization'', ty @ '' '' @ trim_space (ts_access t))])"

definition firstNonEmpty :: "string list \<Rightarrow> string" where
  "firstNonEmpty values = (case filter (\<lambda>v. \<not> blank v) values of [] \<Rightarrow> [] | v # _ \<Rightarrow> trim_space v)"

definition profile_StudentID :: "school_profile \<Rightarrow> string" where
  "profile_StudentID p = firstNonEmpty [sp_stno p, sp_id p, sp_alt p, sp_no p]"

definition document_StudentID :: "school_document \<Rightarrow> string" where
  "document_StudentID d =
     (let own = firstNonEmpty [so_id d, so_alt d, so_no d];
          primary = firstNonEmpty (map profile_StudentID (filter sp_primary (so_profiles d)))
      in if own \<noteq> [] then own
         else if primary \<noteq> [] then primary
         else firstNonEmpty (map profile_StudentID (so_profiles d)))"

definition document_Subject :: "school_document \<Rightarrow> string" where
  "document_Subject d = firstNonEmpty [so_uid d]"

definition document_DisplayName :: "school_document \<Rightarrow> string" where
  "document_DisplayName d = firstNonEmpty (so_name d # map sp_name (so_profiles d))"

definition document_EmailAddress :: "school_document \<Rightarrow> string" where
  "document_EmailAddress d = firstNonEmpty (so_email d # map sp_email (so_profiles d))"

definition bearer_get :: "(string \<Rightarrow> bool) \<Rightarrow> net \<Rightarrow> string \<Rightarrow> token_set \<Rightarrow> oauth_error + string" where
  "bearer_get ip6 net raw token =
     bindR (parsed ip6 raw) (\<lambda>u.
       fetch net \<lparr>oq_method = ''GET'', oq_url = u, oq_headers = setBearerAuth token @ accept_json, oq_body = []\<rparr>)"

definition fetchUserIdentity ::
  "(string \<Rightarrow> bool) \<Rightarrow> oauth_json \<Rightarrow> net \<Rightarrow> string \<Rightarrow> token_set \<Rightarrow> oauth_error + school_user" where
  "fetchUserIdentity ip6 j net userURL token = bindR (bearer_get ip6 net userURL token) (decode (oj_user j))"

definition school_FetchIdentity ::
  "(string \<Rightarrow> bool) \<Rightarrow> oauth_json \<Rightarrow> net \<Rightarrow> school_config \<Rightarrow> token_set \<Rightarrow> oauth_error + identity" where
  "school_FetchIdentity ip6 j net c token =
     (if blank (ts_access token) then Inl NoAccessToken
      else if blank (sd_profile c) then Inl NoProfileURL
      else bindR (bearer_get ip6 net (trim_space (sd_profile c)) token) (\<lambda>body.
           bindR (decode (oj_document j) body) (\<lambda>d.
             let student = document_StudentID d; subject = document_Subject d; name = document_DisplayName d
             in if student = [] then Inl NoStudentID
                else bindR (if \<not> blank (sd_user c) \<and> (subject = [] \<or> name = []) then
                              bindR (fetchUserIdentity ip6 j net (trim_space (sd_user c)) token) (\<lambda>u.
                                Inr (if subject = [] then firstNonEmpty [su_username u] else subject,
                                     if name = [] then firstNonEmpty [su_name u] else name))
                            else Inr (subject, name)) (\<lambda>(subject, name).
                     Inr \<lparr>id_provider = ''school_devcenter'', id_subject = (if subject = [] then student else subject),
                          id_student = student, id_name = name, id_email = document_EmailAddress d\<rparr>))))"

section \<open>The configured provider\<close>

datatype chosen = CasRuc cas_config | School school_config

definition New :: "oauth_config \<Rightarrow> oauth_error + chosen" where
  "New c =
     (let p0 = to_lower (trim_space (oc_provider c)); p = (if p0 = [] then ''cas_ruc'' else p0)
      in if p = ''cas_ruc'' then Inr (CasRuc (oc_cas c))
         else if p = ''school_devcenter'' then Inr (School (oc_school c))
         else Inl (UnsupportedProvider p))"

fun BuildAuthorizeURL :: "(string \<Rightarrow> bool) \<Rightarrow> chosen \<Rightarrow> string \<Rightarrow> oauth_error + url" where
  "BuildAuthorizeURL ip6 (CasRuc c) state = cas_BuildAuthorizeURL ip6 c state"
| "BuildAuthorizeURL ip6 (School c) state = school_BuildAuthorizeURL ip6 c state"

fun ExchangeCode :: "(string \<Rightarrow> bool) \<Rightarrow> oauth_json \<Rightarrow> net \<Rightarrow> time \<Rightarrow> chosen \<Rightarrow> string \<Rightarrow> oauth_error + token_set" where
  "ExchangeCode ip6 j net now (CasRuc c) code = cas_ExchangeCode ip6 j net c code"
| "ExchangeCode ip6 j net now (School c) code = school_ExchangeCode ip6 j net now c code"

fun FetchIdentity :: "(string \<Rightarrow> bool) \<Rightarrow> oauth_json \<Rightarrow> net \<Rightarrow> chosen \<Rightarrow> token_set \<Rightarrow> oauth_error + identity" where
  "FetchIdentity ip6 j net (CasRuc c) token = cas_FetchIdentity ip6 j net c token"
| "FetchIdentity ip6 j net (School c) token = school_FetchIdentity ip6 j net c token"


definition to_option :: "'e + 'a \<Rightarrow> 'a option" where
  "to_option r = (case r of Inl _ \<Rightarrow> None | Inr v \<Rightarrow> Some v)"

lemma to_option_Some [simp]: "to_option r = Some v \<longleftrightarrow> r = Inr v"
  by (simp add: to_option_def split: sum.split)

text \<open>The provider as the device flow and the web login call it; \<open>show\<close> is \<^verbatim>\<open>URL.String\<close>.\<close>

definition provider_of ::
  "(string \<Rightarrow> bool) \<Rightarrow> (url \<Rightarrow> string) \<Rightarrow> oauth_json \<Rightarrow> net \<Rightarrow> time \<Rightarrow> chosen \<Rightarrow> provider" where
  "provider_of ip6 show_url j net now p =
     \<lparr>pv_authorize = (\<lambda>state. map_option show_url (to_option (BuildAuthorizeURL ip6 p state))),
      pv_exchange = (\<lambda>code. to_option (ExchangeCode ip6 j net now p code)),
      pv_identity = (\<lambda>token. map_option id_student (to_option (FetchIdentity ip6 j net p token)))\<rparr>"

fun token_form :: "chosen \<Rightarrow> string \<Rightarrow> (string \<times> string) list" where
  "token_form (CasRuc c) code = cas_token_form c code"
| "token_form (School c) code = school_token_form c code"

section \<open>What is encoded is decoded\<close>

lemma percent_digits:
  assumes "v < 16"
  shows "hex_byte (ascii_upper (hex_digit v)) \<and> hex_value (ascii_upper (hex_digit v)) = v \<and>
    ascii_upper (hex_digit v) \<notin> set ''+%&=;''"
proof -
  have n: "(of_char (ascii_upper (hex_digit v)) :: nat) = (if v < 10 then 48 + v else 55 + v)"
    using assms by (simp add: hex_digit_def ascii_upper_def)
  have "ascii_upper (hex_digit v) \<noteq> c" if "c \<in> set ''+%&=;''" for c
  proof -
    have "(of_char c :: nat) \<in> {43, 37, 38, 61, 59}" using that by auto
    with n assms show ?thesis by (auto split: if_splits)
  qed
  then show ?thesis using n assms by (auto simp: hex_byte_def hex_value_def Let_def)
qed

lemma unescape_percent_byte: "unescape_bytes (percent_byte c @ s) = c # unescape_bytes s"
proof -
  have "(of_char c :: nat) div 16 < 16" by (simp add: less_mult_imp_div_less)
  then show ?thesis by (simp add: percent_byte_def percent_digits)
qed

lemma unreserved_not_special: "unreserved_byte c \<Longrightarrow> c \<notin> set ''+%&=;''"
  by (auto simp: unreserved_byte_def alnum_byte_def alpha_byte_def is_digit_def Let_def)

lemma query_escape_simps [simp]:
  "query_escape [] = []"
  "query_escape (c # s) =
     (if unreserved_byte c then [c] else if c = CHR '' '' then ''+'' else percent_byte c) @ query_escape s"
  by (simp_all add: query_escape_def)

lemma query_escape_special: "CHR ''&'' \<notin> set (query_escape s) \<and> CHR ''='' \<notin> set (query_escape s) \<and> CHR '';'' \<notin> set (query_escape s)"
proof (induction s)
  case (Cons c s)
  have "(of_char c :: nat) div 16 < 16" "(of_char c :: nat) mod 16 < 16" by (simp_all add: less_mult_imp_div_less)
  then have "set (percent_byte c) \<inter> set ''&=;'' = {}" using percent_digits by (auto simp: percent_byte_def)
  then show ?case using Cons unreserved_not_special [of c] by auto
qed simp

lemma unescape_bytes_plain: "c \<noteq> CHR ''%'' \<Longrightarrow> unescape_bytes (c # s) = c # unescape_bytes s"
  by (cases "c # s" rule: unescape_bytes.cases) auto

lemma query_unescape_escape: "query_unescape (query_escape s) = Some s"
proof -
  let ?plus = "map (\<lambda>c. if c = CHR ''+'' then CHR '' '' else c)"
  have "percents_ok (query_escape s) \<and> unescape_bytes (?plus (query_escape s)) = s"
  proof (induction s)
    case (Cons c s)
    have hex: "(of_char c :: nat) div 16 < 16" "(of_char c :: nat) mod 16 < 16" by (simp_all add: less_mult_imp_div_less)
    then have "?plus (percent_byte c) = percent_byte c" using percent_digits by (auto simp: percent_byte_def)
    moreover have "percents_ok (percent_byte c @ t) = percents_ok t" for t using hex percent_digits by (simp add: percent_byte_def)
    ultimately show ?case
      using Cons unreserved_not_special [of c] by (auto simp: unescape_percent_byte unescape_bytes_plain)
  qed simp
  then show ?thesis by (simp add: query_unescape_def)
qed

lemma query_pair_encode: "query_pair (encode_pair p) = Some p"
proof -
  have eq: "CHR ''='' \<notin> set (query_escape (fst p))" and semi: "CHR '';'' \<notin> set (encode_pair p)"
    using query_escape_special by (auto simp: encode_pair_def)
  from eq have "takeWhile (\<lambda>c. c \<noteq> CHR ''='') (encode_pair p) = query_escape (fst p)"
    by (auto simp: encode_pair_def takeWhile_append2 intro!: takeWhile_append2 [THEN trans])
  then show ?thesis
    using semi by (simp add: query_pair_def Let_def query_unescape_escape) (simp add: encode_pair_def query_unescape_escape)
qed

lemma split_join: "ws \<noteq> [] \<Longrightarrow> \<forall>w \<in> set ws. d \<notin> set w \<Longrightarrow> split_on d (join_with [d] ws) = ws"
proof (induction ws rule: list_nonempty_induct)
  case (single w)
  then show ?case by (simp add: split_on_no_sep)
next
  case (cons w ws)
  have "split_on d (w @ d # t) = w # split_on d t" if "d \<notin> set w" for t
    using that by (induction w) auto
  with cons show ?case by (cases ws) simp_all
qed

lemma query_values_encode: "query_values (encode_values vs) = sort_key fst vs"
proof (cases "vs = []")
  case True
  then show ?thesis by (simp add: query_values_def encode_values_def query_pair_def)
next
  case False
  have "sort_key fst vs \<noteq> []" using False length_sort [of fst vs] by fastforce
  then have "split_on (CHR ''&'') (encode_values vs) = map encode_pair (sort_key fst vs)"
    unfolding encode_values_def using query_escape_special
    by (intro split_join) (auto simp: encode_pair_def)
  moreover have "List.map_filter query_pair (map encode_pair xs) = xs" for xs
    by (induction xs) (simp_all add: query_pair_encode)
  ultimately show ?thesis by (simp add: query_values_def)
qed


lemma map_of_sort_key: "map_of (sort_key fst vs) k = map_of vs k"
  for vs :: "(string \<times> string) list"
proof -
  have "map_of xs k = map_of (filter (\<lambda>p. fst p = k) xs) k" for xs :: "(string \<times> string) list"
    by (induction xs) auto
  from this [of "sort_key fst vs"] this [of vs] show ?thesis by (simp add: sort_key_stable)
qed

lemma query_value_encode: "query_value (encode_values vs) k = (case map_of vs k of None \<Rightarrow> [] | Some v \<Rightarrow> v)"
  using query_values_encode [of vs] by (simp add: query_value_def query_values_def map_of_sort_key)

lemma map_of_set_value [simp]: "map_of (set_value k v vs) k' = (if k' = k then Some v else map_of vs k')"
proof -
  have "map_of (filter (\<lambda>p. fst p \<noteq> k) vs) k = None" by (auto simp: map_of_eq_None_iff)
  moreover have "map_of (filter (\<lambda>p. fst p \<noteq> k) vs) k' = map_of vs k'" if "k' \<noteq> k"
    using that by (induction vs) auto
  ultimately show ?thesis by (cases "k' = k") (simp_all add: set_value_def map_add_def split: option.split)
qed

lemma map_of_set_unless_blank [simp]:
  "map_of (set_unless_blank k v vs) k' = (if k' = k \<and> \<not> blank v then Some (trim_space v) else map_of vs k')"
  by (simp add: set_unless_blank_def)

section \<open>The URL of the provider\<close>

lemma nothing_missing: "missing_settings xs = [] \<longleftrightarrow> (\<forall>x \<in> set xs. snd x \<noteq> [])"
  by (simp add: missing_settings_def filter_empty_conv)

lemma resolved_config:
  assumes "ResolveOAuthConfigFromEnv getenv parse_duration = Inr cfg" and "New cfg = Inr p"
  shows "(\<exists>c. p = CasRuc c \<and> cas_client c = trim_space (getenv ''LABKIT_OAUTH_CLIENT_ID'') \<and>
       cas_redirect c = trim_space (getenv ''LABKIT_OAUTH_REDIRECT_URL'') \<and>
       cas_authorize c = trim_space (getenv ''LABKIT_OAUTH_AUTHORIZE_URL'') \<and> cas_client c \<noteq> [] \<and> cas_redirect c \<noteq> []) \<or>
     (\<exists>c. p = School c \<and> sd_client c = trim_space (getenv ''LABKIT_OAUTH_CLIENT_ID'') \<and>
       sd_redirect c = trim_space (getenv ''LABKIT_OAUTH_REDIRECT_URL'') \<and>
       sd_authorize c = trim_space (getenv ''LABKIT_OAUTH_AUTHORIZE_URL'') \<and> sd_client c \<noteq> [] \<and> sd_redirect c \<noteq> [])"
proof -
  let ?get = "\<lambda>k. trim_space (getenv k)"
  from assms(1) consider
    (cas) "oc_provider cfg = ''cas_ruc''" "missingCASRUCEnvVars (oc_cas cfg) = []"
      "cas_client (oc_cas cfg) = ?get ''LABKIT_OAUTH_CLIENT_ID''" "cas_redirect (oc_cas cfg) = ?get ''LABKIT_OAUTH_REDIRECT_URL''"
      "cas_authorize (oc_cas cfg) = ?get ''LABKIT_OAUTH_AUTHORIZE_URL''"
  | (school) "oc_provider cfg = ''school_devcenter''" "missingSchoolDevcenterEnvVars (oc_school cfg) = []"
      "sd_client (oc_school cfg) = ?get ''LABKIT_OAUTH_CLIENT_ID''" "sd_redirect (oc_school cfg) = ?get ''LABKIT_OAUTH_REDIRECT_URL''"
      "sd_authorize (oc_school cfg) = ?get ''LABKIT_OAUTH_AUTHORIZE_URL''"
    unfolding ResolveOAuthConfigFromEnv_def Let_def by (auto split: if_splits option.splits)
  then show ?thesis
  proof cases
    case cas
    have "to_lower (trim_space ''cas_ruc'') = ''cas_ruc''" by code_simp
    with assms(2) cas(1) have "p = CasRuc (oc_cas cfg)" by (simp add: New_def)
    then show ?thesis using cas by (auto simp: missingCASRUCEnvVars_def nothing_missing)
  next
    case school
    have "to_lower (trim_space ''school_devcenter'') = ''school_devcenter''" by code_simp
    with assms(2) school(1) have "p = School (oc_school cfg)" by (simp add: New_def)
    then show ?thesis using school by (auto simp: missingSchoolDevcenterEnvVars_def nothing_missing)
  qed
qed

text \<open>
  C0. The URL to which a student is sent says what the configuration and the request say: the client and the redirect
  address of the environment, the state of the request as it is, whatever bytes it has, and nothing else of the
  address is changed; the redirect address is the one that the exchange of the code names again.
\<close>

theorem authorize_url_carries_state:
  assumes "ResolveOAuthConfigFromEnv getenv parse_duration = Inr cfg" and "New cfg = Inr p"
    and "BuildAuthorizeURL ip6 p state = Inr u"
  shows "query_value (u_query u) ''state'' = state \<and> query_value (u_query u) ''response_type'' = ''code'' \<and>
    query_value (u_query u) ''client_id'' = trim_space (getenv ''LABKIT_OAUTH_CLIENT_ID'') \<and>
    query_value (u_query u) ''redirect_uri'' = trim_space (getenv ''LABKIT_OAUTH_REDIRECT_URL'') \<and>
    map_of (token_form p code) ''redirect_uri'' = Some (query_value (u_query u) ''redirect_uri'') \<and>
    (\<exists>u0. parse_url ip6 (trim_space (getenv ''LABKIT_OAUTH_AUTHORIZE_URL'')) = Some u0 \<and> u = u0\<lparr>u_query := u_query u\<rparr>)"
  using resolved_config [OF assms(1,2)]
proof (elim disjE exE conjE)
  fix c
  assume p: "p = CasRuc c" and c: "cas_client c = trim_space (getenv ''LABKIT_OAUTH_CLIENT_ID'')"
    "cas_redirect c = trim_space (getenv ''LABKIT_OAUTH_REDIRECT_URL'')"
    "cas_authorize c = trim_space (getenv ''LABKIT_OAUTH_AUTHORIZE_URL'')" "cas_client c \<noteq> []" "cas_redirect c \<noteq> []"
  then have "\<not> blank (cas_client c)" "\<not> blank (cas_redirect c)" by (simp_all add: blank_def)
  then show ?thesis
    using assms(3) c
    by (auto simp: p cas_BuildAuthorizeURL_def query_value_encode cas_token_form_def parsed_def Let_def
        split: if_splits option.splits)
next
  fix c
  assume p: "p = School c" and c: "sd_client c = trim_space (getenv ''LABKIT_OAUTH_CLIENT_ID'')"
    "sd_redirect c = trim_space (getenv ''LABKIT_OAUTH_REDIRECT_URL'')"
    "sd_authorize c = trim_space (getenv ''LABKIT_OAUTH_AUTHORIZE_URL'')" "sd_client c \<noteq> []" "sd_redirect c \<noteq> []"
  then have "\<not> blank (sd_client c)" "\<not> blank (sd_redirect c)" by (simp_all add: blank_def)
  then show ?thesis
    using assms(3) c
    by (auto simp: p school_BuildAuthorizeURL_def query_value_encode school_token_form_def parsed_def Let_def
        split: if_splits option.splits)
qed

section \<open>The student of the code\<close>

lemma fetch_Inr:
  "fetch net r = Inr body \<longleftrightarrow> (\<exists>status. net r = Some (status, Some body) \<and> 200 \<le> status \<and> status < 300)"
  by (auto simp: fetch_def split: option.splits if_splits)

lemma firstNonEmpty_value: "firstNonEmpty vs = [] \<or> (\<not> blank (firstNonEmpty vs) \<and> trim_space (firstNonEmpty vs) = firstNonEmpty vs)"
proof (cases "filter (\<lambda>v. \<not> blank v) vs")
  case (Cons v rest)
  then have "\<not> blank v" using filter_set [of "\<lambda>v. \<not> blank v" vs] by (auto simp: set_eq_iff)
  with Cons show ?thesis by (simp add: firstNonEmpty_def)
qed (simp add: firstNonEmpty_def)

lemma document_StudentID_value: "document_StudentID d = [] \<or> (\<not> blank (document_StudentID d) \<and> trim_space (document_StudentID d) = document_StudentID d)"
  using firstNonEmpty_value [of "[so_id d, so_alt d, so_no d]"]
    firstNonEmpty_value [of "map profile_StudentID (filter sp_primary (so_profiles d))"]
    firstNonEmpty_value [of "map profile_StudentID (so_profiles d)"]
  by (auto simp: document_StudentID_def Let_def)

text \<open>What the other server answers to a request, with a success.\<close>

definition answers :: "net \<Rightarrow> oauth_request \<Rightarrow> string \<Rightarrow> bool" where
  "answers net r body \<longleftrightarrow> (\<exists>status. net r = Some (status, Some body) \<and> 200 \<le> status \<and> status < 300)"

lemma fetch_answers: "fetch net r = Inr body \<longleftrightarrow> answers net r body"
  by (simp add: answers_def fetch_Inr)

lemma parsed_Inr: "parsed ip6 s = Inr u \<longleftrightarrow> parse_url ip6 s = Some u"
  by (simp add: parsed_def split: option.split)

lemma cas_ExchangeCode_Inr:
  assumes "cas_ExchangeCode ip6 j net c code = Inr token"
  obtains r body where "oq_method r = ''POST''" "parse_url ip6 (cas_token c) = Some (oq_url r)"
    "\<forall>k. query_value (oq_body r) k = (case map_of (cas_token_form c code) k of None \<Rightarrow> [] | Some v \<Rightarrow> v)"
    "answers net r body" "ParseAccessToken j body = Inr (ts_access token)"
  using assms that [of "\<lparr>oq_method = ''POST'', oq_url = _, oq_headers = form_json, oq_body = encode_values (cas_token_form c code)\<rparr>"]
  by (auto simp: cas_ExchangeCode_def parsed_Inr fetch_answers query_value_encode)

lemma cas_FetchIdentity_Inr:
  assumes "cas_FetchIdentity ip6 j net c token = Inr i"
  obtains r u body login where "oq_method r = ''GET''" "parse_url ip6 (cas_profile c) = Some u"
    "oq_url r = u\<lparr>u_query := u_query (oq_url r)\<rparr>" "query_value (u_query (oq_url r)) ''access_token'' = ts_access token"
    "answers net r body" "oj_login j body = Some login" "id_student i = trim_space login"
proof -
  from assms obtain u body login where u: "parse_url ip6 (cas_profile c) = Some u"
    and a: "answers net \<lparr>oq_method = ''GET'',
        oq_url = u\<lparr>u_query := encode_values (set_value ''access_token'' (ts_access token) (query_values (u_query u)))\<rparr>,
        oq_headers = accept_json, oq_body = []\<rparr> body"
    and login: "oj_login j body = Some login" "id_student i = trim_space login"
    by (auto simp: cas_FetchIdentity_def FetchProfile_def decode_def Let_def parsed_Inr fetch_answers split: if_splits option.splits)
  from that [OF _ u _ _ a login] show thesis by (simp add: query_value_encode)
qed

lemma school_ExchangeCode_Inr:
  assumes "school_ExchangeCode ip6 j net now c code = Inr token"
  obtains r body tp where "oq_method r = ''POST''" "parse_url ip6 (trim_space (sd_token c)) = Some (oq_url r)"
    "\<forall>k. query_value (oq_body r) k = (case map_of (school_token_form c code) k of None \<Rightarrow> [] | Some v \<Rightarrow> v)"
    "answers net r body" "oj_token j body = Some tp" "blank (tp_error tp)" "blank (tp_description tp)" "\<not> blank (tp_access tp)"
    "ts_access token = trim_space (tp_access tp)" "ts_type token = trim_space (tp_type tp)"
proof -
  let ?basic = "schoolDevcenterBasicAuth (trim_space (sd_client c)) (trim_space (sd_secret c))"
  from assms obtain u body tp where u: "parse_url ip6 (trim_space (sd_token c)) = Some u"
    and a: "answers net \<lparr>oq_method = ''POST'', oq_url = u,
        oq_headers = form_json @ (if ?basic = [] then [] else [(''Authorization'', ?basic)]),
        oq_body = encode_values (school_token_form c code)\<rparr> body"
    and tp: "oj_token j body = Some tp" "blank (tp_error tp)" "blank (tp_description tp)" "\<not> blank (tp_access tp)"
    "ts_access token = trim_space (tp_access tp)" "ts_type token = trim_space (tp_type tp)"
    by (auto simp: school_ExchangeCode_def parseSchoolDevcenterTokenSet_def decode_def Let_def parsed_Inr fetch_answers
        split: if_splits option.splits)
  from that [OF _ _ _ a tp] u show thesis by (simp add: query_value_encode)
qed

lemma school_FetchIdentity_Inr:
  assumes "school_FetchIdentity ip6 j net c token = Inr i"
  obtains r body d where "oq_method r = ''GET''" "parse_url ip6 (trim_space (sd_profile c)) = Some (oq_url r)"
    "set (setBearerAuth token) \<subseteq> set (oq_headers r)" "answers net r body" "oj_document j body = Some d"
    "id_student i = document_StudentID d"
proof -
  from assms obtain u body d where u: "parse_url ip6 (trim_space (sd_profile c)) = Some u"
    and a: "answers net \<lparr>oq_method = ''GET'', oq_url = u, oq_headers = setBearerAuth token @ accept_json, oq_body = []\<rparr> body"
    and d: "oj_document j body = Some d" "id_student i = document_StudentID d"
    by (auto simp: school_FetchIdentity_def bearer_get_def decode_def parsed_Inr fetch_answers Let_def split: if_splits option.splits)
  from that [OF _ _ _ a d] u show thesis by simp
qed

text \<open>
  C0. The student a code stands for is the one the provider names for exactly the token it gave for the code. The
  code is posted to the token address of the configuration, with the client and its secret where the provider
  takes them in the form; the token is the one in the answer; the profile is requested from the profile address
  with this token; both answers are successes, and the student id is the one in the profile, not empty and without
  white space around it.
\<close>

theorem student_of_the_code:
  assumes "identify (provider_of ip6 show_url j net now p) code = Inr student"
  shows "student \<noteq> [] \<and> trim_space student = student \<and>
    (case p of
       CasRuc c \<Rightarrow> \<exists>tr tbody token pr u body login.
         oq_method tr = ''POST'' \<and> parse_url ip6 (cas_token c) = Some (oq_url tr) \<and>
         query_value (oq_body tr) ''grant_type'' = ''authorization_code'' \<and> query_value (oq_body tr) ''code'' = code \<and>
         query_value (oq_body tr) ''client_id'' = cas_client c \<and> query_value (oq_body tr) ''client_secret'' = cas_secret c \<and>
         query_value (oq_body tr) ''redirect_uri'' = cas_redirect c \<and>
         answers net tr tbody \<and> ParseAccessToken j tbody = Inr token \<and>
         oq_method pr = ''GET'' \<and> parse_url ip6 (cas_profile c) = Some u \<and> oq_url pr = u\<lparr>u_query := u_query (oq_url pr)\<rparr> \<and>
         query_value (u_query (oq_url pr)) ''access_token'' = token \<and>
         answers net pr body \<and> oj_login j body = Some login \<and> student = trim_space login
     | School c \<Rightarrow> \<exists>tr tbody tp pr body d.
         oq_method tr = ''POST'' \<and> parse_url ip6 (trim_space (sd_token c)) = Some (oq_url tr) \<and>
         query_value (oq_body tr) ''grant_type'' = ''authorization_code'' \<and> query_value (oq_body tr) ''code'' = trim_space code \<and>
         answers net tr tbody \<and> oj_token j tbody = Some tp \<and> blank (tp_error tp) \<and> blank (tp_description tp) \<and>
         \<not> blank (tp_access tp) \<and>
         oq_method pr = ''GET'' \<and> parse_url ip6 (trim_space (sd_profile c)) = Some (oq_url pr) \<and>
         (''Authorization'', (if blank (tp_type tp) then ''Bearer'' else trim_space (tp_type tp)) @ '' '' @ trim_space (tp_access tp))
           \<in> set (oq_headers pr) \<and>
         answers net pr body \<and> oj_document j body = Some d \<and> student = document_StudentID d)"
proof -
  from assms obtain token i where token: "ExchangeCode ip6 j net now p code = Inr token"
    and i: "FetchIdentity ip6 j net p token = Inr i" "\<not> blank (id_student i)" "student = trim_space (id_student i)"
    by (auto simp: identify_def provider_of_def split: option.splits if_splits)
  have clean: "student \<noteq> []" "trim_space student = student" using i(2,3) by (simp_all add: blank_def)
  show ?thesis
  proof (cases p)
    case (CasRuc c)
    from token CasRuc obtain tr tbody where "oq_method tr = ''POST''" "parse_url ip6 (cas_token c) = Some (oq_url tr)"
      "\<forall>k. query_value (oq_body tr) k = (case map_of (cas_token_form c code) k of None \<Rightarrow> [] | Some v \<Rightarrow> v)"
      "answers net tr tbody" "ParseAccessToken j tbody = Inr (ts_access token)"
      by (auto elim: cas_ExchangeCode_Inr)
    moreover from i(1) CasRuc obtain pr u body login where "oq_method pr = ''GET''" "parse_url ip6 (cas_profile c) = Some u"
      "oq_url pr = u\<lparr>u_query := u_query (oq_url pr)\<rparr>" "query_value (u_query (oq_url pr)) ''access_token'' = ts_access token"
      "answers net pr body" "oj_login j body = Some login" "id_student i = trim_space login"
      by (auto elim: cas_FetchIdentity_Inr)
    ultimately show ?thesis
      unfolding CasRuc chosen.case using clean i(3)
      by (intro conjI exI [of _ tr] exI [of _ tbody] exI [of _ "ts_access token"] exI [of _ pr] exI [of _ u] exI [of _ body] exI [of _ login])
        (simp_all add: cas_token_form_def)
  next
    case (School c)
    from token School obtain tr tbody tp where "oq_method tr = ''POST''" "parse_url ip6 (trim_space (sd_token c)) = Some (oq_url tr)"
      "\<forall>k. query_value (oq_body tr) k = (case map_of (school_token_form c code) k of None \<Rightarrow> [] | Some v \<Rightarrow> v)"
      "answers net tr tbody" "oj_token j tbody = Some tp" "blank (tp_error tp)" "blank (tp_description tp)" "\<not> blank (tp_access tp)"
      and tok: "ts_access token = trim_space (tp_access tp)" "ts_type token = trim_space (tp_type tp)"
      by (auto elim: school_ExchangeCode_Inr)
    moreover from i(1) School obtain pr body d where "oq_method pr = ''GET''" "parse_url ip6 (trim_space (sd_profile c)) = Some (oq_url pr)"
      "set (setBearerAuth token) \<subseteq> set (oq_headers pr)" "answers net pr body" "oj_document j body = Some d"
      and sid: "id_student i = document_StudentID d"
      by (auto elim: school_FetchIdentity_Inr)
    moreover have "student = document_StudentID d" using i(2,3) sid document_StudentID_value [of d] by (auto simp: blank_def)
    moreover have "setBearerAuth token =
        [(''Authorization'', (if blank (tp_type tp) then ''Bearer'' else trim_space (tp_type tp)) @ '' '' @ trim_space (tp_access tp))]"
      by (simp add: setBearerAuth_def tok blank_def Let_def)
    ultimately show ?thesis
      unfolding School chosen.case using clean
      by (intro conjI exI [of _ tr] exI [of _ tbody] exI [of _ tp] exI [of _ pr] exI [of _ body] exI [of _ d])
        (simp_all add: school_token_form_def)
  qed
qed

section \<open>A configured provider\<close>

definition demo_getenv :: "string \<Rightarrow> string" where
  "demo_getenv k =
     (if k = ''LABKIT_AUTH_PROVIDER'' then ''School_Devcenter''
      else if k = ''LABKIT_OAUTH_DEVICE_AUTH_TTL'' then []
      else if k = ''LABKIT_OAUTH_AUTHORIZE_URL'' then ''http://p/a?b=1''
      else if k = ''LABKIT_OAUTH_REDIRECT_URL'' then '' http://h/r?x=y ''
      else if k = ''LABKIT_OAUTH_PROFILE_URL'' then ''http://p/me''
      else if k = ''LABKIT_OAUTH_TOKEN_URL'' then ''http://p/t'' else ''id'')"

definition demo_school :: school_config where
  "demo_school =
     \<lparr>sd_client = ''id'', sd_secret = ''id'', sd_redirect = ''http://h/r?x=y'', sd_authorize = ''http://p/a?b=1'',
      sd_token = ''http://p/t'', sd_user = ''id'', sd_profile = ''http://p/me'', sd_scope = ''id''\<rparr>"

definition demo_oauth :: oauth_config where
  "demo_oauth = \<lparr>oc_provider = ''school_devcenter'', oc_cas = no_cas, oc_school = demo_school, oc_ttl = 0\<rparr>"

lemma demo_oauth_resolved: "ResolveOAuthConfigFromEnv demo_getenv (\<lambda>_. None) = Inr demo_oauth"
proof -
  have "trim_space (demo_getenv ''LABKIT_AUTH_PROVIDER'') = ''School_Devcenter''" "to_lower ''School_Devcenter'' = ''school_devcenter''"
    "trim_space (demo_getenv ''LABKIT_OAUTH_CLIENT_ID'') = ''id''" "trim_space (demo_getenv ''LABKIT_OAUTH_CLIENT_SECRET'') = ''id''"
    "trim_space (demo_getenv ''LABKIT_OAUTH_REDIRECT_URL'') = ''http://h/r?x=y''"
    "trim_space (demo_getenv ''LABKIT_OAUTH_AUTHORIZE_URL'') = ''http://p/a?b=1''"
    "trim_space (demo_getenv ''LABKIT_OAUTH_TOKEN_URL'') = ''http://p/t''" "trim_space (demo_getenv ''LABKIT_OAUTH_USER_URL'') = ''id''"
    "trim_space (demo_getenv ''LABKIT_OAUTH_PROFILE_URL'') = ''http://p/me''" "trim_space (demo_getenv ''LABKIT_OAUTH_SCOPE'') = ''id''"
    "trim_space (demo_getenv ''LABKIT_OAUTH_DEVICE_AUTH_TTL'') = []"
    by code_simp+
  then show ?thesis
    unfolding ResolveOAuthConfigFromEnv_def Let_def
    by (simp add: missingSchoolDevcenterEnvVars_def missing_settings_def demo_oauth_def demo_school_def)
qed

lemma demo_oauth_new: "New demo_oauth = Inr (School demo_school)"
  by (rule by_value) code_simp

lemma authorize_url_carries_state_witness:
  "\<exists>u. BuildAuthorizeURL (\<lambda>_. False) (School demo_school) ''s&t=1'' = Inr u \<and> query_value (u_query u) ''state'' = ''s&t=1'' \<and>
     query_value (u_query u) ''redirect_uri'' = ''http://h/r?x=y'' \<and> u_host u = ''p''"
proof -
  have parse: "parse_url (\<lambda>_. False) ''http://p/a?b=1'' = Some \<lparr>u_scheme = ''http'', u_opaque = [], u_user = None, u_host = ''p'',
      u_escaped = ''/a'', u_force_query = False, u_query = ''b=1'', u_fragment = []\<rparr>" by code_simp
  have env: "trim_space ''http://p/a?b=1'' = ''http://p/a?b=1''" "\<not> blank ''http://p/a?b=1''"
    "trim_space (demo_getenv ''LABKIT_OAUTH_AUTHORIZE_URL'') = ''http://p/a?b=1''"
    "trim_space (demo_getenv ''LABKIT_OAUTH_REDIRECT_URL'') = ''http://h/r?x=y''" by code_simp+
  have fields: "sd_authorize demo_school = ''http://p/a?b=1''" by (simp add: demo_school_def)
  have "\<exists>u. BuildAuthorizeURL (\<lambda>_. False) (School demo_school) ''s&t=1'' = Inr u"
    unfolding BuildAuthorizeURL.simps school_BuildAuthorizeURL_def fields env(1) parsed_def parse option.case bindR_simps
    using env(2) by simp
  then obtain u where u: "BuildAuthorizeURL (\<lambda>_. False) (School demo_school) ''s&t=1'' = Inr u" by blast
  from authorize_url_carries_state [OF demo_oauth_resolved demo_oauth_new this] have
    "query_value (u_query u) ''state'' = ''s&t=1''" "query_value (u_query u) ''redirect_uri'' = ''http://h/r?x=y''" "u_host u = ''p''"
    unfolding env parse by (auto, metis url.select_convs(4) url.update_convs(7))
  with u show ?thesis by blast
qed

text \<open>The profile names the student in its primary entry; the token comes with its own type.\<close>

definition demo_oauth_json :: oauth_json where
  "demo_oauth_json =
     \<lparr>oj_token = (\<lambda>b. Some \<lparr>tp_access = b, tp_token = [], tp_type = ''MAC'', tp_scope = [], tp_expires = 60, tp_error = [],
        tp_description = []\<rparr>),
      oj_login = (\<lambda>_. None),
      oj_document = (\<lambda>b. Some \<lparr>so_uid = ''u1'', so_id = [], so_alt = [], so_no = [], so_name = ''Ann'', so_email = [],
        so_profiles = [\<lparr>sp_id = ''old'', sp_alt = [], sp_no = [], sp_stno = [], sp_name = [], sp_email = [], sp_primary = False\<rparr>,
          \<lparr>sp_id = [], sp_alt = [], sp_no = '' 2024 '', sp_stno = [], sp_name = [], sp_email = [], sp_primary = True\<rparr>]\<rparr>),
      oj_user = (\<lambda>_. None)\<rparr>"

definition demo_net :: net where
  "demo_net r = Some (if oq_method r = ''POST'' then (200, Some ''tk'')
     else if (''Authorization'', ''MAC tk'') \<in> set (oq_headers r) then (200, Some ''{}'') else (401, Some []))"

lemma student_of_the_code_witness:
  "identify (provider_of (\<lambda>_. False) u_host demo_oauth_json demo_net 0 (School demo_school)) ''c'' = Inr ''2024'' \<and>
   trim_space ''2024'' = ''2024''"
proof -
  have run: "identify (provider_of (\<lambda>_. False) u_host demo_oauth_json demo_net 0 (School demo_school)) ''c'' = Inr ''2024''"
  proof -
    have parse: "parse_url (\<lambda>_. False) ''http://p/t'' \<noteq> None" "parse_url (\<lambda>_. False) ''http://p/me'' \<noteq> None" by code_simp+
    then obtain t u where u: "parsed (\<lambda>_. False) ''http://p/t'' = Inr t" "parsed (\<lambda>_. False) ''http://p/me'' = Inr u"
      by (auto simp: parsed_def)
    have blanks: "trim_space ''http://p/t'' = ''http://p/t''" "trim_space ''http://p/me'' = ''http://p/me''" "\<not> blank ''http://p/t''"
      "\<not> blank ''http://p/me''" "\<not> blank ''tk''" "trim_space ''tk'' = ''tk''" "\<not> blank ''MAC''" "trim_space ''MAC'' = ''MAC''"
      "blank []" "\<not> blank ''2024''" "trim_space ''2024'' = ''2024''" by code_simp+
    have texts: "document_StudentID d = ''2024''" "document_Subject d = ''u1''" "document_DisplayName d = ''Ann''"
      if "oj_document demo_oauth_json b = Some d" for b d
    proof -
      have "d = the (oj_document demo_oauth_json [])" using that by (simp add: demo_oauth_json_def)
      moreover have "document_StudentID (the (oj_document demo_oauth_json [])) = ''2024''"
        "document_Subject (the (oj_document demo_oauth_json [])) = ''u1''"
        "document_DisplayName (the (oj_document demo_oauth_json [])) = ''Ann''" by code_simp+
      ultimately show "document_StudentID d = ''2024''" "document_Subject d = ''u1''" "document_DisplayName d = ''Ann''" by simp_all
    qed
    let ?token = "\<lparr>ts_access = ''tk'', ts_type = ''MAC'', ts_scope = [], ts_expiry = expiry_of 0 60\<rparr>"
    have fields: "sd_token demo_school = ''http://p/t''" "sd_profile demo_school = ''http://p/me''" by (simp_all add: demo_school_def)
    have "school_ExchangeCode (\<lambda>_. False) demo_oauth_json demo_net 0 demo_school ''c'' = Inr ?token"
      by (simp add: school_ExchangeCode_def fields blanks u fetch_def demo_net_def parseSchoolDevcenterTokenSet_def decode_def
          demo_oauth_json_def Let_def)
    moreover obtain d where d: "oj_document demo_oauth_json ''{}'' = Some d" by (simp add: demo_oauth_json_def)
    moreover have "bearer_get (\<lambda>_. False) demo_net ''http://p/me'' ?token = Inr ''{}''"
      by (simp add: bearer_get_def u fetch_def demo_net_def setBearerAuth_def blanks)
    ultimately show ?thesis
      by (simp add: identify_def provider_of_def to_option_def school_FetchIdentity_def fields blanks decode_def texts [OF d] Let_def)
  qed
  from student_of_the_code [OF run] run show ?thesis by blast
qed

end
