(* ===== verification/Migrate.thy ===== *)
theory Migrate
  imports LK_Prelude
begin

text \<open>
  \<^verbatim>\<open>apps/migrate\<close>: when the schema migrations may run. \<^verbatim>\<open>golang-migrate\<close> is an argument: opening its driver, opening the
  migration files, running them, forcing a version and reading it; so are the queries that fail.
\<close>

section \<open>The database\<close>

text \<open>
  What the runner looks at: the names of the base tables in the schema \<^verbatim>\<open>public\<close>, and the rest of the database, which
  only the library and the statements of the runner change.
\<close>

record 'r catalog =
  ct_tables :: "string set"
  ct_rest :: 'r

definition versionTableName :: string where "versionTableName = ''schema_migrations''"

datatype migrate_error =
    NoConnection | QueryFailed | Unmanaged | AlreadyManaged | CleanDatabase | NoExtension | NoDriver | NoSource
  | NotApplied | NotForced | VersionUnread

datatype up_outcome = Applied | NoChange | UpFailed
datatype version_outcome = VersionIs nat bool | NilVersion | VersionFailed

text \<open>\<open>mg_driver\<close> is \<^verbatim>\<open>postgres.WithInstance\<close>, which creates the version table, \<open>mg_source\<close> the rest of \<^verbatim>\<open>newMigrator\<close>.\<close>

record 'r migrator =
  mg_connect :: bool
  mg_table_query :: bool
  mg_user_query :: bool
  mg_uuid :: "'r catalog \<Rightarrow> bool \<times> 'r catalog"
  mg_open :: bool
  mg_driver :: "'r catalog \<Rightarrow> bool \<times> 'r catalog"
  mg_source :: bool
  mg_up :: "'r catalog \<Rightarrow> up_outcome \<times> 'r catalog"
  mg_force :: "nat \<Rightarrow> 'r catalog \<Rightarrow> bool \<times> 'r catalog"
  mg_version :: "'r catalog \<Rightarrow> version_outcome"

section \<open>The runner\<close>

definition hasVersionTable :: "'r migrator \<Rightarrow> 'r catalog \<Rightarrow> migrate_error + bool" where
  "hasVersionTable g d = (if mg_table_query g then Inr (versionTableName \<in> ct_tables d) else Inl QueryFailed)"

definition hasUserTables :: "'r migrator \<Rightarrow> 'r catalog \<Rightarrow> migrate_error + bool" where
  "hasUserTables g d =
     (if mg_user_query g then Inr (ct_tables d - {versionTableName} \<noteq> {}) else Inl QueryFailed)"

definition ensureUUIDSupport :: "'r migrator \<Rightarrow> 'r catalog \<Rightarrow> (migrate_error + unit) \<times> 'r catalog" where
  "ensureUUIDSupport g d = (case mg_uuid g d of (ok, d') \<Rightarrow> (if ok then Inr () else Inl NoExtension, d'))"

definition newMigrator :: "'r migrator \<Rightarrow> 'r catalog \<Rightarrow> (migrate_error + unit) \<times> 'r catalog" where
  "newMigrator g d =
     (if \<not> mg_open g then (Inl NoConnection, d)
      else (case mg_driver g d of
              (False, d') \<Rightarrow> (Inl NoDriver, d')
            | (True, d') \<Rightarrow> (if mg_source g then Inr () else Inl NoSource, d')))"

definition Up :: "'r migrator \<Rightarrow> 'r catalog \<Rightarrow> (migrate_error + unit) \<times> 'r catalog" where
  "Up g d =
     (if \<not> mg_connect g then (Inl NoConnection, d)
      else (case bindR (hasVersionTable g d) (\<lambda>managed.
                  if managed then Inr ()
                  else bindR (hasUserTables g d) (\<lambda>legacy. if legacy then Inl Unmanaged else Inr ())) of
        Inl err \<Rightarrow> (Inl err, d)
      | Inr _ \<Rightarrow> (case ensureUUIDSupport g d of
          (Inl err, d1) \<Rightarrow> (Inl err, d1)
        | (Inr _, d1) \<Rightarrow> (case newMigrator g d1 of
            (Inl err, d2) \<Rightarrow> (Inl err, d2)
          | (Inr _, d2) \<Rightarrow> (case mg_up g d2 of
              (UpFailed, d3) \<Rightarrow> (Inl NotApplied, d3)
            | (_, d3) \<Rightarrow> (Inr (), d3))))))"

definition Baseline :: "'r migrator \<Rightarrow> nat \<Rightarrow> 'r catalog \<Rightarrow> (migrate_error + unit) \<times> 'r catalog" where
  "Baseline g version d =
     (if \<not> mg_connect g then (Inl NoConnection, d)
      else (case bindR (hasVersionTable g d) (\<lambda>managed.
                  if managed then Inl AlreadyManaged
                  else bindR (hasUserTables g d) (\<lambda>legacy. if legacy then Inr () else Inl CleanDatabase)) of
        Inl err \<Rightarrow> (Inl err, d)
      | Inr _ \<Rightarrow> (case newMigrator g d of
          (Inl err, d1) \<Rightarrow> (Inl err, d1)
        | (Inr _, d1) \<Rightarrow> (case mg_force g version d1 of
            (False, d2) \<Rightarrow> (Inl NotForced, d2)
          | (True, d2) \<Rightarrow> (Inr (), d2)))))"

definition Version :: "'r migrator \<Rightarrow> 'r catalog \<Rightarrow> (migrate_error + (nat \<times> bool)) \<times> 'r catalog" where
  "Version g d =
     (if \<not> mg_connect g then (Inl NoConnection, d)
      else (case hasVersionTable g d of
        Inl err \<Rightarrow> (Inl err, d)
      | Inr False \<Rightarrow> (Inr (0, False), d)
      | Inr True \<Rightarrow> (case newMigrator g d of
          (Inl err, d1) \<Rightarrow> (Inl err, d1)
        | (Inr _, d1) \<Rightarrow>
            (case mg_version g d1 of
               VersionIs v dirty \<Rightarrow> Inr (v, dirty) | NilVersion \<Rightarrow> Inr (0, False) | VersionFailed \<Rightarrow> Inl VersionUnread, d1))))"

section \<open>The command\<close>

datatype migrate_run = UsageError | RunFailed migrate_error | UpToDate | BaselineAt nat | VersionLine "nat option" bool

text \<open>\<open>flags\<close> is the parsed flag set of \<^verbatim>\<open>baseline\<close>: the version and the number of arguments left.\<close>

definition Execute ::
  "(string list \<Rightarrow> (nat \<times> nat) option) \<Rightarrow> 'r migrator \<Rightarrow> string list \<Rightarrow> 'r catalog \<Rightarrow> migrate_run \<times> 'r catalog" where
  "Execute flags g args d =
     (case args of
        [] \<Rightarrow> (UsageError, d)
      | cmd # rest \<Rightarrow>
          (if cmd = ''up'' then
             (if rest \<noteq> [] then (UsageError, d)
              else (case Up g d of (Inl err, d') \<Rightarrow> (RunFailed err, d') | (Inr _, d') \<Rightarrow> (UpToDate, d')))
           else if cmd = ''baseline'' then
             (case flags rest of
                None \<Rightarrow> (UsageError, d)
              | Some (version, left) \<Rightarrow>
                  (if version = 0 \<or> left \<noteq> 0 then (UsageError, d)
                   else (case Baseline g version d of
                           (Inl err, d') \<Rightarrow> (RunFailed err, d') | (Inr _, d') \<Rightarrow> (BaselineAt version, d'))))
           else if cmd = ''version'' then
             (if rest \<noteq> [] then (UsageError, d)
              else (case Version g d of
                      (Inl err, d') \<Rightarrow> (RunFailed err, d')
                    | (Inr (v, dirty), d') \<Rightarrow> (if v = 0 then VersionLine None False else VersionLine (Some v) dirty, d')))
           else (UsageError, d)))"

text \<open>\<open>is_dir\<close> asks the file system; \<open>wd\<close> holds the two directories below the working directory, in order.\<close>

definition resolveMigrationsDir :: "(string \<Rightarrow> bool) \<Rightarrow> string \<Rightarrow> string \<Rightarrow> string list \<Rightarrow> string option" where
  "resolveMigrationsDir is_dir env1 env2 wd = find (\<lambda>c. c \<noteq> [] \<and> is_dir c) ([env1, env2, ''/migrations''] @ wd)"

section \<open>Managed and unmanaged databases\<close>

text \<open>
  Documented behaviour of the library and of PostgreSQL: opening the driver creates the version table if it is missing
  and leaves the other tables alone; extensions and functions are not tables; running migrations keeps the version
  table, and forcing a version writes to it alone.
\<close>

definition migrator_ok :: "'r migrator \<Rightarrow> bool" where
  "migrator_ok g \<longleftrightarrow>
     (\<forall>d. fst (mg_driver g d) \<longrightarrow> ct_tables (snd (mg_driver g d)) = insert versionTableName (ct_tables d)) \<and>
     (\<forall>d. versionTableName \<in> ct_tables d \<longrightarrow> versionTableName \<in> ct_tables (snd (mg_up g d))) \<and>
     (\<forall>v d. ct_tables (snd (mg_force g v d)) = ct_tables d) \<and> (\<forall>d. ct_tables (snd (mg_uuid g d)) = ct_tables d)"

lemma migrator_okD:
  "migrator_ok g \<Longrightarrow> mg_driver g d = (True, d') \<Longrightarrow> ct_tables d' = insert versionTableName (ct_tables d)"
  "migrator_ok g \<Longrightarrow> mg_up g d = (r, d') \<Longrightarrow> versionTableName \<in> ct_tables d \<Longrightarrow> versionTableName \<in> ct_tables d'"
  "migrator_ok g \<Longrightarrow> mg_force g v d = (b, d') \<Longrightarrow> ct_tables d' = ct_tables d"
  unfolding migrator_ok_def by (metis fst_conv snd_conv)+

lemma newMigrator_tables:
  "migrator_ok g \<Longrightarrow> newMigrator g d = (Inr u, d') \<Longrightarrow> ct_tables d' = insert versionTableName (ct_tables d)"
  by (auto simp: newMigrator_def split: if_splits prod.splits bool.splits dest: migrator_okD(1))

text \<open>Migrations never start on a database with tables of unknown origin, and a baseline on nothing else.\<close>

lemma Up_unmanaged:
  "versionTableName \<notin> ct_tables d \<Longrightarrow> ct_tables d \<noteq> {} \<Longrightarrow> \<exists>err. Up g d = (Inl err, d)"
  by (auto simp: Up_def hasVersionTable_def hasUserTables_def)

lemma Up_not_unmanaged: "versionTableName \<in> ct_tables d \<Longrightarrow> fst (Up g d) \<noteq> Inl Unmanaged"
  by (auto simp: Up_def hasVersionTable_def ensureUUIDSupport_def newMigrator_def split: prod.splits if_splits up_outcome.splits bool.splits)

lemma Baseline_managed: "versionTableName \<in> ct_tables d \<Longrightarrow> \<exists>err. Baseline g v d = (Inl err, d)"
  by (auto simp: Baseline_def hasVersionTable_def)

lemma Up_Inr:
  assumes "migrator_ok g" and "Up g d = (Inr (), d')"
  shows "(versionTableName \<in> ct_tables d \<or> ct_tables d = {}) \<and> versionTableName \<in> ct_tables d'"
proof -
  from assms(2) obtain d1 d2 r where start: "versionTableName \<in> ct_tables d \<or> ct_tables d = {}"
    and run: "newMigrator g d1 = (Inr (), d2)" "mg_up g d2 = (r, d')"
    by (auto simp: Up_def hasVersionTable_def hasUserTables_def ensureUUIDSupport_def
        split: if_splits sum.splits prod.splits up_outcome.splits)
  from newMigrator_tables [OF assms(1) run(1)] migrator_okD(2) [OF assms(1) run(2)] start show ?thesis by simp
qed

lemma Baseline_Inr:
  assumes "migrator_ok g" and "Baseline g v d = (Inr (), d')"
  shows "versionTableName \<notin> ct_tables d \<and> ct_tables d \<noteq> {} \<and> ct_tables d' = insert versionTableName (ct_tables d)"
proof -
  from assms(2) obtain d1 where start: "versionTableName \<notin> ct_tables d \<and> ct_tables d \<noteq> {}"
    and run: "newMigrator g d = (Inr (), d1)" "mg_force g v d1 = (True, d')"
    by (auto simp: Baseline_def hasVersionTable_def hasUserTables_def split: if_splits sum.splits prod.splits bool.splits)
  from newMigrator_tables [OF assms(1) run(1)] migrator_okD(3) [OF assms(1) run(2)] start show ?thesis by simp
qed

text \<open>
  A database is brought under management in exactly one way: \<^verbatim>\<open>baseline\<close> succeeds on a database with tables only,
  where \<^verbatim>\<open>up\<close> refuses and changes nothing; it adds the version table alone, and from then on every further baseline
  is refused and \<^verbatim>\<open>up\<close> no longer objects to the tables.
\<close>

theorem baseline_adopts_once:
  assumes "migrator_ok g" and "Baseline g v d = (Inr (), d')"
  shows "(\<exists>err. Up g d = (Inl err, d)) \<and> ct_tables d' = insert versionTableName (ct_tables d) \<and>
    (\<forall>v2. \<exists>err. Baseline g v2 d' = (Inl err, d')) \<and> fst (Up g d') \<noteq> Inl Unmanaged"
  using Baseline_Inr [OF assms] Up_unmanaged [of d g] Baseline_managed [of d' g] Up_not_unmanaged [of d' g] by simp

text \<open>
  A baseline that fails after the driver was opened leaves an empty version table behind: the next baseline is refused,
  and \<^verbatim>\<open>up\<close> runs every migration, from the first, on the tables that it was meant to protect.
\<close>

lemma failed_baseline_disarms:
  assumes "migrator_ok g" and "mg_connect g" "mg_table_query g" "mg_user_query g" "mg_open g" and "\<not> mg_source g"
    and "versionTableName \<notin> ct_tables d" "ct_tables d \<noteq> {}" and "mg_driver g d = (True, d1)"
  shows "Baseline g v d = (Inl NoSource, d1) \<and> (\<exists>err. Baseline g v2 d1 = (Inl err, d1)) \<and>
    fst (Up (g\<lparr>mg_source := True\<rparr>) d1) \<noteq> Inl Unmanaged"
proof -
  have "ct_tables d1 = insert versionTableName (ct_tables d)" by (rule migrator_okD(1) [OF assms(1,9)])
  then show ?thesis
    using assms Baseline_managed [of d1 g v2] Up_not_unmanaged [of d1]
    by (auto simp: Baseline_def hasVersionTable_def hasUserTables_def newMigrator_def)
qed

section \<open>A migration of two tables\<close>

definition demo_migrator :: "nat option migrator" where
  "demo_migrator =
     \<lparr>mg_connect = True, mg_table_query = True, mg_user_query = True, mg_uuid = (\<lambda>d. (True, d)), mg_open = True,
      mg_driver = (\<lambda>d. (True, d\<lparr>ct_tables := insert versionTableName (ct_tables d)\<rparr>)), mg_source = True,
      mg_up = (\<lambda>d. if ct_rest d = Some 2 then (NoChange, d)
        else (Applied, d\<lparr>ct_tables := ct_tables d \<union> {''users'', ''labs''}, ct_rest := Some 2\<rparr>)),
      mg_force = (\<lambda>v d. (True, d\<lparr>ct_rest := Some v\<rparr>)),
      mg_version = (\<lambda>d. case ct_rest d of None \<Rightarrow> NilVersion | Some v \<Rightarrow> VersionIs v False)\<rparr>"

lemma demo_migrator_ok: "migrator_ok demo_migrator"
  by (simp add: migrator_ok_def demo_migrator_def)

lemma baseline_adopts_once_witness:
  "\<exists>d. Baseline demo_migrator 1 \<lparr>ct_tables = {''users''}, ct_rest = None\<rparr> = (Inr (), d) \<and> ct_rest d = Some 1 \<and>
     (\<exists>err. Baseline demo_migrator 1 d = (Inl err, d)) \<and> fst (Version demo_migrator d) = Inr (1, False)"
proof -
  have run: "Baseline demo_migrator 1 \<lparr>ct_tables = {''users''}, ct_rest = None\<rparr> =
      (Inr (), \<lparr>ct_tables = {versionTableName, ''users''}, ct_rest = Some 1\<rparr>)"
    by (simp add: Baseline_def hasVersionTable_def hasUserTables_def newMigrator_def demo_migrator_def versionTableName_def)
  then show ?thesis
    using baseline_adopts_once [OF demo_migrator_ok run]
    by (auto simp: Version_def hasVersionTable_def newMigrator_def demo_migrator_def)
qed

end
