(* ===== verification/Cli_Update.thy ===== *)
theory Cli_Update
  imports Cli_Client
begin

text \<open>
  Versions and updates of the client: \<^verbatim>\<open>apps/cli/internal/buildinfo/buildinfo.go\<close>, \<^verbatim>\<open>config/update_state.go\<close> and
  \<^verbatim>\<open>commands/update.go\<close>. The build's variables, the comparison of versions, the list of releases, the download, the
  checksums and the unpacking (\<^verbatim>\<open>go-selfupdate\<close>) are arguments, as is the JSON of the state file.
\<close>

section \<open>The version of the build\<close>

record build =
  bu_version :: string
  bu_commit :: string
  bu_date :: string
  bu_os :: string
  bu_arch :: string

definition NormalizedVersion :: "build \<Rightarrow> string" where
  "NormalizedVersion b = trim_prefix (trim_prefix (trim_space (bu_version b)) ''cli/'') ''v''"

definition name_or_labkit :: "string \<Rightarrow> string" where
  "name_or_labkit name = (if blank name then ''labkit'' else trim_space name)"

definition UserAgent :: "build \<Rightarrow> string \<Rightarrow> string" where
  "UserAgent b name =
     (let v = NormalizedVersion b
      in name_or_labkit name @ ''/'' @ (if v = [] then ''dev'' else v) @ '' ('' @ bu_os b @ ''; '' @ bu_arch b @ '')'')"

definition natural :: "string \<Rightarrow> int option" where
  "natural s = (case go_atoi s of None \<Rightarrow> None | Some v \<Rightarrow> if v < 0 then None else Some v)"

definition parseSemver :: "string \<Rightarrow> (int \<times> int \<times> int) option" where
  "parseSemver v =
     (case split_on (CHR ''.'') (trim_space v) of
        [a, b, c] \<Rightarrow>
          (case (natural a, natural b, natural c) of
             (Some major, Some minor, Some patch) \<Rightarrow> Some (major, minor, patch) | _ \<Rightarrow> None)
      | _ \<Rightarrow> None)"

text \<open>The code is an \<^verbatim>\<open>int\<close> of 64 bits.\<close>

definition VersionCode :: "build \<Rightarrow> int" where
  "VersionCode b =
     (case parseSemver (NormalizedVersion b) of
        None \<Rightarrow> 0
      | Some (major, minor, patch) \<Rightarrow> sint (word_of_int (major * 1000000 + minor * 1000 + patch) :: 64 word))"

definition known :: "string \<Rightarrow> bool" where
  "known s \<longleftrightarrow> \<not> blank s \<and> trim_space s \<noteq> ''unknown''"

definition client_headers :: "build \<Rightarrow> (string \<times> string) list" where
  "client_headers b =
     (let v = trim_space (NormalizedVersion b)
      in [(''User-Agent'', UserAgent b ''labkit'')]
         @ (if v = [] then [] else [(''X-LabKit-Client-Version'', v)])
         @ (if VersionCode b > 0 then [(''X-LabKit-Client-Version-Code'', int_text (VersionCode b))] else [])
         @ (if known (bu_commit b) then [(''X-LabKit-Client-Commit'', trim_space (bu_commit b))] else []))"

definition version_line :: "string \<Rightarrow> string \<Rightarrow> string" where
  "version_line label v = label @ v @ [CHR 0x0A]"

definition versionTemplate :: "build \<Rightarrow> string \<Rightarrow> string" where
  "versionTemplate b name =
     (let v = trim_space (NormalizedVersion b)
      in version_line (name_or_labkit name @ '' '') (if v = [] then ''dev'' else v)
         @ (if known (bu_commit b) then version_line ''commit: '' (trim_space (bu_commit b)) else [])
         @ (if known (bu_date b) then version_line ''date:   '' (trim_space (bu_date b)) else [])
         @ (if VersionCode b > 0 then version_line ''code:   '' (int_text (VersionCode b)) else []))"

definition currentSemverForUpdate :: "build \<Rightarrow> string" where
  "currentSemverForUpdate b =
     (let v = trim_space (NormalizedVersion b) in if v \<in> {[], ''dev'', ''unknown''} then ''0.0.0'' else v)"

definition looksLikeSemver :: "string \<Rightarrow> bool" where
  "looksLikeSemver v \<longleftrightarrow>
     (let parts = split_on (CHR ''.'') v in length parts = 3 \<and> list_all (\<lambda>p. p \<noteq> [] \<and> list_all is_digit p) parts)"

definition prettyVersion :: "string \<Rightarrow> string" where
  "prettyVersion v =
     (let x = trim_space v
      in if x = [] then ''dev'' else if has_prefix x ''v'' then x else if looksLikeSemver x then CHR ''v'' # x else x)"

section \<open>The reminder\<close>

record state_json =
  sj_read :: "string \<Rightarrow> time option option"
  sj_write :: "time \<Rightarrow> string"

definition UpdateStatePath :: "string \<Rightarrow> string" where
  "UpdateStatePath dir = path_join dir ''update_state.json''"

text \<open>\<open>None\<close> is a file that cannot be read, \<open>Some None\<close> a missing or broken one, or one without a time.\<close>

definition ReadUpdateState :: "state_json \<Rightarrow> io_faults \<Rightarrow> disk \<Rightarrow> string \<Rightarrow> time option option" where
  "ReadUpdateState j f d dir =
     (let p = UpdateStatePath dir
      in if io_read f p then None
         else (case d p of
           None \<Rightarrow> Some None
         | Some data \<Rightarrow> (case sj_read j data of None \<Rightarrow> Some None | Some t \<Rightarrow> Some t)))"

definition WriteUpdateState :: "state_json \<Rightarrow> io_faults \<Rightarrow> string \<Rightarrow> time \<Rightarrow> disk \<Rightarrow> disk" where
  "WriteUpdateState j f dir t d =
     (let p = UpdateStatePath dir in if io_write f p then d else d(p \<mapsto> sj_write j t @ [CHR 0x0A]))"

definition updateReminderInterval :: duration where "updateReminderInterval = 24 * hour"

text \<open>
  \<^verbatim>\<open>maybeRemindUpdate\<close>: whether releases are looked up, and the disk. \<open>t\<close> is read for the comparison, \<open>t'\<close> for the file;
  the difference saturates far beyond the interval.
\<close>

definition maybeRemindUpdate ::
  "state_json \<Rightarrow> io_faults \<Rightarrow> string \<Rightarrow> string \<Rightarrow> string \<Rightarrow> time \<Rightarrow> time \<Rightarrow> disk \<Rightarrow> bool \<times> disk" where
  "maybeRemindUpdate j f command disabled dir t t' d =
     (if command = ''update'' \<or> \<not> blank disabled then (False, d)
      else (case ReadUpdateState j f d dir of
              Some (Some t0) \<Rightarrow>
                (if t - t0 < updateReminderInterval then (False, d) else (True, WriteUpdateState j f dir t' d))
            | _ \<Rightarrow> (True, WriteUpdateState j f dir t' d)))"

section \<open>The update\<close>

record release =
  rl_version :: string
  rl_asset :: string
  rl_asset_id :: int
  rl_checksum_id :: int

text \<open>\<open>up_newer r v\<close> tells whether the release is newer than a version.\<close>

record updater =
  up_detect :: "bool \<Rightarrow> (release option) option"
  up_newer :: "release \<Rightarrow> string \<Rightarrow> bool"
  up_download :: "release \<Rightarrow> int \<Rightarrow> string option"
  up_valid :: "string \<Rightarrow> string \<Rightarrow> string \<Rightarrow> bool"
  up_unpack :: "string \<Rightarrow> string \<Rightarrow> string \<Rightarrow> string option"
  up_executable :: "string option"

record update_flags =
  uf_check :: bool
  uf_prerelease :: bool
  uf_yes :: bool

datatype update_outcome =
    NoRelease | LookupFailed | UpToDate string | Available string string | UpdateCancelled | NoExecutable
  | DownloadFailed | ChecksumWrong | UnpackFailed | InstallFailed | UpdatedTo string

definition archiveBinaryName :: string where "archiveBinaryName = ''labkit''"

text \<open>The answer is the one word of a line; an empty or unread line, or more words, is a no.\<close>

definition confirmUpdate :: "string option \<Rightarrow> bool" where
  "confirmUpdate line = (case line of None \<Rightarrow> False | Some l \<Rightarrow> to_lower (trim_space l) \<in> {''y'', ''yes''})"

definition applyUpdate :: "updater \<Rightarrow> io_faults \<Rightarrow> release \<Rightarrow> string \<Rightarrow> disk \<Rightarrow> update_outcome \<times> disk" where
  "applyUpdate up f r exe d =
     (case up_download up r (rl_asset_id r) of
        None \<Rightarrow> (DownloadFailed, d)
      | Some asset \<Rightarrow> (case up_download up r (rl_checksum_id r) of
          None \<Rightarrow> (DownloadFailed, d)
        | Some listing \<Rightarrow>
            (if \<not> up_valid up (rl_asset r) asset listing then (ChecksumWrong, d)
             else (case up_unpack up asset (rl_asset r) archiveBinaryName of
               None \<Rightarrow> (UnpackFailed, d)
             | Some program \<Rightarrow>
                 (if io_write f exe then (InstallFailed, d)
                  else (UpdatedTo (prettyVersion (rl_version r)), d(exe \<mapsto> program)))))))"

definition runUpdate ::
  "updater \<Rightarrow> io_faults \<Rightarrow> build \<Rightarrow> update_flags \<Rightarrow> terminal \<Rightarrow> disk \<Rightarrow> update_outcome \<times> disk" where
  "runUpdate up f b fl te d =
     (let current = currentSemverForUpdate b
      in case up_detect up (uf_prerelease fl) of
           None \<Rightarrow> (LookupFailed, d)
         | Some None \<Rightarrow> (NoRelease, d)
         | Some (Some r) \<Rightarrow>
             (if \<not> up_newer up r current then (UpToDate (prettyVersion current), d)
              else if uf_check fl then (Available (prettyVersion current) (prettyVersion (rl_version r)), d)
              else if \<not> uf_yes fl \<and> te_tty te \<and> \<not> confirmUpdate (te_line te) then (UpdateCancelled, d)
              else (case up_executable up of
                      None \<Rightarrow> (NoExecutable, d) | Some exe \<Rightarrow> applyUpdate up f r exe d)))"

section \<open>What the update may do\<close>

lemma applyUpdate_disk:
  assumes "applyUpdate up f r exe d = (out, d')"
  shows "(d' = d \<or> (\<exists>asset listing program. up_download up r (rl_asset_id r) = Some asset \<and>
      up_download up r (rl_checksum_id r) = Some listing \<and> up_valid up (rl_asset r) asset listing \<and>
      up_unpack up asset (rl_asset r) archiveBinaryName = Some program \<and> d' = d(exe \<mapsto> program)))"
  using assms by (auto simp: applyUpdate_def split: option.splits if_splits)

text \<open>
  An update replaces nothing but the executable, and only by the program unpacked from an asset whose checksum was
  verified, of a release newer than the running version, after a yes where a terminal can be asked.
\<close>

theorem update_is_verified:
  assumes "runUpdate up f b fl te d = (out, d')" and "d' \<noteq> d"
  shows "\<exists>r exe asset listing program. up_detect up (uf_prerelease fl) = Some (Some r) \<and>
    up_newer up r (currentSemverForUpdate b) \<and> \<not> uf_check fl \<and>
    (uf_yes fl \<or> \<not> te_tty te \<or> confirmUpdate (te_line te)) \<and> up_executable up = Some exe \<and>
    up_download up r (rl_asset_id r) = Some asset \<and> up_download up r (rl_checksum_id r) = Some listing \<and>
    up_valid up (rl_asset r) asset listing \<and> up_unpack up asset (rl_asset r) archiveBinaryName = Some program \<and>
    d' = d(exe \<mapsto> program)"
proof -
  from assms obtain r exe where "up_detect up (uf_prerelease fl) = Some (Some r)"
    "up_newer up r (currentSemverForUpdate b)" "\<not> uf_check fl" "uf_yes fl \<or> \<not> te_tty te \<or> confirmUpdate (te_line te)"
    "up_executable up = Some exe" and run: "applyUpdate up f r exe d = (out, d')"
    by (auto simp: runUpdate_def Let_def split: option.splits if_splits)
  moreover from applyUpdate_disk [OF run] assms(2) obtain asset listing program where
    "up_download up r (rl_asset_id r) = Some asset" "up_download up r (rl_checksum_id r) = Some listing"
    "up_valid up (rl_asset r) asset listing" "up_unpack up asset (rl_asset r) archiveBinaryName = Some program"
    "d' = d(exe \<mapsto> program)" by blast
  ultimately show ?thesis by blast
qed

section \<open>Reminders\<close>

text \<open>A run of a command: its name and the two readings of the clock.\<close>

type_synonym command_run = "string \<times> time \<times> time"

fun reminders :: "state_json \<Rightarrow> io_faults \<Rightarrow> string \<Rightarrow> string \<Rightarrow> command_run list \<Rightarrow> disk \<Rightarrow> time list" where
  "reminders j f disabled dir [] d = []"
| "reminders j f disabled dir ((command, t, t') # rs) d =
     (case maybeRemindUpdate j f command disabled dir t t' d of
        (looked, d') \<Rightarrow> (if looked then [t'] else []) @ reminders j f disabled dir rs d')"

fun spaced :: "duration \<Rightarrow> time list \<Rightarrow> bool" where
  "spaced i (a # b # ts) \<longleftrightarrow> i \<le> b - a \<and> spaced i (b # ts)"
| "spaced i _ \<longleftrightarrow> True"

lemma reminded_once:
  assumes law: "\<forall>t. sj_read j (sj_write j t @ [CHR 0x0A]) = Some (Some t)"
    and disk: "\<forall>p. \<not> io_write f p \<and> \<not> io_read f p"
    and clock: "\<forall>(c, t, t') \<in> set rs. t \<le> t'"
    and last: "d (UpdateStatePath dir) = Some (sj_write j a @ [CHR 0x0A])"
  shows "spaced updateReminderInterval (a # reminders j f disabled dir rs d)"
  using clock last
proof (induction rs arbitrary: a d)
  case (Cons r rs)
  obtain c t t' where r: "r = (c, t, t')" by (cases r)
  have state: "ReadUpdateState j f d dir = Some (Some a)"
    using Cons.prems(2) disk law by (simp add: ReadUpdateState_def)
  show ?case
  proof (cases "fst (maybeRemindUpdate j f c disabled dir t t' d)")
    case True
    then have run: "maybeRemindUpdate j f c disabled dir t t' d = (True, WriteUpdateState j f dir t' d)"
      and gap: "updateReminderInterval \<le> t - a"
      using state by (auto simp: maybeRemindUpdate_def split: if_splits)
    have "WriteUpdateState j f dir t' d (UpdateStatePath dir) = Some (sj_write j t' @ [CHR 0x0A])"
      using disk by (simp add: WriteUpdateState_def Let_def)
    with Cons.IH [of "WriteUpdateState j f dir t' d" t'] Cons.prems(1) gap show ?thesis by (simp add: r run)
  next
    case False
    then have run: "maybeRemindUpdate j f c disabled dir t t' d = (False, d)"
      using state by (auto simp: maybeRemindUpdate_def split: if_splits)
    from Cons.IH [of d a] Cons.prems show ?thesis by (simp add: r run)
  qed
qed simp


section \<open>A sequence of commands, and an update\<close>

text \<open>A time is written as its sign and as many strokes as it has units.\<close>

definition demo_state :: state_json where
  "demo_state =
     \<lparr>sj_read = (\<lambda>s. case s of [] \<Rightarrow> None
        | c # r \<Rightarrow> Some (Some ((if c = CHR ''-'' then -1 else 1) * (int (length r) - 1)))),
      sj_write = (\<lambda>t. (if t < 0 then CHR ''-'' else CHR ''+'') # replicate (nat (abs t)) (CHR ''i''))\<rparr>"

lemma demo_state_law: "\<forall>t. sj_read demo_state (sj_write demo_state t @ [CHR 0x0A]) = Some (Some t)"
  by (simp add: demo_state_def)


definition demo_release :: release where
  "demo_release = \<lparr>rl_version = ''1.2.0'', rl_asset = ''labkit.tar.gz'', rl_asset_id = 1, rl_checksum_id = 2\<rparr>"

definition demo_updater :: updater where
  "demo_updater =
     \<lparr>up_detect = (\<lambda>_. Some (Some demo_release)), up_newer = (\<lambda>r v. v = ''1.1.0''),
      up_download = (\<lambda>r i. if i = 1 then Some ''new'' else Some ''sum''), up_valid = (\<lambda>n a c. c = ''sum''),
      up_unpack = (\<lambda>a n x. Some a), up_executable = Some ''/bin/colab''\<rparr>"

lemma update_is_verified_witness:
  "\<exists>d. runUpdate demo_updater no_io_faults \<lparr>bu_version = ''cli/v1.1.0'', bu_commit = [], bu_date = [], bu_os = [], bu_arch = []\<rparr>
       \<lparr>uf_check = False, uf_prerelease = False, uf_yes = False\<rparr> \<lparr>te_tty = True, te_password = (\<lambda>_. None), te_line = Some ''Yes''\<rparr>
       Map.empty = (UpdatedTo ''v1.2.0'', d) \<and> d ''/bin/colab'' = Some ''new''"
proof -
  let ?b = "\<lparr>bu_version = ''cli/v1.1.0'', bu_commit = [], bu_date = [], bu_os = [], bu_arch = []\<rparr>"
  have "currentSemverForUpdate ?b = ''1.1.0''" "prettyVersion ''1.2.0'' = ''v1.2.0''" "confirmUpdate (Some ''Yes'')" by code_simp+
  then have run: "runUpdate demo_updater no_io_faults ?b \<lparr>uf_check = False, uf_prerelease = False, uf_yes = False\<rparr>
      \<lparr>te_tty = True, te_password = (\<lambda>_. None), te_line = Some ''Yes''\<rparr> Map.empty = (UpdatedTo ''v1.2.0'', [''/bin/colab'' \<mapsto> ''new''])"
    by (simp add: runUpdate_def applyUpdate_def demo_updater_def demo_release_def no_io_faults_def)
  have "[''/bin/colab'' \<mapsto> ''new''] \<noteq> (Map.empty :: disk)" by simp
  from update_is_verified [OF run this] run show ?thesis by auto
qed

section \<open>Version codes\<close>

text \<open>Versions whose last two numbers are below a thousand are ordered as their codes.\<close>

lemma VersionCode_order:
  assumes "parseSemver (NormalizedVersion b) = Some (x, y, z)" "parseSemver (NormalizedVersion b') = Some (x', y', z')"
    and "y < 1000" "z < 1000" "y' < 1000" "z' < 1000" "x < 1000000" "x' < 1000000"
  shows "VersionCode b < VersionCode b' \<longleftrightarrow> x < x' \<or> x = x' \<and> (y < y' \<or> y = y' \<and> z < z')"
proof -
  have nonneg: "0 \<le> x \<and> 0 \<le> y \<and> 0 \<le> z" if "parseSemver v = Some (x, y, z)" for v x y z
    using that by (auto simp: parseSemver_def natural_def split: list.splits option.splits if_splits)
  have code: "VersionCode b = x * 1000000 + y * 1000 + z"
    if "parseSemver (NormalizedVersion b) = Some (x, y, z)" "y < 1000" "z < 1000" "x < 1000000" for b x y z
  proof -
    have "sint (word_of_int n :: 64 word) = n" if "0 \<le> n" "n < 2 ^ 62" for n
      using that by (simp add: sint_sbintrunc' signed_take_bit_int_eq_self)
    moreover have "0 \<le> x * 1000000 + y * 1000 + z" "x * 1000000 + y * 1000 + z < 2 ^ 62"
      using that nonneg [OF that(1)] by simp_all
    ultimately show ?thesis using that(1) by (simp only: VersionCode_def option.case prod.case)
  qed
  show ?thesis
    using code [OF assms(1,3,4,7)] code [OF assms(2,5,6,8)] nonneg [OF assms(1)] nonneg [OF assms(2)] assms(3-6) by linarith
qed

end
