(* ===== verification/Spec2Isabelle.thy ===== *)
theory Spec2Isabelle
  imports LK_Prelude Manifest Evaluator Auth_Core Labkit_Errors Database Db_Submissions Db_Keys Quota
    Submissions Evaluation Jobs Runtime Worker Leaderboard Admin Grades
    Device_Auth Web_Session Labs Personal Http_Session Http_Api Http_Security
    Go_Url Cli_Config Cli_Origin Cli_Client Cli_Auth Cli_Keyring Cli_Submit Cli_Report Cli_Web Cli_Server
    Oauth Migrate Cli_Update
begin

text \<open>
  A verification development for LabKit, a server for programming labs with automatic evaluation: the API server
  \<^verbatim>\<open>apps/api\<close>, the worker \<^verbatim>\<open>apps/worker\<close>, the command-line client \<^verbatim>\<open>apps/cli\<close>, the migration runner
  \<^verbatim>\<open>apps/migrate\<close> and the packages \<^verbatim>\<open>packages/go\<close> they share. Paths below are relative to \<^verbatim>\<open>src/\<close>; the Isabelle
  definitions have the names of the Go functions, with a prefix where two of them collide.
\<close>

section \<open>How the program works\<close>

text \<open>
  A teacher registers a lab by its manifest. A student binds a key to an account: the client asks for a device code, the
  student signs in at the identity provider, and the callback of the provider binds the key. From then on the client
  signs its requests with the key. A submission is an upload of the files that the manifest names, signed over the lab,
  the names and the digest of the archive. The intake checks it, takes a unit of the day's quota or of a bonus, stores
  the archive, and in one transaction the row of the submission and a job. A worker claims the job, unpacks the
  archive, runs the evaluator in a container, parses the last line of its output, stores verdict, scores, quota and
  board, and acknowledges the job. Boards, histories, grades and keys are read through the API by the client and by
  browsers, which hold a session instead of a key.

  The parts share one PostgreSQL database. Its state is the record \<open>db\<close> of theory \<open>Database\<close>: one list of rows per
  table, in physical order, and the sequences. Operations take the state and return a result and the new state; a
  fallible one returns a sum, \<open>Inl\<close> for the error value of the Go code. Calls that may fail for reasons outside the
  program (a statement, a file, the network) have an argument that says which of them do, so that every error path is a
  branch. Clock readings and random bytes are arguments, one for each reading that the code makes.
\<close>

section \<open>The theories\<close>

text \<open>
  \<^bold>\<open>Vocabulary.\<close> \<open>LK_Prelude\<close>: results, slices that may be nil, tables, stable sorting by a less function
  (locale \<open>weak_less\<close>, interpreted for the order of jobs, boards and grades). \<open>Go_Strings\<close>, \<open>Go_Time\<close>,
  \<open>Go_Float\<close>, \<open>Go_Json\<close>, \<open>Go_Csv\<close>, \<open>Go_Path\<close>, \<open>Go_Url\<close>: what the code uses of Go's library. Strings are lists
  of bytes; instants are microseconds since the year 1; durations of 64 bits and the 64-bit differences of instants
  are written out where they saturate or wrap; scores are rationals with the rounding to \<^verbatim>\<open>float32\<close>. \<open>Environment\<close>: the
  cryptography and the tar writer, as arguments.

  \<^bold>\<open>Shared packages.\<close> \<open>Manifest\<close> (\<^verbatim>\<open>packages/go/manifest\<close>): parsing, \<open>Validate\<close> and its equivalence with a
  declarative well-formedness. \<open>Evaluator\<close> (\<^verbatim>\<open>packages/go/evaluator\<close>): the protocol of the container. \<open>Auth_Core\<close>
  (\<^verbatim>\<open>packages/go/auth\<close>): payloads, their signing bytes, which determine the payload, freshness and the nonce store
  (locale \<open>nonce_store\<close>, interpreted for the store in memory and, in \<open>Db_Submissions\<close>, for the table).
  \<open>Labkit_Errors\<close> (\<^verbatim>\<open>packages/go/labkit\<close>): classified errors. \<open>Jobs\<close> (\<^verbatim>\<open>packages/go/jobs\<close>): the queue, once as
  sequential operations and once as the step relation \<open>qstep\<close> of concurrent workers with row locks; \<open>Claim\<close> refines it.

  \<^bold>\<open>Database.\<close> \<open>Database\<close>, \<open>Db_Submissions\<close>, \<open>Db_Keys\<close> and the first section of each service: the queries of
  \<^verbatim>\<open>packages/go/db/sqlc\<close> with their constraints, defaults and row counts.

  \<^bold>\<open>Services of the API.\<close> \<open>Quota\<close> and \<open>Submissions\<close> (\<^verbatim>\<open>service/submissions\<close>): the intake on every branch, the daily
  quota and the precheck. \<open>Leaderboard\<close>, \<open>Admin\<close>, \<open>Grades\<close>, \<open>Labs\<close>, \<open>Personal\<close>, \<open>Device_Auth\<close>,
  \<open>Web_Session\<close> (locale \<open>ticket_store\<close>, interpreted for both stores): the services of the same names. \<open>Oauth\<close>
  (\<^verbatim>\<open>service/auth/providers\<close>, \<^verbatim>\<open>config/oauth.go\<close>): both identity providers; \<open>provider_of\<close> is the provider that
  \<open>Device_Auth\<close> calls. The step relations \<open>auth_step\<close>, \<open>labs_step\<close> and \<open>account_step\<close> run any operations of a
  service in any order, for the invariants.

  \<^bold>\<open>HTTP.\<close> \<open>Http_Session\<close> and \<open>Http_Api\<close> (\<^verbatim>\<open>api/internal/http\<close>): \<open>api_serve\<close> routes a request to one definition per
  handler, with guards, decoding and status codes. \<open>Http_Security\<close>: what a request may change, over all routes.

  \<^bold>\<open>Worker.\<close> \<open>Runtime\<close> (\<^verbatim>\<open>worker/internal/runtime\<close>): unpacking, workspaces and containers, with the file system as a
  list of entries and docker as arguments. \<open>Evaluation\<close> (\<^verbatim>\<open>worker/internal/service/evaluation\<close>): \<open>Persist\<close> in one
  transaction. \<open>Worker\<close>: the handler of a claimed job from loading to acknowledgement, and the loop.

  \<^bold>\<open>Client.\<close> \<open>Cli_Config\<close>, \<open>Cli_Origin\<close> (\<^verbatim>\<open>cli/internal/config\<close>): the files of the configuration and the names of
  servers. \<open>Cli_Client\<close>: key files, requests, signatures. \<open>Cli_Auth\<close>, \<open>Cli_Keyring\<close> (\<^verbatim>\<open>commands/auth.go\<close>): the
  choice of server and key and the \<^verbatim>\<open>auth\<close> command. \<open>Cli_Submit\<close>, \<open>Cli_Report\<close>, \<open>Cli_Web\<close>, \<open>Cli_Update\<close>
  (\<^verbatim>\<open>lab_commands.go\<close>, \<^verbatim>\<open>keys.go\<close>, \<^verbatim>\<open>web.go\<close>, \<^verbatim>\<open>update.go\<close>): the other commands. \<open>Cli_Server\<close> joins client and
  server: a request that the client sends is delivered to \<open>api_serve\<close>.

  \<^bold>\<open>Migrations.\<close> \<open>Migrate\<close> (\<^verbatim>\<open>apps/migrate\<close>): when the schema migrations may run.
\<close>

section \<open>What is proved\<close>

text \<open>
  Intake: an accepted submission was authorised, is recorded as one row, job, nonce and archive, and keeps the daily
  quota; a refused one changes nothing. Queue: over every interleaving a job is claimed once for each time it was queued.
  Worker: a handled job ends with its submission finished, an evaluation leaves neither files nor containers, no archive
  entry leaves its directory, persisting conserves bonus quota. Board: strict order with competition ranks, independent
  of the order of the tables. Accounts: the callback binds exactly the request of its state, states and tickets are used
  once, a revoked key is dead, and without the administrator's token no route changes labs, grades or scores. Labs: the
  structure never changes after registration. Client: the keyring finds the key again that \<^verbatim>\<open>auth\<close> bound, origins are
  stable, the search for a configuration ends, and what the client signs and sends is what the server authenticates and
  records. Providers: the state survives the URL, and the student is the one of exactly the token exchanged.

  Behaviour of outside code that a theorem needs is a hypothesis of its statement or a predicate with a name
  (\<open>toml_laws\<close>, \<open>signer_agrees\<close>, \<open>migrator_ok\<close>), and a witness instantiates it. Lemmas after the theorems record
  behaviour that the code hardly intends, such as \<open>failed_baseline_disarms\<close>, \<open>rotation_overwrites_first\<close> or
  \<open>unfinished_reads_passed\<close>.
\<close>

section \<open>Bounds and fuel\<close>

text \<open>
  Loops over data are structural or have a measure: \<open>find_local\<close> goes up at most as many directories as the path has
  bytes, the CSV reader consumes lines, the rune loops consume bytes. Three loops may run for ever. The worker's
  loop \<open>Loop_Run\<close> is run over a list of outcomes, one for each round. \<open>await_approval\<close> and \<open>await_result\<close> wait for the
  server and have fuel, one unit for each request; \<open>None\<close> is a loop that still waits. Their theorems are about runs
  that ended, whatever the fuel; the witnesses run with the fuel they need.
\<close>

section \<open>Not modelled\<close>

text \<open>
  The web front end (\<^verbatim>\<open>apps/web\<close>), the wiring of the processes (\<^verbatim>\<open>cmd/labkit-api\<close>, flags, signals, logging, request
  identifiers), the connection pool (\<^verbatim>\<open>packages/go/db/connect.go\<close>), the terminal of the client (\<^verbatim>\<open>cli/internal/ui\<close>, the
  spinner, the animation of \<^verbatim>\<open>submit_live.go\<close>, the layout of tables): input and output without decisions of their own.
  Third-party code is an argument: PostgreSQL beyond the queries, docker, golang-migrate, go-selfupdate, the TOML and
  JSON decoders, Ed25519, SHA-256, the SSH and PEM formats. Texts are taken to be valid UTF-8 where PostgreSQL or the CSV
  reader would care. Transactions run one at a time; the concurrent part of the program is the queue, and it is
  modelled by steps.
\<close>

end
